(* ===== verification/Prelude.thy ===== *)
theory Prelude
  imports Main "HOL-Library.Word"
begin

text \<open>
  Shared vocabulary of the development: the model's types for identifiers, instants and
  results, the decimal integer codec of Go's \<open>strconv\<close> and of Redis integer replies, Go's
  \<open>strings.HasPrefix\<close> and \<open>strings.Index\<close>, and the lemma collections the component
  theories extend.
\<close>

section \<open>Types\<close>

text \<open>
  \<open>uuid.UUID\<close> is an array of 16 bytes compared by value, so it is a 128-bit word; its zero
  value \<open>uuid.Nil\<close> is 0. An instant (\<open>time.Time\<close>, always UTC in the modelled code) and a
  \<open>time.Duration\<close> are integer counts of nanoseconds; instants count from the Unix epoch.
\<close>

type_synonym uuid = "128 word"
type_synonym time = int
type_synonym duration = int

abbreviation uuid_Nil :: uuid where
  "uuid_Nil \<equiv> 0"

abbreviation millisecond :: duration where "millisecond \<equiv> 1000000"
abbreviation second :: duration where "second \<equiv> 1000000000"
abbreviation minute :: duration where "minute \<equiv> 60000000000"
abbreviation hour :: duration where "hour \<equiv> 3600000000000"

text \<open>\<open>UnixMilli\<close> and \<open>Unix\<close> of the time package round towards minus infinity.\<close>

definition UnixMilli :: "time \<Rightarrow> int" where
  "UnixMilli t = t div millisecond"

lemma UnixMilli_mono: "a \<le> b \<Longrightarrow> UnixMilli a \<le> UnixMilli b"
  by (simp add: UnixMilli_def zdiv_mono1)

definition UnixSec :: "time \<Rightarrow> int" where
  "UnixSec t = t div second"

section \<open>Lemma collections\<close>

named_theorems store_laws \<open>how the Redis-backed stores read back what they wrote\<close>
named_theorems inv_intros \<open>preservation of the component invariants\<close>

section \<open>Option and sum helpers\<close>

text \<open>Sequencing of fallible steps: Go's \<open>if err != nil { return ..., err }\<close>.\<close>

definition bindE :: "'e + 'a \<Rightarrow> ('a \<Rightarrow> 'e + 'b) \<Rightarrow> 'e + 'b" where
  "bindE r f = (case r of Inl e \<Rightarrow> Inl e | Inr x \<Rightarrow> f x)"

lemma bindE_simps [simp]: "bindE (Inl e) f = Inl e" "bindE (Inr x) f = f x"
  by (simp_all add: bindE_def)

lemma bindE_Inr_iff: "bindE r f = Inr y \<longleftrightarrow> (\<exists>x. r = Inr x \<and> f x = Inr y)"
  by (cases r) simp_all

text \<open>
  A remote call either succeeds, never reaches the server, or is executed while its reply is
  lost; in the last two cases the caller sees a transport error.
\<close>

datatype call_outcome = CallOk | CallLost | ReplyLost

lemma sum_case_Inl_iff:
  "(case r of Inl e \<Rightarrow> Inl (f e) | Inr x \<Rightarrow> Inr (g x)) = Inl y \<longleftrightarrow> (\<exists>e. r = Inl e \<and> f e = y)"
  by (cases r) auto

lemma sum_not_Inl: "(\<And>e. r \<noteq> Inl e) \<Longrightarrow> \<exists>x. r = Inr x"
  by (cases r) auto

section \<open>Decimal integers\<close>

text \<open>
  \<open>strconv.FormatInt(n, 10)\<close> and \<open>strconv.ParseInt(s, 10, 64)\<close>. The parser takes an
  optional sign and a non-empty run of digits and refuses values outside the range of
  \<open>int64\<close>.
\<close>

definition digit_char :: "nat \<Rightarrow> char" where
  "digit_char d = char_of (48 + d)"

definition is_digit :: "char \<Rightarrow> bool" where
  "is_digit c \<longleftrightarrow> 48 \<le> (of_char c :: nat) \<and> (of_char c :: nat) \<le> 57"

definition digit_val :: "char \<Rightarrow> nat" where
  "digit_val c = of_char c - 48"

fun nat_dec :: "nat \<Rightarrow> string" where
  "nat_dec n = (if n < 10 then [digit_char n] else nat_dec (n div 10) @ [digit_char (n mod 10)])"

declare nat_dec.simps [simp del]

definition FormatInt :: "int \<Rightarrow> string" where
  "FormatInt n = (if n < 0 then CHR ''-'' # nat_dec (nat (- n)) else nat_dec (nat n))"

definition parse_digits :: "string \<Rightarrow> nat option" where
  "parse_digits s = (if s \<noteq> [] \<and> list_all is_digit s
     then Some (foldl (\<lambda>a c. 10 * a + digit_val c) 0 s) else None)"

abbreviation int64_min :: int where "int64_min \<equiv> - (2 ^ 63)"
abbreviation int64_max :: int where "int64_max \<equiv> 2 ^ 63 - 1"

definition in_int64 :: "int \<Rightarrow> bool" where
  "in_int64 n \<longleftrightarrow> int64_min \<le> n \<and> n \<le> int64_max"

text \<open>The result of \<open>int64\<close> arithmetic on the exact value.\<close>

definition wrap64 :: "int \<Rightarrow> int" where
  "wrap64 n = signed_take_bit 63 n"

lemma wrap64_id: "in_int64 n \<Longrightarrow> wrap64 n = n"
  by (auto simp: in_int64_def wrap64_def signed_take_bit_int_eq_self_iff)

definition ParseInt64 :: "string \<Rightarrow> int option" where
  "ParseInt64 s =
     (let (neg, ds) = (case s of [] \<Rightarrow> (False, [])
                       | c # cs \<Rightarrow> if c = CHR ''-'' then (True, cs)
                                  else if c = CHR ''+'' then (False, cs) else (False, s))
      in case parse_digits ds of None \<Rightarrow> None
         | Some m \<Rightarrow> (let n = (if neg then - int m else int m)
                     in if in_int64 n then Some n else None))"

lemma of_char_digit_char: "d < 10 \<Longrightarrow> (of_char (digit_char d) :: nat) = 48 + d"
  by (simp add: digit_char_def)

lemma digit_val_char [simp]: "d < 10 \<Longrightarrow> digit_val (digit_char d) = d"
  by (simp add: digit_val_def of_char_digit_char)

lemma is_digit_char [simp]: "d < 10 \<Longrightarrow> is_digit (digit_char d)"
  by (simp add: is_digit_def of_char_digit_char)

lemma nat_dec_not_Nil [simp]: "nat_dec n \<noteq> []"
  by (subst nat_dec.simps) simp

lemma nat_dec_digits: "list_all is_digit (nat_dec n)"
proof (induction n rule: nat_dec.induct)
  case (1 n)
  then show ?case by (subst nat_dec.simps) auto
qed

lemma nat_dec_value: "foldl (\<lambda>a c. 10 * a + digit_val c) 0 (nat_dec n) = n"
proof (induction n rule: nat_dec.induct)
  case (1 n)
  show ?case
  proof (cases "n < 10")
    case True
    then show ?thesis by (subst nat_dec.simps) simp
  next
    case False
    with "1.IH" show ?thesis by (subst nat_dec.simps) simp
  qed
qed

lemma parse_digits_nat_dec [simp]: "parse_digits (nat_dec n) = Some n"
  by (simp add: parse_digits_def nat_dec_digits nat_dec_value)

lemma is_digit_no_sign: "is_digit c \<Longrightarrow> c \<noteq> CHR ''-'' \<and> c \<noteq> CHR ''+'' \<and> c \<noteq> CHR '':''"
  by (auto simp: is_digit_def)

lemma nat_dec_hd: "is_digit (hd (nat_dec n))"
  using nat_dec_digits [of n] nat_dec_not_Nil [of n] by (cases "nat_dec n") auto

lemma ParseInt64_FormatInt [store_laws]: "in_int64 n \<Longrightarrow> ParseInt64 (FormatInt n) = Some n"
proof (cases "n < 0")
  case True
  then show "in_int64 n \<Longrightarrow> ?thesis" by (simp add: FormatInt_def ParseInt64_def)
next
  case False
  obtain c cs where nd: "nat_dec (nat n) = c # cs" by (cases "nat_dec (nat n)") auto
  then have "c \<noteq> CHR ''-''" "c \<noteq> CHR ''+''"
    using nat_dec_hd [of "nat n"] is_digit_no_sign [of c] by auto
  moreover from nd have "parse_digits (c # cs) = Some (nat n)"
    using parse_digits_nat_dec [of "nat n"] by simp
  ultimately show "in_int64 n \<Longrightarrow> ?thesis"
    using False nd by (simp add: FormatInt_def ParseInt64_def)
qed

lemma FormatInt_not_Nil [simp]: "FormatInt n \<noteq> []"
  by (simp add: FormatInt_def)

lemma nat_dec_inject: "nat_dec m = nat_dec n \<longleftrightarrow> m = n"
  by (metis nat_dec_value)

lemma FormatInt_inject: "FormatInt m = FormatInt n \<longleftrightarrow> m = n"
proof
  assume eq: "FormatInt m = FormatInt n"
  have sign: "hd (FormatInt k) = CHR ''-'' \<longleftrightarrow> k < 0" for k
    using is_digit_no_sign [OF nat_dec_hd [of "nat k"]] by (auto simp: FormatInt_def)
  have "m < 0 \<longleftrightarrow> n < 0" using sign [of m] sign [of n] eq by simp
  then show "m = n" using eq nat_dec_inject [of "nat m" "nat n"] nat_dec_inject [of "nat (- m)" "nat (- n)"]
    by (auto simp: FormatInt_def split: if_splits)
qed simp

section \<open>Strings\<close>

definition HasPrefix :: "string \<Rightarrow> string \<Rightarrow> bool" where
  "HasPrefix s p \<longleftrightarrow> take (length p) s = p"

text \<open>\<open>strings.Index\<close>: the position of the first occurrence, \<open>None\<close> for Go's \<open>-1\<close>.\<close>

fun IndexOf :: "string \<Rightarrow> string \<Rightarrow> nat option" where
  "IndexOf [] p = (if p = [] then Some 0 else None)"
| "IndexOf (c # s) p =
     (if HasPrefix (c # s) p then Some 0 else map_option Suc (IndexOf s p))"

lemma HasPrefix_append [simp]: "HasPrefix (p @ s) p"
  by (simp add: HasPrefix_def)

lemma IndexOf_first:
  assumes "c \<notin> set s"
  shows "IndexOf (s @ (c # p) @ r) (c # p) = Some (length s)"
  using assms
proof (induction s)
  case Nil
  then show ?case using HasPrefix_append [of "c # p" r] by simp
next
  case (Cons x s)
  then have "\<not> HasPrefix (x # s @ (c # p) @ r) (c # p)"
    by (auto simp: HasPrefix_def)
  with Cons show ?case by simp
qed

text \<open>\<open>strings.TrimSpace\<close> on ASCII text.\<close>

definition is_space :: "char \<Rightarrow> bool" where
  "is_space c \<longleftrightarrow> c \<in> {CHR '' '', CHR 0x09, CHR 0x0A, CHR 0x0B, CHR 0x0C, CHR 0x0D}"

definition TrimSpace :: "string \<Rightarrow> string" where
  "TrimSpace s = rev (dropWhile is_space (rev (dropWhile is_space s)))"

end
