(* ===== verification/Dialer_Api.thy ===== *)
theory Dialer_Api
  imports Prelude
begin

text \<open>
  The data-transfer types of \<open>internal/dialer/api\<close>: the operator states, the transition
  events, the force reasons and call outcomes, the public snapshot, the requests of the
  operator state machine and the sentinel errors.

  Go declares the enumerations as named string types, so a value read from Redis or from a
  request body need not be one of the declared constants. Each enumeration is a datatype with
  the source's constants as constructors and one more constructor that carries any other
  string; \<open>..._string\<close> gives the string of a value and \<open>..._of_string\<close> the value of a
  string.
\<close>

section \<open>Operator states\<close>

datatype State =
    StateOffline | StateReady | StateDialing | StateCall | StateStatus | StateVerify | StatePause
  | OtherState string

definition State_Valid :: "State \<Rightarrow> bool" where
  "State_Valid s \<longleftrightarrow> (case s of OtherState _ \<Rightarrow> False | _ \<Rightarrow> True)"

fun State_string :: "State \<Rightarrow> string" where
  "State_string StateOffline = ''offline''"
| "State_string StateReady = ''ready''"
| "State_string StateDialing = ''dialing''"
| "State_string StateCall = ''call''"
| "State_string StateStatus = ''status''"
| "State_string StateVerify = ''verify''"
| "State_string StatePause = ''pause''"
| "State_string (OtherState s) = s"

definition State_of_string :: "string \<Rightarrow> State" where
  "State_of_string s =
     (if s = ''offline'' then StateOffline else if s = ''ready'' then StateReady
      else if s = ''dialing'' then StateDialing else if s = ''call'' then StateCall
      else if s = ''status'' then StateStatus else if s = ''verify'' then StateVerify
      else if s = ''pause'' then StatePause else OtherState s)"

lemma State_of_string_string [simp, store_laws]:
  "State_Valid s \<Longrightarrow> State_of_string (State_string s) = s"
  by (cases s) (simp_all add: State_of_string_def State_Valid_def)

lemma State_string_of_string: "State_string (State_of_string s) = s"
  by (simp add: State_of_string_def)

lemma State_string_not_Nil: "State_Valid s \<Longrightarrow> State_string s \<noteq> []"
  by (cases s) (simp_all add: State_Valid_def)

lemma State_Valid_simps [simp]:
  "State_Valid StateOffline" "State_Valid StateReady" "State_Valid StateDialing"
  "State_Valid StateCall" "State_Valid StateStatus" "State_Valid StateVerify"
  "State_Valid StatePause" "\<not> State_Valid (OtherState s)"
  by (simp_all add: State_Valid_def)

section \<open>Transition events\<close>

datatype Event =
    EventStartShift | EventEndShift | EventGoReady | EventGoPause | EventResume
  | EventCallStarted | EventCallEnded | EventCallFailed | EventStatusSubmitted
  | EventGoVerify | EventVerifyDone | EventForceOffline
  | OtherEvent string

definition Event_Valid :: "Event \<Rightarrow> bool" where
  "Event_Valid e \<longleftrightarrow> (case e of OtherEvent _ \<Rightarrow> False | _ \<Rightarrow> True)"

section \<open>Force reasons and call outcomes\<close>

datatype ForceReason =
    ForceReasonHeartbeatLost | ForceReasonSupervisorKick | ForceReasonShutdown
  | ForceReasonAdminOverride | ForceReasonOther
  | OtherForceReason string

definition ForceReason_Valid :: "ForceReason \<Rightarrow> bool" where
  "ForceReason_Valid r \<longleftrightarrow> (case r of OtherForceReason _ \<Rightarrow> False | _ \<Rightarrow> True)"

fun ForceReason_string :: "ForceReason \<Rightarrow> string" where
  "ForceReason_string ForceReasonHeartbeatLost = ''heartbeat_lost''"
| "ForceReason_string ForceReasonSupervisorKick = ''supervisor_kick''"
| "ForceReason_string ForceReasonShutdown = ''shutdown''"
| "ForceReason_string ForceReasonAdminOverride = ''admin_override''"
| "ForceReason_string ForceReasonOther = ''other''"
| "ForceReason_string (OtherForceReason s) = s"

text \<open>\<open>OutcomeUnknown\<close> is the zero value of \<open>StatusOutcome\<close> (the empty string).\<close>

datatype StatusOutcome =
    OutcomeUnknown
  | OutcomeSuccess | OutcomeNoAnswer | OutcomeBusy | OutcomeWrongPerson | OutcomeDNCHit
  | OutcomeTechFailure
  | OtherOutcome string

definition Outcome_Valid :: "StatusOutcome \<Rightarrow> bool" where
  "Outcome_Valid out \<longleftrightarrow>
     (case out of OutcomeUnknown \<Rightarrow> False | OtherOutcome _ \<Rightarrow> False | _ \<Rightarrow> True)"

definition IsSuccessClass :: "StatusOutcome \<Rightarrow> bool" where
  "IsSuccessClass out \<longleftrightarrow> out = OutcomeSuccess"

fun Outcome_string :: "StatusOutcome \<Rightarrow> string" where
  "Outcome_string OutcomeUnknown = ''''"
| "Outcome_string OutcomeSuccess = ''success''"
| "Outcome_string OutcomeNoAnswer = ''no_answer''"
| "Outcome_string OutcomeBusy = ''busy''"
| "Outcome_string OutcomeWrongPerson = ''wrong_person''"
| "Outcome_string OutcomeDNCHit = ''dnc_hit''"
| "Outcome_string OutcomeTechFailure = ''tech_failure''"
| "Outcome_string (OtherOutcome s) = s"

definition Outcome_of_string :: "string \<Rightarrow> StatusOutcome" where
  "Outcome_of_string s =
     (if s = '''' then OutcomeUnknown else if s = ''success'' then OutcomeSuccess
      else if s = ''no_answer'' then OutcomeNoAnswer else if s = ''busy'' then OutcomeBusy
      else if s = ''wrong_person'' then OutcomeWrongPerson
      else if s = ''dnc_hit'' then OutcomeDNCHit
      else if s = ''tech_failure'' then OutcomeTechFailure else OtherOutcome s)"

text \<open>
  A value is canonical when it is the one its string denotes; \<open>OtherOutcome ''busy''\<close> is not.
\<close>

definition Outcome_canonical :: "StatusOutcome \<Rightarrow> bool" where
  "Outcome_canonical out \<longleftrightarrow> Outcome_of_string (Outcome_string out) = out"

lemma Outcome_canonical_simps [simp]:
  "Outcome_canonical OutcomeUnknown" "Outcome_canonical OutcomeSuccess"
  "Outcome_canonical OutcomeNoAnswer" "Outcome_canonical OutcomeBusy"
  "Outcome_canonical OutcomeWrongPerson" "Outcome_canonical OutcomeDNCHit"
  "Outcome_canonical OutcomeTechFailure"
  by (simp_all add: Outcome_canonical_def Outcome_of_string_def)

lemma Outcome_canonical_of_string [simp]: "Outcome_canonical (Outcome_of_string s)"
  by (simp add: Outcome_canonical_def Outcome_of_string_def)

section \<open>Errors\<close>

text \<open>
  The sentinels of \<open>api/errors.go\<close> that callers discriminate with \<open>errors.Is\<close>, and the
  wrapped driver, codec and wiring failures that carry no sentinel.
\<close>

datatype dialer_error =
    ErrInvalidTransition | ErrUnknownState | ErrQueueEmpty | ErrAllNodesFull
  | ErrOutsideWorkingHours | ErrThrottled | ErrTenantMismatch | ErrConflict
  | ErrTransport | ErrParse | ErrInvalidArgument

section \<open>Snapshots and requests\<close>

record api_Snapshot =
  apTenantID :: uuid
  apOperatorID :: uuid
  apState :: State
  apStateEnteredAt :: time
  apProjectID :: "uuid option"
  apCurrentCallID :: "uuid option"
  apRespondentID :: "uuid option"
  apPauseReason :: "string option"
  apHeartbeatAt :: time
  apOutcome :: StatusOutcome

record StartShiftRequest =
  ssTenantID :: uuid
  ssOperatorID :: uuid
  ssProjectID :: uuid

record GoPauseRequest =
  gpTenantID :: uuid
  gpOperatorID :: uuid
  gpReason :: string

record CallStartedRequest =
  csTenantID :: uuid
  csOperatorID :: uuid
  csCallID :: uuid
  csRespondentID :: uuid
  csStartedAt :: time

record CallEndedRequest =
  ceTenantID :: uuid
  ceOperatorID :: uuid
  ceCallID :: uuid
  ceEndedAt :: time
  ceCause :: string
  ceDurationMS :: int
  ceOutcome :: StatusOutcome

record SubmitStatusRequest =
  stTenantID :: uuid
  stOperatorID :: uuid
  stCallID :: uuid
  stRespondentID :: uuid
  stStatus :: string
  stComment :: string

end
