(* ===== verification/Fsm_Transitions.thy ===== *)
theory Fsm_Transitions
  imports Dialer_Api
begin

text \<open>
  The transition table of the operator state machine and its single decision point
  \<open>resolveTransition\<close> (\<open>internal/dialer/fsm/transitions.go\<close>), with an independent
  description of the permitted moves as an inductive relation and the agreement of the two.
\<close>

section \<open>The table and the decision point\<close>

text \<open>The Go map literal, row by row; a missing pair has no entry.\<close>

definition transitions :: "State \<times> Event \<Rightarrow> State option" where
  "transitions = map_of
    [((StateOffline, EventStartShift), StateReady),
     ((StateReady, EventEndShift), StateOffline),
     ((StatePause, EventEndShift), StateOffline),
     ((StateStatus, EventEndShift), StateOffline),
     ((StateReady, EventGoPause), StatePause),
     ((StateDialing, EventGoPause), StatePause),
     ((StateCall, EventGoPause), StatePause),
     ((StateStatus, EventGoPause), StatePause),
     ((StateVerify, EventGoPause), StatePause),
     ((StatePause, EventResume), StateReady),
     ((StateReady, EventCallStarted), StateDialing),
     ((StateDialing, EventCallStarted), StateCall),
     ((StateDialing, EventCallEnded), StateStatus),
     ((StateDialing, EventCallFailed), StateStatus),
     ((StateCall, EventCallEnded), StateStatus),
     ((StateStatus, EventStatusSubmitted), StateReady),
     ((StateStatus, EventGoVerify), StateVerify),
     ((StateVerify, EventVerifyDone), StateReady)]"

definition resolveTransition ::
  "State \<Rightarrow> Event \<Rightarrow> StatusOutcome \<Rightarrow> dialer_error + State" where
  "resolveTransition from evt outcome =
     (case transitions (from, evt) of
        None \<Rightarrow> Inl ErrInvalidTransition
      | Some nxt \<Rightarrow>
          if from = StateStatus \<and> evt = EventGoVerify \<and> \<not> IsSuccessClass outcome
          then Inl ErrInvalidTransition else Inr nxt)"

definition IsTerminal :: "State \<Rightarrow> bool" where
  "IsTerminal s \<longleftrightarrow> s = StateOffline"

section \<open>The permitted moves\<close>

text \<open>
  The rules of the shift life cycle as the package documentation words them: pause from any
  state but offline and pause, end of shift from ready, pause and wrap-up, the call path
  ready, dialing, call, status, and verify only from a wrap-up of a successful call.
\<close>

definition on_shift_unpaused :: "State \<Rightarrow> bool" where
  "on_shift_unpaused s \<longleftrightarrow> State_Valid s \<and> s \<noteq> StateOffline \<and> s \<noteq> StatePause"

inductive permitted :: "State \<Rightarrow> Event \<Rightarrow> StatusOutcome \<Rightarrow> State \<Rightarrow> bool" where
  start: "permitted StateOffline EventStartShift r StateReady"
| finish: "s = StateReady \<or> s = StatePause \<or> s = StateStatus \<Longrightarrow>
     permitted s EventEndShift r StateOffline"
| pause: "on_shift_unpaused s \<Longrightarrow> permitted s EventGoPause r StatePause"
| resume: "permitted StatePause EventResume r StateReady"
| dial: "permitted StateReady EventCallStarted r StateDialing"
| answer: "permitted StateDialing EventCallStarted r StateCall"
| hangup: "s = StateDialing \<or> s = StateCall \<Longrightarrow> permitted s EventCallEnded r StateStatus"
| fail: "permitted StateDialing EventCallFailed r StateStatus"
| submit: "permitted StateStatus EventStatusSubmitted r StateReady"
| verify: "IsSuccessClass r \<Longrightarrow> permitted StateStatus EventGoVerify r StateVerify"
| verified: "permitted StateVerify EventVerifyDone r StateReady"

inductive_cases permittedE: "permitted s evt r s'"

inductive_cases permitted_verifyE: "permitted s evt r StateVerify"

lemma resolveTransition_complete:
  "permitted s evt r s' \<Longrightarrow> resolveTransition s evt r = Inr s'"
proof (induction rule: permitted.induct)
  case (finish s r)
  then show ?case by (auto simp: resolveTransition_def transitions_def)
next
  case (pause s r)
  then show ?case
    by (cases s) (simp_all add: on_shift_unpaused_def resolveTransition_def transitions_def)
next
  case (hangup s r)
  then show ?case by (auto simp: resolveTransition_def transitions_def)
qed (simp_all add: resolveTransition_def transitions_def)

lemma transitions_Some_iff:
  "transitions (s, evt) = Some s' \<longleftrightarrow>
     ((s, evt), s') \<in> {((StateOffline, EventStartShift), StateReady),
     ((StateReady, EventEndShift), StateOffline), ((StatePause, EventEndShift), StateOffline),
     ((StateStatus, EventEndShift), StateOffline), ((StateReady, EventGoPause), StatePause),
     ((StateDialing, EventGoPause), StatePause), ((StateCall, EventGoPause), StatePause),
     ((StateStatus, EventGoPause), StatePause), ((StateVerify, EventGoPause), StatePause),
     ((StatePause, EventResume), StateReady), ((StateReady, EventCallStarted), StateDialing),
     ((StateDialing, EventCallStarted), StateCall), ((StateDialing, EventCallEnded), StateStatus),
     ((StateDialing, EventCallFailed), StateStatus), ((StateCall, EventCallEnded), StateStatus),
     ((StateStatus, EventStatusSubmitted), StateReady),
     ((StateStatus, EventGoVerify), StateVerify), ((StateVerify, EventVerifyDone), StateReady)}"
  unfolding transitions_def by (subst map_of_eq_Some_iff) simp_all

lemma resolveTransition_sound:
  "resolveTransition s evt r = Inr s' \<Longrightarrow> permitted s evt r s'"
  by (auto simp: resolveTransition_def transitions_Some_iff on_shift_unpaused_def
      intro: permitted.intros split: option.splits if_splits)

lemma resolveTransition_Inl: "resolveTransition s evt r = Inl err \<Longrightarrow> err = ErrInvalidTransition"
  by (auto simp: resolveTransition_def split: option.splits if_splits)

lemma resolveTransition_Valid: "resolveTransition s evt r = Inr s' \<Longrightarrow> State_Valid s' \<and> State_Valid s"
  by (auto dest!: resolveTransition_sound elim!: permittedE simp: on_shift_unpaused_def)

text \<open>No edge of the table is a self-loop, so the replay branch of the machine is never taken.\<close>

lemma resolveTransition_moves: "resolveTransition s evt r = Inr s' \<Longrightarrow> s' \<noteq> s"
  by (auto dest!: resolveTransition_sound elim!: permittedE simp: on_shift_unpaused_def)

text \<open>
  The decision point allows exactly the documented moves, and every other pair of state,
  event and outcome is refused with \<open>ErrInvalidTransition\<close>.
\<close>

theorem resolveTransition_iff_permitted:
  "(resolveTransition s evt r = Inr s' \<longleftrightarrow> permitted s evt r s') \<and>
   (resolveTransition s evt r = Inl ErrInvalidTransition \<longleftrightarrow> (\<nexists>s''. permitted s evt r s''))"
proof (cases "resolveTransition s evt r")
  case (Inl e)
  then show ?thesis
    by (auto dest: resolveTransition_complete resolveTransition_Inl)
next
  case (Inr t)
  then show ?thesis
    by (auto dest: resolveTransition_complete resolveTransition_sound)
qed

end
