(* ===== verification/Fsm_Store.thy ===== *)
theory Fsm_Store
  imports Fsm_Transitions
begin

text \<open>
  The Redis side of the operator state machine (\<open>internal/dialer/fsm/store.go\<close> and the two
  Lua scripts it embeds): one hash per operator, its codec, the compare-and-swap script that
  every transition commits through, and the script that opens a shift.

  Redis runs a script atomically, so a script is a function from the hash to a reply and a new
  hash. Field names are the constructors of \<open>hfield\<close>; a missing key is the empty hash. Key
  expiry is left to the environment (a hash can vanish between two calls).

  The textual forms of UUIDs (package \<open>google/uuid\<close>) and of RFC 3339 instants are parameters,
  the record \<open>codec\<close>; the locale \<open>hash_codec\<close> states what is relied on: parsing returns what
  was printed, no text is empty, and a UUID's text has no colon.
\<close>

section \<open>Snapshots and their text form\<close>

record Snapshot =
  snState :: State
  snStateEnteredAt :: time
  snHeartbeatAt :: time
  snTenantID :: uuid
  snSessionID :: "uuid option"
  snProjectID :: "uuid option"
  snCurrentCallID :: "uuid option"
  snRespondentID :: "uuid option"
  snPauseReason :: "string option"
  snOutcome :: StatusOutcome
  snVersion :: int

definition toAPI :: "Snapshot \<Rightarrow> uuid \<Rightarrow> uuid \<Rightarrow> api_Snapshot" where
  "toAPI s tenantID operatorID =
     \<lparr>apTenantID = tenantID, apOperatorID = operatorID, apState = snState s,
      apStateEnteredAt = snStateEnteredAt s, apProjectID = snProjectID s,
      apCurrentCallID = snCurrentCallID s, apRespondentID = snRespondentID s,
      apPauseReason = snPauseReason s, apHeartbeatAt = snHeartbeatAt s,
      apOutcome = snOutcome s\<rparr>"

text \<open>\<open>time.Time{}\<close> is midnight of 1 January of year 1.\<close>

definition zero_time :: time where
  "zero_time = -62135596800 * second"

definition zero_Snapshot :: Snapshot where
  "zero_Snapshot = \<lparr>snState = OtherState '''', snStateEnteredAt = zero_time,
     snHeartbeatAt = zero_time, snTenantID = uuid_Nil, snSessionID = None, snProjectID = None,
     snCurrentCallID = None, snRespondentID = None, snPauseReason = None,
     snOutcome = OutcomeUnknown, snVersion = 0\<rparr>"

record codec =
  uuid_String :: "uuid \<Rightarrow> string"
  uuid_Parse :: "string \<Rightarrow> uuid option"
  time_Format :: "time \<Rightarrow> string"
  time_Parse :: "string \<Rightarrow> time option"
  time_ok :: "time \<Rightarrow> bool"

definition opKey :: "codec \<Rightarrow> uuid \<Rightarrow> uuid \<Rightarrow> string" where
  "opKey C tenantID operatorID =
     ''op:'' @ uuid_String C tenantID @ '':user:'' @ uuid_String C operatorID"

datatype hfield =
    F_state | F_state_entered_at | F_heartbeat_at | F_tenant_id | F_session_id | F_project_id
  | F_current_call_id | F_respondent_id | F_pause_reason | F_outcome | F_version

type_synonym rhash = "hfield \<Rightarrow> string option"

text \<open>Indexing a Go map yields the zero value for a missing key.\<close>

definition hget :: "rhash \<Rightarrow> hfield \<Rightarrow> string" where
  "hget h f = (case h f of None \<Rightarrow> '''' | Some v \<Rightarrow> v)"

text \<open>\<open>if v := h[f]; v != "" { x, err := parse(v); ... }\<close>, with the caller's default otherwise.\<close>

definition parse_field :: "(string \<Rightarrow> 'a option) \<Rightarrow> 'b \<Rightarrow> ('a \<Rightarrow> 'b) \<Rightarrow> string \<Rightarrow> dialer_error + 'b" where
  "parse_field p d f v =
     (if v = '''' then Inr d else case p v of None \<Rightarrow> Inl ErrParse | Some x \<Rightarrow> Inr (f x))"

definition parseTimeFields :: "codec \<Rightarrow> rhash \<Rightarrow> Snapshot \<Rightarrow> dialer_error + Snapshot" where
  "parseTimeFields C h s =
     bindE (parse_field (time_Parse C) (snStateEnteredAt s) id (hget h F_state_entered_at)) (\<lambda>t.
     bindE (parse_field (time_Parse C) (snHeartbeatAt s) id (hget h F_heartbeat_at)) (\<lambda>b.
     Inr (s\<lparr>snStateEnteredAt := t, snHeartbeatAt := b\<rparr>)))"

definition parseUUIDFields :: "codec \<Rightarrow> rhash \<Rightarrow> Snapshot \<Rightarrow> dialer_error + Snapshot" where
  "parseUUIDFields C h s =
     bindE (parse_field (uuid_Parse C) (snTenantID s) id (hget h F_tenant_id)) (\<lambda>tid.
     bindE (parse_field (uuid_Parse C) (snSessionID s) Some (hget h F_session_id)) (\<lambda>sid.
     bindE (parse_field (uuid_Parse C) (snProjectID s) Some (hget h F_project_id)) (\<lambda>pid.
     bindE (parse_field (uuid_Parse C) (snCurrentCallID s) Some (hget h F_current_call_id)) (\<lambda>cid.
     bindE (parse_field (uuid_Parse C) (snRespondentID s) Some (hget h F_respondent_id)) (\<lambda>rid.
     Inr (s\<lparr>snTenantID := tid, snSessionID := sid, snProjectID := pid,
            snCurrentCallID := cid, snRespondentID := rid\<rparr>))))))"

definition parseHash :: "codec \<Rightarrow> rhash \<Rightarrow> dialer_error + Snapshot" where
  "parseHash C h =
     (let s = zero_Snapshot\<lparr>snState := State_of_string (hget h F_state)\<rparr> in
      if \<not> State_Valid (snState s) then Inl ErrUnknownState else
      bindE (parseTimeFields C h s) (\<lambda>s.
      bindE (parseUUIDFields C h s) (\<lambda>s.
      let s = (if hget h F_pause_reason \<noteq> '''' then s\<lparr>snPauseReason := Some (hget h F_pause_reason)\<rparr> else s);
          s = (if hget h F_outcome \<noteq> '''' then s\<lparr>snOutcome := Outcome_of_string (hget h F_outcome)\<rparr> else s)
      in bindE (parse_field ParseInt64 (snVersion s) id (hget h F_version)) (\<lambda>n.
         Inr (s\<lparr>snVersion := n\<rparr>)))))"

type_synonym op_hashes = "string \<Rightarrow> rhash"

definition load ::
  "codec \<Rightarrow> time \<Rightarrow> call_outcome \<Rightarrow> op_hashes \<Rightarrow> uuid \<Rightarrow> uuid \<Rightarrow> dialer_error + Snapshot" where
  "load C now net ops tenantID operatorID =
     (let res = ops (opKey C tenantID operatorID) in
      if net \<noteq> CallOk then Inl ErrTransport
      else if res = Map.empty
      then Inr (zero_Snapshot\<lparr>snState := StateOffline, snStateEnteredAt := now, snHeartbeatAt := now\<rparr>)
      else bindE (parseHash C res) (\<lambda>s.
        if snTenantID s \<noteq> uuid_Nil \<and> snTenantID s \<noteq> tenantID
        then Inl ErrTenantMismatch else Inr s))"

section \<open>The scripts\<close>

definition ptr_string :: "('a \<Rightarrow> string) \<Rightarrow> 'a option \<Rightarrow> string" where
  "ptr_string f p = (case p of None \<Rightarrow> '''' | Some x \<Rightarrow> f x)"

definition snapshotPayload :: "codec \<Rightarrow> Snapshot \<Rightarrow> (hfield \<times> string) list" where
  "snapshotPayload C s =
     [(F_state, State_string (snState s)),
      (F_state_entered_at, time_Format C (snStateEnteredAt s)),
      (F_heartbeat_at, time_Format C (snHeartbeatAt s)),
      (F_tenant_id, uuid_String C (snTenantID s)),
      (F_session_id, ptr_string (uuid_String C) (snSessionID s)),
      (F_project_id, ptr_string (uuid_String C) (snProjectID s)),
      (F_current_call_id, ptr_string (uuid_String C) (snCurrentCallID s)),
      (F_respondent_id, ptr_string (uuid_String C) (snRespondentID s)),
      (F_pause_reason, ptr_string id (snPauseReason s)),
      (F_outcome, Outcome_string (snOutcome s))]"

definition startShiftPayload :: "codec \<Rightarrow> Snapshot \<Rightarrow> (hfield \<times> string) list" where
  "startShiftPayload C s =
     [(F_state, State_string (snState s)),
      (F_state_entered_at, time_Format C (snStateEnteredAt s)),
      (F_heartbeat_at, time_Format C (snHeartbeatAt s)),
      (F_tenant_id, uuid_String C (snTenantID s)),
      (F_session_id, ptr_string (uuid_String C) (snSessionID s)),
      (F_project_id, ptr_string (uuid_String C) (snProjectID s))]"

datatype script_reply = Reply int | ReplyErr

definition hset_or_del :: "rhash \<Rightarrow> hfield \<times> string \<Rightarrow> rhash" where
  "hset_or_del h kv = (case kv of (k, v) \<Rightarrow> if v = '''' then h(k := None) else h(k \<mapsto> v))"

definition hset_nonempty :: "rhash \<Rightarrow> hfield \<times> string \<Rightarrow> rhash" where
  "hset_nonempty h kv = (case kv of (k, v) \<Rightarrow> if v = '''' then h else h(k \<mapsto> v))"

text \<open>
  \<open>transition.lua\<close>. The last step \<open>HINCRBY\<close> raises on overflow of the 64-bit counter; Redis
  does not undo the fields the script has already written.
\<close>

definition transition_lua :: "rhash \<Rightarrow> int \<Rightarrow> (hfield \<times> string) list \<Rightarrow> script_reply \<times> rhash" where
  "transition_lua h expected payload =
     (let cur = (case h F_version of None \<Rightarrow> Some 0 | Some v \<Rightarrow> ParseInt64 v) in
      if cur \<noteq> Some expected then (Reply (-1), h)
      else let h' = foldl hset_or_del h payload in
        if expected + 1 \<le> int64_max
        then (Reply 1, h'(F_version \<mapsto> FormatInt (expected + 1))) else (ReplyErr, h'))"

definition start_shift_lua :: "rhash \<Rightarrow> (hfield \<times> string) list \<Rightarrow> script_reply \<times> rhash" where
  "start_shift_lua h payload =
     (if h F_state = Some ''ready'' then (Reply 0, h)
      else if h F_state \<noteq> None \<and> h F_state \<noteq> Some ''offline'' then (Reply (-1), h)
      else (Reply 1, (foldl hset_nonempty h payload)(F_version \<mapsto> FormatInt 1)))"

definition casStore ::
  "codec \<Rightarrow> call_outcome \<Rightarrow> op_hashes \<Rightarrow> uuid \<Rightarrow> uuid \<Rightarrow> int \<Rightarrow> Snapshot
   \<Rightarrow> (dialer_error + unit) \<times> op_hashes" where
  "casStore C net ops tenantID operatorID expectedVersion s =
     (let key = opKey C tenantID operatorID;
          (v, h) = transition_lua (ops key) expectedVersion (snapshotPayload C s)
      in case net of
           CallLost \<Rightarrow> (Inl ErrTransport, ops)
         | ReplyLost \<Rightarrow> (Inl ErrTransport, ops(key := h))
         | CallOk \<Rightarrow> (case v of
               ReplyErr \<Rightarrow> (Inl ErrTransport, ops(key := h))
             | Reply n \<Rightarrow> if n = -1 then (Inl ErrConflict, ops(key := h)) else (Inr (), ops(key := h))))"

datatype start_result = StartErr | StartBusy | StartRc int

definition startShiftCAS ::
  "codec \<Rightarrow> call_outcome \<Rightarrow> op_hashes \<Rightarrow> uuid \<Rightarrow> uuid \<Rightarrow> Snapshot \<Rightarrow> start_result \<times> op_hashes" where
  "startShiftCAS C net ops tenantID operatorID s =
     (let key = opKey C tenantID operatorID;
          (v, h) = start_shift_lua (ops key) (startShiftPayload C s)
      in case net of
           CallLost \<Rightarrow> (StartErr, ops)
         | ReplyLost \<Rightarrow> (StartErr, ops(key := h))
         | CallOk \<Rightarrow> (case v of
               ReplyErr \<Rightarrow> (StartErr, ops(key := h))
             | Reply n \<Rightarrow> if n = -1 then (StartBusy, ops(key := h)) else (StartRc n, ops(key := h))))"

section \<open>What the hashes hold\<close>

definition hash_wf :: "rhash \<Rightarrow> bool" where
  "hash_wf h \<longleftrightarrow> (\<forall>f. h f \<noteq> Some '''')"

text \<open>A snapshot that survives the trip through the hash.\<close>

definition snap_wf :: "codec \<Rightarrow> Snapshot \<Rightarrow> bool" where
  "snap_wf C s \<longleftrightarrow> State_Valid (snState s) \<and> Outcome_canonical (snOutcome s) \<and>
     snPauseReason s \<noteq> Some '''' \<and> time_ok C (snStateEnteredAt s) \<and>
     time_ok C (snHeartbeatAt s) \<and> in_int64 (snVersion s)"

text \<open>The snapshot stored for an operator, if the hash exists and parses.\<close>

definition stored :: "codec \<Rightarrow> op_hashes \<Rightarrow> uuid \<Rightarrow> uuid \<Rightarrow> Snapshot option" where
  "stored C ops t u =
     (let h = ops (opKey C t u) in
      if h = Map.empty then None
      else case parseHash C h of Inl _ \<Rightarrow> None | Inr s \<Rightarrow> Some s)"

definition hash_ok :: "codec \<Rightarrow> uuid \<Rightarrow> rhash \<Rightarrow> bool" where
  "hash_ok C t h \<longleftrightarrow> h = Map.empty \<or>
     (hash_wf h \<and> (\<exists>s. parseHash C h = Inr s \<and> snap_wf C s \<and>
        (snTenantID s = uuid_Nil \<or> snTenantID s = t)))"

definition hashes_ok :: "codec \<Rightarrow> op_hashes \<Rightarrow> bool" where
  "hashes_ok C ops \<longleftrightarrow> (\<forall>t u. hash_ok C t (ops (opKey C t u)))"

definition stored_version :: "Snapshot option \<Rightarrow> int" where
  "stored_version p = (case p of None \<Rightarrow> 0 | Some s \<Rightarrow> snVersion s)"

lemma stored_version_simps [simp]: "stored_version None = 0" "stored_version (Some s) = snVersion s"
  by (simp_all add: stored_version_def)

lemma hget_upd [simp]:
  "hget (h(f := v)) g = (if g = f then (case v of None \<Rightarrow> '''' | Some x \<Rightarrow> x) else hget h g)"
  by (simp add: hget_def)

lemma hget_empty [simp]: "hget Map.empty f = ''''"
  by (simp add: hget_def)

lemma hget_hset_or_del [simp]: "hget (hset_or_del h (k, v)) f = (if f = k then v else hget h f)"
  by (simp add: hset_or_del_def)

lemma hget_hset_nonempty [simp]:
  "hget (hset_nonempty h (k, v)) f = (if f = k \<and> v \<noteq> '''' then v else hget h f)"
  by (simp add: hset_nonempty_def)

lemma hash_wf_foldl_or_del: "hash_wf h \<Longrightarrow> hash_wf (foldl hset_or_del h kvs)"
  by (induction kvs arbitrary: h) (auto simp: hash_wf_def hset_or_del_def)

lemma hash_wf_foldl_nonempty: "hash_wf h \<Longrightarrow> hash_wf (foldl hset_nonempty h kvs)"
  by (induction kvs arbitrary: h) (auto simp: hash_wf_def hset_nonempty_def)

lemma hash_wf_upd: "hash_wf h \<Longrightarrow> v \<noteq> '''' \<Longrightarrow> hash_wf (h(f \<mapsto> v))"
  by (simp add: hash_wf_def)

lemma hash_wf_empty [simp]: "hash_wf Map.empty"
  by (simp add: hash_wf_def)

lemma hash_wf_Some: "hash_wf h \<Longrightarrow> hget h f \<noteq> '''' \<longleftrightarrow> h f = Some (hget h f)"
  by (auto simp: hget_def hash_wf_def split: option.splits)

lemma ParseInt64_in_int64: "ParseInt64 s = Some n \<Longrightarrow> in_int64 n"
  by (auto simp: ParseInt64_def Let_def split: option.splits if_splits prod.splits)

lemma ParseInt64_Nil [simp]: "ParseInt64 '''' = None"
  by (simp add: ParseInt64_def parse_digits_def)

lemma parse_field_empty [simp]: "parse_field p d f '''' = Inr d"
  by (simp add: parse_field_def)

lemmas parse_defs = parseHash_def parseTimeFields_def parseUUIDFields_def Let_def

text \<open>Parsing field by field: the snapshot is determined by what \<open>hget\<close> reads.\<close>

lemma parseHash_Inr_iff:
  "parseHash C h = Inr s \<longleftrightarrow>
     State_Valid (snState s) \<and> snState s = State_of_string (hget h F_state) \<and>
     parse_field (time_Parse C) zero_time id (hget h F_state_entered_at) = Inr (snStateEnteredAt s) \<and>
     parse_field (time_Parse C) zero_time id (hget h F_heartbeat_at) = Inr (snHeartbeatAt s) \<and>
     parse_field (uuid_Parse C) uuid_Nil id (hget h F_tenant_id) = Inr (snTenantID s) \<and>
     parse_field (uuid_Parse C) None Some (hget h F_session_id) = Inr (snSessionID s) \<and>
     parse_field (uuid_Parse C) None Some (hget h F_project_id) = Inr (snProjectID s) \<and>
     parse_field (uuid_Parse C) None Some (hget h F_current_call_id) = Inr (snCurrentCallID s) \<and>
     parse_field (uuid_Parse C) None Some (hget h F_respondent_id) = Inr (snRespondentID s) \<and>
     snPauseReason s = (if hget h F_pause_reason = '''' then None else Some (hget h F_pause_reason)) \<and>
     snOutcome s = Outcome_of_string (hget h F_outcome) \<and>
     parse_field ParseInt64 0 id (hget h F_version) = Inr (snVersion s)"
  (is "?l \<longleftrightarrow> ?r")
proof
  assume ?l
  then show ?r
    by (auto simp: parse_defs bindE_Inr_iff zero_Snapshot_def Outcome_of_string_def split: if_splits)
next
  assume r: ?r
  show ?l
    using r by (cases s) (auto simp: parse_defs zero_Snapshot_def Outcome_of_string_def)
qed

text \<open>What a successful parse says about the version and the state field.\<close>

lemma parseHash_version:
  assumes "parseHash C h = Inr s" and "hash_wf h"
  shows "(case h F_version of None \<Rightarrow> Some 0 | Some v \<Rightarrow> ParseInt64 v) = Some (snVersion s)"
proof -
  have "parse_field ParseInt64 0 id (hget h F_version) = Inr (snVersion s)"
    using assms(1) unfolding parseHash_Inr_iff by (elim conjE)
  with assms(2) show ?thesis
    by (cases "h F_version") (auto simp: parse_field_def hget_def hash_wf_def split: if_splits option.splits)
qed

lemma parseHash_state:
  assumes "parseHash C h = Inr s" and "hash_wf h"
  shows "h F_state = Some (State_string (snState s)) \<and> State_Valid (snState s)"
proof -
  have st: "State_string (snState s) = hget h F_state" "State_Valid (snState s)"
    using assms(1) by (auto simp: parseHash_Inr_iff State_string_of_string)
  moreover have "hget h F_state \<noteq> ''''"
    using State_string_not_Nil st by metis
  ultimately show ?thesis using hash_wf_Some [OF assms(2)] by metis
qed

section \<open>The codec interface\<close>

locale hash_codec =
  fixes C :: codec
  assumes uuid_Parse_String: "uuid_Parse C (uuid_String C u) = Some u"
    and uuid_String_not_Nil: "uuid_String C u \<noteq> ''''"
    and uuid_String_colon: "CHR '':'' \<notin> set (uuid_String C u)"
    and time_Parse_Format: "time_ok C t \<Longrightarrow> time_Parse C (time_Format C t) = Some t"
    and time_Format_not_Nil: "time_Format C t \<noteq> ''''"
begin

lemma uuid_String_inject: "uuid_String C u = uuid_String C v \<longleftrightarrow> u = v"
  using uuid_Parse_String by (metis option.inject)

text \<open>A key made of two UUIDs around a separator that starts with a colon.\<close>

lemma pair_key_inject:
  "uuid_String C t @ CHR '':'' # m @ uuid_String C u = uuid_String C t' @ CHR '':'' # m @ uuid_String C u'
     \<longleftrightarrow> t = t' \<and> u = u'"
proof
  assume eq: "uuid_String C t @ CHR '':'' # m @ uuid_String C u = uuid_String C t' @ CHR '':'' # m @ uuid_String C u'"
  have pre: "takeWhile (\<lambda>c. c \<noteq> CHR '':'') (uuid_String C a @ CHR '':'' # r) = uuid_String C a" for a r
    using uuid_String_colon [of a] by (subst takeWhile_append2) auto
  from eq have "uuid_String C t = uuid_String C t'" using pre by metis
  with eq show "t = t' \<and> u = u'" by (simp add: uuid_String_inject)
qed simp

lemma opKey_inject: "opKey C t u = opKey C t' u' \<longleftrightarrow> t = t' \<and> u = u'"
  using pair_key_inject [of t "''user:''" u t' u'] by (simp add: opKey_def)

lemma parse_field_uuid [simp]: "parse_field (uuid_Parse C) d f (uuid_String C u) = Inr (f u)"
  by (simp add: parse_field_def uuid_Parse_String uuid_String_not_Nil)

lemma parse_field_uuid_ptr [simp]:
  "parse_field (uuid_Parse C) None Some (ptr_string (uuid_String C) p) = Inr p"
  by (cases p) (simp_all add: ptr_string_def)

lemma parse_field_time [simp]:
  "time_ok C t \<Longrightarrow> parse_field (time_Parse C) d f (time_Format C t) = Inr (f t)"
  by (simp add: parse_field_def time_Parse_Format time_Format_not_Nil)

lemma parse_field_int [simp]: "in_int64 n \<Longrightarrow> parse_field ParseInt64 d f (FormatInt n) = Inr (f n)"
  by (simp add: parse_field_def ParseInt64_FormatInt)

text \<open>The written payload parses back to the snapshot, whatever the hash held before.\<close>

lemma parse_snapshotPayload:
  assumes "snap_wf C s" and "hget h' F_version = v"
    and "\<And>f. f \<noteq> F_version \<Longrightarrow> hget h' f = hget (foldl hset_or_del h (snapshotPayload C s)) f"
    and "parse_field ParseInt64 0 id v = Inr n"
  shows "parseHash C h' = Inr (s\<lparr>snVersion := n\<rparr>)"
  using assms
  by (auto simp: parseHash_Inr_iff snapshotPayload_def snap_wf_def Outcome_canonical_def
      ptr_string_def split: option.splits)

lemma transition_lua_commit:
  assumes "transition_lua h v (snapshotPayload C s) = (Reply 1, h')" and "snap_wf C s" and "hash_wf h"
  shows "parseHash C h' = Inr (s\<lparr>snVersion := v + 1\<rparr>) \<and> hash_wf h' \<and> in_int64 (v + 1)"
proof -
  have cur: "(case h F_version of None \<Rightarrow> Some 0 | Some x \<Rightarrow> ParseInt64 x) = Some v"
    and le: "v + 1 \<le> int64_max"
    and h': "h' = (foldl hset_or_del h (snapshotPayload C s))(F_version \<mapsto> FormatInt (v + 1))"
    using assms(1) by (auto simp: transition_lua_def Let_def split: if_splits)
  from cur have "in_int64 v"
    by (auto split: option.splits dest: ParseInt64_in_int64 simp: in_int64_def)
  with le have n: "in_int64 (v + 1)" by (simp add: in_int64_def)
  have "parseHash C h' = Inr (s\<lparr>snVersion := v + 1\<rparr>)"
    by (rule parse_snapshotPayload [OF assms(2), of h' "FormatInt (v + 1)" h]) (simp_all add: h' n)
  moreover have "hash_wf h'"
    unfolding h' by (intro hash_wf_upd hash_wf_foldl_or_del assms(3)) simp
  ultimately show ?thesis using n by simp
qed

lemma transition_lua_overflow:
  assumes "transition_lua h v (snapshotPayload C s) = (ReplyErr, h')" and "snap_wf C s" and "hash_wf h"
  shows "parseHash C h' = Inr (s\<lparr>snVersion := v\<rparr>) \<and> hash_wf h' \<and> in_int64 v"
proof -
  have cur: "(case h F_version of None \<Rightarrow> Some 0 | Some x \<Rightarrow> ParseInt64 x) = Some v"
    and h': "h' = foldl hset_or_del h (snapshotPayload C s)"
    using assms(1) by (auto simp: transition_lua_def Let_def split: if_splits)
  have ver: "hget h' F_version = hget h F_version"
    by (simp add: h' snapshotPayload_def)
  have v: "parse_field ParseInt64 0 id (hget h F_version) = Inr v"
    using cur assms(3) by (auto simp: parse_field_def hget_def hash_wf_def split: option.splits)
  have "parseHash C h' = Inr (s\<lparr>snVersion := v\<rparr>)"
    by (rule parse_snapshotPayload [OF assms(2) ver, of h]) (simp_all add: h' v)
  moreover have "hash_wf h'" unfolding h' by (intro hash_wf_foldl_or_del assms(3))
  moreover have "in_int64 v"
    using cur by (auto split: option.splits dest: ParseInt64_in_int64 simp: in_int64_def)
  ultimately show ?thesis by simp
qed

end

section \<open>The store interface\<close>

text \<open>
  What the machine relies on: \<open>snap\<close> is the stored snapshot, \<open>good\<close> the store invariant,
  \<open>ok\<close> the snapshots that can be written. A read returns the stored snapshot or a synthetic
  offline one; a successful compare-and-swap required the stored version and stores the
  snapshot at the next version, for this operator only; a conflict changes nothing.
\<close>

definition synthetic :: "time \<Rightarrow> Snapshot" where
  "synthetic now = zero_Snapshot\<lparr>snState := StateOffline, snStateEnteredAt := now, snHeartbeatAt := now\<rparr>"

locale operator_store =
  fixes snap :: "'r \<Rightarrow> uuid \<Rightarrow> uuid \<Rightarrow> Snapshot option"
    and good :: "'r \<Rightarrow> bool"
    and ok :: "uuid \<Rightarrow> Snapshot \<Rightarrow> bool"
    and ld :: "time \<Rightarrow> 'r \<Rightarrow> uuid \<Rightarrow> uuid \<Rightarrow> dialer_error + Snapshot"
    and cas :: "'r \<Rightarrow> uuid \<Rightarrow> uuid \<Rightarrow> int \<Rightarrow> Snapshot \<Rightarrow> (dialer_error + unit) \<times> 'r"
  assumes ld_spec: "good r \<Longrightarrow> ld now r t u = Inr (case snap r t u of None \<Rightarrow> synthetic now | Some s \<Rightarrow> s)"
    and cas_commit: "good r \<Longrightarrow> ok t s \<Longrightarrow> cas r t u v s = (Inr (), r') \<Longrightarrow>
      good r' \<and> v = stored_version (snap r t u) \<and>
      snap r' t' u' = (if t' = t \<and> u' = u then Some (s\<lparr>snVersion := v + 1\<rparr>) else snap r t' u')"
    and cas_stale: "good r \<Longrightarrow> v \<noteq> stored_version (snap r t u) \<Longrightarrow> cas r t u v s = (Inl ErrConflict, r)"
begin

text \<open>A write is read back, and of two writers that loaded the same version one loses.\<close>

lemma read_your_write:
  assumes "good r" and "ok t s" and "cas r t u v s = (Inr (), r')"
  shows "ld now r' t u = Inr (s\<lparr>snVersion := v + 1\<rparr>)"
  using cas_commit [OF assms, of t u] ld_spec [of r' now t u] by simp

lemma second_writer_conflicts:
  assumes "good r" and "ok t s" and "cas r t u v s = (Inr (), r')"
  shows "cas r' t u v s' = (Inl ErrConflict, r')"
proof -
  from cas_commit [OF assms, of t u] have "good r'" "stored_version (snap r' t u) = v + 1"
    by (simp_all add: stored_version_def)
  then show ?thesis by (intro cas_stale) simp_all
qed

end

section \<open>The Redis store implements the interface\<close>

definition writable :: "codec \<Rightarrow> uuid \<Rightarrow> Snapshot \<Rightarrow> bool" where
  "writable C t s \<longleftrightarrow> snap_wf C s \<and> (snTenantID s = uuid_Nil \<or> snTenantID s = t)"

lemma hash_ok_cases:
  assumes "hash_ok C t h"
  obtains (absent) "h = Map.empty"
  | (present) s where "h \<noteq> Map.empty" "hash_wf h" "parseHash C h = Inr s" "snap_wf C s"
      "snTenantID s = uuid_Nil \<or> snTenantID s = t"
  using assms by (auto simp: hash_ok_def)

lemma parseHash_not_empty: "parseHash C h = Inr s \<Longrightarrow> h \<noteq> Map.empty"
  by (auto simp: parseHash_def State_of_string_def Let_def zero_Snapshot_def)

lemma hashes_okD: "hashes_ok C ops \<Longrightarrow> hash_ok C t (ops (opKey C t u))"
  by (simp add: hashes_ok_def)

lemma hashes_ok_version:
  assumes "hashes_ok C ops"
  shows "(case ops (opKey C t u) F_version of None \<Rightarrow> Some 0 | Some v \<Rightarrow> ParseInt64 v)
           = Some (stored_version (stored C ops t u))"
  using hashes_okD [OF assms, of t u]
proof (cases rule: hash_ok_cases)
  case absent
  then show ?thesis by (simp add: stored_def stored_version_def)
next
  case (present s)
  then show ?thesis using parseHash_version [of C _ s] by (simp add: stored_def stored_version_def)
qed

lemma hash_ok_wf: "hash_ok C t h \<Longrightarrow> hash_wf h"
  by (auto simp: hash_ok_def)

context hash_codec
begin

lemma stored_upd:
  "stored C (ops(opKey C t u := h)) t' u' =
     (if t' = t \<and> u' = u then (if h = Map.empty then None else case parseHash C h of Inl _ \<Rightarrow> None | Inr s \<Rightarrow> Some s)
      else stored C ops t' u')"
  by (auto simp: stored_def opKey_inject)

lemma hashes_ok_upd:
  "hashes_ok C ops \<Longrightarrow> hash_ok C t h \<Longrightarrow> hashes_ok C (ops(opKey C t u := h))"
  by (simp add: hashes_ok_def opKey_inject)

lemma load_spec:
  assumes "hashes_ok C ops"
  shows "load C now CallOk ops t u =
    Inr (case stored C ops t u of None \<Rightarrow> synthetic now | Some s \<Rightarrow> s)"
  using hashes_okD [OF assms, of t u]
proof (cases rule: hash_ok_cases)
  case absent
  then show ?thesis by (simp add: load_def stored_def synthetic_def)
next
  case (present s)
  then show ?thesis by (auto simp: load_def stored_def)
qed

text \<open>
  The outcome of the compare-and-swap in every case: a lost request or a stale version leave
  the hashes alone, otherwise the snapshot is stored at the next version (at the same version
  when the 64-bit counter is full).
\<close>

lemma casStore_spec:
  assumes ok: "hashes_ok C ops" and w: "writable C t s"
    and cas: "casStore C net ops t u v s = (r, ops')"
  shows "hashes_ok C ops' \<and>
     (net = CallOk \<and> r = Inr () \<and> v = stored_version (stored C ops t u) \<and>
        (\<forall>t' u'. stored C ops' t' u' = (if t' = t \<and> u' = u then Some (s\<lparr>snVersion := v + 1\<rparr>) else stored C ops t' u'))
      \<or> (net = CallOk \<and> r = Inl ErrConflict \<and> v \<noteq> stored_version (stored C ops t u) \<and> ops' = ops)
      \<or> (r = Inl ErrTransport \<and> (ops' = ops \<or> v = stored_version (stored C ops t u) \<and>
          (\<exists>n. (n = v + 1 \<or> n = v \<and> v = int64_max) \<and> (\<forall>t' u'. stored C ops' t' u' = (if t' = t \<and> u' = u then Some (s\<lparr>snVersion := n\<rparr>) else stored C ops t' u'))))))"
proof -
  let ?k = "opKey C t u"
  obtain rep h where lua: "transition_lua (ops ?k) v (snapshotPayload C s) = (rep, h)"
    by (cases "transition_lua (ops ?k) v (snapshotPayload C s)")
  have wf: "hash_wf (ops ?k)" using hash_ok_wf hashes_okD [OF ok] by blast
  have swf: "snap_wf C s" and ten: "snTenantID s = uuid_Nil \<or> snTenantID s = t"
    using w by (auto simp: writable_def)
  have ver: "(case ops ?k F_version of None \<Rightarrow> Some 0 | Some x \<Rightarrow> ParseInt64 x)
      = Some (stored_version (stored C ops t u))"
    by (rule hashes_ok_version [OF ok])
  consider (stale) "rep = Reply (-1)" "h = ops ?k" "v \<noteq> stored_version (stored C ops t u)"
    | (commit) "rep = Reply 1" "v = stored_version (stored C ops t u)"
    | (full) "rep = ReplyErr" "v = stored_version (stored C ops t u)" "\<not> v + 1 \<le> int64_max"
    using lua ver by (auto simp: transition_lua_def Let_def split: if_splits)
  then show ?thesis
  proof cases
    case stale
    then show ?thesis using cas lua ok
      by (cases net) (auto simp: casStore_def)
  next
    case commit
    have p: "parseHash C h = Inr (s\<lparr>snVersion := v + 1\<rparr>)" "hash_wf h" "in_int64 (v + 1)"
      using transition_lua_commit [OF _ swf wf, of v h] lua commit by auto
    have "hashes_ok C (ops(?k := h))"
      using p swf ten by (intro hashes_ok_upd ok) (auto simp: hash_ok_def snap_wf_def)
    moreover have "stored C (ops(?k := h)) t' u' =
        (if t' = t \<and> u' = u then Some (s\<lparr>snVersion := v + 1\<rparr>) else stored C ops t' u')" for t' u'
      using p parseHash_not_empty [OF p(1)] by (simp add: stored_upd)
    ultimately show ?thesis using cas lua commit ok
      by (cases net) (auto simp: casStore_def)
  next
    case full
    have p: "parseHash C h = Inr (s\<lparr>snVersion := v\<rparr>)" "hash_wf h" "in_int64 v"
      using transition_lua_overflow [OF _ swf wf, of v h] lua full by auto
    have "hashes_ok C (ops(?k := h))"
      using p swf ten by (intro hashes_ok_upd ok) (auto simp: hash_ok_def snap_wf_def)
    moreover have "stored C (ops(?k := h)) t' u' =
        (if t' = t \<and> u' = u then Some (s\<lparr>snVersion := v\<rparr>) else stored C ops t' u')" for t' u'
      using p parseHash_not_empty [OF p(1)] by (simp add: stored_upd)
    moreover have "v = int64_max" using p(3) full(3) by (simp add: in_int64_def)
    ultimately show ?thesis using cas lua full ok
      by (cases net) (auto simp: casStore_def)
  qed
qed

lemma casStore_stale:
  assumes ok: "hashes_ok C ops" and "v \<noteq> stored_version (stored C ops t u)"
  shows "casStore C CallOk ops t u v s = (Inl ErrConflict, ops)"
  using hashes_ok_version [OF ok, of t u] assms(2)
  by (simp add: casStore_def transition_lua_def)

end

sublocale hash_codec \<subseteq> store: operator_store "stored C" "hashes_ok C" "writable C"
  "\<lambda>now. load C now CallOk" "casStore C CallOk"
proof
  fix r now t u
  assume "hashes_ok C r"
  then show "load C now CallOk r t u = Inr (case stored C r t u of None \<Rightarrow> synthetic now | Some s \<Rightarrow> s)"
    by (rule load_spec)
next
  fix r t s u v r' t' u'
  assume "hashes_ok C r" "writable C t s" "casStore C CallOk r t u v s = (Inr (), r')"
  from casStore_spec [OF this] show "hashes_ok C r' \<and> v = stored_version (stored C r t u) \<and>
      stored C r' t' u' = (if t' = t \<and> u' = u then Some (s\<lparr>snVersion := v + 1\<rparr>) else stored C r t' u')"
    by auto
next
  fix r v t u s
  assume "hashes_ok C r" "v \<noteq> stored_version (stored C r t u)"
  then show "casStore C CallOk r t u v s = (Inl ErrConflict, r)"
    by (rule casStore_stale)
qed

section \<open>Opening a shift\<close>

text \<open>
  \<open>start_shift.lua\<close> writes only the six fields of its payload and resets the version to 1; the
  other fields of an offline hash stay as they were.
\<close>

definition reopened :: "Snapshot option \<Rightarrow> Snapshot \<Rightarrow> Snapshot" where
  "reopened prev s = (case prev of None \<Rightarrow> zero_Snapshot | Some s0 \<Rightarrow> s0)
     \<lparr>snState := snState s, snStateEnteredAt := snStateEnteredAt s, snHeartbeatAt := snHeartbeatAt s,
      snTenantID := snTenantID s, snSessionID := snSessionID s, snProjectID := snProjectID s,
      snVersion := 1\<rparr>"

definition opens_shift :: "codec \<Rightarrow> uuid \<Rightarrow> Snapshot \<Rightarrow> bool" where
  "opens_shift C t s \<longleftrightarrow> snState s = StateReady \<and> time_ok C (snStateEnteredAt s) \<and>
     time_ok C (snHeartbeatAt s) \<and> snTenantID s = t \<and> snSessionID s \<noteq> None \<and> snProjectID s \<noteq> None"

lemma State_string_ready: "State_Valid s \<Longrightarrow> State_string s = ''ready'' \<longleftrightarrow> s = StateReady"
  by (cases s) simp_all

lemma State_string_offline: "State_Valid s \<Longrightarrow> State_string s = ''offline'' \<longleftrightarrow> s = StateOffline"
  by (cases s) simp_all

lemma in_int64_1 [simp]: "in_int64 1"
  by (simp add: in_int64_def)

context hash_codec
begin

lemma parse_startShiftPayload:
  assumes s: "opens_shift C t s"
    and prev: "(h = Map.empty \<and> prev = None) \<or> (parseHash C h = Inr s0 \<and> prev = Some s0)"
  shows "parseHash C ((foldl hset_nonempty h (startShiftPayload C s))(F_version \<mapsto> FormatInt 1))
    = Inr (reopened prev s)"
proof -
  from s obtain sid pid where ids: "snSessionID s = Some sid" "snProjectID s = Some pid"
    by (auto simp: opens_shift_def)
  note ne = uuid_String_not_Nil time_Format_not_Nil
  from prev show ?thesis
  proof
    assume "h = Map.empty \<and> prev = None"
    then show ?thesis using s ids
      by (simp add: parseHash_Inr_iff startShiftPayload_def opens_shift_def reopened_def
          zero_Snapshot_def ptr_string_def ne State_of_string_def Outcome_of_string_def)
  next
    assume "parseHash C h = Inr s0 \<and> prev = Some s0"
    then have p: "parseHash C h = Inr s0" "prev = Some s0" by auto
    show ?thesis using p(1) [unfolded parseHash_Inr_iff] s ids p(2)
      by (simp add: parseHash_Inr_iff startShiftPayload_def opens_shift_def reopened_def
          ptr_string_def ne State_of_string_def)
  qed
qed

lemma start_shift_lua_spec:
  assumes ok: "hash_ok C t h" and s: "opens_shift C t s"
    and lua: "start_shift_lua h (startShiftPayload C s) = (rep, h')"
    and prev: "prev = (if h = Map.empty then None else case parseHash C h of Inl _ \<Rightarrow> None | Inr x \<Rightarrow> Some x)"
  shows "hash_ok C t h' \<and>
    (rep = Reply 1 \<and> (prev = None \<or> (\<exists>s0. prev = Some s0 \<and> snState s0 = StateOffline)) \<and>
       parseHash C h' = Inr (reopened prev s)
     \<or> rep = Reply 0 \<and> h' = h \<and> (\<exists>s0. prev = Some s0 \<and> snState s0 = StateReady)
     \<or> rep = Reply (-1) \<and> h' = h \<and>
       (\<exists>s0. prev = Some s0 \<and> snState s0 \<noteq> StateReady \<and> snState s0 \<noteq> StateOffline))"
  using ok
proof (cases rule: hash_ok_cases)
  case absent
  then have p: "prev = None" "h F_state = None" using prev by auto
  have h': "h' = (foldl hset_nonempty h (startShiftPayload C s))(F_version \<mapsto> FormatInt 1)" "rep = Reply 1"
    using lua p by (auto simp: start_shift_lua_def)
  have ph: "parseHash C h' = Inr (reopened prev s)"
    unfolding h' by (rule parse_startShiftPayload [OF s, of h prev zero_Snapshot]) (simp add: absent p)
  have "hash_wf h'" unfolding h'
    by (intro hash_wf_upd hash_wf_foldl_nonempty) (simp_all add: absent)
  then have "hash_ok C t h'" using ph s p
    by (auto simp: hash_ok_def snap_wf_def opens_shift_def reopened_def zero_Snapshot_def)
  then show ?thesis using ph h' p by simp
next
  case (present s0)
  then have p: "prev = Some s0" using prev by simp
  have st: "h F_state = Some (State_string (snState s0))" "State_Valid (snState s0)"
    using parseHash_state [OF present(3,2)] by auto
  show ?thesis
  proof (cases "snState s0 = StateOffline")
    case False
    then show ?thesis using lua p st ok
      by (auto simp: start_shift_lua_def State_string_ready State_string_offline split: if_splits)
  next
    case True
    have h': "h' = (foldl hset_nonempty h (startShiftPayload C s))(F_version \<mapsto> FormatInt 1)" "rep = Reply 1"
      using lua st True by (auto simp: start_shift_lua_def)
    have ph: "parseHash C h' = Inr (reopened prev s)"
      unfolding h' by (rule parse_startShiftPayload [OF s, of h prev s0]) (simp add: present p)
    have "hash_wf h'" unfolding h'
      by (intro hash_wf_upd hash_wf_foldl_nonempty present(2)) simp
    then have "hash_ok C t h'" using ph s p present(4)
      by (auto simp: hash_ok_def snap_wf_def opens_shift_def reopened_def)
    then show ?thesis using ph h' p True by auto
  qed
qed

lemma startShiftCAS_spec:
  assumes ok: "hashes_ok C ops" and s: "opens_shift C t s"
    and cas: "startShiftCAS C net ops t u s = (r, ops')"
  shows "hashes_ok C ops' \<and>
    ((r = StartRc 1 \<or> r = StartErr) \<and>
       (\<forall>s0. stored C ops t u = Some s0 \<longrightarrow> snState s0 = StateOffline) \<and>
       (\<forall>t' u'. stored C ops' t' u' = (if t' = t \<and> u' = u
          then Some (reopened (stored C ops t u) s) else stored C ops t' u'))
     \<or> r = StartErr \<and> ops' = ops
     \<or> r = StartRc 0 \<and> ops' = ops \<and> (\<exists>s0. stored C ops t u = Some s0 \<and> snState s0 = StateReady)
     \<or> r = StartBusy \<and> ops' = ops \<and> (\<exists>s0. stored C ops t u = Some s0 \<and>
         snState s0 \<noteq> StateReady \<and> snState s0 \<noteq> StateOffline))"
proof -
  let ?k = "opKey C t u"
  obtain rep h where lua: "start_shift_lua (ops ?k) (startShiftPayload C s) = (rep, h)"
    by (cases "start_shift_lua (ops ?k) (startShiftPayload C s)")
  note spec = start_shift_lua_spec [OF hashes_okD [OF ok] s lua refl, folded stored_def [unfolded Let_def]]
  have ok': "hashes_ok C (ops(?k := h))" using spec by (intro hashes_ok_upd ok) blast
  have upd: "ops(?k := h) = ops" if "h = ops ?k" using that by simp
  show ?thesis
  proof (cases "rep = Reply 1")
    case True
    with spec have ph: "parseHash C h = Inr (reopened (stored C ops t u) s)"
      and off: "\<forall>s0. stored C ops t u = Some s0 \<longrightarrow> snState s0 = StateOffline" by auto
    have "\<forall>t' u'. stored C (ops(?k := h)) t' u' = (if t' = t \<and> u' = u
          then Some (reopened (stored C ops t u) s) else stored C ops t' u')"
      using ph parseHash_not_empty [OF ph] by (simp add: stored_upd)
    with True off ok ok' lua cas show ?thesis
      by (cases net) (auto simp: startShiftCAS_def)
  next
    case False
    with spec lua cas ok ok' upd show ?thesis
      by (cases net) (auto simp: startShiftCAS_def)
  qed
qed

end

end
