(* ===== verification/Fsm_Audit.thy ===== *)
theory Fsm_Audit
  imports Fsm_Store
begin

text \<open>
  The Postgres side of the operator state machine (\<open>internal/dialer/fsm/audit.go\<close>): shift
  sessions, the state log and the transactional outbox. A transaction either commits all of its
  rows or none, so each of the three audit entry points is a function that returns the new
  database or reports a failure with the old one.

  Subjects keep their parameters as constructor arguments instead of formatted text; payload
  records have the fields of the JSON payloads (the calendar date field is a function of the
  instant and is left out). Durations are exact integers where the code goes through
  \<open>float64\<close> seconds.
\<close>

section \<open>Rows and events\<close>

record session_row =
  seID :: uuid
  seTenant :: uuid
  seUser :: uuid
  seProject :: uuid
  seEndedAt :: "time option"

record state_log_row =
  slSession :: uuid
  slTs :: time
  slState :: State
  slReason :: "string option"

datatype subject =
    SubjectOpStateFor uuid uuid
  | SubjectOperatorStateAnalytics
  | SubjectCallFinalizedFor uuid
  | SubjectCallsAnalytics

record OperatorStateChangedEvent =
  oscTenantID :: uuid
  oscOperatorID :: uuid
  oscState :: State
  oscChangedAt :: int
  oscProjectID :: "uuid option"
  oscCallID :: "uuid option"
  oscPauseReason :: string

record AnalyticsOperatorStateEvent =
  aosTS :: time
  aosTenantID :: uuid
  aosUserID :: uuid
  aosState :: string
  aosDurationInStateSec :: "32 word"
  aosProjectID :: "uuid option"
  aosEventID :: uuid

record CallFinalizedEvent =
  cfCallID :: uuid
  cfTenantID :: uuid
  cfOperatorID :: uuid
  cfProjectID :: uuid
  cfRespondentID :: uuid
  cfTrunkUsed :: string
  cfDurationSec :: "32 word"
  cfStatus :: string
  cfStorageBytes :: int
  cfFinalizedAt :: int

record AnalyticsCallEvent =
  acTS :: time
  acTenantID :: uuid
  acProjectID :: uuid
  acOperatorID :: uuid
  acCallID :: uuid
  acStatus :: string
  acDurationSec :: "32 word"
  acHangupCause :: string
  acRegionCode :: string
  acAttemptNo :: "8 word"
  acTrunkUsed :: string
  acEventID :: uuid

datatype payload =
    PStateChanged OperatorStateChangedEvent
  | PAnalyticsState AnalyticsOperatorStateEvent
  | PCallFinalized CallFinalizedEvent
  | PAnalyticsCall AnalyticsCallEvent

record outbox_event =
  obTenantID :: "uuid option"
  obAggregateID :: "uuid option"
  obSubject :: subject
  obPayload :: payload

record database =
  dbSessions :: "session_row list"
  dbLog :: "state_log_row list"
  dbOutbox :: "outbox_event list"

definition empty_database :: database where
  "empty_database = \<lparr>dbSessions = [], dbLog = [], dbOutbox = []\<rparr>"

section \<open>The session store\<close>

text \<open>\<open>sessionID\<close> is the key the database generates for the inserted row.\<close>

definition CreateSession :: "database \<Rightarrow> uuid \<Rightarrow> uuid \<Rightarrow> uuid \<Rightarrow> uuid \<Rightarrow> database" where
  "CreateSession db sessionID tenantID userID projectID =
     db\<lparr>dbSessions := dbSessions db @ [\<lparr>seID = sessionID, seTenant = tenantID, seUser = userID,
        seProject = projectID, seEndedAt = None\<rparr>]\<rparr>"

text \<open>\<open>SET ended_at = COALESCE(ended_at, $2) WHERE id = $1\<close>.\<close>

definition CloseSession :: "database \<Rightarrow> uuid \<Rightarrow> time \<Rightarrow> database" where
  "CloseSession db sessionID occurredAt =
     db\<lparr>dbSessions := map (\<lambda>r. if seID r = sessionID
          then r\<lparr>seEndedAt := (case seEndedAt r of None \<Rightarrow> Some occurredAt | Some t \<Rightarrow> Some t)\<rparr>
          else r) (dbSessions db)\<rparr>"

definition AppendStateLog :: "database \<Rightarrow> uuid \<Rightarrow> time \<Rightarrow> State \<Rightarrow> string \<Rightarrow> database" where
  "AppendStateLog db sessionID occurredAt st reason =
     db\<lparr>dbLog := dbLog db @ [\<lparr>slSession = sessionID, slTs = occurredAt, slState = st,
        slReason = (if reason = '''' then None else Some reason)\<rparr>]\<rparr>"

text \<open>
  \<open>ORDER BY ts DESC LIMIT 1\<close>; only the instant of the row is used by the caller. \<open>None\<close> is
  \<open>ErrNoStateLog\<close>.
\<close>

definition LastStateLog :: "database \<Rightarrow> uuid \<Rightarrow> time option" where
  "LastStateLog db sessionID =
     (case map slTs (filter (\<lambda>r. slSession r = sessionID) (dbLog db)) of
        [] \<Rightarrow> None | t # ts \<Rightarrow> Some (fold max ts t))"

definition outbox_Append :: "database \<Rightarrow> outbox_event \<Rightarrow> database" where
  "outbox_Append db ev = db\<lparr>dbOutbox := dbOutbox db @ [ev]\<rparr>"

section \<open>Audit entries\<close>

record callFinalizedEntry =
  feTenantID :: uuid
  feOperatorID :: uuid
  feProjectID :: uuid
  feCallID :: uuid
  feRespondentID :: uuid
  feStatus :: string
  feDurationSec :: "32 word"
  feTrunkUsed :: string
  feHangupCause :: string
  feRegionCode :: string
  feAttemptNo :: "8 word"
  feFinalizedAt :: time
  feStorageBytes :: int

record auditEntry =
  aeTenantID :: uuid
  aeOperatorID :: uuid
  aeSessionID :: uuid
  aeNewState :: State
  aeReason :: string
  aeOccurredAt :: time
  aeProjectID :: "uuid option"
  aeCallID :: "uuid option"
  aePauseReason :: "string option"
  aeExtraOutbox :: "callFinalizedEntry option"

text \<open>
  The seconds spent in the previous state, clamped to the range of \<open>uint32\<close>.
\<close>

definition prevDur :: "time option \<Rightarrow> time \<Rightarrow> 32 word" where
  "prevDur prev occurredAt =
     (case prev of None \<Rightarrow> 0
      | Some p \<Rightarrow> (let d = occurredAt - p in
          if d \<le> 0 then 0 else if d \<ge> 4294967295 * second then 4294967295
          else word_of_int (d div second)))"

text \<open>Fresh event identifiers (\<open>uuid.New\<close>) are drawn from a supply.\<close>

definition appendCallFinalizedOutbox ::
  "uuid \<Rightarrow> database \<Rightarrow> callFinalizedEntry \<Rightarrow> database" where
  "appendCallFinalizedOutbox eventID db entry =
     (let db1 = outbox_Append db
        \<lparr>obTenantID = Some (feTenantID entry), obAggregateID = Some (feCallID entry),
         obSubject = SubjectCallFinalizedFor (feTenantID entry),
         obPayload = PCallFinalized
           \<lparr>cfCallID = feCallID entry, cfTenantID = feTenantID entry,
            cfOperatorID = feOperatorID entry, cfProjectID = feProjectID entry,
            cfRespondentID = feRespondentID entry, cfTrunkUsed = feTrunkUsed entry,
            cfDurationSec = min (feDurationSec entry) 2147483647, cfStatus = feStatus entry,
            cfStorageBytes = feStorageBytes entry, cfFinalizedAt = UnixSec (feFinalizedAt entry)\<rparr>\<rparr>
      in outbox_Append db1
        \<lparr>obTenantID = None, obAggregateID = None, obSubject = SubjectCallsAnalytics,
         obPayload = PAnalyticsCall
           \<lparr>acTS = feFinalizedAt entry, acTenantID = feTenantID entry,
            acProjectID = feProjectID entry, acOperatorID = feOperatorID entry,
            acCallID = feCallID entry, acStatus = feStatus entry,
            acDurationSec = feDurationSec entry, acHangupCause = feHangupCause entry,
            acRegionCode = feRegionCode entry, acAttemptNo = feAttemptNo entry,
            acTrunkUsed = feTrunkUsed entry, acEventID = eventID\<rparr>\<rparr>)"

definition appendStateLogAndOutbox ::
  "(nat \<Rightarrow> uuid) \<Rightarrow> database \<Rightarrow> auditEntry \<Rightarrow> database" where
  "appendStateLogAndOutbox fresh db entry =
     (let prev = LastStateLog db (aeSessionID entry);
          db1 = AppendStateLog db (aeSessionID entry) (aeOccurredAt entry) (aeNewState entry) (aeReason entry);
          db2 = outbox_Append db1
            \<lparr>obTenantID = Some (aeTenantID entry), obAggregateID = Some (aeOperatorID entry),
             obSubject = SubjectOpStateFor (aeTenantID entry) (aeOperatorID entry),
             obPayload = PStateChanged
               \<lparr>oscTenantID = aeTenantID entry, oscOperatorID = aeOperatorID entry,
                oscState = aeNewState entry, oscChangedAt = UnixMilli (aeOccurredAt entry),
                oscProjectID = aeProjectID entry, oscCallID = aeCallID entry,
                oscPauseReason = ptr_string id (aePauseReason entry)\<rparr>\<rparr>;
          db3 = outbox_Append db2
            \<lparr>obTenantID = None, obAggregateID = None, obSubject = SubjectOperatorStateAnalytics,
             obPayload = PAnalyticsState
               \<lparr>aosTS = aeOccurredAt entry, aosTenantID = aeTenantID entry,
                aosUserID = aeOperatorID entry, aosState = State_string (aeNewState entry),
                aosDurationInStateSec = prevDur prev (aeOccurredAt entry),
                aosProjectID = aeProjectID entry, aosEventID = fresh 0\<rparr>\<rparr>
      in case aeExtraOutbox entry of None \<Rightarrow> db3
         | Some cfe \<Rightarrow> appendCallFinalizedOutbox (fresh 1) db3 cfe)"

section \<open>The transactions\<close>

text \<open>
  \<open>pg.WithTenant\<close>: the transaction commits, is rolled back, or commits while the caller sees
  an error.
\<close>

definition with_tenant :: "call_outcome \<Rightarrow> database \<Rightarrow> database \<Rightarrow> (dialer_error + unit) \<times> database" where
  "with_tenant pg db db' = (case pg of CallOk \<Rightarrow> (Inr (), db') | CallLost \<Rightarrow> (Inl ErrTransport, db)
     | ReplyLost \<Rightarrow> (Inl ErrTransport, db'))"

definition startSessionAndAudit ::
  "call_outcome \<Rightarrow> (nat \<Rightarrow> uuid) \<Rightarrow> uuid \<Rightarrow> database \<Rightarrow> StartShiftRequest \<Rightarrow> time
   \<Rightarrow> (dialer_error + uuid) \<times> database" where
  "startSessionAndAudit pg fresh sessionID db req occurredAt =
     (let db1 = CreateSession db sessionID (ssTenantID req) (ssOperatorID req) (ssProjectID req);
          db2 = appendStateLogAndOutbox fresh db1
            \<lparr>aeTenantID = ssTenantID req, aeOperatorID = ssOperatorID req, aeSessionID = sessionID,
             aeNewState = StateReady, aeReason = '''', aeOccurredAt = occurredAt,
             aeProjectID = Some (ssProjectID req), aeCallID = None, aePauseReason = None,
             aeExtraOutbox = None\<rparr>;
          (r, db') = with_tenant pg db db2
      in (case r of Inl e \<Rightarrow> Inl e | Inr _ \<Rightarrow> Inr sessionID, db'))"

definition closeSessionAndAudit ::
  "call_outcome \<Rightarrow> (nat \<Rightarrow> uuid) \<Rightarrow> database \<Rightarrow> uuid \<Rightarrow> uuid \<Rightarrow> uuid \<Rightarrow> string \<Rightarrow> time
   \<Rightarrow> (dialer_error + unit) \<times> database" where
  "closeSessionAndAudit pg fresh db tenantID operatorID sessionID reason occurredAt =
     with_tenant pg db (appendStateLogAndOutbox fresh (CloseSession db sessionID occurredAt)
       \<lparr>aeTenantID = tenantID, aeOperatorID = operatorID, aeSessionID = sessionID,
        aeNewState = StateOffline, aeReason = reason, aeOccurredAt = occurredAt,
        aeProjectID = None, aeCallID = None, aePauseReason = None, aeExtraOutbox = None\<rparr>)"

definition auditTransition ::
  "call_outcome \<Rightarrow> (nat \<Rightarrow> uuid) \<Rightarrow> database \<Rightarrow> auditEntry \<Rightarrow> (dialer_error + unit) \<times> database" where
  "auditTransition pg fresh db entry = with_tenant pg db (appendStateLogAndOutbox fresh db entry)"

section \<open>Properties\<close>

lemma LastStateLog_Max:
  "LastStateLog db sid = (let ts = slTs ` {r \<in> set (dbLog db). slSession r = sid} in
     if ts = {} then None else Some (Max ts))"
proof -
  have eq: "slTs ` {r \<in> set (dbLog db). slSession r = sid} =
      set (map slTs (filter (\<lambda>r. slSession r = sid) (dbLog db)))" by simp
  show ?thesis unfolding eq LastStateLog_def Let_def
    by (cases "map slTs (filter (\<lambda>r. slSession r = sid) (dbLog db))")
      (simp_all only: list.case Max.set_eq_fold, auto)
qed

lemma LastStateLog_latest:
  assumes "LastStateLog db sid = Some t" and "r \<in> set (dbLog db)" and "slSession r = sid"
  shows "slTs r \<le> t"
  using assms by (auto simp: LastStateLog_Max Let_def split: if_splits intro: Max_ge)

lemma prevDur_exact:
  assumes "p < now" and "now - p < 4294967295 * second"
  shows "uint (prevDur (Some p) now) = (now - p) div second"
proof -
  define q where "q = (now - p) div second"
  have "0 \<le> q" "q < 4294967295" using assms by (simp_all add: q_def)
  then have "uint (word_of_int q :: 32 word) = q"
    by (simp only: uint_word_of_int take_bit_eq_mod len_of_numeral_defs) simp
  moreover have "prevDur (Some p) now = word_of_int q"
    using assms by (simp add: prevDur_def Let_def q_def)
  ultimately show ?thesis by (simp add: q_def)
qed

lemma appendStateLog_counts:
  "length (dbLog (appendStateLogAndOutbox f db e)) = Suc (length (dbLog db)) \<and>
   length (dbOutbox (appendStateLogAndOutbox f db e)) =
     length (dbOutbox db) + (case aeExtraOutbox e of None \<Rightarrow> 2 | Some _ \<Rightarrow> 4)"
  by (simp add: appendStateLogAndOutbox_def appendCallFinalizedOutbox_def outbox_Append_def
      AppendStateLog_def Let_def split: option.splits)

end
