(* ===== verification/Fsm_Machine.thy ===== *)
theory Fsm_Machine
  imports Fsm_Audit
begin

text \<open>
  The operator state machine (\<open>internal/dialer/fsm/machine.go\<close>): every method of
  \<open>api.OperatorFSM\<close>. A method loads the operator's snapshot, decides, commits the new snapshot
  through the compare-and-swap script and writes the audit rows; other replicas may run between
  the load and the commit. Each method therefore takes two worlds: \<open>w1\<close>, in which the snapshot
  is loaded, and \<open>w2\<close>, in which it commits; a sequential call has \<open>w1 = w2\<close>.

  An \<open>env\<close> fixes what the environment decides during one call: the clock, the fate of each
  remote call, the generated session key and the fresh event identifiers.
\<close>

section \<open>Worlds\<close>

record world =
  wOps :: op_hashes
  wPresence :: "string \<Rightarrow> bool"
  wDb :: database
  wPublished :: "api_Snapshot list"

record env =
  eNow :: time
  eLoad :: call_outcome
  eCas :: call_outcome
  ePg :: call_outcome
  eReload :: call_outcome
  eSession :: uuid
  eFresh :: "nat \<Rightarrow> uuid"

definition empty_world :: world where
  "empty_world = \<lparr>wOps = (\<lambda>_. Map.empty), wPresence = (\<lambda>_. False), wDb = empty_database,
     wPublished = []\<rparr>"

definition publish :: "world \<Rightarrow> api_Snapshot \<Rightarrow> world" where
  "publish w snap = w\<lparr>wPublished := wPublished w @ [snap]\<rparr>"

type_synonym op_result = "(dialer_error + api_Snapshot) \<times> world"

section \<open>Applying an event\<close>

definition buildNextSnapshot :: "Snapshot \<Rightarrow> State \<Rightarrow> time \<Rightarrow> Snapshot" where
  "buildNextSnapshot cur nxt now =
     (let updated = cur\<lparr>snState := nxt, snStateEnteredAt := now, snHeartbeatAt := now\<rparr> in
      if snState cur = StateStatus \<and> nxt \<noteq> StateStatus
      then updated\<lparr>snOutcome := OutcomeUnknown\<rparr> else updated)"

text \<open>The hooks: a nil \<open>preCheck\<close> passes, a nil \<open>mutate\<close> changes nothing, and so on.\<close>

definition applyEventFull ::
  "codec \<Rightarrow> env \<Rightarrow> world \<Rightarrow> world \<Rightarrow> uuid \<Rightarrow> uuid \<Rightarrow> Event
   \<Rightarrow> (Snapshot \<Rightarrow> dialer_error option) \<Rightarrow> (Snapshot \<Rightarrow> Snapshot) \<Rightarrow> (Snapshot \<Rightarrow> bool)
   \<Rightarrow> (Snapshot \<Rightarrow> Snapshot \<Rightarrow> time \<Rightarrow> callFinalizedEntry option) \<Rightarrow> op_result" where
  "applyEventFull C e w1 w2 tenantID operatorID evt preCheck mutate replay extras =
     (case load C (eNow e) (eLoad e) (wOps w1) tenantID operatorID of
        Inl err \<Rightarrow> (Inl err, w2)
      | Inr cur \<Rightarrow>
     (case preCheck cur of
        Some err \<Rightarrow> (Inl err, w2)
      | None \<Rightarrow>
      if replay cur then (Inr (toAPI cur tenantID operatorID), w2) else
     (case resolveTransition (snState cur) evt (snOutcome cur) of
        Inl err \<Rightarrow> (Inl err, w2)
      | Inr nxt \<Rightarrow>
      if snState cur = nxt then (Inr (toAPI cur tenantID operatorID), w2) else
      let now = eNow e;
          updated = mutate (buildNextSnapshot cur nxt now);
          (r, ops) = casStore C (eCas e) (wOps w2) tenantID operatorID (snVersion cur) updated;
          w3 = w2\<lparr>wOps := ops\<rparr>
      in case r of
           Inl err \<Rightarrow> (Inl err, w3)
         | Inr _ \<Rightarrow>
           let updated = updated\<lparr>snVersion := snVersion cur + 1\<rparr>;
               sessionID = (case snSessionID cur of None \<Rightarrow> uuid_Nil | Some sid \<Rightarrow> sid);
               entry = \<lparr>aeTenantID = tenantID, aeOperatorID = operatorID, aeSessionID = sessionID,
                  aeNewState = nxt, aeReason = '''', aeOccurredAt = now,
                  aeProjectID = snProjectID updated, aeCallID = snCurrentCallID updated,
                  aePauseReason = snPauseReason updated, aeExtraOutbox = extras cur updated now\<rparr>;
               db = (if sessionID \<noteq> uuid_Nil
                     then snd (auditTransition (ePg e) (eFresh e) (wDb w3) entry) else wDb w3);
               out = toAPI updated tenantID operatorID
           in (Inr out, publish (w3\<lparr>wDb := db\<rparr>) out))))"

definition applyEventWith ::
  "codec \<Rightarrow> env \<Rightarrow> world \<Rightarrow> world \<Rightarrow> uuid \<Rightarrow> uuid \<Rightarrow> Event
   \<Rightarrow> (Snapshot \<Rightarrow> dialer_error option) \<Rightarrow> (Snapshot \<Rightarrow> Snapshot) \<Rightarrow> (Snapshot \<Rightarrow> bool) \<Rightarrow> op_result" where
  "applyEventWith C e w1 w2 tenantID operatorID evt preCheck mutate replay =
     applyEventFull C e w1 w2 tenantID operatorID evt preCheck mutate replay (\<lambda>_ _ _. None)"

definition applyEvent ::
  "codec \<Rightarrow> env \<Rightarrow> world \<Rightarrow> world \<Rightarrow> uuid \<Rightarrow> uuid \<Rightarrow> Event \<Rightarrow> (Snapshot \<Rightarrow> Snapshot) \<Rightarrow> op_result" where
  "applyEvent C e w1 w2 tenantID operatorID evt mutate =
     applyEventWith C e w1 w2 tenantID operatorID evt (\<lambda>_. None) mutate (\<lambda>_. False)"

section \<open>Shift operations\<close>

definition StartShift :: "codec \<Rightarrow> env \<Rightarrow> world \<Rightarrow> world \<Rightarrow> StartShiftRequest \<Rightarrow> op_result" where
  "StartShift C e w1 w2 req =
     (let t = ssTenantID req; u = ssOperatorID req in
      case load C (eNow e) (eLoad e) (wOps w1) t u of
        Inl err \<Rightarrow> (Inl err, w2)
      | Inr cur \<Rightarrow>
      if snState cur = StateReady then (Inr (toAPI cur t u), w2)
      else if snState cur \<noteq> StateOffline then (Inl ErrInvalidTransition, w2)
      else
      let now = eNow e;
          (s, db) = startSessionAndAudit (ePg e) (eFresh e) (eSession e) (wDb w2) req now;
          w3 = w2\<lparr>wDb := db\<rparr>
      in case s of
           Inl err \<Rightarrow> (Inl err, w3)
         | Inr sessionID \<Rightarrow>
           let updated = zero_Snapshot\<lparr>snState := StateReady, snStateEnteredAt := now,
                 snHeartbeatAt := now, snTenantID := t, snSessionID := Some sessionID,
                 snProjectID := Some (ssProjectID req)\<rparr>;
               (rc, ops) = startShiftCAS C (eCas e) (wOps w3) t u updated;
               w4 = w3\<lparr>wOps := ops\<rparr>
           in case rc of
                StartBusy \<Rightarrow> (Inl ErrInvalidTransition, w4)
              | StartErr \<Rightarrow> (Inl ErrTransport, w4)
              | StartRc n \<Rightarrow>
                if n = 0 then
                  (case load C now (eReload e) (wOps w4) t u of
                     Inl err \<Rightarrow> (Inl err, w4)
                   | Inr again \<Rightarrow> (Inr (toAPI again t u), w4))
                else let out = toAPI (updated\<lparr>snVersion := 1\<rparr>) t u in (Inr out, publish w4 out))"

definition EndShift :: "codec \<Rightarrow> env \<Rightarrow> world \<Rightarrow> world \<Rightarrow> uuid \<Rightarrow> uuid \<Rightarrow> op_result" where
  "EndShift C e w1 w2 tenantID operatorID =
     (case load C (eNow e) (eLoad e) (wOps w1) tenantID operatorID of
        Inl err \<Rightarrow> (Inl err, w2)
      | Inr cur \<Rightarrow>
      if snState cur = StateOffline then (Inr (toAPI cur tenantID operatorID), w2) else
     (case resolveTransition (snState cur) EventEndShift (snOutcome cur) of
        Inl err \<Rightarrow> (Inl err, w2)
      | Inr _ \<Rightarrow>
      let now = eNow e;
          updated = cur\<lparr>snState := StateOffline, snStateEnteredAt := now, snHeartbeatAt := now,
             snSessionID := None, snProjectID := None, snCurrentCallID := None,
             snRespondentID := None, snPauseReason := None, snOutcome := OutcomeUnknown\<rparr>;
          (r, ops) = casStore C (eCas e) (wOps w2) tenantID operatorID (snVersion cur) updated;
          w3 = w2\<lparr>wOps := ops\<rparr>
      in case r of
           Inl err \<Rightarrow> (Inl err, w3)
         | Inr _ \<Rightarrow>
           let updated = updated\<lparr>snVersion := snVersion cur + 1\<rparr>;
               db = (case snSessionID cur of None \<Rightarrow> wDb w3
                     | Some sid \<Rightarrow> snd (closeSessionAndAudit (ePg e) (eFresh e) (wDb w3)
                                     tenantID operatorID sid '''' now));
               out = toAPI updated tenantID operatorID
           in (Inr out, publish (w3\<lparr>wDb := db\<rparr>) out)))"

section \<open>Pause, calls and verification\<close>

definition GoReady :: "codec \<Rightarrow> env \<Rightarrow> world \<Rightarrow> world \<Rightarrow> uuid \<Rightarrow> uuid \<Rightarrow> op_result" where
  "GoReady C e w1 w2 tenantID operatorID =
     applyEvent C e w1 w2 tenantID operatorID EventResume (\<lambda>s. s\<lparr>snPauseReason := None\<rparr>)"

definition GoPause :: "codec \<Rightarrow> env \<Rightarrow> world \<Rightarrow> world \<Rightarrow> GoPauseRequest \<Rightarrow> op_result" where
  "GoPause C e w1 w2 req =
     applyEvent C e w1 w2 (gpTenantID req) (gpOperatorID req) EventGoPause
       (\<lambda>s. if gpReason req = '''' then s\<lparr>snPauseReason := None\<rparr>
            else s\<lparr>snPauseReason := Some (gpReason req)\<rparr>)"

definition Resume :: "codec \<Rightarrow> env \<Rightarrow> world \<Rightarrow> world \<Rightarrow> uuid \<Rightarrow> uuid \<Rightarrow> op_result" where
  "Resume C e w1 w2 tenantID operatorID =
     applyEvent C e w1 w2 tenantID operatorID EventResume (\<lambda>s. s\<lparr>snPauseReason := None\<rparr>)"

definition RecordCallStarted :: "codec \<Rightarrow> env \<Rightarrow> world \<Rightarrow> world \<Rightarrow> CallStartedRequest \<Rightarrow> op_result" where
  "RecordCallStarted C e w1 w2 req =
     applyEventWith C e w1 w2 (csTenantID req) (csOperatorID req) EventCallStarted
       (\<lambda>cur. case snCurrentCallID cur of None \<Rightarrow> None
              | Some c \<Rightarrow> if c \<noteq> csCallID req then Some ErrInvalidTransition else None)
       (\<lambda>s. s\<lparr>snCurrentCallID := Some (csCallID req), snRespondentID := Some (csRespondentID req)\<rparr>)
       (\<lambda>cur. snState cur = StateCall \<and> snCurrentCallID cur = Some (csCallID req))"

definition RecordCallEnded :: "codec \<Rightarrow> env \<Rightarrow> world \<Rightarrow> world \<Rightarrow> CallEndedRequest \<Rightarrow> op_result" where
  "RecordCallEnded C e w1 w2 req =
     applyEvent C e w1 w2 (ceTenantID req) (ceOperatorID req) EventCallEnded
       (\<lambda>s. s\<lparr>snOutcome := ceOutcome req\<rparr>)"

definition opt_or :: "'a \<Rightarrow> 'a option \<Rightarrow> 'a" where
  "opt_or d p = (case p of None \<Rightarrow> d | Some x \<Rightarrow> x)"

definition callFinalizedExtras ::
  "SubmitStatusRequest \<Rightarrow> Snapshot \<Rightarrow> Snapshot \<Rightarrow> time \<Rightarrow> callFinalizedEntry option" where
  "callFinalizedExtras req cur updated occurredAt = Some
     \<lparr>feTenantID = stTenantID req, feOperatorID = stOperatorID req,
      feProjectID = opt_or uuid_Nil (snProjectID cur),
      feCallID = opt_or (stCallID req) (snCurrentCallID cur),
      feRespondentID = opt_or (stRespondentID req) (snRespondentID cur),
      feStatus = stStatus req, feDurationSec = 0, feTrunkUsed = '''', feHangupCause = '''',
      feRegionCode = '''', feAttemptNo = 1, feFinalizedAt = occurredAt, feStorageBytes = 0\<rparr>"

definition SubmitStatus :: "codec \<Rightarrow> env \<Rightarrow> world \<Rightarrow> world \<Rightarrow> SubmitStatusRequest \<Rightarrow> op_result" where
  "SubmitStatus C e w1 w2 req =
     applyEventFull C e w1 w2 (stTenantID req) (stOperatorID req) EventStatusSubmitted
       (\<lambda>_. None)
       (\<lambda>s. s\<lparr>snCurrentCallID := None, snRespondentID := None, snOutcome := OutcomeUnknown\<rparr>)
       (\<lambda>_. False) (callFinalizedExtras req)"

definition GoVerify :: "codec \<Rightarrow> env \<Rightarrow> world \<Rightarrow> world \<Rightarrow> uuid \<Rightarrow> uuid \<Rightarrow> op_result" where
  "GoVerify C e w1 w2 tenantID operatorID =
     applyEvent C e w1 w2 tenantID operatorID EventGoVerify (\<lambda>s. s)"

definition VerifyDone :: "codec \<Rightarrow> env \<Rightarrow> world \<Rightarrow> world \<Rightarrow> uuid \<Rightarrow> uuid \<Rightarrow> op_result" where
  "VerifyDone C e w1 w2 tenantID operatorID =
     applyEvent C e w1 w2 tenantID operatorID EventVerifyDone (\<lambda>s. s)"

definition GetState :: "codec \<Rightarrow> env \<Rightarrow> world \<Rightarrow> uuid \<Rightarrow> uuid \<Rightarrow> dialer_error + api_Snapshot" where
  "GetState C e w tenantID operatorID =
     (case load C (eNow e) (eLoad e) (wOps w) tenantID operatorID of
        Inl err \<Rightarrow> Inl err | Inr cur \<Rightarrow> Inr (toAPI cur tenantID operatorID))"

section \<open>Force\<close>

definition Force ::
  "codec \<Rightarrow> env \<Rightarrow> world \<Rightarrow> world \<Rightarrow> uuid \<Rightarrow> uuid \<Rightarrow> State \<Rightarrow> ForceReason \<Rightarrow> op_result" where
  "Force C e w1 w2 tenantID operatorID target reason0 =
     (if \<not> State_Valid target then (Inl ErrUnknownState, w2) else
      let reason = (if ForceReason_Valid reason0 then reason0 else ForceReasonOther) in
      case load C (eNow e) (eLoad e) (wOps w1) tenantID operatorID of
        Inl err \<Rightarrow> (Inl err, w2)
      | Inr cur \<Rightarrow>
      if snState cur = target then (Inr (toAPI cur tenantID operatorID), w2) else
      let now = eNow e;
          updated = cur\<lparr>snState := target, snStateEnteredAt := now, snHeartbeatAt := now,
             snCurrentCallID := None, snRespondentID := None, snPauseReason := None,
             snOutcome := OutcomeUnknown\<rparr>;
          updated = (if target = StateOffline
             then updated\<lparr>snSessionID := None, snProjectID := None\<rparr> else updated);
          (r, ops) = casStore C (eCas e) (wOps w2) tenantID operatorID (snVersion cur) updated;
          w3 = w2\<lparr>wOps := ops\<rparr>
      in case r of
           Inl err \<Rightarrow> (Inl err, w3)
         | Inr _ \<Rightarrow>
           let updated = updated\<lparr>snVersion := snVersion cur + 1\<rparr>;
               db = (case snSessionID cur of
                  None \<Rightarrow> wDb w3
                | Some sid \<Rightarrow>
                  if target = StateOffline
                  then snd (closeSessionAndAudit (ePg e) (eFresh e) (wDb w3) tenantID operatorID sid
                        (ForceReason_string reason) now)
                  else snd (auditTransition (ePg e) (eFresh e) (wDb w3)
                        \<lparr>aeTenantID = tenantID, aeOperatorID = operatorID, aeSessionID = sid,
                         aeNewState = target, aeReason = ForceReason_string reason,
                         aeOccurredAt = now, aeProjectID = snProjectID updated,
                         aeCallID = snCurrentCallID updated,
                         aePauseReason = snPauseReason updated, aeExtraOutbox = None\<rparr>));
               out = toAPI updated tenantID operatorID
           in (Inr out, publish (w3\<lparr>wDb := db\<rparr>) out))"

section \<open>The interface as one step function\<close>

datatype fsm_op =
    OpStartShift StartShiftRequest
  | OpEndShift uuid uuid
  | OpGoReady uuid uuid
  | OpGoPause GoPauseRequest
  | OpResume uuid uuid
  | OpRecordCallStarted CallStartedRequest
  | OpRecordCallEnded CallEndedRequest
  | OpSubmitStatus SubmitStatusRequest
  | OpGoVerify uuid uuid
  | OpVerifyDone uuid uuid
  | OpForce uuid uuid State ForceReason

fun exec :: "codec \<Rightarrow> env \<Rightarrow> world \<Rightarrow> world \<Rightarrow> fsm_op \<Rightarrow> op_result" where
  "exec C e w1 w2 (OpStartShift req) = StartShift C e w1 w2 req"
| "exec C e w1 w2 (OpEndShift t u) = EndShift C e w1 w2 t u"
| "exec C e w1 w2 (OpGoReady t u) = GoReady C e w1 w2 t u"
| "exec C e w1 w2 (OpGoPause req) = GoPause C e w1 w2 req"
| "exec C e w1 w2 (OpResume t u) = Resume C e w1 w2 t u"
| "exec C e w1 w2 (OpRecordCallStarted req) = RecordCallStarted C e w1 w2 req"
| "exec C e w1 w2 (OpRecordCallEnded req) = RecordCallEnded C e w1 w2 req"
| "exec C e w1 w2 (OpSubmitStatus req) = SubmitStatus C e w1 w2 req"
| "exec C e w1 w2 (OpGoVerify t u) = GoVerify C e w1 w2 t u"
| "exec C e w1 w2 (OpVerifyDone t u) = VerifyDone C e w1 w2 t u"
| "exec C e w1 w2 (OpForce t u target reason) = Force C e w1 w2 t u target reason"

fun op_target :: "fsm_op \<Rightarrow> uuid \<times> uuid" where
  "op_target (OpStartShift req) = (ssTenantID req, ssOperatorID req)"
| "op_target (OpEndShift t u) = (t, u)"
| "op_target (OpGoReady t u) = (t, u)"
| "op_target (OpGoPause req) = (gpTenantID req, gpOperatorID req)"
| "op_target (OpResume t u) = (t, u)"
| "op_target (OpRecordCallStarted req) = (csTenantID req, csOperatorID req)"
| "op_target (OpRecordCallEnded req) = (ceTenantID req, ceOperatorID req)"
| "op_target (OpSubmitStatus req) = (stTenantID req, stOperatorID req)"
| "op_target (OpGoVerify t u) = (t, u)"
| "op_target (OpVerifyDone t u) = (t, u)"
| "op_target (OpForce t u target reason) = (t, u)"

end
