(* ===== verification/Fsm_Spec.thy ===== *)
theory Fsm_Spec
  imports Fsm_Machine
begin

text \<open>
  The contract of the operator state machine. \<open>decide\<close> is the abstract machine: from the
  operation and the loaded snapshot it gives an error, a replay that changes nothing, or the
  snapshot to commit. \<open>pipeline\<close> runs a decision against the store, and every method other than
  \<open>StartShift\<close> is the pipeline over its decision. The decisions keep the snapshot invariant.
\<close>

section \<open>The abstract machine\<close>

definition event_decision ::
  "time \<Rightarrow> Event \<Rightarrow> (Snapshot \<Rightarrow> Snapshot) \<Rightarrow> Snapshot \<Rightarrow> dialer_error + Snapshot option" where
  "event_decision now evt mutate cur =
     (case resolveTransition (snState cur) evt (snOutcome cur) of
        Inl err \<Rightarrow> Inl err
      | Inr nxt \<Rightarrow> Inr (Some (mutate (buildNextSnapshot cur nxt now))))"

definition offline_snapshot :: "time \<Rightarrow> Snapshot \<Rightarrow> Snapshot" where
  "offline_snapshot now cur = cur\<lparr>snState := StateOffline, snStateEnteredAt := now,
     snHeartbeatAt := now, snSessionID := None, snProjectID := None, snCurrentCallID := None,
     snRespondentID := None, snPauseReason := None, snOutcome := OutcomeUnknown\<rparr>"

definition forced_snapshot :: "time \<Rightarrow> State \<Rightarrow> Snapshot \<Rightarrow> Snapshot" where
  "forced_snapshot now target cur =
     (let s = cur\<lparr>snState := target, snStateEnteredAt := now, snHeartbeatAt := now,
        snCurrentCallID := None, snRespondentID := None, snPauseReason := None,
        snOutcome := OutcomeUnknown\<rparr>
      in if target = StateOffline then s\<lparr>snSessionID := None, snProjectID := None\<rparr> else s)"

fun decide :: "time \<Rightarrow> fsm_op \<Rightarrow> Snapshot \<Rightarrow> dialer_error + Snapshot option" where
  "decide now (OpStartShift req) cur =
     (if snState cur = StateReady then Inr None
      else if snState cur = StateOffline then Inr (Some cur) else Inl ErrInvalidTransition)"
| "decide now (OpEndShift t u) cur =
     (if snState cur = StateOffline then Inr None
      else case resolveTransition (snState cur) EventEndShift (snOutcome cur) of
             Inl err \<Rightarrow> Inl err | Inr _ \<Rightarrow> Inr (Some (offline_snapshot now cur)))"
| "decide now (OpGoReady t u) cur =
     event_decision now EventResume (\<lambda>s. s\<lparr>snPauseReason := None\<rparr>) cur"
| "decide now (OpGoPause req) cur =
     event_decision now EventGoPause (\<lambda>s. s\<lparr>snPauseReason :=
        (if gpReason req = '''' then None else Some (gpReason req))\<rparr>) cur"
| "decide now (OpResume t u) cur =
     event_decision now EventResume (\<lambda>s. s\<lparr>snPauseReason := None\<rparr>) cur"
| "decide now (OpRecordCallStarted req) cur =
     (if snCurrentCallID cur \<noteq> None \<and> snCurrentCallID cur \<noteq> Some (csCallID req)
      then Inl ErrInvalidTransition
      else if snState cur = StateCall \<and> snCurrentCallID cur = Some (csCallID req) then Inr None
      else event_decision now EventCallStarted (\<lambda>s. s\<lparr>snCurrentCallID := Some (csCallID req),
        snRespondentID := Some (csRespondentID req)\<rparr>) cur)"
| "decide now (OpRecordCallEnded req) cur =
     event_decision now EventCallEnded (\<lambda>s. s\<lparr>snOutcome := ceOutcome req\<rparr>) cur"
| "decide now (OpSubmitStatus req) cur =
     event_decision now EventStatusSubmitted (\<lambda>s. s\<lparr>snCurrentCallID := None,
        snRespondentID := None, snOutcome := OutcomeUnknown\<rparr>) cur"
| "decide now (OpGoVerify t u) cur = event_decision now EventGoVerify (\<lambda>s. s) cur"
| "decide now (OpVerifyDone t u) cur = event_decision now EventVerifyDone (\<lambda>s. s) cur"
| "decide now (OpForce t u target reason) cur =
     (if snState cur = target then Inr None else Inr (Some (forced_snapshot now target cur)))"

text \<open>The audit entry that goes with a committed decision.\<close>

definition effective_reason :: "ForceReason \<Rightarrow> ForceReason" where
  "effective_reason r = (if ForceReason_Valid r then r else ForceReasonOther)"

definition plain_entry :: "uuid \<times> uuid \<Rightarrow> uuid \<Rightarrow> string \<Rightarrow> time \<Rightarrow> Snapshot
   \<Rightarrow> callFinalizedEntry option \<Rightarrow> auditEntry" where
  "plain_entry tu sid reason now s extra =
     \<lparr>aeTenantID = fst tu, aeOperatorID = snd tu, aeSessionID = sid, aeNewState = snState s,
      aeReason = reason, aeOccurredAt = now, aeProjectID = snProjectID s,
      aeCallID = snCurrentCallID s, aePauseReason = snPauseReason s, aeExtraOutbox = extra\<rparr>"

definition audit_event :: "env \<Rightarrow> fsm_op \<Rightarrow> Snapshot \<Rightarrow> Snapshot \<Rightarrow> callFinalizedEntry option \<Rightarrow> database \<Rightarrow> database" where
  "audit_event e op cur s extra db =
     (case snSessionID cur of None \<Rightarrow> db
      | Some sid \<Rightarrow> if sid = uuid_Nil then db
          else snd (auditTransition (ePg e) (eFresh e) db (plain_entry (op_target op) sid '''' (eNow e) s extra)))"

definition audit_close :: "env \<Rightarrow> fsm_op \<Rightarrow> Snapshot \<Rightarrow> string \<Rightarrow> database \<Rightarrow> database" where
  "audit_close e op cur reason db =
     (case snSessionID cur of None \<Rightarrow> db
      | Some sid \<Rightarrow> snd (closeSessionAndAudit (ePg e) (eFresh e) db (fst (op_target op))
          (snd (op_target op)) sid reason (eNow e)))"

fun audit_db :: "env \<Rightarrow> fsm_op \<Rightarrow> Snapshot \<Rightarrow> Snapshot \<Rightarrow> database \<Rightarrow> database" where
  "audit_db e (OpEndShift t u) cur s db = audit_close e (OpEndShift t u) cur '''' db"
| "audit_db e (OpForce t u target reason) cur s db =
     (if target = StateOffline
      then audit_close e (OpForce t u target reason) cur (ForceReason_string (effective_reason reason)) db
      else case snSessionID cur of None \<Rightarrow> db
        | Some sid \<Rightarrow> snd (auditTransition (ePg e) (eFresh e) db
            (plain_entry (t, u) sid (ForceReason_string (effective_reason reason)) (eNow e) s None)))"
| "audit_db e (OpSubmitStatus req) cur s db =
     audit_event e (OpSubmitStatus req) cur s (callFinalizedExtras req cur s (eNow e)) db"
| "audit_db e op cur s db = audit_event e op cur s None db"

definition pipeline :: "codec \<Rightarrow> env \<Rightarrow> world \<Rightarrow> world \<Rightarrow> fsm_op \<Rightarrow> op_result" where
  "pipeline C e w1 w2 op =
     (let (t, u) = op_target op in
      case load C (eNow e) (eLoad e) (wOps w1) t u of
        Inl err \<Rightarrow> (Inl err, w2)
      | Inr cur \<Rightarrow>
     (case decide (eNow e) op cur of
        Inl err \<Rightarrow> (Inl err, w2)
      | Inr None \<Rightarrow> (Inr (toAPI cur t u), w2)
      | Inr (Some s) \<Rightarrow>
      let (r, ops) = casStore C (eCas e) (wOps w2) t u (snVersion cur) s
      in case r of
           Inl err \<Rightarrow> (Inl err, w2\<lparr>wOps := ops\<rparr>)
         | Inr _ \<Rightarrow> (Inr (toAPI s t u),
             publish (w2\<lparr>wOps := ops, wDb := audit_db e op cur s (wDb w2)\<rparr>) (toAPI s t u))))"

section \<open>The methods run their decisions\<close>

lemma toAPI_version [simp]: "toAPI (s\<lparr>snVersion := n\<rparr>) t u = toAPI s t u"
  by (simp add: toAPI_def)

lemma snState_buildNext [simp]: "snState (buildNextSnapshot cur nxt now) = nxt"
  by (simp add: buildNextSnapshot_def Let_def)

lemma applyEventFull_pipeline:
  assumes tgt: "op_target op = (t, u)"
    and dec: "\<And>cur. decide (eNow e) op cur =
      (case pre cur of Some err \<Rightarrow> Inl err
       | None \<Rightarrow> if rep cur then Inr None else event_decision (eNow e) evt mutate cur)"
    and aud: "\<And>cur s db. audit_db e op cur s db = audit_event e op cur s (ext cur s (eNow e)) db"
    and keeps: "\<And>s. snState (mutate s) = snState s"
    and extv: "\<And>cur s n. ext cur (s\<lparr>snVersion := n\<rparr>) (eNow e) = ext cur s (eNow e)"
  shows "applyEventFull C e w1 w2 t u evt pre mutate rep ext = pipeline C e w1 w2 op"
proof (cases "load C (eNow e) (eLoad e) (wOps w1) t u")
  case (Inl err)
  then show ?thesis by (simp add: applyEventFull_def pipeline_def tgt)
next
  case (Inr cur)
  show ?thesis
  proof (cases "pre cur = None \<and> \<not> rep cur")
    case False
    then show ?thesis
      by (auto simp: applyEventFull_def pipeline_def tgt Inr dec split: option.splits)
  next
    case True
    show ?thesis
    proof (cases "resolveTransition (snState cur) evt (snOutcome cur)")
      case (Inl err)
      then show ?thesis using True
        by (simp add: applyEventFull_def pipeline_def tgt \<open>load _ _ _ _ _ _ = Inr cur\<close> dec event_decision_def)
    next
      case nxt: (Inr nxt)
      then have "nxt \<noteq> snState cur" by (rule resolveTransition_moves)
      then show ?thesis using True nxt
        by (auto simp: applyEventFull_def pipeline_def tgt \<open>load _ _ _ _ _ _ = Inr cur\<close> dec
            event_decision_def Let_def aud audit_event_def plain_entry_def keeps extv publish_def
            split: prod.splits sum.splits option.splits)
    qed
  qed
qed

text \<open>The operations the pipeline describes: all but \<open>StartShift\<close> and a malformed \<open>Force\<close>.\<close>

fun piped :: "fsm_op \<Rightarrow> bool" where
  "piped (OpStartShift req) = False"
| "piped (OpForce t u target reason) = State_Valid target"
| "piped op = True"

lemmas apply_defs = applyEvent_def applyEventWith_def

lemma EndShift_pipeline: "EndShift C e w1 w2 t u = pipeline C e w1 w2 (OpEndShift t u)"
  by (auto simp: EndShift_def pipeline_def offline_snapshot_def audit_close_def Let_def
      split: sum.splits prod.splits option.splits)

lemma Force_pipeline:
  "State_Valid target \<Longrightarrow> Force C e w1 w2 t u target r = pipeline C e w1 w2 (OpForce t u target r)"
  by (auto simp: Force_def pipeline_def forced_snapshot_def offline_snapshot_def audit_close_def
      plain_entry_def effective_reason_def Let_def split: sum.splits prod.splits option.splits)

theorem exec_pipeline: "piped op \<Longrightarrow> exec C e w1 w2 op = pipeline C e w1 w2 op"
proof (cases op)
  case (OpForce t u target reason)
  then show "piped op \<Longrightarrow> ?thesis" by (simp add: Force_pipeline)
qed (auto simp: EndShift_pipeline GoReady_def GoPause_def Resume_def RecordCallStarted_def
    RecordCallEnded_def SubmitStatus_def GoVerify_def VerifyDone_def apply_defs
    callFinalizedExtras_def intro!: applyEventFull_pipeline split: option.splits)

section \<open>The snapshot invariant\<close>

text \<open>
  Off shift nothing is bound; an outcome is carried in wrap-up only; a pause reason exists in a
  pause only; call and respondent are set together.
\<close>

definition snap_inv :: "Snapshot \<Rightarrow> bool" where
  "snap_inv s \<longleftrightarrow>
     (snState s = StateOffline \<longrightarrow> snSessionID s = None \<and> snProjectID s = None \<and> snCurrentCallID s = None) \<and>
     (snOutcome s \<noteq> OutcomeUnknown \<longrightarrow> snState s = StateStatus) \<and>
     (snPauseReason s \<noteq> None \<longrightarrow> snState s = StatePause) \<and>
     (snCurrentCallID s = None \<longleftrightarrow> snRespondentID s = None)"

text \<open>Outcomes in requests are values of Go's string type.\<close>

fun op_ok :: "fsm_op \<Rightarrow> bool" where
  "op_ok (OpRecordCallEnded req) = Outcome_canonical (ceOutcome req)"
| "op_ok op = True"

lemma event_decision_cases:
  assumes "event_decision now evt mutate cur = Inr (Some s)"
  obtains nxt where "permitted (snState cur) evt (snOutcome cur) nxt" "nxt \<noteq> snState cur"
    "s = mutate (buildNextSnapshot cur nxt now)"
proof (cases "resolveTransition (snState cur) evt (snOutcome cur)")
  case (Inl err)
  then show thesis using assms by (simp add: event_decision_def)
next
  case (Inr nxt)
  then show thesis using assms that [OF resolveTransition_sound [OF Inr] resolveTransition_moves [OF Inr]]
    by (simp add: event_decision_def)
qed

inductive_simps permitted_event_simps:
  "permitted s EventResume r s'"
  "permitted s EventGoPause r s'"
  "permitted s EventCallStarted r s'"
  "permitted s EventCallEnded r s'"
  "permitted s EventStatusSubmitted r s'"
  "permitted s EventGoVerify r s'"
  "permitted s EventVerifyDone r s'"

lemma buildNext_fields:
  "snSessionID (buildNextSnapshot cur nxt now) = snSessionID cur"
  "snProjectID (buildNextSnapshot cur nxt now) = snProjectID cur"
  "snCurrentCallID (buildNextSnapshot cur nxt now) = snCurrentCallID cur"
  "snRespondentID (buildNextSnapshot cur nxt now) = snRespondentID cur"
  "snPauseReason (buildNextSnapshot cur nxt now) = snPauseReason cur"
  "snTenantID (buildNextSnapshot cur nxt now) = snTenantID cur"
  "snVersion (buildNextSnapshot cur nxt now) = snVersion cur"
  "snStateEnteredAt (buildNextSnapshot cur nxt now) = now"
  "snHeartbeatAt (buildNextSnapshot cur nxt now) = now"
  "snOutcome (buildNextSnapshot cur nxt now) =
     (if snState cur = StateStatus \<and> nxt \<noteq> StateStatus then OutcomeUnknown else snOutcome cur)"
  by (simp_all add: buildNextSnapshot_def Let_def)

text \<open>
  An event decision keeps the invariant when its hook does, on the snapshot the event builds.
\<close>

lemma event_decision_inv:
  assumes "event_decision now evt mutate cur = Inr (Some s)"
    and "\<And>nxt. permitted (snState cur) evt (snOutcome cur) nxt \<Longrightarrow>
      snap_inv (mutate (buildNextSnapshot cur nxt now))"
  shows "snap_inv s"
  using assms by (blast elim: event_decision_cases)

lemma decide_inv:
  assumes inv: "snap_inv cur" and p: "piped op" and d: "decide now op cur = Inr (Some s)"
  shows "snap_inv s"
proof (cases op)
  case (OpStartShift req)
  with p show ?thesis by simp
next
  case (OpForce t u target r)
  with inv d show ?thesis
    by (auto simp: snap_inv_def forced_snapshot_def Let_def split: if_splits)
next
  case (OpEndShift t u)
  with d show ?thesis
    by (auto simp: snap_inv_def offline_snapshot_def split: if_splits sum.splits)
next
  case (OpRecordCallStarted req)
  with d have "event_decision now EventCallStarted (\<lambda>s. s\<lparr>snCurrentCallID := Some (csCallID req),
        snRespondentID := Some (csRespondentID req)\<rparr>) cur = Inr (Some s)"
    by (simp split: if_splits)
  then show ?thesis
    by (rule event_decision_inv) (use inv in \<open>auto simp: permitted_event_simps snap_inv_def buildNext_fields\<close>)
next
  case (OpGoReady t u)
  show ?thesis
    by (rule event_decision_inv [OF d [unfolded OpGoReady decide.simps]])
      (use inv in \<open>auto simp: permitted_event_simps snap_inv_def buildNext_fields\<close>)
next
  case (OpGoPause req)
  show ?thesis
    by (rule event_decision_inv [OF d [unfolded OpGoPause decide.simps]])
      (use inv in \<open>auto simp: permitted_event_simps snap_inv_def buildNext_fields\<close>)
next
  case (OpResume t u)
  show ?thesis
    by (rule event_decision_inv [OF d [unfolded OpResume decide.simps]])
      (use inv in \<open>auto simp: permitted_event_simps snap_inv_def buildNext_fields\<close>)
next
  case (OpRecordCallEnded req)
  show ?thesis
    by (rule event_decision_inv [OF d [unfolded OpRecordCallEnded decide.simps]])
      (use inv in \<open>auto simp: permitted_event_simps snap_inv_def buildNext_fields\<close>)
next
  case (OpSubmitStatus req)
  show ?thesis
    by (rule event_decision_inv [OF d [unfolded OpSubmitStatus decide.simps]])
      (use inv in \<open>auto simp: permitted_event_simps snap_inv_def buildNext_fields\<close>)
next
  case (OpGoVerify t u)
  show ?thesis
    by (rule event_decision_inv [OF d [unfolded OpGoVerify decide.simps]])
      (use inv in \<open>auto simp: permitted_event_simps snap_inv_def buildNext_fields\<close>)
next
  case (OpVerifyDone t u)
  show ?thesis
    by (rule event_decision_inv [OF d [unfolded OpVerifyDone decide.simps]])
      (use inv in \<open>auto simp: permitted_event_simps snap_inv_def buildNext_fields\<close>)
qed

end
