(* ===== verification/Uuid_Text.thy ===== *)
theory Uuid_Text
  imports Fsm_Store
begin

text \<open>
  An instance of the codec interface: UUIDs in the canonical form of RFC 4122 (32 lower-case
  hexadecimal digits in groups of 8, 4, 4, 4 and 12 joined by hyphens), which is what
  \<open>uuid.UUID.String\<close> prints, and instants as the decimal count of nanoseconds. The witnesses
  of the state machine's properties run on it.
\<close>

fun pad16 :: "nat \<Rightarrow> nat \<Rightarrow> nat list" where
  "pad16 0 n = []"
| "pad16 (Suc k) n = pad16 k (n div 16) @ [n mod 16]"

definition hex_char :: "nat \<Rightarrow> char" where
  "hex_char d = (if d < 10 then char_of (48 + d) else char_of (87 + d))"

definition hex_val :: "char \<Rightarrow> nat" where
  "hex_val c = (if (of_char c :: nat) < 58 then of_char c - 48 else of_char c - 87)"

definition is_hex :: "char \<Rightarrow> bool" where
  "is_hex c \<longleftrightarrow> (let n = of_char c :: nat in (48 \<le> n \<and> n \<le> 57) \<or> (97 \<le> n \<and> n \<le> 102))"

definition hyphenated :: "string \<Rightarrow> string" where
  "hyphenated ds = take 8 ds @ ''-'' @ take 4 (drop 8 ds) @ ''-'' @ take 4 (drop 12 ds) @ ''-'' @
     take 4 (drop 16 ds) @ ''-'' @ drop 20 ds"

definition uuid_text :: "uuid \<Rightarrow> string" where
  "uuid_text u = hyphenated (map hex_char (pad16 32 (unat u)))"

definition uuid_of_text :: "string \<Rightarrow> uuid option" where
  "uuid_of_text s =
     (let ds = filter (\<lambda>c. c \<noteq> CHR ''-'') s in
      if hyphenated ds = s \<and> length ds = 32 \<and> list_all is_hex ds
      then Some (of_nat (foldl (\<lambda>a d. 16 * a + d) 0 (map hex_val ds))) else None)"

definition canonical_codec :: codec where
  "canonical_codec = \<lparr>uuid_String = uuid_text, uuid_Parse = uuid_of_text,
     time_Format = FormatInt, time_Parse = ParseInt64, time_ok = in_int64\<rparr>"

lemma length_pad16 [simp]: "length (pad16 k n) = k"
  by (induction k arbitrary: n) simp_all

lemma pad16_less: "d \<in> set (pad16 k n) \<Longrightarrow> d < 16"
  by (induction k arbitrary: n) auto

lemma pad16_value: "foldl (\<lambda>a d. 16 * a + d) 0 (pad16 k n) = n mod 16 ^ k"
  by (induction k arbitrary: n) (simp_all add: mod_mult2_eq)

lemma of_char_hex_char: "d < 16 \<Longrightarrow> (of_char (hex_char d) :: nat) = (if d < 10 then 48 + d else 87 + d)"
  by (simp add: hex_char_def)

lemma hex_val_char: "d < 16 \<Longrightarrow> hex_val (hex_char d) = d"
  by (simp add: hex_val_def of_char_hex_char)

lemma is_hex_char: "d < 16 \<Longrightarrow> is_hex (hex_char d)"
  by (simp add: is_hex_def of_char_hex_char)

lemma is_hex_not: "is_hex c \<Longrightarrow> c \<noteq> CHR ''-'' \<and> c \<noteq> CHR '':''"
  by (auto simp: is_hex_def)

lemma filter_hyphenated:
  assumes "CHR ''-'' \<notin> set ds"
  shows "filter (\<lambda>c. c \<noteq> CHR ''-'') (hyphenated ds) = ds"
proof -
  have id: "filter (\<lambda>c. c \<noteq> CHR ''-'') xs = xs" if "set xs \<subseteq> set ds" for xs
    using that assms by (intro filter_True) auto
  have sub: "set (take n (drop m ds)) \<subseteq> set ds" "set (drop m ds) \<subseteq> set ds" "set (take n ds) \<subseteq> set ds"
    for n m
    by (auto dest: in_set_takeD in_set_dropD)
  have "filter (\<lambda>c. c \<noteq> CHR ''-'') (hyphenated ds) =
      take 8 ds @ take 4 (drop 8 ds) @ take 4 (drop 12 ds) @ take 4 (drop 16 ds) @ drop 20 ds"
    by (simp add: hyphenated_def id sub)
  also have "\<dots> = ds"
  proof -
    have "take 4 (drop n ds) @ drop (n + 4) ds = drop n ds" for n
      by (metis append_take_drop_id drop_drop add.commute)
    from this [of 16] this [of 12] this [of 8] show ?thesis by simp
  qed
  finally show ?thesis .
qed

lemma set_hyphenated: "set (hyphenated ds) \<subseteq> insert (CHR ''-'') (set ds)"
  by (auto simp: hyphenated_def dest: in_set_takeD in_set_dropD)

lemma map_hex_val_char: "(\<And>d. d \<in> set ds \<Longrightarrow> d < 16) \<Longrightarrow> map (hex_val \<circ> hex_char) ds = ds"
  by (induction ds) (simp_all add: hex_val_char)

lemma hex_digits: "list_all is_hex (map hex_char (pad16 k n))"
  by (auto simp: list_all_iff intro: is_hex_char pad16_less)

lemma uuid_of_text_text: "uuid_of_text (uuid_text u) = Some u"
proof -
  let ?ds = "map hex_char (pad16 32 (unat u))"
  have "CHR ''-'' \<notin> set ?ds"
    using hex_digits [of 32 "unat u"] is_hex_not unfolding list_all_iff by blast
  then have f: "filter (\<lambda>c. c \<noteq> CHR ''-'') (uuid_text u) = ?ds"
    unfolding uuid_text_def by (rule filter_hyphenated)
  have "unat u < 2 ^ LENGTH(128)" by (rule unsigned_less)
  then have "unat u mod 16 ^ 32 = unat u" by (intro mod_less) simp
  then have "foldl (\<lambda>a d. 16 * a + d) 0 (map hex_val ?ds) = unat u"
    using map_hex_val_char [OF pad16_less] pad16_value [of 32 "unat u"] by (simp add: comp_def)
  then show ?thesis
    unfolding uuid_of_text_def f Let_def using hex_digits [of 32 "unat u"]
    by (simp add: uuid_text_def)
qed

lemma FormatInt_no_colon: "CHR '':'' \<notin> set (FormatInt n)"
  using nat_dec_digits is_digit_no_sign by (auto simp: FormatInt_def list_all_iff)

interpretation canonical: hash_codec canonical_codec
proof
  fix u :: uuid
  show "uuid_Parse canonical_codec (uuid_String canonical_codec u) = Some u"
    by (simp add: canonical_codec_def uuid_of_text_text)
  show "uuid_String canonical_codec u \<noteq> ''''"
    by (simp add: canonical_codec_def uuid_text_def hyphenated_def)
  show "CHR '':'' \<notin> set (uuid_String canonical_codec u)"
    using set_hyphenated hex_digits [of 32 "unat u"] is_hex_not
    by (fastforce simp: canonical_codec_def uuid_text_def list_all_iff)
next
  fix t :: time
  show "time_ok canonical_codec t \<Longrightarrow>
      time_Parse canonical_codec (time_Format canonical_codec t) = Some t"
    by (simp add: canonical_codec_def ParseInt64_FormatInt)
  show "time_Format canonical_codec t \<noteq> ''''"
    by (simp add: canonical_codec_def)
qed

end
