(* ===== verification/Fsm_Runs.thy ===== *)
theory Fsm_Runs
  imports Fsm_Spec Uuid_Text
begin

text \<open>
  Replicas of the operator state machine running concurrently. A call loads in one world and
  commits in a later one, so a run is a relation in which any run may happen between the two.
  The world invariant holds in every reachable world, versions grow along runs that do not
  reopen a shift, and there a committed call has the effect of the same call run atomically.
\<close>

section \<open>The world invariant\<close>

definition fsm_inv :: "codec \<Rightarrow> world \<Rightarrow> bool" where
  "fsm_inv C w \<longleftrightarrow> hashes_ok C (wOps w) \<and>
     (\<forall>t u s. stored C (wOps w) t u = Some s \<longrightarrow> snap_inv s)"

text \<open>The snapshot a call works on when Redis answers.\<close>

definition view :: "codec \<Rightarrow> time \<Rightarrow> world \<Rightarrow> uuid \<Rightarrow> uuid \<Rightarrow> Snapshot" where
  "view C now w t u = (case stored C (wOps w) t u of None \<Rightarrow> synthetic now | Some s \<Rightarrow> s)"

lemma snVersion_synthetic [simp]: "snVersion (synthetic now) = 0"
  by (simp add: synthetic_def zero_Snapshot_def)

lemma view_version: "snVersion (view C now w t u) = stored_version (stored C (wOps w) t u)"
  by (simp add: view_def stored_version_def split: option.splits)

lemma snap_inv_synthetic: "snap_inv (synthetic now)"
  by (simp add: snap_inv_def synthetic_def zero_Snapshot_def)

lemma snap_inv_view: "fsm_inv C w \<Longrightarrow> snap_inv (view C now w t u)"
  by (auto simp: fsm_inv_def view_def snap_inv_synthetic split: option.splits)

lemma writable_stored:
  "hashes_ok C ops \<Longrightarrow> stored C ops t u = Some s \<Longrightarrow> writable C t s"
  using hashes_okD [of C ops t u] by (auto simp: stored_def hash_ok_def writable_def Let_def
      split: if_splits sum.splits)

lemma writable_synthetic: "time_ok C now \<Longrightarrow> writable C t (synthetic now)"
  by (simp add: synthetic_def zero_Snapshot_def writable_def snap_wf_def in_int64_def)

lemma writable_view: "fsm_inv C w \<Longrightarrow> time_ok C now \<Longrightarrow> writable C t (view C now w t u)"
  by (cases "stored C (wOps w) t u")
    (auto simp: fsm_inv_def view_def writable_synthetic intro: writable_stored)

lemma load_lost: "net \<noteq> CallOk \<Longrightarrow> load C now net ops t u = Inl ErrTransport"
  by (simp add: load_def)

lemma fsm_inv_cong: "wOps w' = wOps w \<Longrightarrow> fsm_inv C w' \<longleftrightarrow> fsm_inv C w"
  by (simp add: fsm_inv_def)

section \<open>Decisions write well-formed snapshots\<close>

lemma event_decision_writable:
  assumes "event_decision now evt mutate cur = Inr (Some s)"
    and "\<And>nxt. State_Valid nxt \<Longrightarrow> writable C t (mutate (buildNextSnapshot cur nxt now))"
  shows "writable C t s"
  using assms resolveTransition_Valid
  by (auto simp: event_decision_def split: sum.splits)

lemmas writable_simps = writable_def snap_wf_def buildNext_fields

lemma decide_writable:
  assumes cur: "writable C t cur" and now: "time_ok C now" and op: "piped op" "op_ok op"
    and d: "decide now op cur = Inr (Some s)"
  shows "writable C t s"
proof (cases op)
  case (OpForce t u target r)
  with cur now op d show ?thesis
    by (auto simp: writable_simps forced_snapshot_def Let_def split: if_splits)
next
  case (OpEndShift t u)
  with cur now d show ?thesis
    by (auto simp: writable_simps offline_snapshot_def split: if_splits sum.splits)
next
  case (OpRecordCallStarted req)
  with d have "event_decision now EventCallStarted (\<lambda>s. s\<lparr>snCurrentCallID := Some (csCallID req),
        snRespondentID := Some (csRespondentID req)\<rparr>) cur = Inr (Some s)"
    by (simp split: if_splits)
  then show ?thesis
    by (rule event_decision_writable) (use cur now in \<open>auto simp: writable_simps\<close>)
next
  case (OpGoReady t u)
  show ?thesis by (rule event_decision_writable [OF d [unfolded OpGoReady decide.simps]])
    (use cur now in \<open>auto simp: writable_simps\<close>)
next
  case (OpGoPause req)
  show ?thesis by (rule event_decision_writable [OF d [unfolded OpGoPause decide.simps]])
    (use cur now in \<open>auto simp: writable_simps\<close>)
next
  case (OpResume t u)
  show ?thesis by (rule event_decision_writable [OF d [unfolded OpResume decide.simps]])
    (use cur now in \<open>auto simp: writable_simps\<close>)
next
  case (OpRecordCallEnded req)
  show ?thesis by (rule event_decision_writable [OF d [unfolded OpRecordCallEnded decide.simps]])
    (use cur now op OpRecordCallEnded in \<open>auto simp: writable_simps\<close>)
next
  case (OpSubmitStatus req)
  show ?thesis by (rule event_decision_writable [OF d [unfolded OpSubmitStatus decide.simps]])
    (use cur now in \<open>auto simp: writable_simps\<close>)
next
  case (OpGoVerify t u)
  show ?thesis by (rule event_decision_writable [OF d [unfolded OpGoVerify decide.simps]])
    (use cur now in \<open>auto simp: writable_simps\<close>)
next
  case (OpVerifyDone t u)
  show ?thesis by (rule event_decision_writable [OF d [unfolded OpVerifyDone decide.simps]])
    (use cur now in \<open>auto simp: writable_simps\<close>)
qed (use op in simp)

lemma decide_version:
  "piped op \<Longrightarrow> decide now op cur = Inr (Some s) \<Longrightarrow> snVersion s = snVersion cur"
  by (cases op) (auto simp: event_decision_def buildNext_fields offline_snapshot_def
      forced_snapshot_def Let_def split: if_splits sum.splits)

section \<open>What one call does to the store\<close>

lemma snap_inv_version [simp]: "snap_inv (s\<lparr>snVersion := n\<rparr>) = snap_inv s"
  by (simp add: snap_inv_def)

lemma publish_ops [simp]: "wOps (publish w out) = wOps w"
  by (simp add: publish_def)

definition commits :: "codec \<Rightarrow> world \<Rightarrow> world \<Rightarrow> uuid \<Rightarrow> uuid \<Rightarrow> Snapshot \<Rightarrow> bool" where
  "commits C w w' t u s \<longleftrightarrow> (\<forall>t' u'. stored C (wOps w') t' u' =
     (if t' = t \<and> u' = u then Some s else stored C (wOps w) t' u'))"

lemma fsm_inv_commits:
  "fsm_inv C w \<Longrightarrow> hashes_ok C (wOps w') \<Longrightarrow> commits C w w' t u s \<Longrightarrow> snap_inv s \<Longrightarrow> fsm_inv C w'"
  by (auto simp: fsm_inv_def commits_def split: if_splits)

context hash_codec
begin

lemma load_view: "fsm_inv C w \<Longrightarrow> load C now CallOk (wOps w) t u = Inr (view C now w t u)"
  by (simp add: fsm_inv_def load_spec view_def)

text \<open>
  A call of the pipeline leaves the store alone or commits what it decided on the snapshot it
  loaded, and that only if the stored version is still the loaded one.
\<close>

lemma pipeline_step:
  assumes inv: "fsm_inv C w1" "fsm_inv C w2" and now: "time_ok C (eNow e)"
    and op: "piped op" "op_ok op" "op_target op = (t, u)"
    and run: "pipeline C e w1 w2 op = (r, w3)"
  defines "cur \<equiv> view C (eNow e) w1 t u"
  shows "fsm_inv C w3 \<and> (wOps w3 = wOps w2 \<or>
     (\<exists>s n. decide (eNow e) op cur = Inr (Some s) \<and>
        snVersion cur = stored_version (stored C (wOps w2) t u) \<and>
        (n = snVersion cur + 1 \<or> n = snVersion cur \<and> snVersion cur = int64_max) \<and>
        commits C w2 w3 t u (s\<lparr>snVersion := n\<rparr>)))"
proof (cases "eLoad e = CallOk \<and> (\<exists>s. decide (eNow e) op cur = Inr (Some s))")
  case False
  then have "wOps w3 = wOps w2" using run op inv
    by (cases "eLoad e = CallOk")
      (auto simp: pipeline_def load_view cur_def load_lost split: sum.splits option.splits)
  then show ?thesis using inv fsm_inv_cong by metis
next
  case True
  then obtain s where s: "eLoad e = CallOk" "decide (eNow e) op cur = Inr (Some s)" by blast
  have w: "writable C t s" and si: "snap_inv s"
    using decide_writable [OF writable_view now op(1,2) s(2) [unfolded cur_def]]
      decide_inv [OF snap_inv_view op(1) s(2) [unfolded cur_def]] inv now by blast+
  obtain q ops where cas: "casStore C (eCas e) (wOps w2) t u (snVersion cur) s = (q, ops)" by fastforce
  have ops: "wOps w3 = ops" using run op s inv cas
    by (auto simp: pipeline_def load_view cur_def [symmetric] split: sum.splits)
  have ok2: "hashes_ok C (wOps w2)" using inv by (simp add: fsm_inv_def)
  note spec = casStore_spec [OF ok2 w cas, folded ops, folded commits_def]
  show ?thesis
  proof (cases "wOps w3 = wOps w2")
    case True
    then show ?thesis using inv fsm_inv_cong by metis
  next
    case False
    with spec obtain n where n: "snVersion cur = stored_version (stored C (wOps w2) t u)"
      "n = snVersion cur + 1 \<or> n = snVersion cur \<and> snVersion cur = int64_max"
      "commits C w2 w3 t u (s\<lparr>snVersion := n\<rparr>)"
      by blast
    have "fsm_inv C w3" using fsm_inv_commits [OF inv(2) _ n(3)] spec si by simp
    then show ?thesis using n s by blast
  qed
qed

end

context hash_codec
begin

text \<open>\<open>StartShift\<close> leaves the snapshots alone or opens a shift over an absent or offline one.\<close>

lemma StartShift_step:
  assumes inv: "fsm_inv C w2" and now: "time_ok C (eNow e)"
    and run: "StartShift C e w1 w2 req = (r, w3)"
  defines "t \<equiv> ssTenantID req" and "u \<equiv> ssOperatorID req"
  shows "fsm_inv C w3 \<and> (wOps w3 = wOps w2 \<or>
     ((\<forall>s0. stored C (wOps w2) t u = Some s0 \<longrightarrow> snState s0 = StateOffline) \<and>
      (\<exists>s. opens_shift C t s \<and> commits C w2 w3 t u (reopened (stored C (wOps w2) t u) s))))"
proof (cases "wOps w3 = wOps w2")
  case True
  then show ?thesis using inv fsm_inv_cong by metis
next
  case False
  define s where "s sid = zero_Snapshot\<lparr>snState := StateReady, snStateEnteredAt := eNow e,
    snHeartbeatAt := eNow e, snTenantID := t, snSessionID := Some sid,
    snProjectID := Some (ssProjectID req)\<rparr>" for sid
  from False run obtain sid rc where cas:
      "startShiftCAS C (eCas e) (wOps w2) t u (s sid) = (rc, wOps w3)"
    by (auto simp: StartShift_def Let_def t_def u_def s_def
        split: sum.splits prod.splits if_splits start_result.splits)
  have opens: "opens_shift C t (s sid)" using now by (simp add: opens_shift_def s_def)
  have ok2: "hashes_ok C (wOps w2)" using inv by (simp add: fsm_inv_def)
  note spec = startShiftCAS_spec [OF ok2 opens cas]
  from spec False have off: "\<forall>s0. stored C (wOps w2) t u = Some s0 \<longrightarrow> snState s0 = StateOffline"
    and com: "commits C w2 w3 t u (reopened (stored C (wOps w2) t u) (s sid))"
    by (auto simp: commits_def)
  have "snap_inv (reopened (stored C (wOps w2) t u) (s sid))"
  proof (cases "stored C (wOps w2) t u")
    case None
    then show ?thesis by (simp add: reopened_def snap_inv_def s_def zero_Snapshot_def)
  next
    case (Some s0)
    then have "snap_inv s0" "snState s0 = StateOffline" using inv off by (auto simp: fsm_inv_def)
    then show ?thesis using Some by (auto simp: reopened_def snap_inv_def s_def)
  qed
  then have "fsm_inv C w3" using fsm_inv_commits [OF inv _ com] spec by blast
  then show ?thesis using off com opens by blast
qed

lemma op_kinds:
  obtains (start) req where "op = OpStartShift req"
  | (bad) "exec C e w1 w2 op = (Inl ErrUnknownState, w2)"
  | (piped) "piped op"
proof (cases op)
  case (OpForce t u target reason)
  then show ?thesis using bad piped by (cases "State_Valid target") (simp_all add: Force_def)
qed (use start piped in auto)

lemma exec_inv:
  assumes "fsm_inv C w1" "fsm_inv C w2" "time_ok C (eNow e)" "op_ok op"
  shows "fsm_inv C (snd (exec C e w1 w2 op))"
proof -
  obtain t u where tgt: "op_target op = (t, u)" by fastforce
  show ?thesis
  proof (cases rule: op_kinds [where op = op and e = e and ?w1.0 = w1 and ?w2.0 = w2])
    case (start req)
    then show ?thesis using StartShift_step [OF assms(2,3), of w1 req] by (metis exec.simps(1) prod.collapse)
  next
    case bad
    then show ?thesis using assms by simp
  next
    case piped
    then show ?thesis
      using pipeline_step [OF assms(1-3) piped assms(4) tgt] exec_pipeline [OF piped] by (metis prod.collapse)
  qed
qed

end

section \<open>Concurrent runs\<close>

text \<open>
  What happens to the world: calls of the interface, expiry of an operator's key, and changes of
  the presence keys. A run is restricted to the actions that \<open>Q\<close> allows.
\<close>

datatype action = Call fsm_op | Expire uuid uuid

inductive run :: "codec \<Rightarrow> (action \<Rightarrow> bool) \<Rightarrow> world \<Rightarrow> world \<Rightarrow> bool" for C Q where
  idle: "run C Q w w"
| call: "run C Q w w1 \<Longrightarrow> run C Q w1 w2 \<Longrightarrow> time_ok C (eNow e) \<Longrightarrow> op_ok op \<Longrightarrow> Q (Call op) \<Longrightarrow>
    run C Q w (snd (exec C e w1 w2 op))"
| expire: "run C Q w w1 \<Longrightarrow> Q (Expire t u) \<Longrightarrow>
    run C Q w (w1\<lparr>wOps := (wOps w1)(opKey C t u := Map.empty)\<rparr>)"
| presence: "run C Q w w1 \<Longrightarrow> run C Q w (w1\<lparr>wPresence := p\<rparr>)"

lemma run_trans: "run C Q w w1 \<Longrightarrow> run C Q w1 w2 \<Longrightarrow> run C Q w w2"
  by (rotate_tac 1) (induction rule: run.induct, (blast intro: run.intros)+)

context hash_codec
begin

lemma fsm_inv_expire:
  "fsm_inv C w \<Longrightarrow> fsm_inv C (w\<lparr>wOps := (wOps w)(opKey C t u := Map.empty)\<rparr>)"
  by (auto simp: fsm_inv_def stored_upd hash_ok_def intro!: hashes_ok_upd split: if_splits)

lemma run_inv: "run C Q w w' \<Longrightarrow> fsm_inv C w \<Longrightarrow> fsm_inv C w'"
proof (induction rule: run.induct)
  case (call w w1 w2 e op)
  then show ?case using exec_inv by blast
next
  case (expire w w1 t u)
  then show ?case using fsm_inv_expire by blast
next
  case (presence w w1 p)
  then show ?case using fsm_inv_cong [of "w1\<lparr>wPresence := p\<rparr>" w1] by simp
qed

end

lemma fsm_inv_empty: "fsm_inv C empty_world"
  by (simp add: fsm_inv_def empty_world_def hashes_ok_def hash_ok_def stored_def)

section \<open>Versions and atomicity\<close>

text \<open>Actions that do not reopen a shift of the operator and do not expire its key.\<close>

fun quiet :: "uuid \<Rightarrow> uuid \<Rightarrow> action \<Rightarrow> bool" where
  "quiet t u (Call (OpStartShift req)) \<longleftrightarrow> (ssTenantID req, ssOperatorID req) \<noteq> (t, u)"
| "quiet t u (Call op) \<longleftrightarrow> True"
| "quiet t u (Expire t' u') \<longleftrightarrow> (t', u') \<noteq> (t, u)"

definition advances :: "Snapshot option \<Rightarrow> Snapshot option \<Rightarrow> bool" where
  "advances p q \<longleftrightarrow> stored_version p \<le> stored_version q \<and>
     (stored_version p = stored_version q \<and> stored_version q < int64_max \<longrightarrow> p = q)"

lemma advances_refl [simp]: "advances p p"
  by (simp add: advances_def)

lemma advances_trans: "advances p q \<Longrightarrow> advances q r \<Longrightarrow> advances p r"
  by (auto simp: advances_def)

context hash_codec
begin

lemma exec_advances:
  assumes inv: "fsm_inv C w1" "fsm_inv C w2" and now: "time_ok C (eNow e)" and op: "op_ok op"
    and q: "quiet t u (Call op)"
  shows "advances (stored C (wOps w2) t u) (stored C (wOps (snd (exec C e w1 w2 op))) t u)"
proof (cases rule: op_kinds [where op = op and e = e and ?w1.0 = w1 and ?w2.0 = w2])
  case (start req)
  obtain r w3 where st: "StartShift C e w1 w2 req = (r, w3)" by fastforce
  have "stored C (wOps w3) t u = stored C (wOps w2) t u"
    using StartShift_step [OF inv(2) now st] q start by (auto simp: commits_def)
  then show ?thesis using start st by simp
next
  case bad
  then show ?thesis by simp
next
  case piped
  obtain t' u' where tgt: "op_target op = (t', u')" by fastforce
  obtain r w3 where ex: "pipeline C e w1 w2 op = (r, w3)" by fastforce
  have "advances (stored C (wOps w2) t u) (stored C (wOps w3) t u)"
    using pipeline_step [OF inv now piped op tgt ex]
    by (auto simp: commits_def advances_def stored_version_def)
  then show ?thesis using exec_pipeline [OF piped] ex by simp
qed

text \<open>While no shift is reopened, the version grows with every change of the snapshot.\<close>

lemma run_advances:
  assumes "run C (quiet t u) w w'" and "fsm_inv C w"
  shows "advances (stored C (wOps w) t u) (stored C (wOps w') t u)"
  using assms
proof (induction rule: run.induct)
  case (call w w1 w2 e op)
  have inv: "fsm_inv C w1" "fsm_inv C w2" using call run_inv by blast+
  show ?case
    using exec_advances [OF inv call.hyps(3-5)] call.IH call.prems inv advances_trans by meson
next
  case (expire w w1 t' u')
  then have "t' \<noteq> t \<or> u' \<noteq> u" by auto
  then have "stored C ((wOps w1)(opKey C t' u' := Map.empty)) t u = stored C (wOps w1) t u"
    using stored_upd [of "wOps w1" t' u' Map.empty t u] by auto
  then show ?case using expire by (simp del: fun_upd_apply)
qed simp_all

lemma load_cong:
  assumes "fsm_inv C w1" "fsm_inv C w2" "stored C (wOps w1) t u = stored C (wOps w2) t u"
  shows "load C now net (wOps w1) t u = load C now net (wOps w2) t u"
  using assms by (cases "net = CallOk") (simp_all add: load_view view_def load_lost)

text \<open>
  A call that changed the store, with any quiet run of other calls between its load and its
  commit, found the snapshot it had loaded and did what it would have done atomically.
\<close>

lemma commit_atomic:
  assumes inv: "fsm_inv C w1" and run: "run C (quiet t u) w1 w2"
    and now: "time_ok C (eNow e)" and op: "piped op" "op_ok op" "op_target op = (t, u)"
    and max: "stored_version (stored C (wOps w2) t u) < int64_max"
    and changed: "wOps (snd (exec C e w1 w2 op)) \<noteq> wOps w2"
  shows "stored C (wOps w1) t u = stored C (wOps w2) t u \<and> exec C e w1 w2 op = exec C e w2 w2 op"
proof -
  have inv2: "fsm_inv C w2" using run_inv run inv by blast
  obtain r w3 where ex: "pipeline C e w1 w2 op = (r, w3)" by fastforce
  have "stored_version (stored C (wOps w1) t u) = stored_version (stored C (wOps w2) t u)"
    using pipeline_step [OF inv inv2 now op ex] changed ex exec_pipeline [OF op(1)]
    by (auto simp: view_version)
  then have eq: "stored C (wOps w1) t u = stored C (wOps w2) t u"
    using run_advances [OF run inv] max by (simp add: advances_def)
  then show ?thesis
    using load_cong [OF inv inv2 eq] op(3) by (simp add: exec_pipeline [OF op(1)] pipeline_def)
qed

end

section \<open>Calls whose remote calls succeed\<close>

definition env_ok :: "codec \<Rightarrow> env \<Rightarrow> bool" where
  "env_ok C e \<longleftrightarrow> time_ok C (eNow e) \<and> eLoad e = CallOk \<and> eCas e = CallOk"

context hash_codec
begin

lemma casStore_fresh:
  assumes ok: "hashes_ok C ops" and "v = stored_version (stored C ops t u)" and "v < int64_max"
  shows "fst (casStore C CallOk ops t u v s) = Inr ()"
  using hashes_ok_version [OF ok, of t u] assms(2,3) by (simp add: casStore_def transition_lua_def Let_def)

lemma exec_refused:
  assumes "fsm_inv C w1" "env_ok C e" "piped op" "op_target op = (t, u)"
    and "decide (eNow e) op (view C (eNow e) w1 t u) = Inl err"
  shows "exec C e w1 w2 op = (Inl err, w2)"
  using assms by (simp add: exec_pipeline pipeline_def env_ok_def load_view)

lemma exec_replayed:
  assumes "fsm_inv C w1" "env_ok C e" "piped op" "op_target op = (t, u)"
    and "decide (eNow e) op (view C (eNow e) w1 t u) = Inr None"
  shows "exec C e w1 w2 op = (Inr (toAPI (view C (eNow e) w1 t u) t u), w2)"
  using assms by (simp add: exec_pipeline pipeline_def env_ok_def load_view)

lemma exec_conflict:
  assumes "fsm_inv C w1" "fsm_inv C w2" "env_ok C e" "piped op" "op_target op = (t, u)"
    and "decide (eNow e) op (view C (eNow e) w1 t u) = Inr (Some s)"
    and "snVersion (view C (eNow e) w1 t u) \<noteq> stored_version (stored C (wOps w2) t u)"
  shows "exec C e w1 w2 op = (Inl ErrConflict, w2)"
  using assms casStore_stale [of "wOps w2"]
  by (simp add: exec_pipeline pipeline_def env_ok_def load_view fsm_inv_def)

lemma exec_commits:
  assumes inv: "fsm_inv C w1" "fsm_inv C w2" and env: "env_ok C e"
    and op: "piped op" "op_ok op" "op_target op = (t, u)"
  defines "cur \<equiv> view C (eNow e) w1 t u"
  assumes d: "decide (eNow e) op cur = Inr (Some s)"
    and ver: "snVersion cur = stored_version (stored C (wOps w2) t u)" and max: "snVersion cur < int64_max"
  shows "\<exists>w3. exec C e w1 w2 op = (Inr (toAPI s t u), w3) \<and> fsm_inv C w3 \<and>
    commits C w2 w3 t u (s\<lparr>snVersion := snVersion cur + 1\<rparr>) \<and>
    wDb w3 = audit_db e op cur s (wDb w2) \<and> wPresence w3 = wPresence w2 \<and>
    wPublished w3 = wPublished w2 @ [toAPI s t u]"
proof -
  have ok2: "hashes_ok C (wOps w2)" and now: "time_ok C (eNow e)"
    using inv env by (simp_all add: fsm_inv_def env_ok_def)
  obtain ops where cas: "casStore C CallOk (wOps w2) t u (snVersion cur) s = (Inr (), ops)"
    using casStore_fresh [OF ok2 ver max, of s]
    by (metis (full_types) old.unit.exhaust prod.collapse)
  have w: "writable C t s"
    using decide_writable [OF writable_view [OF inv(1) now] now op(1,2) d [unfolded cur_def]] .
  let ?w3 = "publish (w2\<lparr>wOps := ops, wDb := audit_db e op cur s (wDb w2)\<rparr>) (toAPI s t u)"
  have ex: "exec C e w1 w2 op = (Inr (toAPI s t u), ?w3)"
    using env op d cas inv by (simp add: exec_pipeline pipeline_def env_ok_def load_view cur_def)
  moreover have "commits C w2 ?w3 t u (s\<lparr>snVersion := snVersion cur + 1\<rparr>)"
    using casStore_spec [OF ok2 w cas] by (auto simp: commits_def)
  moreover have "fsm_inv C ?w3" using exec_inv [OF inv now op(2)] ex by (metis snd_conv)
  ultimately show ?thesis by (auto simp: publish_def)
qed

end

section \<open>Opening a shift\<close>

text \<open>The snapshot a new shift starts from.\<close>

definition shift_snapshot :: "env \<Rightarrow> StartShiftRequest \<Rightarrow> Snapshot" where
  "shift_snapshot e req = zero_Snapshot\<lparr>snState := StateReady, snStateEnteredAt := eNow e,
     snHeartbeatAt := eNow e, snTenantID := ssTenantID req, snSessionID := Some (eSession e),
     snProjectID := Some (ssProjectID req)\<rparr>"

lemma reopened_offline:
  assumes "snap_inv s0" and "snState s0 = StateOffline"
  shows "reopened (Some s0) (shift_snapshot e req) = (shift_snapshot e req)\<lparr>snVersion := 1\<rparr>"
  using assms by (cases s0) (simp add: reopened_def snap_inv_def shift_snapshot_def zero_Snapshot_def)

lemma reopened_None [simp]:
  "reopened None (shift_snapshot e req) = (shift_snapshot e req)\<lparr>snVersion := 1\<rparr>"
  by (simp add: reopened_def shift_snapshot_def zero_Snapshot_def)

context hash_codec
begin

lemma StartShift_opens:
  assumes inv: "fsm_inv C w" and env: "env_ok C e" and pg: "ePg e = CallOk"
    and off: "snState (view C (eNow e) w (ssTenantID req) (ssOperatorID req)) = StateOffline"
  shows "\<exists>w'. StartShift C e w w req =
      (Inr (toAPI (shift_snapshot e req) (ssTenantID req) (ssOperatorID req)), w') \<and> fsm_inv C w' \<and>
    commits C w w' (ssTenantID req) (ssOperatorID req) ((shift_snapshot e req)\<lparr>snVersion := 1\<rparr>) \<and>
    wDb w' = snd (startSessionAndAudit CallOk (eFresh e) (eSession e) (wDb w) req (eNow e))"
proof -
  let ?t = "ssTenantID req" and ?u = "ssOperatorID req" and ?s = "shift_snapshot e req"
  have now: "time_ok C (eNow e)" and ok: "hashes_ok C (wOps w)"
    using env inv by (simp_all add: env_ok_def fsm_inv_def)
  have op: "opens_shift C ?t ?s" using now by (simp add: opens_shift_def shift_snapshot_def)
  have off': "stored C (wOps w) ?t ?u = Some s0 \<Longrightarrow> snState s0 = StateOffline" for s0
    using off by (simp add: view_def)
  obtain rc ops where cas: "startShiftCAS C CallOk (wOps w) ?t ?u ?s = (rc, ops)" by fastforce
  have "rc \<noteq> StartErr"
    using cas by (auto simp: startShiftCAS_def start_shift_lua_def Let_def split: if_splits)
  then have rc: "rc = StartRc 1 \<and> hashes_ok C ops \<and> (\<forall>t' u'. stored C ops t' u' = (if t' = ?t \<and> u' = ?u
      then Some (reopened (stored C (wOps w) ?t ?u) ?s) else stored C (wOps w) t' u'))"
    using startShiftCAS_spec [OF ok op cas] off' by auto
  obtain db where db: "startSessionAndAudit CallOk (eFresh e) (eSession e) (wDb w) req (eNow e) = (Inr (eSession e), db)"
    by (auto simp: startSessionAndAudit_def with_tenant_def Let_def)
  have re: "reopened (stored C (wOps w) ?t ?u) ?s = ?s\<lparr>snVersion := 1\<rparr>"
    using inv off' by (cases "stored C (wOps w) ?t ?u") (auto simp: fsm_inv_def reopened_offline)
  let ?w' = "publish (w\<lparr>wDb := db, wOps := ops\<rparr>) (toAPI ?s ?t ?u)"
  have ex: "StartShift C e w w req = (Inr (toAPI ?s ?t ?u), ?w')"
    using env pg off db cas rc load_view [OF inv]
    by (simp add: StartShift_def env_ok_def Let_def shift_snapshot_def)
  have com: "commits C w ?w' ?t ?u (?s\<lparr>snVersion := 1\<rparr>)"
    using rc re by (simp add: commits_def)
  have "fsm_inv C ?w'" using StartShift_step [OF inv now ex] by blast
  with ex com db show ?thesis by (auto simp: publish_def)
qed

end

section \<open>Isolation\<close>

context hash_codec
begin

lemma exec_other:
  assumes inv: "fsm_inv C w1" "fsm_inv C w2" and now: "time_ok C (eNow e)" and op: "op_ok op"
    and other: "op_target op \<noteq> (t, u)"
  shows "stored C (wOps (snd (exec C e w1 w2 op))) t u = stored C (wOps w2) t u"
proof (cases rule: op_kinds [where op = op and e = e and ?w1.0 = w1 and ?w2.0 = w2])
  case (start req)
  obtain r w3 where st: "StartShift C e w1 w2 req = (r, w3)" by fastforce
  then show ?thesis
    using StartShift_step [OF inv(2) now st] other start by (auto simp: commits_def)
next
  case bad
  then show ?thesis by simp
next
  case piped
  obtain t' u' where tgt: "op_target op = (t', u')" by fastforce
  obtain r w3 where ex: "pipeline C e w1 w2 op = (r, w3)" by fastforce
  then show ?thesis
    using pipeline_step [OF inv now piped op tgt ex] exec_pipeline [OF piped] other tgt
    by (auto simp: commits_def)
qed

end

end
