(* ===== verification/Fsm_Heartbeat.thy ===== *)
theory Fsm_Heartbeat
  imports Fsm_Runs
begin

text \<open>
  The heartbeat watchdog (\<open>internal/dialer/fsm/heartbeat.go\<close>): a sweep walks the operator keys
  that \<open>SCAN\<close> reports and forces offline every operator whose presence key has expired.
\<close>

section \<open>Keys\<close>

definition parseOpKey :: "codec \<Rightarrow> string \<Rightarrow> (uuid \<times> uuid) option" where
  "parseOpKey C key =
     (if \<not> HasPrefix key ''op:'' then None else
      let rest = drop 3 key in
      case IndexOf rest '':user:'' of
        None \<Rightarrow> None
      | Some idx \<Rightarrow>
        if idx = 0 then None else
        (case uuid_Parse C (take idx rest) of
           None \<Rightarrow> None
         | Some tid \<Rightarrow>
        (case uuid_Parse C (drop (idx + 6) rest) of
           None \<Rightarrow> None
         | Some oid \<Rightarrow> Some (tid, oid))))"

definition PresenceKey :: "codec \<Rightarrow> uuid \<Rightarrow> uuid \<Rightarrow> string" where
  "PresenceKey C tenantID operatorID =
     ''presence:'' @ uuid_String C tenantID @ '':user:'' @ uuid_String C operatorID"

text \<open>Setting the presence key; its expiry is an action of the environment.\<close>

definition RefreshPresence ::
  "codec \<Rightarrow> call_outcome \<Rightarrow> world \<Rightarrow> uuid \<Rightarrow> uuid \<Rightarrow> (dialer_error + unit) \<times> world" where
  "RefreshPresence C net w tenantID operatorID =
     (let w' = w\<lparr>wPresence := (wPresence w)(PresenceKey C tenantID operatorID := True)\<rparr> in
      case net of CallOk \<Rightarrow> (Inr (), w') | CallLost \<Rightarrow> (Inl ErrTransport, w)
      | ReplyLost \<Rightarrow> (Inl ErrTransport, w'))"

section \<open>The sweep\<close>

text \<open>A missing state is \<open>Inr None\<close>.\<close>

definition lookupState :: "call_outcome \<Rightarrow> op_hashes \<Rightarrow> string \<Rightarrow> dialer_error + State option" where
  "lookupState net ops key =
     (if net \<noteq> CallOk then Inl ErrTransport else
      case ops key F_state of
        None \<Rightarrow> Inr None
      | Some v \<Rightarrow>
        if v = '''' then Inr None
        else if \<not> State_Valid (State_of_string v) then Inl ErrUnknownState
        else Inr (Some (State_of_string v)))"

record hb_env =
  hbState :: call_outcome
  hbExists :: call_outcome
  hbForce :: env

text \<open>
  The check of one key. The last component says whether the operator was forced (the \<open>Forced\<close>
  counter).
\<close>

definition checkKey :: "codec \<Rightarrow> hb_env \<Rightarrow> world \<Rightarrow> string \<Rightarrow> world \<times> bool" where
  "checkKey C h w key =
     (case parseOpKey C key of
        None \<Rightarrow> (w, False)
      | Some (tenantID, operatorID) \<Rightarrow>
     (case lookupState (hbState h) (wOps w) key of
        Inl _ \<Rightarrow> (w, False)
      | Inr None \<Rightarrow> (w, False)
      | Inr (Some st) \<Rightarrow>
        if st = StateOffline then (w, False)
        else if hbExists h \<noteq> CallOk then (w, False)
        else if wPresence w (PresenceKey C tenantID operatorID) then (w, False)
        else
        (case Force C (hbForce h) w w tenantID operatorID StateOffline ForceReasonHeartbeatLost of
           (Inl _, w') \<Rightarrow> (w', False)
         | (Inr _, w') \<Rightarrow> (w', True))))"

text \<open>
  One \<open>SCAN\<close> reply is a batch of keys with the next cursor. The list of replies is what Redis
  answers during the sweep; where it ends the context has been cancelled. \<open>E i\<close> is the
  environment of the \<open>i\<close>-th key check.
\<close>

datatype scan_reply = ScanErr | ScanBatch "string list" "64 word"

record sweep_state =
  swNext :: nat
  swForced :: nat
  swWorld :: world

definition check_one :: "codec \<Rightarrow> (nat \<Rightarrow> hb_env) \<Rightarrow> string \<Rightarrow> sweep_state \<Rightarrow> sweep_state" where
  "check_one C E key s =
     (let (w, forced) = checkKey C (E (swNext s)) (swWorld s) key in
      \<lparr>swNext = swNext s + 1, swForced = swForced s + (if forced then 1 else 0), swWorld = w\<rparr>)"

fun Sweep :: "codec \<Rightarrow> (nat \<Rightarrow> hb_env) \<Rightarrow> scan_reply list \<Rightarrow> sweep_state \<Rightarrow> sweep_state" where
  "Sweep C E [] s = s"
| "Sweep C E (ScanErr # replies) s = s"
| "Sweep C E (ScanBatch keys nxt # replies) s =
     (let s' = fold (check_one C E) keys s in
      if nxt = 0 then s' else Sweep C E replies s')"

section \<open>Properties\<close>

text \<open>The keys a sweep checks.\<close>

fun swept :: "scan_reply list \<Rightarrow> string list" where
  "swept [] = []"
| "swept (ScanErr # replies) = []"
| "swept (ScanBatch keys nxt # replies) = keys @ (if nxt = 0 then [] else swept replies)"

lemma Sweep_fold: "Sweep C E replies s = fold (check_one C E) (swept replies) s"
  by (induction C E replies s rule: Sweep.induct) (simp_all add: Let_def)

text \<open>An operator that is on shift without a presence key.\<close>

definition lost :: "codec \<Rightarrow> world \<Rightarrow> uuid \<times> uuid \<Rightarrow> bool" where
  "lost C w tu \<longleftrightarrow> (case tu of (t, u) \<Rightarrow> \<not> wPresence w (PresenceKey C t u) \<and>
     (\<exists>s. stored C (wOps w) t u = Some s \<and> snState s \<noteq> StateOffline))"

definition hb_env_ok :: "codec \<Rightarrow> hb_env \<Rightarrow> bool" where
  "hb_env_ok C h \<longleftrightarrow> hbState h = CallOk \<and> hbExists h = CallOk \<and> env_ok C (hbForce h)"

definition counters_low :: "codec \<Rightarrow> world \<Rightarrow> bool" where
  "counters_low C w \<longleftrightarrow> (\<forall>t u s. stored C (wOps w) t u = Some s \<longrightarrow> snState s \<noteq> StateOffline \<longrightarrow>
     snVersion s < int64_max)"

definition offline_at :: "Snapshot \<Rightarrow> Snapshot \<Rightarrow> bool" where
  "offline_at s s' \<longleftrightarrow> (\<exists>now. s' = (forced_snapshot now StateOffline s)\<lparr>snVersion := snVersion s + 1\<rparr>)"

lemma offline_at_state: "offline_at s s' \<Longrightarrow> snState s' = StateOffline"
  by (auto simp: offline_at_def forced_snapshot_def Let_def)

context hash_codec
begin

lemma parseOpKey_opKey: "parseOpKey C (opKey C t u) = Some (t, u)"
proof -
  have "IndexOf (uuid_String C t @ '':user:'' @ uuid_String C u) '':user:'' = Some (length (uuid_String C t))"
    using IndexOf_first [OF uuid_String_colon, of t "''user:''"] by simp
  then show ?thesis
    by (simp add: parseOpKey_def opKey_def HasPrefix_def uuid_String_not_Nil uuid_Parse_String)
qed

lemma lookupState_stored:
  assumes "fsm_inv C w"
  shows "lookupState CallOk (wOps w) (opKey C t u) = Inr (map_option snState (stored C (wOps w) t u))"
proof -
  from assms have "hash_ok C t (wOps w (opKey C t u))" by (simp add: fsm_inv_def hashes_okD)
  then show ?thesis
  proof (cases rule: hash_ok_cases)
    case absent
    then show ?thesis by (simp add: lookupState_def stored_def)
  next
    case (present s)
    then have "wOps w (opKey C t u) F_state = Some (State_string (snState s))" "State_Valid (snState s)"
      using parseHash_state by blast+
    then show ?thesis using present
      by (simp add: lookupState_def stored_def State_string_not_Nil State_of_string_string)
  qed
qed

lemma checkKey_skips:
  assumes "fsm_inv C w" and "hb_env_ok C h" and "\<not> lost C w (t, u)"
  shows "checkKey C h w (opKey C t u) = (w, False)"
  using assms
  by (auto simp: checkKey_def parseOpKey_opKey hb_env_ok_def lookupState_stored lost_def split: option.splits)

lemma checkKey_forces:
  assumes inv: "fsm_inv C w" and h: "hb_env_ok C h" and lost: "lost C w (t, u)"
    and s: "stored C (wOps w) t u = Some s" and max: "snVersion s < int64_max"
  shows "\<exists>w' s'. checkKey C h w (opKey C t u) = (w', True) \<and> fsm_inv C w' \<and> offline_at s s' \<and>
    commits C w w' t u s' \<and> wPresence w' = wPresence w"
proof -
  let ?op = "OpForce t u StateOffline ForceReasonHeartbeatLost" and ?e = "hbForce h"
  have view: "view C (eNow ?e) w t u = s" by (simp add: view_def s)
  have st: "snState s \<noteq> StateOffline" using lost s by (auto simp: lost_def)
  then have d: "decide (eNow ?e) ?op (view C (eNow ?e) w t u) = Inr (Some (forced_snapshot (eNow ?e) StateOffline s))"
    by (simp add: view)
  have "\<exists>w'. exec C ?e w w ?op = (Inr (toAPI (forced_snapshot (eNow ?e) StateOffline s) t u), w') \<and>
      fsm_inv C w' \<and> commits C w w' t u ((forced_snapshot (eNow ?e) StateOffline s)\<lparr>snVersion := snVersion s + 1\<rparr>) \<and>
      wPresence w' = wPresence w"
    using exec_commits [OF inv inv _ _ _ _ d] h max s unfolding view
    by (simp add: hb_env_ok_def stored_version_def) blast
  moreover have "checkKey C h w (opKey C t u) =
      (case Force C ?e w w t u StateOffline ForceReasonHeartbeatLost of (Inl _, w') \<Rightarrow> (w', False) | (Inr _, w') \<Rightarrow> (w', True))"
    using inv h lost s st
    by (simp add: checkKey_def parseOpKey_opKey hb_env_ok_def lookupState_stored lost_def)
  moreover have "offline_at s ((forced_snapshot (eNow ?e) StateOffline s)\<lparr>snVersion := snVersion s + 1\<rparr>)"
    by (auto simp: offline_at_def)
  ultimately show ?thesis by force
qed

lemma lost_commits:
  assumes "commits C w w' t u s'" and "wPresence w' = wPresence w" and "snState s' = StateOffline"
  shows "lost C w' x \<longleftrightarrow> x \<noteq> (t, u) \<and> lost C w x"
  using assms by (auto simp: lost_def commits_def split: prod.splits if_splits)

text \<open>
  The effect of checking a list of operator keys: exactly the lost operators among them end
  offline, everyone else's snapshot is untouched, and the counter counts them.
\<close>

lemma fold_check_spec:
  fixes tus s E
  assumes inv: "fsm_inv C (swWorld s)" and E: "\<And>i. hb_env_ok C (E i)" and low: "counters_low C (swWorld s)"
  defines "s' \<equiv> fold (check_one C E) (map (\<lambda>(t, u). opKey C t u) tus) s"
  shows "fsm_inv C (swWorld s') \<and>
    (\<forall>t u. if (t, u) \<in> set tus \<and> lost C (swWorld s) (t, u)
       then \<exists>p q. stored C (wOps (swWorld s)) t u = Some p \<and> stored C (wOps (swWorld s')) t u = Some q \<and> offline_at p q
       else stored C (wOps (swWorld s')) t u = stored C (wOps (swWorld s)) t u) \<and>
    swForced s' = swForced s + card {x \<in> set tus. lost C (swWorld s) x}"
  using inv low unfolding s'_def
proof (induction tus arbitrary: s)
  case Nil
  then show ?case by simp
next
  case (Cons x tus)
  obtain t u where x: "x = (t, u)" by fastforce
  let ?h = "E (swNext s)" and ?w = "swWorld s"
  show ?case
  proof (cases "lost C ?w (t, u)")
    case False
    then have step: "check_one C E (opKey C t u) s = s\<lparr>swNext := swNext s + 1\<rparr>"
      using checkKey_skips [OF Cons.prems(1) E] by (simp add: check_one_def)
    have set: "{y \<in> set (x # tus). lost C ?w y} = {y \<in> set tus. lost C ?w y}"
      using False x by auto
    show ?thesis
      using Cons.IH [of "s\<lparr>swNext := swNext s + 1\<rparr>"] Cons.prems False
      unfolding set by (auto simp: x step split: if_splits)
  next
    case True
    then obtain p where p: "stored C (wOps ?w) t u = Some p" "snState p \<noteq> StateOffline" by (auto simp: lost_def)
    then have pmax: "snVersion p < int64_max" using Cons.prems(2) unfolding counters_low_def by blast
    obtain w1 q where ck: "checkKey C ?h ?w (opKey C t u) = (w1, True)" "fsm_inv C w1" "offline_at p q"
      "commits C ?w w1 t u q" "wPresence w1 = wPresence ?w"
      using checkKey_forces [OF Cons.prems(1) E True p(1) pmax] by blast
    let ?s1 = "\<lparr>swNext = swNext s + 1, swForced = swForced s + 1, swWorld = w1\<rparr>"
    have step: "check_one C E (opKey C t u) s = ?s1" by (simp add: check_one_def ck(1))
    have qoff: "snState q = StateOffline" by (rule offline_at_state [OF ck(3)])
    note lost1 = lost_commits [OF ck(4,5) qoff]
    have low1: "counters_low C w1"
      using Cons.prems(2) ck(4) qoff by (auto simp: counters_low_def commits_def)
    have "{y \<in> set (x # tus). lost C ?w y} = insert x {y \<in> set tus. lost C w1 y}"
      using True x by (auto simp: lost1)
    moreover have "x \<notin> {y \<in> set tus. lost C w1 y}" by (simp add: x lost1)
    ultimately have card: "card {y \<in> set (x # tus). lost C ?w y} = Suc (card {y \<in> set tus. lost C w1 y})"
      by simp
    have st1: "stored C (wOps w1) t' u' = (if t' = t \<and> u' = u then Some q else stored C (wOps ?w) t' u')" for t' u'
      using ck(4) by (simp add: commits_def)
    show ?thesis
      using Cons.IH [of ?s1] ck(2) low1 p ck(3) True unfolding card
      by (auto simp: x step lost1 st1 split: if_splits)
  qed
qed

end

end
