(* ===== verification/Call_Events.thy ===== *)
theory Call_Events
  imports Fsm_Runs
begin

text \<open>
  The subscriber that feeds telephony events into the operator state machine
  (\<open>internal/dialer/transport/nats/call_event_subscriber.go\<close>). Messages are delivered at least
  once; the handler answers with an acknowledgement or asks for redelivery. The operator of a
  call is resolved by a port, the parameter \<open>lookup\<close>.
\<close>

section \<open>Events\<close>

datatype ChannelEventType =
    TelDialing | TelAnswer | TelBridge | TelUnbridge | TelHangup | TelDTMF | TelRecordStop
  | OtherChannelEvent string

record ChannelEvent =
  evTenantID :: uuid
  evCallID :: uuid
  evType :: ChannelEventType
  evHangupCause :: string
  evDurationMS :: int
  evTimestamp :: time

datatype lookup_result = OperatorFound uuid | ErrOperatorNotFound | LookupTransient

type_synonym operator_lookup = "uuid \<Rightarrow> uuid \<Rightarrow> lookup_result"

datatype delivery = Ack | Nak

definition outcomeForHangupCause :: "string \<Rightarrow> StatusOutcome" where
  "outcomeForHangupCause cause =
     (if cause = ''NORMAL_CLEARING'' then OutcomeSuccess
      else if cause = ''USER_BUSY'' then OutcomeBusy
      else if cause \<in> {''NO_ANSWER'', ''NO_USER_RESPONSE'', ''ALLOTTED_TIMEOUT''} then OutcomeNoAnswer
      else if cause \<in> {''CALL_REJECTED'', ''NORMAL_TEMPORARY_FAILURE'', ''NORMAL_UNSPECIFIED'',
        ''NETWORK_OUT_OF_ORDER'', ''DESTINATION_OUT_OF_ORDER'', ''NO_ROUTE_DESTINATION'',
        ''NO_ROUTE_TRANSIT_NET'', ''INVALID_NUMBER_FORMAT'', ''FACILITY_REJECTED'',
        ''INCOMPATIBLE_DESTINATION'', ''REQUESTED_CHAN_UNAVAIL'', ''SWITCH_CONGESTION'',
        ''GATEWAY_DOWN'', ''PROTOCOL_ERROR'', ''MEDIA_TIMEOUT''} then OutcomeTechFailure
      else OutcomeTechFailure)"

section \<open>Handlers\<close>

text \<open>The error handlers only log and classify, so they give the delivery verdict.\<close>

definition handleLookupError :: "lookup_result \<Rightarrow> delivery" where
  "handleLookupError r = (if r = ErrOperatorNotFound then Ack else Nak)"

definition handleFSMError :: "dialer_error \<Rightarrow> delivery" where
  "handleFSMError err = (if err = ErrInvalidTransition \<or> err = ErrConflict then Ack else Nak)"

definition answered_request :: "ChannelEvent \<Rightarrow> uuid \<Rightarrow> CallStartedRequest" where
  "answered_request ev operatorID = \<lparr>csTenantID = evTenantID ev, csOperatorID = operatorID,
     csCallID = evCallID ev, csRespondentID = uuid_Nil, csStartedAt = evTimestamp ev\<rparr>"

definition hangup_request :: "ChannelEvent \<Rightarrow> uuid \<Rightarrow> CallEndedRequest" where
  "hangup_request ev operatorID = \<lparr>ceTenantID = evTenantID ev, ceOperatorID = operatorID,
     ceCallID = evCallID ev, ceEndedAt = evTimestamp ev, ceCause = evHangupCause ev,
     ceDurationMS = evDurationMS ev, ceOutcome = outcomeForHangupCause (evHangupCause ev)\<rparr>"

definition fsm_verdict :: "op_result \<Rightarrow> delivery \<times> world" where
  "fsm_verdict r = (case fst r of Inl err \<Rightarrow> (handleFSMError err, snd r) | Inr _ \<Rightarrow> (Ack, snd r))"

definition handleAnswered ::
  "codec \<Rightarrow> operator_lookup \<Rightarrow> env \<Rightarrow> world \<Rightarrow> world \<Rightarrow> ChannelEvent \<Rightarrow> delivery \<times> world" where
  "handleAnswered C lookup e w1 w2 ev =
     (case lookup (evTenantID ev) (evCallID ev) of
        OperatorFound operatorID \<Rightarrow>
          fsm_verdict (RecordCallStarted C e w1 w2 (answered_request ev operatorID))
      | err \<Rightarrow> (handleLookupError err, w2))"

definition handleHangup ::
  "codec \<Rightarrow> operator_lookup \<Rightarrow> env \<Rightarrow> world \<Rightarrow> world \<Rightarrow> ChannelEvent \<Rightarrow> delivery \<times> world" where
  "handleHangup C lookup e w1 w2 ev =
     (case lookup (evTenantID ev) (evCallID ev) of
        OperatorFound operatorID \<Rightarrow>
          fsm_verdict (RecordCallEnded C e w1 w2 (hangup_request ev operatorID))
      | err \<Rightarrow> (handleLookupError err, w2))"

text \<open>\<open>None\<close> is a payload that does not decode.\<close>

definition handle_event ::
  "codec \<Rightarrow> operator_lookup \<Rightarrow> env \<Rightarrow> world \<Rightarrow> world \<Rightarrow> ChannelEvent option \<Rightarrow> delivery \<times> world" where
  "handle_event C lookup e w1 w2 payload =
     (case payload of
        None \<Rightarrow> (Ack, w2)
      | Some ev \<Rightarrow>
        if evTenantID ev = uuid_Nil \<or> evCallID ev = uuid_Nil then (Ack, w2)
        else (case evType ev of
             TelAnswer \<Rightarrow> handleAnswered C lookup e w1 w2 ev
           | TelHangup \<Rightarrow> handleHangup C lookup e w1 w2 ev
           | _ \<Rightarrow> (Ack, w2)))"

section \<open>Properties\<close>

lemma outcomeForHangupCause_success:
  "IsSuccessClass (outcomeForHangupCause cause) \<longleftrightarrow> cause = ''NORMAL_CLEARING''"
  by (simp add: outcomeForHangupCause_def IsSuccessClass_def)

lemma outcomeForHangupCause_canonical [simp]: "Outcome_canonical (outcomeForHangupCause cause)"
  by (simp add: outcomeForHangupCause_def)

text \<open>A handled event is one call of the state machine or no call at all.\<close>

lemma handle_event_run:
  assumes "run C Q w w1" "run C Q w1 w2" "time_ok C (eNow e)" "\<And>op. Q (Call op)"
  shows "run C Q w (snd (handle_event C lookup e w1 w2 payload))"
proof -
  have w2: "run C Q w w2" by (rule run_trans [OF assms(1,2)])
  have ok: "op_ok (OpRecordCallEnded (hangup_request ev u))" for ev u
    by (simp add: hangup_request_def)
  note c = run.call [OF assms(1,2,3) _ assms(4)]
  show ?thesis
    using w2 c [of "OpRecordCallStarted (answered_request ev u)" for ev u] c [OF ok]
    by (auto simp: handle_event_def handleAnswered_def handleHangup_def fsm_verdict_def
        split: option.splits ChannelEventType.splits lookup_result.splits sum.splits)
qed

end
