(* ===== verification/Fsm_Properties.thy ===== *)
theory Fsm_Properties
  imports Fsm_Heartbeat Call_Events
begin

text \<open>
  The guarantees of the operator state machine, of its watchdog and of the telephony subscriber,
  as theorems over the methods themselves. They hold for every codec that satisfies the laws of
  \<open>hash_codec\<close>; the witnesses use the canonical one.
\<close>

declare exec.simps [simp del]

section \<open>Worlds for the witnesses\<close>

text \<open>A world whose store holds one snapshot, and an environment in which every call succeeds.\<close>

definition seed :: "codec \<Rightarrow> uuid \<Rightarrow> uuid \<Rightarrow> Snapshot \<Rightarrow> world" where
  "seed C t u s = empty_world\<lparr>wOps := snd (casStore C CallOk (\<lambda>_. Map.empty) t u 0 s)\<rparr>"

definition calm :: "time \<Rightarrow> env" where
  "calm now = \<lparr>eNow = now, eLoad = CallOk, eCas = CallOk, ePg = CallOk, eReload = CallOk,
     eSession = 99, eFresh = of_nat\<rparr>"

definition operator_in :: "State \<Rightarrow> uuid option \<Rightarrow> StatusOutcome \<Rightarrow> Snapshot" where
  "operator_in st c out = \<lparr>snState = st, snStateEnteredAt = 0, snHeartbeatAt = 0, snTenantID = 1,
     snSessionID = Some 5, snProjectID = Some 6, snCurrentCallID = c, snRespondentID = c,
     snPauseReason = None, snOutcome = out, snVersion = 0\<rparr>"

context hash_codec
begin

lemma seed_ops:
  assumes "writable C t s"
  shows "hashes_ok C (wOps (seed C t u s)) \<and> commits C empty_world (seed C t u s) t u (s\<lparr>snVersion := 1\<rparr>)"
proof -
  let ?none = "\<lambda>_::string. Map.empty :: rhash"
  have ok: "hashes_ok C ?none" by (simp add: hashes_ok_def hash_ok_def)
  have "stored C ?none t u = None" by (simp add: stored_def)
  then have v: "(0::int) = stored_version (stored C ?none t u)" by (simp add: stored_version_def)
  obtain r ops where cas: "casStore C CallOk ?none t u 0 s = (r, ops)" by fastforce
  moreover have "r = Inr ()" using casStore_fresh [OF ok v, of s] cas by simp
  ultimately show ?thesis using casStore_spec [OF ok assms cas]
    by (simp add: seed_def commits_def empty_world_def)
qed

lemma seed_stored:
  "writable C t s \<Longrightarrow> stored C (wOps (seed C t u s)) t' u' =
     (if t' = t \<and> u' = u then Some (s\<lparr>snVersion := 1\<rparr>) else None)"
  using seed_ops [of t s u] by (simp add: commits_def empty_world_def stored_def)

lemma seed_inv: "writable C t s \<Longrightarrow> snap_inv s \<Longrightarrow> fsm_inv C (seed C t u s)"
  using seed_ops [of t s u] fsm_inv_commits [OF fsm_inv_empty] by fastforce

lemma seed_view: "writable C t s \<Longrightarrow> view C now (seed C t u s) t u = s\<lparr>snVersion := 1\<rparr>"
  by (simp add: view_def seed_stored)

end

lemma calm_ok: "0 \<le> now \<Longrightarrow> now \<le> int64_max \<Longrightarrow> env_ok canonical_codec (calm now)"
  by (simp add: env_ok_def calm_def canonical_codec_def in_int64_def)

lemma calm_simps [simp]:
  "eNow (calm now) = now" "eLoad (calm now) = CallOk" "eCas (calm now) = CallOk"
  "ePg (calm now) = CallOk" "eSession (calm now) = 99"
  by (simp_all add: calm_def)

lemma operator_in_writable:
  "State_Valid st \<Longrightarrow> Outcome_canonical out \<Longrightarrow> writable canonical_codec 1 (operator_in st c out)"
  by (simp add: writable_def snap_wf_def operator_in_def canonical_codec_def in_int64_def)

lemma operator_in_inv:
  "st \<noteq> StateOffline \<Longrightarrow> (out \<noteq> OutcomeUnknown \<Longrightarrow> st = StateStatus) \<Longrightarrow> snap_inv (operator_in st c out)"
  by (auto simp: snap_inv_def operator_in_def)

lemma operator_in_simps [simp]:
  "snState (operator_in st c out) = st" "snOutcome (operator_in st c out) = out"
  "snCurrentCallID (operator_in st c out) = c" "snRespondentID (operator_in st c out) = c"
  "snSessionID (operator_in st c out) = Some 5" "snProjectID (operator_in st c out) = Some 6"
  "snPauseReason (operator_in st c out) = None" "snTenantID (operator_in st c out) = 1"
  by (simp_all add: operator_in_def)

text \<open>A call on a seeded world commits its decision.\<close>

lemma seed_exec:
  assumes w: "writable canonical_codec 1 s" and i: "snap_inv s" and now: "0 \<le> now" "now \<le> int64_max"
    and op: "piped op" "op_ok op" "op_target op = (1, 2)"
    and d: "decide now op (s\<lparr>snVersion := 1\<rparr>) = Inr (Some s')"
  shows "\<exists>w3. exec canonical_codec (calm now) (seed canonical_codec 1 2 s) (seed canonical_codec 1 2 s) op =
      (Inr (toAPI s' 1 2), w3) \<and> fsm_inv canonical_codec w3 \<and>
      stored canonical_codec (wOps w3) 1 2 = Some (s'\<lparr>snVersion := 2\<rparr>)"
proof -
  let ?C = canonical_codec and ?w = "seed canonical_codec 1 2 s"
  have inv: "fsm_inv ?C ?w" by (rule canonical.seed_inv [OF w i])
  have v: "view ?C n ?w 1 2 = s\<lparr>snVersion := 1\<rparr>" for n by (rule canonical.seed_view [OF w])
  have "decide (eNow (calm now)) op (view ?C (eNow (calm now)) ?w 1 2) = Inr (Some s')"
    using d unfolding v calm_simps .
  from canonical.exec_commits [OF inv inv calm_ok [OF now] op this]
  show ?thesis by (auto simp: v canonical.seed_stored [OF w] commits_def)
qed

section \<open>Reachable worlds\<close>

text \<open>
  C2: in every world that any interleaving of calls, lost replies, key expiry and presence
  changes can reach from the empty store, reading an operator succeeds and gives a snapshot of
  that tenant that satisfies the snapshot invariant: off shift nothing is bound, an outcome is
  carried in wrap-up only, a pause reason in a pause only, call and respondent together.
\<close>

theorem reachable_snapshot_invariant:
  assumes "hash_codec C" and "run C Q empty_world w"
  shows "\<exists>s. load C now CallOk (wOps w) t u = Inr s \<and> snap_inv s \<and>
    (snTenantID s = uuid_Nil \<or> snTenantID s = t)"
proof -
  have inv: "fsm_inv C w" using hash_codec.run_inv [OF assms fsm_inv_empty] .
  have "writable C t (view C now w t u) \<or> view C now w t u = synthetic now"
    using inv by (cases "stored C (wOps w) t u") (auto simp: view_def fsm_inv_def intro: writable_stored)
  then have "snTenantID (view C now w t u) = uuid_Nil \<or> snTenantID (view C now w t u) = t"
    by (auto simp: writable_def synthetic_def zero_Snapshot_def)
  then show ?thesis
    using hash_codec.load_view [OF assms(1) inv] snap_inv_view [OF inv] by blast
qed

theorem reachable_snapshot_invariant_witness:
  "\<exists>s. load canonical_codec 7 CallOk (wOps (snd (exec canonical_codec (calm 3) empty_world empty_world
      (OpStartShift \<lparr>ssTenantID = 1, ssOperatorID = 2, ssProjectID = 6\<rparr>)))) 1 2 = Inr s \<and> snap_inv s \<and>
    (snTenantID s = uuid_Nil \<or> snTenantID s = 1)"
proof (rule reachable_snapshot_invariant [where Q = "\<lambda>_. True"])
  show "hash_codec canonical_codec" by (rule canonical.hash_codec_axioms)
  show "run canonical_codec (\<lambda>_. True) empty_world (snd (exec canonical_codec (calm 3) empty_world empty_world
      (OpStartShift \<lparr>ssTenantID = 1, ssOperatorID = 2, ssProjectID = 6\<rparr>)))"
    by (intro run.call run.idle) (use calm_ok [of 3] in \<open>simp_all add: env_ok_def\<close>)
qed

section \<open>The methods and the abstract machine\<close>

context hash_codec
begin

lemma exec_total:
  assumes inv: "fsm_inv C w1" "fsm_inv C w2" and env: "env_ok C e"
    and op: "piped op" "op_ok op" "op_target op = (t, u)"
    and max: "stored_version (stored C (wOps w1) t u) < int64_max"
  shows "case decide (eNow e) op (view C (eNow e) w1 t u) of
      Inl err \<Rightarrow> exec C e w1 w2 op = (Inl err, w2)
    | Inr None \<Rightarrow> exec C e w1 w2 op = (Inr (toAPI (view C (eNow e) w1 t u) t u), w2)
    | Inr (Some s) \<Rightarrow>
        if stored_version (stored C (wOps w1) t u) \<noteq> stored_version (stored C (wOps w2) t u)
        then exec C e w1 w2 op = (Inl ErrConflict, w2)
        else \<exists>w3. exec C e w1 w2 op = (Inr (toAPI s t u), w3) \<and>
          stored C (wOps w3) t u = Some (s\<lparr>snVersion := stored_version (stored C (wOps w1) t u) + 1\<rparr>) \<and>
          wDb w3 = audit_db e op (view C (eNow e) w1 t u) s (wDb w2) \<and>
          wPublished w3 = wPublished w2 @ [toAPI s t u]"
proof (cases "decide (eNow e) op (view C (eNow e) w1 t u)")
  case (Inl err)
  then show ?thesis using exec_refused [OF inv(1) env op(1,3)] by simp
next
  case (Inr p)
  show ?thesis
  proof (cases p)
    case None
    then show ?thesis using Inr exec_replayed [OF inv(1) env op(1,3)] by simp
  next
    case (Some s)
    note d = Inr [unfolded Some]
    show ?thesis
      using exec_conflict [OF inv env op(1,3) d]
        exec_commits [OF inv env op d] max
      unfolding view_version d by (auto simp: commits_def)
  qed
qed

end

text \<open>
  C1: refinement. When Redis answers, every method other than \<open>StartShift\<close>, run between a load
  and a commit in possibly different worlds, does what the abstract machine \<open>decide\<close> says: its
  error with no effect, its replay with no effect, or the committed snapshot at the next
  version with the audit rows written and the snapshot published once; a moved version is
  \<open>ErrConflict\<close> with no effect.
\<close>

theorem exec_refines_decide:
  assumes "hash_codec C" and inv: "fsm_inv C w1" "fsm_inv C w2" and env: "env_ok C e"
    and op: "piped op" "op_ok op" "op_target op = (t, u)"
    and max: "stored_version (stored C (wOps w1) t u) < int64_max"
  shows "case decide (eNow e) op (view C (eNow e) w1 t u) of
      Inl err \<Rightarrow> exec C e w1 w2 op = (Inl err, w2)
    | Inr None \<Rightarrow> exec C e w1 w2 op = (Inr (toAPI (view C (eNow e) w1 t u) t u), w2)
    | Inr (Some s) \<Rightarrow>
        if stored_version (stored C (wOps w1) t u) \<noteq> stored_version (stored C (wOps w2) t u)
        then exec C e w1 w2 op = (Inl ErrConflict, w2)
        else \<exists>w3. exec C e w1 w2 op = (Inr (toAPI s t u), w3) \<and>
          stored C (wOps w3) t u = Some (s\<lparr>snVersion := stored_version (stored C (wOps w1) t u) + 1\<rparr>) \<and>
          wDb w3 = audit_db e op (view C (eNow e) w1 t u) s (wDb w2) \<and>
          wPublished w3 = wPublished w2 @ [toAPI s t u]"
  using assms by (rule hash_codec.exec_total)

theorem exec_refines_decide_witness:
  "\<exists>w3. exec canonical_codec (calm 9) (seed canonical_codec 1 2 (operator_in StateStatus (Some 7) OutcomeSuccess))
      (seed canonical_codec 1 2 (operator_in StateStatus (Some 7) OutcomeSuccess)) (OpGoVerify 1 2) =
      (Inr (toAPI (operator_in StateVerify (Some 7) OutcomeUnknown\<lparr>snStateEnteredAt := 9, snHeartbeatAt := 9\<rparr>) 1 2), w3)"
proof -
  let ?s = "operator_in StateStatus (Some 7) OutcomeSuccess"
  have w: "writable canonical_codec 1 ?s" and i: "snap_inv ?s"
    by (rule operator_in_writable operator_in_inv; simp)+
  have d: "decide 9 (OpGoVerify 1 2) (?s\<lparr>snVersion := 1\<rparr>) =
      Inr (Some (operator_in StateVerify (Some 7) OutcomeUnknown\<lparr>snStateEnteredAt := 9, snHeartbeatAt := 9, snVersion := 1\<rparr>))"
    by (simp add: event_decision_def resolveTransition_def transitions_def operator_in_def
        IsSuccessClass_def buildNextSnapshot_def)
  show ?thesis
    using exec_refines_decide [OF canonical.hash_codec_axioms canonical.seed_inv [OF w i] canonical.seed_inv [OF w i]
        calm_ok [of 9], of "OpGoVerify 1 2" 1 2 2 2] d
    by (auto simp: canonical.seed_stored [OF w] canonical.seed_view [OF w] stored_version_def
        toAPI_def simp del: decide.simps exec.simps)
qed

text \<open>
  C3: linearizability. Let any run of other calls, on any operators and with any failures, happen
  between the load and the commit of a call, as long as this operator's shift is not reopened
  and its key does not expire. If the call changed the store, the operator's snapshot was
  still the loaded one and the call had the same result and effect as the same call run
  atomically at its commit.
\<close>

theorem commit_linearizes:
  assumes "hash_codec C" and "fsm_inv C w1" and "run C (quiet t u) w1 w2"
    and "time_ok C (eNow e)" and "piped op" and "op_ok op" and "op_target op = (t, u)"
    and "stored_version (stored C (wOps w2) t u) < int64_max"
    and "wOps (snd (exec C e w1 w2 op)) \<noteq> wOps w2"
  shows "stored C (wOps w1) t u = stored C (wOps w2) t u \<and> exec C e w1 w2 op = exec C e w2 w2 op"
  using assms by (rule hash_codec.commit_atomic)

lemma commits_stored: "commits C w w' t u s \<Longrightarrow> stored C (wOps w') t u = Some s"
  by (simp add: commits_def)

lemma exec_changes:
  assumes "hash_codec C" and "fsm_inv C w1" "fsm_inv C w2" "env_ok C e" "piped op" "op_ok op" "op_target op = (t, u)"
    and "decide (eNow e) op (view C (eNow e) w1 t u) = Inr (Some s)"
    and "stored_version (stored C (wOps w1) t u) = stored_version (stored C (wOps w2) t u)"
    and "stored_version (stored C (wOps w1) t u) < int64_max"
  shows "wOps (snd (exec C e w1 w2 op)) \<noteq> wOps w2"
proof
  assume same: "wOps (snd (exec C e w1 w2 op)) = wOps w2"
  obtain w3 where "exec C e w1 w2 op = (Inr (toAPI s t u), w3)"
      "commits C w2 w3 t u (s\<lparr>snVersion := snVersion (view C (eNow e) w1 t u) + 1\<rparr>)"
    using hash_codec.exec_commits [OF assms(1-8)] assms(9,10) by (auto simp: view_version)
  with same have "stored C (wOps w2) t u = Some (s\<lparr>snVersion := stored_version (stored C (wOps w2) t u) + 1\<rparr>)"
    using commits_stored by (metis assms(9) snd_conv view_version)
  from arg_cong [OF this, of stored_version] show False by simp
qed

lemma pause_decision:
  "decide now (OpGoPause \<lparr>gpTenantID = 1, gpOperatorID = 2, gpReason = ''tea''\<rparr>) (operator_in StateReady None OutcomeUnknown\<lparr>snVersion := v\<rparr>) =
     Inr (Some (operator_in StatePause None OutcomeUnknown\<lparr>snStateEnteredAt := now, snHeartbeatAt := now,
       snPauseReason := Some ''tea'', snVersion := v\<rparr>))"
  by (simp add: event_decision_def resolveTransition_def transitions_def
      operator_in_def buildNextSnapshot_def)

theorem commit_linearizes_witness:
  "let C = canonical_codec; w1 = seed C 1 2 (operator_in StateReady None OutcomeUnknown);
       w2 = snd (exec C (calm 4) w1 w1 (OpForce 1 3 StatePause ForceReasonOther));
       op = OpGoPause \<lparr>gpTenantID = 1, gpOperatorID = 2, gpReason = ''tea''\<rparr>
   in stored C (wOps w1) 1 2 = stored C (wOps w2) 1 2 \<and> exec C (calm 5) w1 w2 op = exec C (calm 5) w2 w2 op"
proof -
  let ?C = canonical_codec and ?s = "operator_in StateReady None OutcomeUnknown"
  let ?w1 = "seed ?C 1 2 ?s" and ?f = "OpForce 1 3 StatePause ForceReasonOther"
  let ?w2 = "snd (exec ?C (calm 4) ?w1 ?w1 ?f)"
  let ?op = "OpGoPause \<lparr>gpTenantID = 1, gpOperatorID = 2, gpReason = ''tea''\<rparr>"
  note hc = canonical.hash_codec_axioms
  have w: "writable ?C 1 ?s" and i: "snap_inv ?s"
    by (rule operator_in_writable operator_in_inv; simp)+
  have t: "time_ok ?C (eNow (calm 4))" "time_ok ?C (eNow (calm 5))"
    using calm_ok [of 4] calm_ok [of 5] by (simp_all add: env_ok_def)
  have inv: "fsm_inv ?C ?w1" "fsm_inv ?C ?w2"
    using canonical.seed_inv [OF w i] canonical.exec_inv [OF _ _ t(1)] by simp_all
  have run: "run ?C (quiet 1 2) ?w1 ?w2"
    by (intro run.call run.idle t) simp_all
  have st1: "stored ?C (wOps ?w1) 1 2 = Some (?s\<lparr>snVersion := 1\<rparr>)"
    by (simp add: canonical.seed_stored [OF w])
  have st2: "stored ?C (wOps ?w2) 1 2 = Some (?s\<lparr>snVersion := 1\<rparr>)"
    using canonical.exec_other [OF inv(1) inv(1) t(1), of ?f 1 2] st1 by simp
  have d: "decide (eNow (calm 5)) ?op (view ?C (eNow (calm 5)) ?w1 1 2) = Inr (Some (operator_in StatePause None OutcomeUnknown
      \<lparr>snStateEnteredAt := 5, snHeartbeatAt := 5, snPauseReason := Some ''tea'', snVersion := 1\<rparr>))"
    by (simp add: canonical.seed_view [OF w] pause_decision del: decide.simps)
  have "wOps (snd (exec ?C (calm 5) ?w1 ?w2 ?op)) \<noteq> wOps ?w2"
    by (rule exec_changes [OF hc inv calm_ok _ _ _ d]) (simp_all add: st1 st2)
  then show ?thesis
    using commit_linearizes [OF hc inv(1) run t(2), of ?op] st2
    by (simp add: Let_def)
qed

text \<open>
  No lost updates. Of two replicas that loaded the same snapshot and both decided to change
  it, the one that commits second gets \<open>ErrConflict\<close> and changes nothing.
\<close>

theorem second_replica_conflicts:
  assumes "hash_codec C" and "fsm_inv C w" and "env_ok C e1" and "env_ok C e2"
    and "piped op1" "op_ok op1" "op_target op1 = (t, u)" and "piped op2" "op_target op2 = (t, u)"
    and "decide (eNow e1) op1 (view C (eNow e1) w t u) = Inr (Some s1)"
    and "decide (eNow e2) op2 (view C (eNow e2) w t u) = Inr (Some s2)"
    and "stored_version (stored C (wOps w) t u) < int64_max"
    and "exec C e1 w w op1 = (r1, w1)"
  shows "exec C e2 w w1 op2 = (Inl ErrConflict, w1)"
proof -
  obtain w' where "exec C e1 w w op1 = (Inr (toAPI s1 t u), w')" and inv: "fsm_inv C w'"
      and com: "commits C w w' t u (s1\<lparr>snVersion := snVersion (view C (eNow e1) w t u) + 1\<rparr>)"
    using hash_codec.exec_commits [OF assms(1,2,2,3,5,6,7,10)] assms(12) by (auto simp: view_version)
  then have w1: "w1 = w'" using assms(13) by simp
  have "snVersion (view C (eNow e2) w t u) \<noteq> stored_version (stored C (wOps w1) t u)"
    using com by (simp add: w1 commits_def view_version)
  then show ?thesis
    using hash_codec.exec_conflict [OF assms(1,2) _ assms(4,8,9,11)] inv w1 by blast
qed

theorem second_replica_conflicts_witness:
  "let C = canonical_codec; w = seed C 1 2 (operator_in StateReady None OutcomeUnknown);
       op = OpGoPause \<lparr>gpTenantID = 1, gpOperatorID = 2, gpReason = ''tea''\<rparr>;
       w1 = snd (exec C (calm 4) w w op)
   in exec C (calm 5) w w1 op = (Inl ErrConflict, w1)"
proof -
  let ?C = canonical_codec and ?s = "operator_in StateReady None OutcomeUnknown"
  let ?w = "seed ?C 1 2 ?s" and ?op = "OpGoPause \<lparr>gpTenantID = 1, gpOperatorID = 2, gpReason = ''tea''\<rparr>"
  have w: "writable ?C 1 ?s" and i: "snap_inv ?s"
    by (rule operator_in_writable operator_in_inv; simp)+
  have d: "\<exists>s. decide (eNow (calm n)) ?op (view ?C (eNow (calm n)) ?w 1 2) = Inr (Some s)" for n
    by (simp add: canonical.seed_view [OF w] pause_decision del: decide.simps)
  obtain s1 s2 where d1: "decide (eNow (calm 4)) ?op (view ?C (eNow (calm 4)) ?w 1 2) = Inr (Some s1)"
      and d2: "decide (eNow (calm 5)) ?op (view ?C (eNow (calm 5)) ?w 1 2) = Inr (Some s2)"
    using d [of 4] d [of 5] by blast
  show ?thesis unfolding Let_def
    by (rule second_replica_conflicts [OF canonical.hash_codec_axioms canonical.seed_inv [OF w i] calm_ok calm_ok _ _ _ _ _ d1 d2])
      (simp_all add: canonical.seed_stored [OF w] prod_eq_iff)
qed

text \<open>
  Isolation. A call, whatever its outcome, leaves the stored snapshot of every other tenant
  and operator as it is.
\<close>

theorem call_touches_its_operator_only:
  assumes "hash_codec C" and "fsm_inv C w1" and "fsm_inv C w2" and "time_ok C (eNow e)" and "op_ok op"
    and "op_target op \<noteq> (t, u)"
  shows "stored C (wOps (snd (exec C e w1 w2 op))) t u = stored C (wOps w2) t u"
  using assms by (rule hash_codec.exec_other)

theorem call_touches_its_operator_only_witness:
  "stored canonical_codec (wOps (snd (exec canonical_codec (calm 4)
      (seed canonical_codec 1 2 (operator_in StateReady None OutcomeUnknown))
      (seed canonical_codec 1 2 (operator_in StateReady None OutcomeUnknown)) (OpEndShift 8 2)))) 1 2 =
   Some (operator_in StateReady None OutcomeUnknown\<lparr>snVersion := 1\<rparr>)"
proof -
  let ?C = canonical_codec and ?s = "operator_in StateReady None OutcomeUnknown"
  have w: "writable ?C 1 ?s" and i: "snap_inv ?s"
    by (rule operator_in_writable operator_in_inv; simp)+
  have "time_ok ?C (eNow (calm 4))" using calm_ok [of 4] by (simp add: env_ok_def)
  from call_touches_its_operator_only [OF canonical.hash_codec_axioms canonical.seed_inv [OF w i]
      canonical.seed_inv [OF w i] this, of "OpEndShift 8 2" 1 2]
  show ?thesis by (simp add: canonical.seed_stored [OF w])
qed

section \<open>Gates, replays and read-back\<close>

lemma decide_verify:
  assumes "decide now op cur = Inr (Some s)" and "snState s = StateVerify" and "piped op"
    and "\<nexists>target r. op = OpForce (fst (op_target op)) (snd (op_target op)) target r"
  shows "snState cur = StateStatus \<and> snOutcome cur = OutcomeSuccess \<and>
    op = OpGoVerify (fst (op_target op)) (snd (op_target op))"
  using assms
  by (cases op) (auto elim!: event_decision_cases simp: permitted_event_simps buildNext_fields
      offline_snapshot_def IsSuccessClass_def split: if_splits sum.splits)

context hash_codec
begin

lemma verify_gate:
  assumes inv: "fsm_inv C w1" and run: "run C (quiet t u) w1 w2"
    and now: "time_ok C (eNow e)" and op: "op_ok op" "op_target op = (t, u)"
    and not_forced: "\<nexists>target r. op = OpForce t u target r"
    and max: "stored_version (stored C (wOps w2) t u) < int64_max"
    and after: "stored C (wOps (snd (exec C e w1 w2 op))) t u = Some s'" "snState s' = StateVerify"
    and changed: "stored C (wOps w2) t u \<noteq> Some s'"
  shows "op = OpGoVerify t u \<and> (\<exists>s. stored C (wOps w2) t u = Some s \<and>
    snState s = StateStatus \<and> snOutcome s = OutcomeSuccess)"
proof -
  have inv2: "fsm_inv C w2" using run_inv [OF run inv] .
  show ?thesis
  proof (cases rule: op_kinds [where op = op and e = e and ?w1.0 = w1 and ?w2.0 = w2])
    case (start req)
    obtain r w3 where st: "StartShift C e w1 w2 req = (r, w3)" by fastforce
    show ?thesis
      using StartShift_step [OF inv2 now st] start op(2) after changed st
      by (auto simp: commits_def opens_shift_def reopened_def exec.simps split: option.splits)
  next
    case bad
    then show ?thesis using after changed by simp
  next
    case piped
    have diff: "wOps (snd (exec C e w1 w2 op)) \<noteq> wOps w2" using after changed by auto
    have eq: "stored C (wOps w1) t u = stored C (wOps w2) t u"
      using commit_atomic [OF inv run now piped op max diff] by blast
    obtain s n where d: "decide (eNow e) op (view C (eNow e) w1 t u) = Inr (Some s)"
        and s': "s' = s\<lparr>snVersion := n\<rparr>"
      using pipeline_step [OF inv inv2 now piped op surjective_pairing] diff after
      by (auto simp: exec_pipeline [OF piped] commits_def)
    have "snState (view C (eNow e) w1 t u) = StateStatus \<and> snOutcome (view C (eNow e) w1 t u) = OutcomeSuccess \<and>
        op = OpGoVerify t u"
      using decide_verify [OF d _ piped] s' after(2) not_forced op(2) by simp
    then show ?thesis
      unfolding view_def eq by (auto simp: synthetic_def zero_Snapshot_def split: option.splits)
  qed
qed

end

text \<open>
  The verify gate. Unless a supervisor forces it, an operator's snapshot changes to
  \<open>verify\<close> only by \<open>GoVerify\<close>, and only from a wrap-up whose outcome is \<open>success\<close>; this holds
  with any run of other calls between the load and the commit that does not reopen the shift.
\<close>

theorem verify_only_after_success:
  assumes hc: "hash_codec C" and inv: "fsm_inv C w1" and run: "run C (quiet t u) w1 w2"
    and now: "time_ok C (eNow e)" and op: "op_ok op" "op_target op = (t, u)"
    and not_forced: "\<nexists>target r. op = OpForce t u target r"
    and max: "stored_version (stored C (wOps w2) t u) < int64_max"
    and after: "stored C (wOps (snd (exec C e w1 w2 op))) t u = Some s'" "snState s' = StateVerify"
    and changed: "stored C (wOps w2) t u \<noteq> Some s'"
  shows "op = OpGoVerify t u \<and> (\<exists>s. stored C (wOps w2) t u = Some s \<and>
    snState s = StateStatus \<and> snOutcome s = OutcomeSuccess)"
  using assms by (rule hash_codec.verify_gate)

lemma verify_decision:
  "decide now (OpGoVerify 1 2) (operator_in StateStatus (Some 7) OutcomeSuccess\<lparr>snVersion := v\<rparr>) =
     Inr (Some (operator_in StateVerify (Some 7) OutcomeUnknown\<lparr>snStateEnteredAt := now, snHeartbeatAt := now, snVersion := v\<rparr>))"
  by (simp add: event_decision_def resolveTransition_def transitions_def operator_in_def
        IsSuccessClass_def buildNextSnapshot_def)

theorem verify_only_after_success_witness:
  "\<exists>s. stored canonical_codec (wOps (seed canonical_codec 1 2 (operator_in StateStatus (Some 7) OutcomeSuccess))) 1 2 = Some s \<and>
     snState s = StateStatus \<and> snOutcome s = OutcomeSuccess"
proof -
  let ?C = canonical_codec and ?s = "operator_in StateStatus (Some 7) OutcomeSuccess"
  let ?w = "seed ?C 1 2 ?s" and ?s' = "operator_in StateVerify (Some 7) OutcomeUnknown\<lparr>snStateEnteredAt := 9, snHeartbeatAt := 9, snVersion := 2\<rparr>"
  have w: "writable ?C 1 ?s" and i: "snap_inv ?s"
    by (rule operator_in_writable operator_in_inv; simp)+
  have t: "time_ok ?C (eNow (calm 9))" using calm_ok [of 9] by (simp add: env_ok_def)
  obtain w3 where ex: "exec ?C (calm 9) ?w ?w (OpGoVerify 1 2) = (Inr (toAPI (?s'\<lparr>snVersion := 1\<rparr>) 1 2), w3)"
      "stored ?C (wOps w3) 1 2 = Some ?s'"
    using seed_exec [OF w i _ _ _ _ _ verify_decision, of 9] by auto
  have "OpGoVerify 1 2 = OpGoVerify 1 2 \<and> (\<exists>s. stored ?C (wOps ?w) 1 2 = Some s \<and>
      snState s = StateStatus \<and> snOutcome s = OutcomeSuccess)"
    by (rule verify_only_after_success [OF canonical.hash_codec_axioms canonical.seed_inv [OF w i] run.idle t, where s' = ?s'])
      (simp_all add: ex canonical.seed_stored [OF w], auto dest: arg_cong [where f = snVersion])
  then show ?thesis by simp
qed

context hash_codec
begin

text \<open>What a successful sequential call leaves behind.\<close>

lemma exec_result:
  assumes inv: "fsm_inv C w" and env: "env_ok C e" "ePg e = CallOk"
    and op: "op_ok op" "op_target op = (t, u)"
    and max: "stored_version (stored C (wOps w) t u) < int64_max"
    and ex: "exec C e w w op = (Inr out, w')"
  shows "fsm_inv C w' \<and> (w' = w \<and> out = toAPI (view C (eNow e) w t u) t u \<and> decide (eNow e) op (view C (eNow e) w t u) = Inr None \<or>
    (\<exists>s. stored C (wOps w') t u = Some s \<and> out = toAPI s t u \<and>
       (piped op \<and> (\<exists>s0. decide (eNow e) op (view C (eNow e) w t u) = Inr (Some s0) \<and> s = s0\<lparr>snVersion := snVersion s0 + 1\<rparr>)
        \<or> (\<exists>req. op = OpStartShift req) \<and> snState s = StateReady)))"
proof (cases rule: op_kinds [where op = op and e = e and ?w1.0 = w and ?w2.0 = w])
  case (start req)
  then have tu: "t = ssTenantID req" "u = ssOperatorID req" using op by simp_all
  have st: "StartShift C e w w req = (Inr out, w')" using ex start by (simp add: exec.simps)
  consider (ready) "snState (view C (eNow e) w t u) = StateReady" | (off) "snState (view C (eNow e) w t u) = StateOffline"
    | (other) "snState (view C (eNow e) w t u) \<noteq> StateReady" "snState (view C (eNow e) w t u) \<noteq> StateOffline" by blast
  then show ?thesis
  proof cases
    case ready
    then show ?thesis using st start env load_view [OF inv] inv
      by (auto simp: StartShift_def tu env_ok_def Let_def)
  next
    case off
    then show ?thesis using StartShift_opens [OF inv env off [unfolded tu]] st start tu
      by (auto simp: commits_def shift_snapshot_def)
  next
    case other
    then show ?thesis using st env load_view [OF inv] by (simp add: StartShift_def tu env_ok_def Let_def)
  qed
next
  case bad
  then show ?thesis using ex by simp
next
  case piped
  consider (err) er where "decide (eNow e) op (view C (eNow e) w t u) = Inl er"
    | (rep) "decide (eNow e) op (view C (eNow e) w t u) = Inr None"
    | (com) s0 where "decide (eNow e) op (view C (eNow e) w t u) = Inr (Some s0)"
    by (metis not_None_eq obj_sumE)
  then show ?thesis
  proof cases
    case err
    then show ?thesis using exec_refused [OF inv env(1) piped op(2)] ex by simp
  next
    case rep
    then show ?thesis using exec_replayed [OF inv env(1) piped op(2)] ex inv by auto
  next
    case (com s0)
    have v: "snVersion s0 = snVersion (view C (eNow e) w t u)" by (rule decide_version [OF piped com])
    show ?thesis using exec_commits [OF inv inv env(1) piped op com] ex max piped com v
      by (auto simp: view_version commits_def)
  qed
qed

end

text \<open>The calls documented as idempotent.\<close>

fun idempotent_op :: "fsm_op \<Rightarrow> bool" where
  "idempotent_op (OpStartShift req) = True"
| "idempotent_op (OpEndShift t u) = True"
| "idempotent_op (OpForce t u target r) = True"
| "idempotent_op op = False"

lemma decide_again:
  assumes "idempotent_op op" and "decide now op cur = Inr (Some s)" and "piped op"
    and "snState s' = snState s"
  shows "decide now' op s' = Inr None"
  using assms by (cases op) (auto simp: offline_snapshot_def forced_snapshot_def Let_def split: if_splits sum.splits)

lemma decide_replay_state:
  assumes "idempotent_op op" and "decide now op cur = Inr None" and "snState s' = snState cur"
  shows "decide now' op s' = Inr None"
  using assms by (cases op) (auto split: if_splits sum.splits)

context hash_codec
begin

lemma exec_replay:
  assumes inv: "fsm_inv C w" and env: "env_ok C e" and tgt: "op_target op = (t, u)"
    and d: "decide (eNow e) op (view C (eNow e) w t u) = Inr None"
    and ok: "piped op \<or> (\<exists>req. op = OpStartShift req)"
  shows "exec C e w w op = (Inr (toAPI (view C (eNow e) w t u) t u), w)"
  using ok
proof
  assume "piped op"
  then show ?thesis by (rule exec_replayed [OF inv env _ tgt d])
next
  assume "\<exists>req. op = OpStartShift req"
  then obtain req where op: "op = OpStartShift req" by blast
  with d tgt have "snState (view C (eNow e) w t u) = StateReady" by (auto split: if_splits)
  then show ?thesis using op tgt env load_view [OF inv]
    by (auto simp: exec.simps StartShift_def env_ok_def Let_def)
qed

lemma exec_idempotent:
  assumes inv: "fsm_inv C w" and env: "env_ok C e" "ePg e = CallOk" "env_ok C e'"
    and op: "op_ok op" "op_target op = (t, u)" "idempotent_op op"
    and max: "stored_version (stored C (wOps w) t u) < int64_max"
    and ex: "exec C e w w op = (Inr out, w')"
  shows "\<exists>out'. exec C e' w' w' op = (Inr out', w') \<and> (stored C (wOps w') t u \<noteq> None \<longrightarrow> out' = out)"
proof -
  note res = exec_result [OF inv env(1,2) op(1,2) max ex]
  have kind: "piped op \<or> (\<exists>req. op = OpStartShift req)"
    by (rule op_kinds [where op = op and e = e and ?w1.0 = w and ?w2.0 = w]) (use ex in auto)
  from res have inv': "fsm_inv C w'" by blast
  have "decide (eNow e') op (view C (eNow e') w' t u) = Inr None \<and>
      (stored C (wOps w') t u \<noteq> None \<longrightarrow> toAPI (view C (eNow e') w' t u) t u = out)"
  proof (cases "w' = w \<and> out = toAPI (view C (eNow e) w t u) t u \<and> decide (eNow e) op (view C (eNow e) w t u) = Inr None")
    case True
    have "snState (view C (eNow e') w t u) = snState (view C (eNow e) w t u)"
      by (simp add: view_def synthetic_def split: option.splits)
    then show ?thesis using True decide_replay_state [OF op(3), of "eNow e"]
      by (auto simp: view_def split: option.splits)
  next
    case False
    with res obtain s where s: "stored C (wOps w') t u = Some s" "out = toAPI s t u"
      "piped op \<and> (\<exists>s0. decide (eNow e) op (view C (eNow e) w t u) = Inr (Some s0) \<and> s = s0\<lparr>snVersion := snVersion s0 + 1\<rparr>)
        \<or> (\<exists>req. op = OpStartShift req) \<and> snState s = StateReady" by blast
    have "decide (eNow e') op s = Inr None"
      using s(3) by (auto intro: decide_again [OF op(3)])
    then show ?thesis using s by (simp add: view_def)
  qed
  then show ?thesis using exec_replay [OF inv' env(3) op(2) _ kind] by blast
qed

lemma exec_read_back:
  assumes inv: "fsm_inv C w" and env: "env_ok C e" "ePg e = CallOk" "eLoad e' = CallOk"
    and op: "op_ok op" "op_target op = (t, u)"
    and max: "stored_version (stored C (wOps w) t u) < int64_max"
    and ex: "exec C e w w op = (Inr out, w')" and present: "stored C (wOps w') t u \<noteq> None"
  shows "GetState C e' w' t u = Inr out"
  using exec_result [OF inv env(1,2) op max ex] present env(3)
  by (auto simp: GetState_def load_view view_def)

end

text \<open>
  Idempotence. After a successful \<open>StartShift\<close>, \<open>EndShift\<close> or \<open>Force\<close>, repeating the call
  (a client retry) succeeds, changes neither the store nor the audit tables, publishes nothing
  and returns the snapshot that was returned first.
\<close>

theorem shift_calls_idempotent:
  assumes "hash_codec C" and "fsm_inv C w" and "env_ok C e" "ePg e = CallOk" "env_ok C e'"
    and "op_ok op" "op_target op = (t, u)" "idempotent_op op"
    and "stored_version (stored C (wOps w) t u) < int64_max"
    and "exec C e w w op = (Inr out, w')"
  shows "\<exists>out'. exec C e' w' w' op = (Inr out', w') \<and> (stored C (wOps w') t u \<noteq> None \<longrightarrow> out' = out)"
  using assms by (rule hash_codec.exec_idempotent)

theorem shift_calls_idempotent_witness:
  "\<exists>w1 out. exec canonical_codec (calm 3) empty_world empty_world
       (OpStartShift \<lparr>ssTenantID = 1, ssOperatorID = 2, ssProjectID = 6\<rparr>) = (Inr out, w1) \<and>
     exec canonical_codec (calm 8) w1 w1 (OpStartShift \<lparr>ssTenantID = 1, ssOperatorID = 2, ssProjectID = 6\<rparr>) = (Inr out, w1)"
proof -
  let ?C = canonical_codec and ?req = "\<lparr>ssTenantID = 1, ssOperatorID = 2, ssProjectID = 6\<rparr>"
  have e: "env_ok ?C (calm 3)" "env_ok ?C (calm 8)" by (simp_all add: calm_ok)
  have none: "stored ?C (wOps empty_world) 1 2 = None" by (simp add: empty_world_def stored_def)
  obtain w1 where st: "exec ?C (calm 3) empty_world empty_world (OpStartShift ?req) = (Inr (toAPI (shift_snapshot (calm 3) ?req) 1 2), w1)"
      "commits ?C empty_world w1 1 2 ((shift_snapshot (calm 3) ?req)\<lparr>snVersion := 1\<rparr>)"
    using canonical.StartShift_opens [OF fsm_inv_empty e(1), of ?req]
    by (auto simp: exec.simps view_def none synthetic_def)
  show ?thesis
    using shift_calls_idempotent [OF canonical.hash_codec_axioms fsm_inv_empty e(1) _ e(2) _ _ _ _ st(1), of 1 2]
      st none by (auto simp: commits_stored)
qed

text \<open>
  Read your write. After a successful call, with no other call in between, \<open>GetState\<close> returns
  the snapshot the call returned.
\<close>

theorem getstate_returns_last_result:
  assumes "hash_codec C" and "fsm_inv C w" and "env_ok C e" "ePg e = CallOk" "eLoad e' = CallOk"
    and "op_ok op" "op_target op = (t, u)"
    and "stored_version (stored C (wOps w) t u) < int64_max"
    and "exec C e w w op = (Inr out, w')" and "stored C (wOps w') t u \<noteq> None"
  shows "GetState C e' w' t u = Inr out"
  using assms by (rule hash_codec.exec_read_back)

theorem getstate_returns_last_result_witness:
  "\<exists>w1. GetState canonical_codec (calm 20) w1 1 2 =
     Inr (toAPI (operator_in StateVerify (Some 7) OutcomeUnknown\<lparr>snStateEnteredAt := 9, snHeartbeatAt := 9\<rparr>) 1 2)"
proof -
  let ?C = canonical_codec and ?s = "operator_in StateStatus (Some 7) OutcomeSuccess"
  let ?w = "seed ?C 1 2 ?s" and ?s' = "operator_in StateVerify (Some 7) OutcomeUnknown\<lparr>snStateEnteredAt := 9, snHeartbeatAt := 9, snVersion := 1\<rparr>"
  have w: "writable ?C 1 ?s" and i: "snap_inv ?s"
    by (rule operator_in_writable operator_in_inv; simp)+
  obtain w1 where ex: "exec ?C (calm 9) ?w ?w (OpGoVerify 1 2) = (Inr (toAPI ?s' 1 2), w1)"
      "stored ?C (wOps w1) 1 2 = Some (?s'\<lparr>snVersion := 2\<rparr>)"
    using seed_exec [OF w i _ _ _ _ _ verify_decision, of 9] by auto
  have "GetState ?C (calm 20) w1 1 2 = Inr (toAPI ?s' 1 2)"
    by (rule getstate_returns_last_result [OF canonical.hash_codec_axioms canonical.seed_inv [OF w i] calm_ok _ _ _ _ _ ex(1)])
      (simp_all add: ex(2) canonical.seed_stored [OF w])
  then show ?thesis by (auto simp: toAPI_def)
qed

section \<open>Audit\<close>

lemma dbLog_append [simp]: "dbLog (appendStateLogAndOutbox f db en) = dbLog db @
    [\<lparr>slSession = aeSessionID en, slTs = aeOccurredAt en, slState = aeNewState en,
      slReason = (if aeReason en = '''' then None else Some (aeReason en))\<rparr>]"
  by (simp add: appendStateLogAndOutbox_def appendCallFinalizedOutbox_def outbox_Append_def
      AppendStateLog_def Let_def split: option.splits)

lemma dbSessions_append [simp]: "dbSessions (appendStateLogAndOutbox f db en) = dbSessions db"
  by (simp add: appendStateLogAndOutbox_def appendCallFinalizedOutbox_def outbox_Append_def
      AppendStateLog_def Let_def split: option.splits)

lemma CloseSession_log [simp]:
  "dbLog (CloseSession db sid t) = dbLog db" "dbOutbox (CloseSession db sid t) = dbOutbox db"
  by (simp_all add: CloseSession_def)

text \<open>Rows that a committed transition of an open session must leave.\<close>

definition audited :: "env \<Rightarrow> uuid \<Rightarrow> fsm_op \<Rightarrow> Snapshot \<Rightarrow> database \<Rightarrow> database \<Rightarrow> bool" where
  "audited e sid op s db db' \<longleftrightarrow>
     dbLog db' = dbLog db @ [\<lparr>slSession = sid, slTs = eNow e, slState = snState s,
       slReason = (case op of OpForce t u target r \<Rightarrow> Some (ForceReason_string (effective_reason r)) | _ \<Rightarrow> None)\<rparr>] \<and>
     length (dbOutbox db') = length (dbOutbox db) + (case op of OpSubmitStatus req \<Rightarrow> 4 | _ \<Rightarrow> 2) \<and>
     dbSessions db' = (if snState s = StateOffline then dbSessions (CloseSession db sid (eNow e)) else dbSessions db)"

lemma effective_reason_text: "ForceReason_string (effective_reason r) \<noteq> ''''"
  by (cases r) (auto simp: effective_reason_def ForceReason_Valid_def)

lemma audit_db_audited:
  assumes d: "decide (eNow e) op cur = Inr (Some s)" and "piped op" and "ePg e = CallOk"
    and "snSessionID cur = Some sid" and "sid \<noteq> uuid_Nil"
  shows "audited e sid op s db (audit_db e op cur s db)"
proof (cases op)
  case (OpForce t u target r)
  have "snState s = target" using d OpForce by (auto simp: forced_snapshot_def Let_def split: if_splits)
  then show ?thesis using assms OpForce effective_reason_text [of r]
    by (simp add: audited_def audit_close_def closeSessionAndAudit_def auditTransition_def with_tenant_def
        plain_entry_def appendStateLog_counts)
next
  case (OpEndShift t u)
  then have "snState s = StateOffline" using d by (auto simp: offline_snapshot_def split: if_splits sum.splits)
  then show ?thesis using assms OpEndShift
    by (simp add: audited_def audit_close_def closeSessionAndAudit_def with_tenant_def appendStateLog_counts)
next
  case (OpSubmitStatus req)
  then have "snState s \<noteq> StateOffline" using d
    by (auto elim!: event_decision_cases simp: permitted_event_simps)
  then show ?thesis using assms OpSubmitStatus
    by (simp add: audited_def audit_event_def auditTransition_def with_tenant_def plain_entry_def
        appendStateLog_counts callFinalizedExtras_def)
qed (use assms in \<open>auto elim!: event_decision_cases simp: permitted_event_simps audited_def audit_event_def
    auditTransition_def with_tenant_def plain_entry_def appendStateLog_counts split: if_splits\<close>)



section \<open>Where the code departs from its documentation\<close>

text \<open>
  The version counter restarts at 1 with every shift, so a call that loaded the first version
  of an old shift passes the version check of the next one. If the operator ends the shift and
  starts a new one between the load and the commit of a \<open>GoPause\<close>, the pause commits over the
  new shift and puts the old session's identifier back into the hash.
\<close>

theorem reopened_shift_overwritten:
  assumes hc: "hash_codec C" and inv: "fsm_inv C w" and env: "env_ok C e1" "env_ok C e2" "ePg e2 = CallOk" "env_ok C e3"
    and s: "stored C (wOps w) t u = Some s" "snState s = StateReady" "snVersion s = 1" "snSessionID s = Some old"
    and w1: "w1 = snd (exec C e1 w w (OpEndShift t u))"
    and w2: "w2 = snd (exec C e2 w1 w1 (OpStartShift \<lparr>ssTenantID = t, ssOperatorID = u, ssProjectID = p\<rparr>))"
  shows "\<exists>s2 out w3 s3. stored C (wOps w2) t u = Some s2 \<and> snSessionID s2 = Some (eSession e2) \<and>
    exec C e3 w w2 (OpGoPause \<lparr>gpTenantID = t, gpOperatorID = u, gpReason = r\<rparr>) = (Inr out, w3) \<and>
    stored C (wOps w3) t u = Some s3 \<and> snSessionID s3 = Some old"
proof -
  let ?req = "\<lparr>ssTenantID = t, ssOperatorID = u, ssProjectID = p\<rparr>"
  let ?op = "OpGoPause \<lparr>gpTenantID = t, gpOperatorID = u, gpReason = r\<rparr>"
  have v: "view C n w t u = s" for n by (simp add: view_def s(1))
  have "decide (eNow e1) (OpEndShift t u) (view C (eNow e1) w t u) = Inr (Some (offline_snapshot (eNow e1) s))"
    using s(2) by (simp add: v resolveTransition_def transitions_def)
  from hash_codec.exec_commits [OF hc inv inv env(1) _ _ _ this] s
  obtain s1 where inv1: "fsm_inv C w1" and s1: "stored C (wOps w1) t u = Some s1" "snState s1 = StateOffline"
    by (auto simp: v w1 commits_def offline_snapshot_def)
  then have "snState (view C (eNow e2) w1 t u) = StateOffline" by (simp add: view_def)
  with hash_codec.StartShift_opens [OF hc inv1 env(2,3), of ?req]
  have inv2: "fsm_inv C w2" and s2: "stored C (wOps w2) t u = Some ((shift_snapshot e2 ?req)\<lparr>snVersion := 1\<rparr>)"
    by (auto simp: w2 exec.simps commits_def)
  obtain s3 where d: "decide (eNow e3) ?op (view C (eNow e3) w t u) = Inr (Some s3)" and s3: "snSessionID s3 = Some old"
    using s by (auto simp: v event_decision_def resolveTransition_def transitions_def buildNext_fields)
  from hash_codec.exec_commits [OF hc inv inv2 env(4) _ _ _ d]
  obtain w3 where "exec C e3 w w2 ?op = (Inr (toAPI s3 t u), w3)" "stored C (wOps w3) t u = Some (s3\<lparr>snVersion := 2\<rparr>)"
    using s(3) s2 by (auto simp: v commits_def)
  then show ?thesis using s2 s3 by (auto simp: shift_snapshot_def)
qed

theorem reopened_shift_overwritten_witness:
  "\<exists>s2 out w3 s3. let w = seed canonical_codec 1 2 (operator_in StateReady None OutcomeUnknown);
       w1 = snd (exec canonical_codec (calm 3) w w (OpEndShift 1 2));
       w2 = snd (exec canonical_codec (calm 4) w1 w1 (OpStartShift \<lparr>ssTenantID = 1, ssOperatorID = 2, ssProjectID = 6\<rparr>))
     in stored canonical_codec (wOps w2) 1 2 = Some s2 \<and> snSessionID s2 = Some 99 \<and>
       exec canonical_codec (calm 5) w w2 (OpGoPause \<lparr>gpTenantID = 1, gpOperatorID = 2, gpReason = ''tea''\<rparr>) = (Inr out, w3) \<and>
       stored canonical_codec (wOps w3) 1 2 = Some s3 \<and> snSessionID s3 = Some 5"
proof -
  have w: "writable canonical_codec 1 (operator_in StateReady None OutcomeUnknown)"
    and i: "snap_inv (operator_in StateReady None OutcomeUnknown)"
    by (rule operator_in_writable operator_in_inv; simp)+
  show ?thesis
    using reopened_shift_overwritten [OF canonical.hash_codec_axioms canonical.seed_inv [OF w i] calm_ok [of 3] calm_ok [of 4] _ calm_ok [of 5]
        canonical.seed_stored [OF w, of 2 1 2, simplified] _ _ _ refl refl, of 5 6 "''tea''"]
    by (simp add: Let_def)
qed

text \<open>
  Leaving \<open>verify\<close> keeps the call that was verified in the snapshot. The operator is back in
  \<open>ready\<close>, and the start of every other call is refused with \<open>ErrInvalidTransition\<close>.
\<close>

theorem verified_call_blocks_next_call:
  assumes hc: "hash_codec C" and inv: "fsm_inv C w" and env: "env_ok C e1" "env_ok C e2"
    and s: "stored C (wOps w) t u = Some s" "snState s = StateVerify" "snCurrentCallID s = Some c"
    and max: "snVersion s < int64_max"
    and ex: "exec C e1 w w (OpVerifyDone t u) = (r, w1)"
    and req: "csTenantID req = t" "csOperatorID req = u" "csCallID req \<noteq> c"
  shows "\<exists>s1. stored C (wOps w1) t u = Some s1 \<and> snState s1 = StateReady \<and>
    exec C e2 w1 w1 (OpRecordCallStarted req) = (Inl ErrInvalidTransition, w1)"
proof -
  let ?s1 = "buildNextSnapshot s StateReady (eNow e1)"
  have v: "view C n w t u = s" for n by (simp add: view_def s(1))
  have d: "decide (eNow e1) (OpVerifyDone t u) (view C (eNow e1) w t u) = Inr (Some ?s1)"
    using s(2) by (simp add: v event_decision_def resolveTransition_def transitions_def)
  from hash_codec.exec_commits [OF hc inv inv env(1) _ _ _ d] s(1) max ex
  have inv1: "fsm_inv C w1" and s1: "stored C (wOps w1) t u = Some (?s1\<lparr>snVersion := snVersion s + 1\<rparr>)"
    by (auto simp: v commits_def)
  have "decide (eNow e2) (OpRecordCallStarted req) (view C (eNow e2) w1 t u) = Inl ErrInvalidTransition"
    using s(3) req by (simp add: view_def s1 buildNext_fields)
  with hash_codec.exec_refused [OF hc inv1 env(2)] req s1 show ?thesis by simp
qed

theorem verified_call_blocks_next_call_witness:
  "let w = seed canonical_codec 1 2 (operator_in StateVerify (Some 7) OutcomeUnknown);
       w1 = snd (exec canonical_codec (calm 3) w w (OpVerifyDone 1 2))
   in \<exists>s1. stored canonical_codec (wOps w1) 1 2 = Some s1 \<and> snState s1 = StateReady \<and>
     exec canonical_codec (calm 4) w1 w1 (OpRecordCallStarted
       \<lparr>csTenantID = 1, csOperatorID = 2, csCallID = 8, csRespondentID = 9, csStartedAt = 0\<rparr>) = (Inl ErrInvalidTransition, w1)"
proof -
  have w: "writable canonical_codec 1 (operator_in StateVerify (Some 7) OutcomeUnknown)"
    and i: "snap_inv (operator_in StateVerify (Some 7) OutcomeUnknown)"
    by (rule operator_in_writable operator_in_inv; simp)+
  show ?thesis unfolding Let_def
    by (rule verified_call_blocks_next_call [OF canonical.hash_codec_axioms canonical.seed_inv [OF w i] calm_ok calm_ok
          canonical.seed_stored [OF w, of 2 1 2, simplified] _ _ _ surjective_pairing, where c = 7]) simp_all
qed

section \<open>The watchdog and the subscriber\<close>

text \<open>
  C5: the heartbeat sweep. When every remote call of the sweep succeeds, a sweep over operator keys
  forces offline exactly the reported operators that are on shift without a presence key (each
  at its next version, with nothing else bound), leaves every other snapshot as it is, whatever
  the batches and however often a key is reported, and counts the forced operators.
\<close>

theorem sweep_forces_exactly_the_lost:
  assumes "hash_codec C" and "fsm_inv C w" and "\<And>i. hb_env_ok C (E i)" and "counters_low C w"
    and keys: "swept replies = map (\<lambda>(t, u). opKey C t u) tus"
  defines "s' \<equiv> Sweep C E replies \<lparr>swNext = 0, swForced = 0, swWorld = w\<rparr>"
  shows "(if (t, u) \<in> set tus \<and> lost C w (t, u)
      then \<exists>p q. stored C (wOps w) t u = Some p \<and> stored C (wOps (swWorld s')) t u = Some q \<and> offline_at p q
      else stored C (wOps (swWorld s')) t u = stored C (wOps w) t u) \<and>
    swForced s' = card {x \<in> set tus. lost C w x}"
proof -
  let ?s0 = "\<lparr>swNext = 0, swForced = 0, swWorld = w\<rparr>"
  have s': "s' = fold (check_one C E) (map (\<lambda>(t, u). opKey C t u) tus) ?s0"
    by (simp add: s'_def Sweep_fold keys)
  have "fsm_inv C (swWorld ?s0)" "counters_low C (swWorld ?s0)" using assms by simp_all
  from hash_codec.fold_check_spec [where E = E and tus = tus, OF assms(1) this(1) assms(3) this(2)]
  show ?thesis unfolding s' sweep_state.select_convs add_0 by blast
qed

theorem sweep_forces_exactly_the_lost_witness:
  "swForced (Sweep canonical_codec (\<lambda>i. \<lparr>hbState = CallOk, hbExists = CallOk, hbForce = calm 9\<rparr>)
      [ScanBatch [opKey canonical_codec 1 2] 0]
      \<lparr>swNext = 0, swForced = 0, swWorld = seed canonical_codec 1 2 (operator_in StateReady None OutcomeUnknown)\<rparr>) = 1"
proof -
  let ?C = canonical_codec and ?s = "operator_in StateReady None OutcomeUnknown"
  have w: "writable ?C 1 ?s" and i: "snap_inv ?s"
    by (rule operator_in_writable operator_in_inv; simp)+
  have l: "lost ?C (seed ?C 1 2 ?s) (1, 2)"
    by (simp add: lost_def canonical.seed_stored [OF w]) (simp add: seed_def empty_world_def)
  have c: "counters_low ?C (seed ?C 1 2 ?s)" by (simp add: counters_low_def canonical.seed_stored [OF w])
  have e: "hb_env_ok ?C \<lparr>hbState = CallOk, hbExists = CallOk, hbForce = calm 9\<rparr>"
    using calm_ok [of 9] by (simp add: hb_env_ok_def)
  have "{x. x = (1, 2) \<and> lost ?C (seed ?C 1 2 ?s) x} = {(1, 2)}" using l by auto
  then show ?thesis
    using sweep_forces_exactly_the_lost [where E = "\<lambda>i. \<lparr>hbState = CallOk, hbExists = CallOk, hbForce = calm 9\<rparr>"
        and replies = "[ScanBatch [opKey ?C 1 2] 0]" and tus = "[(1, 2)]",
        OF canonical.hash_codec_axioms canonical.seed_inv [OF w i] e c] by simp
qed

text \<open>
  The delivery verdict. A telephony event is handed back for redelivery only for a transient
  fault: the operator lookup failed transiently, or the state machine failed with an error
  other than a refused transition or a version conflict. When Redis answers and the operator
  is known, every event is acknowledged.
\<close>

theorem events_redelivered_only_on_transient_faults:
  assumes "hash_codec C" and inv: "fsm_inv C w1" "fsm_inv C w2" and env: "env_ok C e"
    and lookup: "\<And>t c. lookup t c \<noteq> LookupTransient"
    and max: "\<And>t u. stored_version (stored C (wOps w1) t u) < int64_max"
  shows "fst (handle_event C lookup e w1 w2 payload) = Ack"
proof -
  have ack: "fst (fsm_verdict (exec C e w1 w2 op)) = Ack"
    if op: "piped op" "op_ok op" and refusal: "\<And>er cur. decide (eNow e) op cur = Inl er \<Longrightarrow> er = ErrInvalidTransition" for op
  proof -
    obtain t u where tu: "op_target op = (t, u)" by fastforce
    show ?thesis using hash_codec.exec_total [OF assms(1) inv env op tu max] refusal
      by (auto simp: fsm_verdict_def handleFSMError_def split: sum.splits option.splits if_splits)
  qed
  have "fst (fsm_verdict (exec C e w1 w2 (OpRecordCallStarted req))) = Ack" for req
    by (rule ack) (auto simp: event_decision_def dest: resolveTransition_Inl split: if_splits sum.splits)
  moreover have "fst (fsm_verdict (exec C e w1 w2 (OpRecordCallEnded (hangup_request ev u)))) = Ack" for ev u
    by (rule ack) (auto simp: event_decision_def hangup_request_def dest: resolveTransition_Inl split: sum.splits)
  ultimately show ?thesis using lookup
    by (auto simp: handle_event_def handleAnswered_def handleHangup_def handleLookupError_def exec.simps
        split: option.splits ChannelEventType.splits lookup_result.splits)
qed

theorem events_redelivered_only_on_transient_faults_witness:
  "fst (handle_event canonical_codec (\<lambda>_ _. OperatorFound 2) (calm 3) empty_world empty_world
     (Some \<lparr>evTenantID = 1, evCallID = 7, evType = TelHangup, evHangupCause = ''USER_BUSY'',
       evDurationMS = 10, evTimestamp = 0\<rparr>)) = Ack"
  by (rule events_redelivered_only_on_transient_faults [OF canonical.hash_codec_axioms fsm_inv_empty fsm_inv_empty calm_ok])
    (simp_all add: empty_world_def stored_def)

lemma answered_decision:
  assumes "snState s = StateDialing" and "snCurrentCallID s = Some (evCallID ev)"
  shows "decide now (OpRecordCallStarted (answered_request ev u)) s =
    Inr (Some (buildNextSnapshot s StateCall now\<lparr>snCurrentCallID := Some (evCallID ev), snRespondentID := Some uuid_Nil\<rparr>))"
  using assms by (simp add: answered_request_def event_decision_def resolveTransition_def transitions_def)

lemma hangup_decision:
  assumes "snState s = StateDialing \<or> snState s = StateCall"
  shows "decide now (OpRecordCallEnded (hangup_request ev u)) s =
    Inr (Some (buildNextSnapshot s StateStatus now\<lparr>snOutcome := outcomeForHangupCause (evHangupCause ev)\<rparr>))"
  using assms by (auto simp: hangup_request_def event_decision_def resolveTransition_def transitions_def)

context hash_codec
begin

lemma answered_commits:
  assumes inv: "fsm_inv C w" and env: "env_ok C e"
    and s: "stored C (wOps w) (evTenantID ev) u = Some s" "snState s = StateDialing" "snCurrentCallID s = Some (evCallID ev)"
    and max: "snVersion s < int64_max"
    and ev: "evType ev = TelAnswer" "evTenantID ev \<noteq> uuid_Nil" "evCallID ev \<noteq> uuid_Nil"
      "lookup (evTenantID ev) (evCallID ev) = OperatorFound u"
  shows "\<exists>w1 s1. handle_event C lookup e w w (Some ev) = (Ack, w1) \<and> fsm_inv C w1 \<and>
    stored C (wOps w1) (evTenantID ev) u = Some s1 \<and> snState s1 = StateCall \<and>
    snRespondentID s1 = Some uuid_Nil \<and> snVersion s1 = snVersion s + 1"
proof -
  let ?op = "OpRecordCallStarted (answered_request ev u)" and ?t = "evTenantID ev"
  have v: "view C n w ?t u = s" for n by (simp add: view_def s(1))
  have tgt: "op_target ?op = (?t, u)" by (simp add: answered_request_def)
  note d = answered_decision [OF s(2,3), of "eNow e" u, folded v [of "eNow e"]]
  from exec_commits [OF inv inv env _ _ tgt d] s(1) max obtain out w1 where
      "exec C e w w ?op = (Inr out, w1)" "fsm_inv C w1"
      "stored C (wOps w1) ?t u = Some (buildNextSnapshot s StateCall (eNow e)\<lparr>snCurrentCallID := Some (evCallID ev),
         snRespondentID := Some uuid_Nil, snVersion := snVersion s + 1\<rparr>)"
    by (auto simp: v commits_def)
  then show ?thesis using ev
    by (auto simp: handle_event_def handleAnswered_def fsm_verdict_def exec.simps buildNext_fields)
qed

end

text \<open>
  An \<open>answer\<close> event carries no respondent, and the subscriber passes the nil identifier on.
  Whatever respondent the dialing operator was bound to, after the event the snapshot holds the
  nil identifier, and so does the \<open>call.finalized\<close> event of the later status submission.
\<close>

theorem answer_event_erases_respondent:
  assumes "hash_codec C" and "fsm_inv C w" and "env_ok C e"
    and "stored C (wOps w) (evTenantID ev) u = Some s" "snState s = StateDialing" "snCurrentCallID s = Some (evCallID ev)"
    and "snVersion s < int64_max"
    and "evType ev = TelAnswer" "evTenantID ev \<noteq> uuid_Nil" "evCallID ev \<noteq> uuid_Nil"
      "lookup (evTenantID ev) (evCallID ev) = OperatorFound u"
  shows "\<exists>w1 s1. handle_event C lookup e w w (Some ev) = (Ack, w1) \<and>
    stored C (wOps w1) (evTenantID ev) u = Some s1 \<and> snState s1 = StateCall \<and>
    (\<forall>req upd at fe. callFinalizedExtras req s1 upd at = Some fe \<longrightarrow> feRespondentID fe = uuid_Nil)"
  using hash_codec.answered_commits [where lookup = lookup, OF assms] by (auto simp: callFinalizedExtras_def opt_or_def)

theorem answer_event_erases_respondent_witness:
  "\<exists>w1 s1. handle_event canonical_codec (\<lambda>_ _. OperatorFound 2) (calm 3)
      (seed canonical_codec 1 2 (operator_in StateDialing (Some 7) OutcomeUnknown))
      (seed canonical_codec 1 2 (operator_in StateDialing (Some 7) OutcomeUnknown))
      (Some \<lparr>evTenantID = 1, evCallID = 7, evType = TelAnswer, evHangupCause = '''', evDurationMS = 0, evTimestamp = 0\<rparr>) = (Ack, w1) \<and>
    stored canonical_codec (wOps w1) 1 2 = Some s1 \<and> snState s1 = StateCall \<and>
    (\<forall>req upd at fe. callFinalizedExtras req s1 upd at = Some fe \<longrightarrow> feRespondentID fe = uuid_Nil)"
proof -
  let ?ev = "\<lparr>evTenantID = 1, evCallID = 7, evType = TelAnswer, evHangupCause = '''', evDurationMS = 0, evTimestamp = 0\<rparr>"
  have w: "writable canonical_codec 1 (operator_in StateDialing (Some 7) OutcomeUnknown)"
    and i: "snap_inv (operator_in StateDialing (Some 7) OutcomeUnknown)"
    by (rule operator_in_writable operator_in_inv; simp)+
  have st: "stored canonical_codec (wOps (seed canonical_codec 1 2 (operator_in StateDialing (Some 7) OutcomeUnknown)))
      (evTenantID ?ev) 2 = Some (operator_in StateDialing (Some 7) OutcomeUnknown\<lparr>snVersion := 1\<rparr>)"
    by (simp add: canonical.seed_stored [OF w])
  show ?thesis
    using answer_event_erases_respondent [OF canonical.hash_codec_axioms canonical.seed_inv [OF w i] calm_ok [of 3] st,
        where lookup = "\<lambda>_ _. OperatorFound 2"] by simp
qed

text \<open>
  A hangup event that loaded the operator in \<open>dialing\<close> while the answer event of the same call
  committed is acknowledged after the version conflict without effect: it is not redelivered,
  and the operator stays in \<open>call\<close> although the call has ended.
\<close>

theorem hangup_racing_answer_is_dropped:
  assumes hc: "hash_codec C" and inv: "fsm_inv C w" and env: "env_ok C e1" "env_ok C e2"
    and s: "stored C (wOps w) (evTenantID ev) u = Some s" "snState s = StateDialing" "snCurrentCallID s = Some (evCallID ev)"
      "snVersion s < int64_max"
    and ev: "evType ev = TelAnswer" "evTenantID ev \<noteq> uuid_Nil" "evCallID ev \<noteq> uuid_Nil"
      "lookup (evTenantID ev) (evCallID ev) = OperatorFound u"
    and w1: "w1 = snd (handle_event C lookup e1 w w (Some ev))"
  shows "handle_event C lookup e2 w w1 (Some (ev\<lparr>evType := TelHangup, evHangupCause := cause\<rparr>)) = (Ack, w1) \<and>
    (\<exists>s1. stored C (wOps w1) (evTenantID ev) u = Some s1 \<and> snState s1 = StateCall)"
proof -
  let ?ev = "ev\<lparr>evType := TelHangup, evHangupCause := cause\<rparr>" and ?t = "evTenantID ev"
  obtain s1 where inv1: "fsm_inv C w1" and s1: "stored C (wOps w1) ?t u = Some s1" "snState s1 = StateCall"
      "snVersion s1 = snVersion s + 1"
    using hash_codec.answered_commits [where lookup = lookup, OF hc inv env(1) s ev] by (auto simp: w1)
  have v: "view C n w ?t u = s" for n by (simp add: view_def s(1))
  let ?op = "OpRecordCallEnded (hangup_request ?ev u)"
  have d: "decide (eNow e2) ?op (view C (eNow e2) w ?t u) =
      Inr (Some (buildNextSnapshot s StateStatus (eNow e2)\<lparr>snOutcome := outcomeForHangupCause (evHangupCause ?ev)\<rparr>))"
    unfolding v by (rule hangup_decision) (simp add: s)
  have "exec C e2 w w1 ?op = (Inl ErrConflict, w1)"
    by (rule hash_codec.exec_conflict [OF hc inv inv1 env(2) _ _ d])
      (simp_all add: v s1 s hangup_request_def)
  then show ?thesis using ev s1
    by (auto simp: handle_event_def handleHangup_def fsm_verdict_def handleFSMError_def exec.simps)
qed

theorem hangup_racing_answer_is_dropped_witness:
  "let w = seed canonical_codec 1 2 (operator_in StateDialing (Some 7) OutcomeUnknown);
       ev = \<lparr>evTenantID = 1, evCallID = 7, evType = TelAnswer, evHangupCause = '''', evDurationMS = 0, evTimestamp = 0\<rparr>;
       w1 = snd (handle_event canonical_codec (\<lambda>_ _. OperatorFound 2) (calm 3) w w (Some ev))
   in handle_event canonical_codec (\<lambda>_ _. OperatorFound 2) (calm 4) w w1
        (Some (ev\<lparr>evType := TelHangup, evHangupCause := ''NORMAL_CLEARING''\<rparr>)) = (Ack, w1)"
proof -
  let ?ev = "\<lparr>evTenantID = 1, evCallID = 7, evType = TelAnswer, evHangupCause = '''', evDurationMS = 0, evTimestamp = 0\<rparr>"
  have w: "writable canonical_codec 1 (operator_in StateDialing (Some 7) OutcomeUnknown)"
    and i: "snap_inv (operator_in StateDialing (Some 7) OutcomeUnknown)"
    by (rule operator_in_writable operator_in_inv; simp)+
  have st: "stored canonical_codec (wOps (seed canonical_codec 1 2 (operator_in StateDialing (Some 7) OutcomeUnknown)))
      (evTenantID ?ev) 2 = Some (operator_in StateDialing (Some 7) OutcomeUnknown\<lparr>snVersion := 1\<rparr>)"
    by (simp add: canonical.seed_stored [OF w])
  show ?thesis
    using hangup_racing_answer_is_dropped [OF canonical.hash_codec_axioms canonical.seed_inv [OF w i] calm_ok [of 3] calm_ok [of 4] st
        _ _ _ _ _ _ _ refl, where lookup = "\<lambda>_ _. OperatorFound 2"] by (simp add: Let_def)
qed

end
