(* ===== verification/Call_Queue.thy ===== *)
theory Call_Queue
  imports Uuid_Text "HOL-Library.Multiset"
begin

text \<open>
  The call queue (\<open>internal/dialer/queue\<close>: \<open>redis_zset.go\<close>, \<open>codec.go\<close> and the four Lua
  scripts): per tenant and project a sorted set of encoded items and a set of respondent ids.

  A member of the sorted set is the JSON text of an item. Text and document determine each
  other, so a member is the document, an ordered list of fields. Redis orders members of equal
  score by their bytes; that order is the parameter \<open>ble\<close>. Scores are integers: \<open>score\<close> is the
  value of the \<open>float64\<close> expression, which is exact below \<open>2 ^ 53\<close>. Key expiry is left to the
  environment.
\<close>

section \<open>Items and their encoding\<close>

record QueueItem =
  qiTenantID :: uuid
  qiProjectID :: uuid
  qiRespondentID :: uuid
  qiPriority :: "8 word"
  qiEnqueuedAt :: time
  qiAttemptN :: "8 word"
  qiPhone :: string
  qiRegion :: string

record EnqueueRequest =
  erTenantID :: uuid
  erProjectID :: uuid
  erRespondentID :: uuid
  erPriority :: "8 word"
  erAttemptN :: "8 word"
  erPhone :: string
  erRegion :: string

datatype jval = JStr string | JNum int

type_synonym blob = "(string \<times> jval) list"

definition maxPriority :: "8 word" where
  "maxPriority = 9"

definition score :: "8 word \<Rightarrow> time \<Rightarrow> int" where
  "score priority at = uint (min priority maxPriority) * 1000000000 + UnixMilli at"

definition encodeItem :: "codec \<Rightarrow> QueueItem \<Rightarrow> blob" where
  "encodeItem C it =
     [(''tenant_id'', JStr (uuid_String C (qiTenantID it))),
      (''project_id'', JStr (uuid_String C (qiProjectID it))),
      (''respondent_id'', JStr (uuid_String C (qiRespondentID it))),
      (''priority'', JNum (uint (min (qiPriority it) maxPriority))),
      (''enqueued_at_ms'', JNum (uint (word_of_int (UnixMilli (qiEnqueuedAt it)) :: 64 word))),
      (''attempt_n'', JNum (uint (qiAttemptN it))),
      (''phone'', JStr (qiPhone it)),
      (''region'', JStr (qiRegion it))]"

text \<open>Decoding a field into a Go string or integer: a missing key keeps the zero value.\<close>

definition field_string :: "blob \<Rightarrow> string \<Rightarrow> dialer_error + string" where
  "field_string b k = (case map_of b k of None \<Rightarrow> Inr '''' | Some (JStr s) \<Rightarrow> Inr s | Some (JNum _) \<Rightarrow> Inl ErrParse)"

definition field_int :: "int \<Rightarrow> int \<Rightarrow> blob \<Rightarrow> string \<Rightarrow> dialer_error + int" where
  "field_int lo hi b k = (case map_of b k of None \<Rightarrow> Inr 0 | Some (JStr _) \<Rightarrow> Inl ErrParse
     | Some (JNum n) \<Rightarrow> if lo \<le> n \<and> n \<le> hi then Inr n else Inl ErrParse)"

definition parse_uuid :: "codec \<Rightarrow> string \<Rightarrow> dialer_error + uuid" where
  "parse_uuid C s = (case uuid_Parse C s of None \<Rightarrow> Inl ErrParse | Some u \<Rightarrow> Inr u)"

definition decodeItem :: "codec \<Rightarrow> blob \<Rightarrow> dialer_error + QueueItem" where
  "decodeItem C b =
     bindE (field_string b ''tenant_id'') (\<lambda>rawT.
     bindE (field_string b ''project_id'') (\<lambda>rawP.
     bindE (field_string b ''respondent_id'') (\<lambda>rawR.
     bindE (field_int 0 255 b ''priority'') (\<lambda>priority.
     bindE (field_int int64_min int64_max b ''enqueued_at_ms'') (\<lambda>ms.
     bindE (field_int 0 255 b ''attempt_n'') (\<lambda>attempt.
     bindE (field_string b ''phone'') (\<lambda>phone.
     bindE (field_string b ''region'') (\<lambda>region.
     bindE (parse_uuid C rawT) (\<lambda>tenantID.
     bindE (parse_uuid C rawP) (\<lambda>projectID.
     bindE (parse_uuid C rawR) (\<lambda>respondentID.
     Inr \<lparr>qiTenantID = tenantID, qiProjectID = projectID, qiRespondentID = respondentID,
          qiPriority = word_of_int priority, qiEnqueuedAt = ms * millisecond,
          qiAttemptN = word_of_int attempt, qiPhone = phone, qiRegion = region\<rparr>)))))))))))"

section \<open>Sorted sets and the scripts\<close>

type_synonym zset = "(blob \<times> int) list"

definition zadd :: "zset \<Rightarrow> int \<Rightarrow> blob \<Rightarrow> zset" where
  "zadd z sc b = (if b \<in> fst ` set z then map (\<lambda>(m, s). if m = b then (m, sc) else (m, s)) z else z @ [(b, sc)])"

definition zless :: "(blob \<Rightarrow> blob \<Rightarrow> bool) \<Rightarrow> blob \<times> int \<Rightarrow> blob \<times> int \<Rightarrow> bool" where
  "zless ble x y \<longleftrightarrow> snd x < snd y \<or> snd x = snd y \<and> ble (fst x) (fst y) \<and> fst x \<noteq> fst y"

fun zmin :: "(blob \<Rightarrow> blob \<Rightarrow> bool) \<Rightarrow> zset \<Rightarrow> (blob \<times> int) option" where
  "zmin ble [] = None"
| "zmin ble (x # z) = (case zmin ble z of None \<Rightarrow> Some x | Some y \<Rightarrow> if zless ble y x then Some y else Some x)"

text \<open>The field the Lua scripts read after \<open>cjson.decode\<close>.\<close>

definition lua_respondent :: "blob \<Rightarrow> string option" where
  "lua_respondent b = (case map_of b ''respondent_id'' of Some (JStr s) \<Rightarrow> Some s | _ \<Rightarrow> None)"

definition enqueue_lua :: "string \<Rightarrow> int \<Rightarrow> blob \<Rightarrow> zset \<times> string set \<Rightarrow> int \<times> (zset \<times> string set)" where
  "enqueue_lua r sc b q = (case q of (z, d) \<Rightarrow>
     if r \<in> d then (0, (z, d)) else (1, (zadd z sc b, insert r d)))"

definition pop_next_lua ::
  "(blob \<Rightarrow> blob \<Rightarrow> bool) \<Rightarrow> zset \<times> string set \<Rightarrow> blob option \<times> (zset \<times> string set)" where
  "pop_next_lua ble q = (case q of (z, d) \<Rightarrow>
     case zmin ble z of
       None \<Rightarrow> (None, (z, d))
     | Some x \<Rightarrow> (Some (fst x), (remove1 x z,
         case lua_respondent (fst x) of None \<Rightarrow> d | Some r \<Rightarrow> d - {r})))"

definition requeue_lua :: "string \<Rightarrow> int \<Rightarrow> blob \<Rightarrow> zset \<times> string set \<Rightarrow> zset \<times> string set" where
  "requeue_lua r sc b q = (case q of (z, d) \<Rightarrow> (zadd z sc b, insert r d))"

text \<open>\<open>ZRANGE 0 -1\<close> walks the members in order; the first match is removed.\<close>

fun zrange :: "nat \<Rightarrow> (blob \<Rightarrow> blob \<Rightarrow> bool) \<Rightarrow> zset \<Rightarrow> zset" where
  "zrange 0 ble z = []"
| "zrange (Suc n) ble z = (case zmin ble z of None \<Rightarrow> [] | Some x \<Rightarrow> x # zrange n ble (remove1 x z))"

definition remove_lua :: "(blob \<Rightarrow> blob \<Rightarrow> bool) \<Rightarrow> string \<Rightarrow> zset \<times> string set \<Rightarrow> zset \<times> string set" where
  "remove_lua ble r q = (case q of (z, d) \<Rightarrow>
     (case find (\<lambda>x. lua_respondent (fst x) = Some r) (zrange (length z) ble z) of
        None \<Rightarrow> z | Some x \<Rightarrow> remove1 x z, d - {r}))"

section \<open>The queue\<close>

record qstore =
  qsZ :: "string \<Rightarrow> zset"
  qsD :: "string \<Rightarrow> string set"

definition zsetKey :: "codec \<Rightarrow> uuid \<Rightarrow> uuid \<Rightarrow> string" where
  "zsetKey C tenantID projectID = ''q:'' @ uuid_String C tenantID @ '':project:'' @ uuid_String C projectID"

definition dedupKey :: "codec \<Rightarrow> uuid \<Rightarrow> uuid \<Rightarrow> string" where
  "dedupKey C tenantID projectID = ''qd:'' @ uuid_String C tenantID @ '':project:'' @ uuid_String C projectID"

definition qget :: "codec \<Rightarrow> qstore \<Rightarrow> uuid \<Rightarrow> uuid \<Rightarrow> zset \<times> string set" where
  "qget C st t p = (qsZ st (zsetKey C t p), qsD st (dedupKey C t p))"

definition qput :: "codec \<Rightarrow> qstore \<Rightarrow> uuid \<Rightarrow> uuid \<Rightarrow> zset \<times> string set \<Rightarrow> qstore" where
  "qput C st t p q = st\<lparr>qsZ := (qsZ st)(zsetKey C t p := fst q), qsD := (qsD st)(dedupKey C t p := snd q)\<rparr>"

text \<open>Running a script: the reply and the new pair, seen through the network.\<close>

definition run_script ::
  "codec \<Rightarrow> call_outcome \<Rightarrow> qstore \<Rightarrow> uuid \<Rightarrow> uuid \<Rightarrow> ((zset \<times> string set) \<Rightarrow> 'a \<times> (zset \<times> string set))
   \<Rightarrow> (dialer_error + 'a) \<times> qstore" where
  "run_script C net st t p f =
     (let (r, q) = f (qget C st t p) in
      case net of CallOk \<Rightarrow> (Inr r, qput C st t p q) | CallLost \<Rightarrow> (Inl ErrTransport, st)
      | ReplyLost \<Rightarrow> (Inl ErrTransport, qput C st t p q))"

definition new_item :: "time \<Rightarrow> EnqueueRequest \<Rightarrow> QueueItem" where
  "new_item now req = \<lparr>qiTenantID = erTenantID req, qiProjectID = erProjectID req,
     qiRespondentID = erRespondentID req, qiPriority = min (erPriority req) maxPriority,
     qiEnqueuedAt = now, qiAttemptN = erAttemptN req, qiPhone = erPhone req, qiRegion = erRegion req\<rparr>"

definition EnqueueRespondent ::
  "codec \<Rightarrow> time \<Rightarrow> call_outcome \<Rightarrow> qstore \<Rightarrow> EnqueueRequest \<Rightarrow> (dialer_error + bool) \<times> qstore" where
  "EnqueueRespondent C now net st req =
     (let item = new_item now req;
          (res, st') = run_script C net st (erTenantID req) (erProjectID req)
            (enqueue_lua (uuid_String C (erRespondentID req)) (score (qiPriority item) now) (encodeItem C item))
      in case res of Inl err \<Rightarrow> (Inl err, st') | Inr n \<Rightarrow> (Inr (n \<noteq> 0), st'))"

definition PickNext ::
  "codec \<Rightarrow> (blob \<Rightarrow> blob \<Rightarrow> bool) \<Rightarrow> call_outcome \<Rightarrow> qstore \<Rightarrow> uuid \<Rightarrow> uuid \<Rightarrow> (dialer_error + QueueItem) \<times> qstore" where
  "PickNext C ble net st tenantID projectID =
     (let (res, st') = run_script C net st tenantID projectID (pop_next_lua ble)
      in case res of
           Inl err \<Rightarrow> (Inl err, st')
         | Inr None \<Rightarrow> (Inl ErrQueueEmpty, st')
         | Inr (Some b) \<Rightarrow> (decodeItem C b, st'))"

definition requeued_item :: "time \<Rightarrow> duration \<Rightarrow> QueueItem \<Rightarrow> QueueItem" where
  "requeued_item now delay item = item
     \<lparr>qiPriority := word_of_int (min (uint (qiPriority item) + 1) (uint maxPriority)),
      qiEnqueuedAt := now + (if delay < 0 then 0 else delay)\<rparr>"

definition Requeue ::
  "codec \<Rightarrow> time \<Rightarrow> call_outcome \<Rightarrow> qstore \<Rightarrow> QueueItem \<Rightarrow> duration \<Rightarrow> (dialer_error + unit) \<times> qstore" where
  "Requeue C now net st item delay =
     (let updated = requeued_item now delay item
      in run_script C net st (qiTenantID item) (qiProjectID item)
           (\<lambda>q. ((), requeue_lua (uuid_String C (qiRespondentID item))
              (score (qiPriority updated) (qiEnqueuedAt updated)) (encodeItem C updated) q)))"

definition queue_Size :: "codec \<Rightarrow> call_outcome \<Rightarrow> qstore \<Rightarrow> uuid \<Rightarrow> uuid \<Rightarrow> dialer_error + nat" where
  "queue_Size C net st tenantID projectID =
     (if net \<noteq> CallOk then Inl ErrTransport else Inr (length (qsZ st (zsetKey C tenantID projectID))))"

definition queue_Remove ::
  "codec \<Rightarrow> (blob \<Rightarrow> blob \<Rightarrow> bool) \<Rightarrow> call_outcome \<Rightarrow> qstore \<Rightarrow> uuid \<Rightarrow> uuid \<Rightarrow> uuid \<Rightarrow> (dialer_error + unit) \<times> qstore" where
  "queue_Remove C ble net st tenantID projectID respondentID =
     run_script C net st tenantID projectID (\<lambda>q. ((), remove_lua ble (uuid_String C respondentID) q))"

section \<open>Items in the queue\<close>

text \<open>Encoding clamps the priority and drops what is below a millisecond.\<close>

definition norm_item :: "QueueItem \<Rightarrow> QueueItem" where
  "norm_item it = it\<lparr>qiPriority := min (qiPriority it) maxPriority,
     qiEnqueuedAt := UnixMilli (qiEnqueuedAt it) * millisecond\<rparr>"

definition item_ok :: "QueueItem \<Rightarrow> bool" where
  "item_ok it \<longleftrightarrow> 0 \<le> qiEnqueuedAt it \<and> UnixMilli (qiEnqueuedAt it) \<le> int64_max"

definition item_score :: "QueueItem \<Rightarrow> int" where
  "item_score it = score (qiPriority it) (qiEnqueuedAt it)"

fun decoded :: "codec \<Rightarrow> zset \<Rightarrow> QueueItem list" where
  "decoded C [] = []"
| "decoded C (x # z) = (case decodeItem C (fst x) of Inl _ \<Rightarrow> decoded C z | Inr it \<Rightarrow> it # decoded C z)"

definition queued :: "codec \<Rightarrow> qstore \<Rightarrow> uuid \<Rightarrow> uuid \<Rightarrow> QueueItem list" where
  "queued C st t p = decoded C (qsZ st (zsetKey C t p))"

definition entry_ok :: "codec \<Rightarrow> uuid \<Rightarrow> uuid \<Rightarrow> blob \<times> int \<Rightarrow> bool" where
  "entry_ok C t p x \<longleftrightarrow> (\<exists>it. item_ok it \<and> x = (encodeItem C it, item_score it) \<and>
     qiTenantID it = t \<and> qiProjectID it = p)"

text \<open>The sorted set and the dedup set hold the same respondents, each once.\<close>

definition q_ok :: "codec \<Rightarrow> uuid \<Rightarrow> uuid \<Rightarrow> zset \<times> string set \<Rightarrow> bool" where
  "q_ok C t p q \<longleftrightarrow> (\<forall>x \<in> set (fst q). entry_ok C t p x) \<and>
     distinct (map qiRespondentID (decoded C (fst q))) \<and>
     snd q = uuid_String C ` qiRespondentID ` set (decoded C (fst q))"

definition queue_inv :: "codec \<Rightarrow> qstore \<Rightarrow> bool" where
  "queue_inv C st \<longleftrightarrow> (\<forall>t p. q_ok C t p (qget C st t p))"

lemma UnixMilli_millis [simp]: "UnixMilli (n * millisecond) = n"
  by (simp add: UnixMilli_def)

lemma item_score_norm [simp]: "item_score (norm_item it) = item_score it"
  by (simp add: item_score_def norm_item_def score_def)

lemma norm_item_simps [simp]:
  "qiTenantID (norm_item it) = qiTenantID it" "qiProjectID (norm_item it) = qiProjectID it"
  "qiRespondentID (norm_item it) = qiRespondentID it"
  by (simp_all add: norm_item_def)

lemma norm_norm: "norm_item (norm_item it) = norm_item it"
  by (simp add: norm_item_def)

lemma item_ok_norm: "item_ok it \<Longrightarrow> item_ok (norm_item it)"
  by (simp add: item_ok_def norm_item_def) (simp add: UnixMilli_def pos_imp_zdiv_nonneg_iff)

lemma lua_respondent_encode: "lua_respondent (encodeItem C it) = Some (uuid_String C (qiRespondentID it))"
  by (simp add: lua_respondent_def encodeItem_def)

lemma zmin_None [simp]: "zmin ble z = None \<longleftrightarrow> z = []"
  by (cases z) (auto split: option.splits)

lemma zmin_least: "zmin ble z = Some x \<Longrightarrow> x \<in> set z \<and> (\<forall>y \<in> set z. snd x \<le> snd y)"
  by (induction z arbitrary: x) (auto simp: zless_def split: option.splits if_splits)

lemma zmin_in: "zmin ble z = Some x \<Longrightarrow> x \<in> set z"
  using zmin_least by blast

lemma zrange_mset: "length z \<le> n \<Longrightarrow> mset (zrange n ble z) = mset z"
proof (induction n arbitrary: z)
  case (Suc n)
  show ?case
  proof (cases "zmin ble z")
    case (Some x)
    then have x: "x \<in> set z" by (rule zmin_in)
    then have "length (remove1 x z) \<le> n" using Suc.prems by (simp add: length_remove1)
    with Suc.IH [of "remove1 x z"] x Some show ?thesis by simp
  qed simp
qed simp

lemma set_zrange [simp]: "set (zrange (length z) ble z) = set z"
  using zrange_mset [of z "length z" ble] by (metis order_refl set_mset_mset)

lemma uint_min_maxPriority: "uint (min p maxPriority) \<le> 9"
proof -
  have "min p maxPriority \<le> maxPriority" by simp
  then have "uint (min p maxPriority) \<le> uint maxPriority" by (simp only: word_le_def)
  then show ?thesis by (simp add: maxPriority_def)
qed

context hash_codec
begin

lemma decode_encode:
  assumes "item_ok it"
  shows "decodeItem C (encodeItem C it) = Inr (norm_item it)"
proof -
  have ms: "0 \<le> UnixMilli (qiEnqueuedAt it)" "UnixMilli (qiEnqueuedAt it) \<le> int64_max"
    using assms by (simp_all add: item_ok_def UnixMilli_def pos_imp_zdiv_nonneg_iff)
  then have w: "uint (word_of_int (UnixMilli (qiEnqueuedAt it)) :: 64 word) = UnixMilli (qiEnqueuedAt it)"
    by (simp add: uint_word_of_int take_bit_eq_mod)
  have p: "uint (min (qiPriority it) maxPriority) \<le> 255" using uint_min_maxPriority [of "qiPriority it"] by simp
  have a: "uint (qiAttemptN it) \<le> 255" using uint_bounded [of "qiAttemptN it"] by simp
  show ?thesis
    using ms p a by (simp add: decodeItem_def encodeItem_def field_string_def field_int_def parse_uuid_def
        uuid_Parse_String w norm_item_def)
qed

lemma entry_decoded:
  assumes "entry_ok C t p x"
  obtains it where "decodeItem C (fst x) = Inr it" "snd x = item_score it" "qiTenantID it = t" "qiProjectID it = p"
    "lua_respondent (fst x) = Some (uuid_String C (qiRespondentID it))" "item_ok it" "norm_item it = it"
proof -
  from assms obtain it where it: "item_ok it" "x = (encodeItem C it, item_score it)" "qiTenantID it = t" "qiProjectID it = p"
    by (auto simp: entry_ok_def)
  show thesis
    by (rule that [of "norm_item it"])
      (simp_all add: it decode_encode lua_respondent_encode item_ok_norm norm_norm)
qed

lemma decoded_map:
  "\<forall>x \<in> set z. entry_ok C t p x \<Longrightarrow> decoded C z = map (\<lambda>x. projr (decodeItem C (fst x))) z"
  by (induction z) (auto elim!: entry_decoded)

lemma decoded_filter:
  "\<forall>x \<in> set z. entry_ok C t p x \<Longrightarrow>
   decoded C (filter (\<lambda>x. Q (projr (decodeItem C (fst x)))) z) = filter Q (decoded C z)"
  by (induction z) (auto elim!: entry_decoded)

lemma decoded_append: "decoded C (z @ z') = decoded C z @ decoded C z'"
  by (induction z) (auto split: sum.splits)

text \<open>Removing one entry removes the one item of its respondent.\<close>

lemma q_ok_remove:
  assumes q: "q_ok C t p (z, d)" and x: "x \<in> set z" and it: "decodeItem C (fst x) = Inr it"
  shows "decoded C (remove1 x z) = filter (\<lambda>y. qiRespondentID y \<noteq> qiRespondentID it) (decoded C z) \<and>
    q_ok C t p (remove1 x z, d - {uuid_String C (qiRespondentID it)})"
proof -
  let ?f = "\<lambda>x. projr (decodeItem C (fst x))"
  have ok: "\<forall>x \<in> set z. entry_ok C t p x" and d: "d = uuid_String C ` qiRespondentID ` set (decoded C z)"
    and dist: "distinct (map (\<lambda>x. qiRespondentID (?f x)) z)"
    using q decoded_map [of z t p] by (auto simp: q_ok_def comp_def)
  then have inj: "inj_on (\<lambda>x. qiRespondentID (?f x)) (set z)" and dz: "distinct z"
    by (simp_all add: distinct_map)
  have "remove1 x z = filter (\<lambda>y. y \<noteq> x) z"
    unfolding distinct_remove1_removeAll [OF dz] removeAll_filter_not_eq by (rule filter_cong) auto
  also have "\<dots> = filter (\<lambda>y. qiRespondentID (?f y) \<noteq> qiRespondentID it) z"
  proof (rule filter_cong [OF refl])
    fix y assume "y \<in> set z"
    then show "y \<noteq> x \<longleftrightarrow> qiRespondentID (?f y) \<noteq> qiRespondentID it"
      using inj_on_eq_iff [OF inj _ x, of y] it by simp
  qed
  finally have z: "remove1 x z = filter (\<lambda>y. qiRespondentID (?f y) \<noteq> qiRespondentID it) z" .
  have dec: "decoded C (remove1 x z) = filter (\<lambda>y. qiRespondentID y \<noteq> qiRespondentID it) (decoded C z)"
    unfolding z using decoded_filter [OF ok, of "\<lambda>y. qiRespondentID y \<noteq> qiRespondentID it"] by simp
  have "set (remove1 x z) \<subseteq> set z" by (rule set_remove1_subset)
  moreover have "distinct (map qiRespondentID (filter (\<lambda>y. qiRespondentID y \<noteq> qiRespondentID it) (decoded C z)))"
    using q by (simp add: q_ok_def distinct_map_filter)
  moreover have "d - {uuid_String C (qiRespondentID it)} =
      uuid_String C ` qiRespondentID ` set (filter (\<lambda>y. qiRespondentID y \<noteq> qiRespondentID it) (decoded C z))"
    unfolding d using uuid_String_inject by auto
  ultimately show ?thesis using ok dec by (auto simp: q_ok_def)
qed

end

section \<open>The operations\<close>

context hash_codec
begin

lemma zsetKey_inject: "zsetKey C t p = zsetKey C t' p' \<longleftrightarrow> t = t' \<and> p = p'"
  using pair_key_inject [of t "''project:''" p t' p'] by (simp add: zsetKey_def)

lemma dedupKey_inject: "dedupKey C t p = dedupKey C t' p' \<longleftrightarrow> t = t' \<and> p = p'"
  using pair_key_inject [of t "''project:''" p t' p'] by (simp add: dedupKey_def)

lemma qget_qput: "qget C (qput C st t p q) t' p' = (if t' = t \<and> p' = p then q else qget C st t' p')"
  by (auto simp: qget_def qput_def zsetKey_inject dedupKey_inject)

lemma queued_qget: "queued C st t p = decoded C (fst (qget C st t p))"
  by (simp add: queued_def qget_def)

lemma queued_qput: "queued C (qput C st t p q) t' p' = (if t' = t \<and> p' = p then decoded C (fst q) else queued C st t' p')"
  by (simp add: queued_qget qget_qput)

lemma queue_inv_qput: "queue_inv C st \<Longrightarrow> q_ok C t p q \<Longrightarrow> queue_inv C (qput C st t p q)"
  by (simp add: queue_inv_def qget_qput)

lemma queue_invD: "queue_inv C st \<Longrightarrow> q_ok C t p (qget C st t p)"
  by (simp add: queue_inv_def)

text \<open>Adding an item of a respondent that is not queued.\<close>

lemma q_ok_add:
  assumes q: "q_ok C t p (z, d)" and it: "item_ok it" "qiTenantID it = t" "qiProjectID it = p"
    and fresh: "qiRespondentID it \<notin> qiRespondentID ` set (decoded C z)"
  shows "zadd z (item_score it) (encodeItem C it) = z @ [(encodeItem C it, item_score it)] \<and>
    q_ok C t p (zadd z (item_score it) (encodeItem C it), insert (uuid_String C (qiRespondentID it)) d)"
proof -
  have "encodeItem C it \<notin> fst ` set z"
  proof
    assume "encodeItem C it \<in> fst ` set z"
    then obtain x where x: "x \<in> set z" "fst x = encodeItem C it" by auto
    have "decoded C z = map (\<lambda>x. projr (decodeItem C (fst x))) z" using q by (auto simp: q_ok_def intro: decoded_map)
    then have "norm_item it \<in> set (decoded C z)" using x it decode_encode by force
    then show False using fresh imageI [of "norm_item it" _ qiRespondentID] by simp
  qed
  then have z: "zadd z (item_score it) (encodeItem C it) = z @ [(encodeItem C it, item_score it)]" by (simp add: zadd_def)
  moreover have "q_ok C t p (z @ [(encodeItem C it, item_score it)], insert (uuid_String C (qiRespondentID it)) d)"
    using q it fresh by (auto simp: q_ok_def entry_ok_def decoded_append decode_encode)
  ultimately show ?thesis by simp
qed

lemma enqueue_spec:
  assumes inv: "queue_inv C st" and it: "item_ok (new_item now req)"
    and ex: "EnqueueRespondent C now net st req = (r, st')"
  defines "t \<equiv> erTenantID req" and "p \<equiv> erProjectID req"
  defines "dup \<equiv> erRespondentID req \<in> qiRespondentID ` set (queued C st t p)"
  shows "queue_inv C st' \<and> r = (if net = CallOk then Inr (\<not> dup) else Inl ErrTransport) \<and>
    (\<forall>t' p'. queued C st' t' p' = (if t' = t \<and> p' = p \<and> \<not> dup \<and> net \<noteq> CallLost
       then queued C st t p @ [norm_item (new_item now req)] else queued C st t' p'))"
proof -
  let ?it = "new_item now req"
  obtain z d where q: "qget C st t p = (z, d)" by fastforce
  have qok: "q_ok C t p (z, d)" using queue_invD [OF inv, of t p] q by simp
  have deq: "d = uuid_String C ` qiRespondentID ` set (decoded C z)" using qok by (simp add: q_ok_def)
  have qd: "queued C st t p = decoded C z" by (simp add: queued_qget q)
  have dup: "dup \<longleftrightarrow> uuid_String C (erRespondentID req) \<in> d"
    unfolding dup_def queued_qget q deq by (auto simp: uuid_String_inject)
  have sc: "score (qiPriority ?it) now = item_score ?it" by (simp add: item_score_def new_item_def)
  show ?thesis
  proof (cases dup)
    case True
    have "qput C st t p (z, d) = st" using q by (auto simp: qput_def qget_def)
    then show ?thesis using ex True dup q inv
      by (cases net) (auto simp: EnqueueRespondent_def run_script_def enqueue_lua_def t_def p_def Let_def)
  next
    case False
    have fr: "qiRespondentID ?it \<notin> qiRespondentID ` set (decoded C z)"
      using False by (simp add: dup_def queued_qget q new_item_def)
    have fields: "qiTenantID ?it = t" "qiProjectID ?it = p" "qiRespondentID ?it = erRespondentID req"
      by (simp_all add: new_item_def t_def p_def)
    let ?q = "(zadd z (item_score ?it) (encodeItem C ?it), insert (uuid_String C (erRespondentID req)) d)"
    have add: "fst ?q = z @ [(encodeItem C ?it, item_score ?it)]" "q_ok C t p ?q"
      using q_ok_add [OF qok it fields(1,2) fr] fields(3) by auto
    have "enqueue_lua (uuid_String C (erRespondentID req)) (score (qiPriority ?it) now) (encodeItem C ?it) (z, d) = (1, ?q)"
      using False dup by (simp add: enqueue_lua_def sc)
    then have "r = (if net = CallOk then Inr True else Inl ErrTransport) \<and> st' = (if net = CallLost then st else qput C st t p ?q)"
      using ex q by (cases net) (auto simp: EnqueueRespondent_def run_script_def t_def p_def Let_def)
    then show ?thesis using False add inv queue_inv_qput [OF inv add(2)]
      by (auto simp: queued_qput decoded_append decode_encode [OF it] qd)
  qed
qed

lemma pick_spec:
  assumes inv: "queue_inv C st" and ex: "PickNext C ble net st t p = (r, st')"
  shows "queue_inv C st' \<and>
    (if queued C st t p = [] \<or> net = CallLost
     then st' = st \<and> r = Inl (if net = CallOk then ErrQueueEmpty else ErrTransport)
     else \<exists>it \<in> set (queued C st t p). (\<forall>y \<in> set (queued C st t p). item_score it \<le> item_score y) \<and>
       r = (if net = CallOk then Inr it else Inl ErrTransport) \<and>
       (\<forall>t' p'. queued C st' t' p' = (if t' = t \<and> p' = p
          then filter (\<lambda>y. qiRespondentID y \<noteq> qiRespondentID it) (queued C st t p) else queued C st t' p')))"
proof -
  obtain z d where q: "qget C st t p = (z, d)" by fastforce
  have qok: "q_ok C t p (z, d)" using queue_invD [OF inv, of t p] q by simp
  then have ok: "\<forall>x \<in> set z. entry_ok C t p x" by (simp add: q_ok_def)
  have dm: "decoded C z = map (\<lambda>x. projr (decodeItem C (fst x))) z" by (rule decoded_map [OF ok])
  have qd: "queued C st t p = decoded C z" by (simp add: queued_qget q)
  show ?thesis
  proof (cases "zmin ble z")
    case None
    have "qput C st t p (z, d) = st" using q by (auto simp: qput_def qget_def)
    then show ?thesis using ex None q inv qd
      by (cases net) (auto simp: PickNext_def run_script_def pop_next_lua_def Let_def)
  next
    case (Some x)
    then have x: "x \<in> set z" "\<forall>y \<in> set z. snd x \<le> snd y" using zmin_least by blast+
    from ok x(1) obtain it where it: "decodeItem C (fst x) = Inr it" "snd x = item_score it"
        "lua_respondent (fst x) = Some (uuid_String C (qiRespondentID it))"
      by (metis entry_decoded)
    note rem = q_ok_remove [OF qok x(1) it(1)]
    have mem: "it \<in> set (decoded C z)" using x(1) it(1) by (force simp: dm)
    have least: "\<forall>y \<in> set (decoded C z). item_score it \<le> item_score y"
    proof
      fix y assume "y \<in> set (decoded C z)"
      then obtain v where v: "v \<in> set z" "y = projr (decodeItem C (fst v))" by (auto simp: dm)
      then have "snd v = item_score y" using ok by (metis entry_decoded sum.sel(2))
      then show "item_score it \<le> item_score y" using x(2) v(1) it(2) by fastforce
    qed
    let ?q = "(remove1 x z, d - {uuid_String C (qiRespondentID it)})"
    have "pop_next_lua ble (z, d) = (Some (fst x), ?q)" using Some it(3) by (simp add: pop_next_lua_def)
    then have "r = (if net = CallOk then Inr it else Inl ErrTransport) \<and> st' = (if net = CallLost then st else qput C st t p ?q)"
      using ex q it(1) by (cases net) (auto simp: PickNext_def run_script_def Let_def)
    moreover have "decoded C z \<noteq> []" using mem by auto
    ultimately show ?thesis using rem least mem inv queue_inv_qput [OF inv, of t p ?q]
      by (auto simp: qd queued_qput)
  qed
qed

end

context hash_codec
begin

lemma remove_spec:
  assumes inv: "queue_inv C st" and ex: "queue_Remove C ble net st t p rid = (r, st')"
  shows "queue_inv C st' \<and> r = (if net = CallOk then Inr () else Inl ErrTransport) \<and>
    (\<forall>t' p'. queued C st' t' p' = (if t' = t \<and> p' = p \<and> net \<noteq> CallLost
       then filter (\<lambda>y. qiRespondentID y \<noteq> rid) (queued C st t p) else queued C st t' p'))"
proof -
  obtain z d where q: "qget C st t p = (z, d)" by fastforce
  have qok: "q_ok C t p (z, d)" using queue_invD [OF inv, of t p] q by simp
  then have ok: "\<forall>x \<in> set z. entry_ok C t p x" and d: "d = uuid_String C ` qiRespondentID ` set (decoded C z)"
    by (simp_all add: q_ok_def)
  have dm: "decoded C z = map (\<lambda>x. projr (decodeItem C (fst x))) z" by (rule decoded_map [OF ok])
  have qd: "queued C st t p = decoded C z" by (simp add: queued_qget q)
  let ?q = "remove_lua ble (uuid_String C rid) (z, d)"
  have main: "q_ok C t p ?q \<and> decoded C (fst ?q) = filter (\<lambda>y. qiRespondentID y \<noteq> rid) (decoded C z)"
  proof (cases "find (\<lambda>x. lua_respondent (fst x) = Some (uuid_String C rid)) (zrange (length z) ble z)")
    case None
    have "rid \<notin> qiRespondentID ` set (decoded C z)"
    proof
      assume "rid \<in> qiRespondentID ` set (decoded C z)"
      then obtain x where x: "x \<in> set z" "qiRespondentID (projr (decodeItem C (fst x))) = rid" by (auto simp: dm)
      then have "lua_respondent (fst x) = Some (uuid_String C rid)" using ok by (metis entry_decoded sum.sel(2))
      then show False using None x(1) unfolding find_None_iff set_zrange by blast
    qed
    then have "filter (\<lambda>y. qiRespondentID y \<noteq> rid) (decoded C z) = decoded C z" "d - {uuid_String C rid} = d"
      by (auto simp: filter_id_conv d uuid_String_inject)
    then show ?thesis using None qok by (simp add: remove_lua_def)
  next
    case (Some x)
    then have x: "x \<in> set z" "lua_respondent (fst x) = Some (uuid_String C rid)"
      by (auto simp: find_Some_iff) (metis nth_mem set_zrange)
    from ok x(1) obtain it where it: "decodeItem C (fst x) = Inr it"
        "lua_respondent (fst x) = Some (uuid_String C (qiRespondentID it))" by (metis entry_decoded)
    then have "qiRespondentID it = rid" using x(2) uuid_String_inject by simp
    then show ?thesis using q_ok_remove [OF qok x(1) it(1)] Some by (simp add: remove_lua_def)
  qed
  have "r = (if net = CallOk then Inr () else Inl ErrTransport) \<and> st' = (if net = CallLost then st else qput C st t p ?q)"
    using ex q by (cases net) (auto simp: queue_Remove_def run_script_def Let_def)
  then show ?thesis using main inv queue_inv_qput [OF inv, of t p ?q] by (auto simp: queued_qput qd)
qed

text \<open>\<open>Requeue\<close> keeps the queue in order when the respondent is not queued, as after a pick.\<close>

lemma requeue_spec:
  assumes inv: "queue_inv C st" and ex: "Requeue C now net st item delay = (r, st')"
    and it: "item_ok (requeued_item now delay item)"
    and fresh: "qiRespondentID item \<notin> qiRespondentID ` set (queued C st (qiTenantID item) (qiProjectID item))"
  shows "queue_inv C st' \<and> r = (if net = CallOk then Inr () else Inl ErrTransport) \<and>
    (\<forall>t' p'. queued C st' t' p' = (if t' = qiTenantID item \<and> p' = qiProjectID item \<and> net \<noteq> CallLost
       then queued C st t' p' @ [norm_item (requeued_item now delay item)] else queued C st t' p'))"
proof -
  let ?it = "requeued_item now delay item" and ?t = "qiTenantID item" and ?p = "qiProjectID item"
  obtain z d where q: "qget C st ?t ?p = (z, d)" by fastforce
  have qok: "q_ok C ?t ?p (z, d)" using queue_invD [OF inv, of ?t ?p] q by simp
  have qd: "queued C st ?t ?p = decoded C z" by (simp add: queued_qget q)
  have fields: "qiTenantID ?it = ?t" "qiProjectID ?it = ?p" "qiRespondentID ?it = qiRespondentID item"
    by (simp_all add: requeued_item_def)
  let ?q = "(zadd z (item_score ?it) (encodeItem C ?it), insert (uuid_String C (qiRespondentID item)) d)"
  have add: "fst ?q = z @ [(encodeItem C ?it, item_score ?it)]" "q_ok C ?t ?p ?q"
    using q_ok_add [OF qok it fields(1,2)] fields(3) fresh qd by auto
  have "r = (if net = CallOk then Inr () else Inl ErrTransport) \<and> st' = (if net = CallLost then st else qput C st ?t ?p ?q)"
    using ex q by (cases net) (auto simp: Requeue_def run_script_def requeue_lua_def item_score_def Let_def)
  then show ?thesis using add inv queue_inv_qput [OF inv add(2)]
    by (auto simp: queued_qput decoded_append decode_encode [OF it] qd)
qed

lemma queued_distinct: "queue_inv C st \<Longrightarrow> distinct (map qiRespondentID (queued C st t p))"
  using queue_invD [of st t p] by (simp add: q_ok_def queued_qget)

lemma size_spec: "queue_inv C st \<Longrightarrow> queue_Size C CallOk st t p = Inr (length (queued C st t p))"
  using queue_invD [of st t p] decoded_map [of "qsZ st (zsetKey C t p)" t p]
  by (simp add: queue_Size_def queued_def q_ok_def qget_def)

end

lemma queue_inv_empty: "queue_inv C \<lparr>qsZ = \<lambda>_. [], qsD = \<lambda>_. {}\<rparr>"
  by (simp add: queue_inv_def q_ok_def qget_def)

section \<open>The queue interface\<close>

text \<open>
  What the users of the queue rely on: \<open>items\<close> is the content per tenant and project, with each
  respondent at most once; enqueueing adds a respondent that is not there and says so; picking
  takes an item of least score, or reports an empty queue.
\<close>

locale call_queue =
  fixes items :: "'s \<Rightarrow> uuid \<Rightarrow> uuid \<Rightarrow> QueueItem list"
    and good :: "'s \<Rightarrow> bool"
    and enq :: "time \<Rightarrow> 's \<Rightarrow> EnqueueRequest \<Rightarrow> (dialer_error + bool) \<times> 's"
    and pick :: "'s \<Rightarrow> uuid \<Rightarrow> uuid \<Rightarrow> (dialer_error + QueueItem) \<times> 's"
  assumes distinct_items: "good s \<Longrightarrow> distinct (map qiRespondentID (items s t p))"
    and enq_law: "good s \<Longrightarrow> item_ok (new_item now req) \<Longrightarrow> enq now s req = (r, s') \<Longrightarrow>
      good s' \<and> r = Inr (erRespondentID req \<notin> qiRespondentID ` set (items s (erTenantID req) (erProjectID req))) \<and>
      items s' t p = (if t = erTenantID req \<and> p = erProjectID req \<and> r = Inr True
        then items s t p @ [norm_item (new_item now req)] else items s t p)"
    and pick_empty: "good s \<Longrightarrow> items s t p = [] \<Longrightarrow> pick s t p = (Inl ErrQueueEmpty, s)"
    and pick_law: "good s \<Longrightarrow> items s t p \<noteq> [] \<Longrightarrow> \<exists>it s'. pick s t p = (Inr it, s') \<and> good s' \<and>
      it \<in> set (items s t p) \<and> (\<forall>y \<in> set (items s t p). item_score it \<le> item_score y) \<and>
      (\<forall>t' p'. items s' t' p' = (if t' = t \<and> p' = p
        then filter (\<lambda>y. qiRespondentID y \<noteq> qiRespondentID it) (items s t p) else items s t' p'))"

text \<open>A worker that picks until the queue is empty, at most \<open>n\<close> times.\<close>

fun drain :: "('s \<Rightarrow> (dialer_error + QueueItem) \<times> 's) \<Rightarrow> nat \<Rightarrow> 's \<Rightarrow> QueueItem list \<times> 's" where
  "drain pk 0 s = ([], s)"
| "drain pk (Suc n) s = (case pk s of (Inl _, s') \<Rightarrow> ([], s') | (Inr it, s') \<Rightarrow>
     (case drain pk n s' of (its, s'') \<Rightarrow> (it # its, s'')))"

lemma mset_filter_key:
  assumes "distinct (map f xs)" and "x \<in> set xs"
  shows "mset xs = add_mset x (mset (filter (\<lambda>y. f y \<noteq> f x) xs))"
  using assms
proof (induction xs)
  case (Cons a xs)
  show ?case
  proof (cases "a = x")
    case True
    then have "f x \<notin> f ` set xs" using Cons.prems by simp
    then have "\<forall>y \<in> set xs. f y \<noteq> f x" by (metis imageI)
    then have "filter (\<lambda>y. f y \<noteq> f x) xs = xs" by (rule filter_True)
    then show ?thesis using True by simp
  next
    case False
    then have "x \<in> set xs" "f a \<noteq> f x" using Cons.prems by auto
    then show ?thesis using Cons by simp
  qed
qed simp

context call_queue
begin

lemma drain_all:
  assumes "good s" and "length (items s t p) \<le> n"
  shows "\<exists>its s'. drain (\<lambda>s. pick s t p) n s = (its, s') \<and> good s' \<and> items s' t p = [] \<and>
    mset its = mset (items s t p) \<and> sorted (map item_score its)"
  using assms
proof (induction n arbitrary: s)
  case 0
  then show ?case by simp
next
  case (Suc n)
  show ?case
  proof (cases "items s t p = []")
    case True
    then show ?thesis using pick_empty [OF Suc.prems(1)] Suc.prems(1) by simp
  next
    case False
    obtain it s1 where pk: "pick s t p = (Inr it, s1)" "good s1" "it \<in> set (items s t p)"
        "\<forall>y \<in> set (items s t p). item_score it \<le> item_score y"
        "items s1 t p = filter (\<lambda>y. qiRespondentID y \<noteq> qiRespondentID it) (items s t p)"
      using pick_law [OF Suc.prems(1) False] by auto
    have ms: "mset (items s t p) = add_mset it (mset (items s1 t p))"
      unfolding pk(5) by (rule mset_filter_key [OF distinct_items [OF Suc.prems(1)] pk(3)])
    then have "length (items s1 t p) \<le> n" using Suc.prems(2) by (metis Suc_le_mono size_add_mset size_mset)
    from Suc.IH [OF pk(2) this] obtain its s' where d: "drain (\<lambda>s. pick s t p) n s1 = (its, s')" "good s'"
        "items s' t p = []" "mset its = mset (items s1 t p)" "sorted (map item_score its)" by blast
    have "set its = set (items s1 t p)" using d(4) by (metis set_mset_mset)
    then have "\<forall>y \<in> set its. item_score it \<le> item_score y" using pk(4,5) by auto
    then have "sorted (map item_score (it # its))" using d(5) by simp
    moreover have "drain (\<lambda>s. pick s t p) (Suc n) s = (it # its, s')" using d(1) pk(1) by simp
    moreover have "mset (it # its) = mset (items s t p)" using ms d(4) by simp
    ultimately show ?thesis using d(2,3) by blast
  qed
qed

end

sublocale hash_codec \<subseteq> redis_queue: call_queue "queued C" "queue_inv C"
  "\<lambda>now. EnqueueRespondent C now CallOk" "PickNext C ble CallOk" for ble
proof
  fix s t p assume "queue_inv C s"
  then show "distinct (map qiRespondentID (queued C s t p))" by (rule queued_distinct)
next
  fix s now req r s' t p
  assume "queue_inv C s" "item_ok (new_item now req)" "EnqueueRespondent C now CallOk s req = (r, s')"
  from enqueue_spec [OF this] show "queue_inv C s' \<and>
      r = Inr (erRespondentID req \<notin> qiRespondentID ` set (queued C s (erTenantID req) (erProjectID req))) \<and>
      queued C s' t p = (if t = erTenantID req \<and> p = erProjectID req \<and> r = Inr True
        then queued C s t p @ [norm_item (new_item now req)] else queued C s t p)" by auto
next
  fix s t p assume "queue_inv C s" "queued C s t p = []"
  moreover obtain r s' where "PickNext C ble CallOk s t p = (r, s')" by fastforce
  ultimately show "PickNext C ble CallOk s t p = (Inl ErrQueueEmpty, s)" using pick_spec by fastforce
next
  fix s t p assume a: "queue_inv C s" "queued C s t p \<noteq> []"
  obtain r s' where pk: "PickNext C ble CallOk s t p = (r, s')" by fastforce
  from pick_spec [OF a(1) pk] a(2) show "\<exists>it s'. PickNext C ble CallOk s t p = (Inr it, s') \<and> queue_inv C s' \<and>
      it \<in> set (queued C s t p) \<and> (\<forall>y \<in> set (queued C s t p). item_score it \<le> item_score y) \<and>
      (\<forall>t' p'. queued C s' t' p' = (if t' = t \<and> p' = p
        then filter (\<lambda>y. qiRespondentID y \<noteq> qiRespondentID it) (queued C s t p) else queued C s t' p'))"
    using pk by auto
qed

section \<open>Properties\<close>

text \<open>Sequences of operations, each with the fate of its remote call.\<close>

datatype queue_op =
    QEnqueue time call_outcome EnqueueRequest
  | QPick call_outcome uuid uuid
  | QRemove call_outcome uuid uuid uuid

fun queue_step :: "codec \<Rightarrow> (blob \<Rightarrow> blob \<Rightarrow> bool) \<Rightarrow> queue_op \<Rightarrow> qstore \<Rightarrow> qstore" where
  "queue_step C ble (QEnqueue now net req) st = snd (EnqueueRespondent C now net st req)"
| "queue_step C ble (QPick net t p) st = snd (PickNext C ble net st t p)"
| "queue_step C ble (QRemove net t p r) st = snd (queue_Remove C ble net st t p r)"

fun queue_op_ok :: "queue_op \<Rightarrow> bool" where
  "queue_op_ok (QEnqueue now net req) = item_ok (new_item now req)"
| "queue_op_ok op = True"

definition empty_queue :: qstore where
  "empty_queue = \<lparr>qsZ = \<lambda>_. [], qsD = \<lambda>_. {}\<rparr>"

context hash_codec
begin

lemma queue_step_inv: "queue_inv C st \<Longrightarrow> queue_op_ok op \<Longrightarrow> queue_inv C (queue_step C ble op st)"
  using enqueue_spec [OF _ _ surjective_pairing] pick_spec [OF _ surjective_pairing]
    remove_spec [OF _ surjective_pairing] by (cases op) auto

lemma drain_redis:
  "queue_inv C st \<Longrightarrow> length (queued C st t p) \<le> n \<Longrightarrow>
   \<exists>its st'. drain (\<lambda>s. PickNext C ble CallOk s t p) n st = (its, st') \<and> queue_inv C st' \<and> queued C st' t p = [] \<and>
     mset its = mset (queued C st t p) \<and> sorted (map item_score its)"
  by (rule redis_queue.drain_all)

lemma queue_run_inv:
  "queue_inv C st \<Longrightarrow> list_all queue_op_ok ops \<Longrightarrow> queue_inv C (fold (queue_step C ble) ops st)"
  by (induction ops arbitrary: st) (simp_all add: queue_step_inv)

end

text \<open>
  C13: the queue invariant. After any sequence of enqueue, pick and remove operations, with
  requests and replies lost at any point, every respondent is queued at most once per tenant
  and project, and the dedup set holds exactly the queued respondents.
\<close>

theorem queue_holds_each_respondent_once:
  fixes ble :: "blob \<Rightarrow> blob \<Rightarrow> bool"
  assumes "hash_codec C" and "list_all queue_op_ok ops"
  defines "st \<equiv> fold (queue_step C ble) ops empty_queue"
  shows "distinct (map qiRespondentID (queued C st t p)) \<and>
    qsD st (dedupKey C t p) = uuid_String C ` qiRespondentID ` set (queued C st t p)"
proof -
  have "queue_inv C st"
    unfolding st_def using hash_codec.queue_run_inv [OF assms(1) queue_inv_empty assms(2)] by (simp add: empty_queue_def)
  then show ?thesis by (simp add: queue_inv_def q_ok_def qget_def queued_def)
qed

definition sample_request :: "uuid \<Rightarrow> 8 word \<Rightarrow> EnqueueRequest" where
  "sample_request r prio = \<lparr>erTenantID = 1, erProjectID = 6, erRespondentID = r, erPriority = prio,
     erAttemptN = 1, erPhone = ''+79990000000'', erRegion = ''RU-MOW''\<rparr>"

lemma sample_ok: "0 \<le> now \<Longrightarrow> now \<le> int64_max \<Longrightarrow> item_ok (new_item now (sample_request r prio))"
  by (simp add: item_ok_def new_item_def UnixMilli_def)

theorem queue_holds_each_respondent_once_witness:
  "distinct (map qiRespondentID (queued canonical_codec (fold (queue_step canonical_codec (\<lambda>_ _. True))
     [QEnqueue 5 ReplyLost (sample_request 7 3), QEnqueue 6 CallOk (sample_request 7 3)] empty_queue) 1 6))"
  using queue_holds_each_respondent_once [OF canonical.hash_codec_axioms,
      of "[QEnqueue 5 ReplyLost (sample_request 7 3), QEnqueue 6 CallOk (sample_request 7 3)]" "\<lambda>_ _. True" 1 6]
  by (simp add: sample_ok del: queue_step.simps)

text \<open>
  C14: priority order. A worker that picks until the queue is empty receives every queued item exactly
  once, in ascending order of the score, and leaves the queue empty.
\<close>

theorem picking_drains_in_score_order:
  assumes "hash_codec C" and "queue_inv C st" and "length (queued C st t p) \<le> n"
  shows "\<exists>its st'. drain (\<lambda>s. PickNext C ble CallOk s t p) n st = (its, st') \<and> queued C st' t p = [] \<and>
    mset its = mset (queued C st t p) \<and> sorted (map item_score its)"
  using hash_codec.drain_redis [OF assms] by blast

theorem picking_drains_in_score_order_witness:
  "\<exists>its st'. drain (\<lambda>s. PickNext canonical_codec (\<lambda>_ _. True) CallOk s 1 6) 5
     (queue_step canonical_codec (\<lambda>_ _. True) (QEnqueue 5 CallOk (sample_request 7 3)) empty_queue) = (its, st') \<and>
     queued canonical_codec st' 1 6 = [] \<and> mset its = {#norm_item (new_item 5 (sample_request 7 3))#}"
proof -
  let ?C = canonical_codec and ?st = "queue_step canonical_codec (\<lambda>_ _. True) (QEnqueue 5 CallOk (sample_request 7 3)) empty_queue"
  have e: "queue_inv ?C empty_queue" using queue_inv_empty by (simp add: empty_queue_def)
  have none: "queued ?C empty_queue t p = []" for t p by (simp add: queued_def empty_queue_def)
  obtain r st where ex: "EnqueueRespondent ?C 5 CallOk empty_queue (sample_request 7 3) = (r, st)" by fastforce
  note sp = canonical.enqueue_spec [OF e sample_ok ex, simplified]
  have inv: "queue_inv ?C ?st" and q: "queued ?C ?st 1 6 = [norm_item (new_item 5 (sample_request 7 3))]"
    using sp ex none by (auto simp: sample_request_def)
  show ?thesis using picking_drains_in_score_order [OF canonical.hash_codec_axioms inv, of 1 6 5 "\<lambda>_ _. True"]
    unfolding q by auto
qed

text \<open>
  Bounds of the score. Scores of instants up to \<open>2 ^ 52\<close> milliseconds stay below \<open>2 ^ 53\<close>, so the
  floating-point value is exact; a lower priority number wins unless its item was enqueued at
  least \<open>10 ^ 9\<close> milliseconds later, and within a priority the earlier item wins.
\<close>

theorem score_bands:
  assumes "0 \<le> UnixMilli at1" and "UnixMilli at1 \<le> 2 ^ 52"
  shows "0 \<le> score p1 at1 \<and> score p1 at1 < 2 ^ 53 \<and>
    (p1 < p2 \<and> p2 \<le> maxPriority \<and> UnixMilli at1 < UnixMilli at2 + 10 ^ 9 \<longrightarrow> score p1 at1 < score p2 at2) \<and>
    (UnixMilli at1 < UnixMilli at2 \<longrightarrow> score p1 at1 < score p1 at2)"
proof -
  have b: "0 \<le> uint (min p1 maxPriority)" "uint (min p1 maxPriority) \<le> 9"
    using uint_min_maxPriority by simp_all
  have "score p1 at1 < score p2 at2"
    if "p1 < p2" "p2 \<le> maxPriority" "UnixMilli at1 < UnixMilli at2 + 10 ^ 9"
  proof -
    have "min p1 maxPriority = p1" "min p2 maxPriority = p2" using that less_imp_le order.strict_trans2
      by (metis min.absorb1 min.absorb2 linorder_not_le)+
    moreover have "uint p1 + 1 \<le> uint p2" using that(1) by (simp add: word_less_def)
    ultimately show ?thesis using that(3) by (simp add: score_def)
  qed
  then show ?thesis using b assms by (auto simp: score_def)
qed

theorem score_bands_witness:
  "score 4 (5 * millisecond) < score 5 (2 * millisecond)"
  using score_bands [of "5 * millisecond" 4 5 "2 * millisecond"] by (simp add: maxPriority_def UnixMilli_def)

text \<open>
  The delay of \<open>Requeue\<close> is not honoured. An item requeued into an otherwise empty queue with any
  delay is returned by the very next pick: the delay only moves the item back in the order.
\<close>

theorem requeue_delay_not_honoured:
  assumes hc: "hash_codec C" and inv: "queue_inv C st" and it: "item_ok (requeued_item now delay item)"
    and empty: "queued C st (qiTenantID item) (qiProjectID item) = []"
    and ex: "Requeue C now CallOk st item delay = (r, st')"
  shows "fst (PickNext C ble CallOk st' (qiTenantID item) (qiProjectID item)) = Inr (norm_item (requeued_item now delay item))"
proof -
  let ?t = "qiTenantID item" and ?p = "qiProjectID item"
  have q: "queue_inv C st'" "queued C st' ?t ?p = [norm_item (requeued_item now delay item)]"
    using hash_codec.requeue_spec [OF hc inv ex it] empty by auto
  obtain r' st'' where pk: "PickNext C ble CallOk st' ?t ?p = (r', st'')" by fastforce
  show ?thesis using hash_codec.pick_spec [OF hc q(1) pk] pk q(2) by auto
qed

definition sample_item :: QueueItem where
  "sample_item = new_item 5 (sample_request 7 3)"

theorem requeue_delay_not_honoured_witness:
  "fst (PickNext canonical_codec (\<lambda>_ _. True) CallOk (snd (Requeue canonical_codec 10 CallOk empty_queue sample_item hour)) 1 6)
     = Inr (norm_item (requeued_item 10 hour sample_item))"
proof -
  have ok: "item_ok (requeued_item 10 hour sample_item)"
    by (simp add: item_ok_def requeued_item_def UnixMilli_def)
  have f: "qiTenantID sample_item = 1" "qiProjectID sample_item = 6"
    by (simp_all add: sample_item_def new_item_def sample_request_def)
  have inv: "queue_inv canonical_codec empty_queue" using queue_inv_empty by (simp add: empty_queue_def)
  show ?thesis
    using requeue_delay_not_honoured [OF canonical.hash_codec_axioms inv ok _ surjective_pairing, of "\<lambda>_ _. True"] f
    by (simp add: queued_def empty_queue_def)
qed

text \<open>
  \<open>Requeue\<close> does not look at the dedup set. If the respondent was enqueued again after the pick
  (by the retry or the generator), requeueing the picked item leaves the respondent in the queue
  twice.
\<close>

theorem requeue_can_duplicate_respondent:
  assumes hc: "hash_codec C" and inv: "queue_inv C st"
    and it: "item_ok (requeued_item now delay item)"
    and other: "old \<in> set (queued C st (qiTenantID item) (qiProjectID item))" "qiRespondentID old = qiRespondentID item"
      "norm_item (requeued_item now delay item) \<notin> set (queued C st (qiTenantID item) (qiProjectID item))"
    and ex: "Requeue C now CallOk st item delay = (r, st')"
  shows "{old, norm_item (requeued_item now delay item)} \<subseteq> set (queued C st' (qiTenantID item) (qiProjectID item)) \<and>
    \<not> distinct (map qiRespondentID (queued C st' (qiTenantID item) (qiProjectID item)))"
proof -
  let ?it = "requeued_item now delay item" and ?t = "qiTenantID item" and ?p = "qiProjectID item"
  obtain z d where q: "qget C st ?t ?p = (z, d)" by fastforce
  have qd: "queued C st ?t ?p = decoded C z" using q by (simp add: queued_def qget_def)
  have ok: "\<forall>x \<in> set z. entry_ok C ?t ?p x" using inv q by (auto simp: queue_inv_def q_ok_def)
  have "encodeItem C ?it \<notin> fst ` set z"
  proof
    assume "encodeItem C ?it \<in> fst ` set z"
    then obtain x where x: "x \<in> set z" "fst x = encodeItem C ?it" by auto
    then have "norm_item ?it \<in> set (decoded C z)"
      using hash_codec.decoded_map [OF hc ok] hash_codec.decode_encode [OF hc it] by force
    then show False using other(3) qd by simp
  qed
  then have zadd: "zadd z (item_score ?it) (encodeItem C ?it) = z @ [(encodeItem C ?it, item_score ?it)]"
    by (simp add: zadd_def)
  have "st' = qput C st ?t ?p (zadd z (item_score ?it) (encodeItem C ?it), insert (uuid_String C (qiRespondentID item)) d)"
    using ex q by (auto simp: Requeue_def run_script_def requeue_lua_def item_score_def Let_def)
  then have "queued C st' ?t ?p = queued C st ?t ?p @ [norm_item ?it]"
    using hash_codec.queued_qput [OF hc] hash_codec.decoded_append [OF hc] hash_codec.decode_encode [OF hc it]
    by (simp add: zadd qd)
  moreover have "qiRespondentID (norm_item ?it) = qiRespondentID old" using other(2) by (simp add: requeued_item_def)
  moreover have "qiRespondentID old \<in> qiRespondentID ` set (queued C st ?t ?p)" using other(1) by (rule imageI)
  ultimately show ?thesis using other(1) by simp
qed

theorem requeue_can_duplicate_respondent_witness:
  "\<not> distinct (map qiRespondentID (queued canonical_codec (snd (Requeue canonical_codec 10 CallOk
      (snd (EnqueueRespondent canonical_codec 5 CallOk empty_queue (sample_request 7 3))) sample_item hour)) 1 6))"
proof -
  let ?C = canonical_codec
  obtain r st where en: "EnqueueRespondent ?C 5 CallOk empty_queue (sample_request 7 3) = (r, st)" by fastforce
  have e: "queue_inv ?C empty_queue" using queue_inv_empty by (simp add: empty_queue_def)
  have f: "qiTenantID sample_item = 1" "qiProjectID sample_item = 6"
    by (simp_all add: sample_item_def new_item_def sample_request_def)
  have inv: "queue_inv ?C st" and q: "queued ?C st 1 6 = [norm_item sample_item]"
    using canonical.enqueue_spec [OF e sample_ok en]
    by (auto simp: sample_request_def sample_item_def queued_def empty_queue_def)
  have ok: "item_ok (requeued_item 10 hour sample_item)"
    by (simp add: item_ok_def requeued_item_def UnixMilli_def)
  have ne: "norm_item (requeued_item 10 hour sample_item) \<noteq> norm_item sample_item"
    by (auto simp: norm_item_def requeued_item_def sample_item_def new_item_def UnixMilli_def dest!: arg_cong [where f = qiEnqueuedAt])
  show ?thesis
    using requeue_can_duplicate_respondent [OF canonical.hash_codec_axioms inv ok, of "norm_item sample_item"] q f en ne
    by (simp add: prod_eq_iff)
qed

end
