(* ===== verification/Retry.thy ===== *)
theory Retry
  imports Call_Queue
begin

text \<open>
  The retry orchestrator (\<open>internal/dialer/retry\<close>): the disposition rules, the respondent rows it
  reads and marks, the sweep that puts mature retries back into the call queue, and the
  leader election that keeps one replica sweeping.

  The queue is the interface \<open>api.CallQueue\<close>: the orchestrator's definitions take the enqueue
  operation as an argument, and their lemmas are proved in the locale \<open>call_queue\<close>. The phone
  decryptor is the parameter \<open>dec\<close>.
\<close>

section \<open>Disposition rules\<close>

record Decision =
  dcRetry :: bool
  dcDelay :: duration
  dcMarkExhausted :: bool
  dcMarkDNC :: bool
  dcCountsAttempt :: bool

definition no_decision :: Decision where
  "no_decision = \<lparr>dcRetry = False, dcDelay = 0, dcMarkExhausted = False, dcMarkDNC = False, dcCountsAttempt = False\<rparr>"

definition DelayDropped :: duration where "DelayDropped = 2 * hour"
definition DelayNoAnswer :: duration where "DelayNoAnswer = 4 * hour"
definition DelayBusy :: duration where "DelayBusy = 30 * minute"
definition DelayTechFailure :: duration where "DelayTechFailure = 5 * minute"

definition DefaultMaxAttempts :: int where "DefaultMaxAttempts = 3"

definition retryWithCap :: "int \<Rightarrow> int \<Rightarrow> duration \<Rightarrow> Decision" where
  "retryWithCap attempts maxAttempts delay =
     (if attempts + 1 \<ge> maxAttempts
      then no_decision\<lparr>dcMarkExhausted := True, dcCountsAttempt := True\<rparr>
      else no_decision\<lparr>dcRetry := True, dcDelay := delay, dcCountsAttempt := True\<rparr>)"

text \<open>\<open>time.Time.Sub\<close> saturates at the bounds of a duration.\<close>

definition time_Sub :: "time \<Rightarrow> time \<Rightarrow> duration" where
  "time_Sub a b = max int64_min (min int64_max (a - b))"

definition callbackDelay :: "time \<Rightarrow> time \<Rightarrow> duration" where
  "callbackDelay now callbackTime =
     (if callbackTime = zero_time then hour else max (time_Sub callbackTime now) 0)"

definition Apply :: "string \<Rightarrow> int \<Rightarrow> int \<Rightarrow> time \<Rightarrow> time \<Rightarrow> Decision" where
  "Apply status attempts maxAttempts0 now callbackTime =
     (let maxAttempts = (if maxAttempts0 \<le> 0 then DefaultMaxAttempts else maxAttempts0) in
      if status = ''success'' \<or> status = ''refused'' then no_decision\<lparr>dcCountsAttempt := True\<rparr>
      else if status = ''wrong_person'' then no_decision\<lparr>dcMarkDNC := True, dcCountsAttempt := True\<rparr>
      else if status = ''dropped'' then retryWithCap attempts maxAttempts DelayDropped
      else if status = ''no_answer'' then retryWithCap attempts maxAttempts DelayNoAnswer
      else if status = ''busy'' then retryWithCap attempts maxAttempts DelayBusy
      else if status = ''callback'' then retryWithCap attempts maxAttempts (callbackDelay now callbackTime)
      else if status = ''tech_failure'' then no_decision\<lparr>dcRetry := True, dcDelay := DelayTechFailure\<rparr>
      else no_decision\<lparr>dcRetry := True, dcDelay := DelayTechFailure\<rparr>)"

section \<open>Respondent rows\<close>

datatype resp_status = RPending | RDialing | RExhausted | ROther string

record resp_row =
  rrID :: uuid
  rrTenantID :: uuid
  rrProjectID :: uuid
  rrPhone :: string
  rrRegion :: string
  rrAttempts :: int
  rrNextAttemptAt :: "time option"
  rrStatus :: resp_status

definition clampLimit :: "int \<Rightarrow> int" where
  "clampLimit limit = (if limit < 1 then 1 else if limit > 1000 then 1000 else limit)"

definition mature :: "time \<Rightarrow> resp_row \<Rightarrow> bool" where
  "mature now row \<longleftrightarrow> rrStatus row = RPending \<and> (case rrNextAttemptAt row of None \<Rightarrow> False | Some at \<Rightarrow> at \<le> now)"

text \<open>The rows another transaction holds locked are skipped.\<close>

definition ListMatureRetries ::
  "call_outcome \<Rightarrow> time \<Rightarrow> uuid set \<Rightarrow> int \<Rightarrow> resp_row list \<Rightarrow> dialer_error + resp_row list" where
  "ListMatureRetries pg now locked limit rows =
     (if pg \<noteq> CallOk then Inl ErrTransport else
      Inr (take (nat (clampLimit limit))
        (sort_key (\<lambda>r. the (rrNextAttemptAt r)) (filter (\<lambda>r. mature now r \<and> rrID r \<notin> locked) rows))))"

definition set_status :: "resp_status \<Rightarrow> uuid \<Rightarrow> resp_row list \<Rightarrow> resp_row list" where
  "set_status st rid rows = map (\<lambda>r. if rrID r = rid then r\<lparr>rrStatus := st, rrNextAttemptAt := None\<rparr> else r) rows"

definition exec_pg :: "call_outcome \<Rightarrow> 'a \<Rightarrow> 'a \<Rightarrow> (dialer_error + unit) \<times> 'a" where
  "exec_pg pg old new = (case pg of CallOk \<Rightarrow> (Inr (), new) | CallLost \<Rightarrow> (Inl ErrTransport, old) | ReplyLost \<Rightarrow> (Inl ErrTransport, new))"

definition MarkExhausted :: "call_outcome \<Rightarrow> uuid \<Rightarrow> resp_row list \<Rightarrow> (dialer_error + unit) \<times> resp_row list" where
  "MarkExhausted pg rid rows = exec_pg pg rows (set_status RExhausted rid rows)"

definition MarkScheduled :: "call_outcome \<Rightarrow> uuid \<Rightarrow> resp_row list \<Rightarrow> (dialer_error + unit) \<times> resp_row list" where
  "MarkScheduled pg rid rows = exec_pg pg rows (set_status RDialing rid rows)"

section \<open>The sweep\<close>

record 'q retry_world =
  rwRows :: "resp_row list"
  rwQueue :: 'q

datatype sweep_result = ResultSkip | ResultExhausted | ResultEnqueued

record row_env =
  reNow :: time
  reMark :: call_outcome
  reQueue :: call_outcome

type_synonym decryptor = "uuid \<Rightarrow> uuid \<Rightarrow> string \<Rightarrow> string option"

type_synonym 'q enqueuer = "call_outcome \<Rightarrow> time \<Rightarrow> 'q \<Rightarrow> EnqueueRequest \<Rightarrow> (dialer_error + bool) \<times> 'q"

definition retry_request :: "string \<Rightarrow> resp_row \<Rightarrow> EnqueueRequest" where
  "retry_request phone row = \<lparr>erTenantID = rrTenantID row, erProjectID = rrProjectID row, erRespondentID = rrID row,
     erPriority = word_of_int (min (1 + rrAttempts row) 9), erAttemptN = word_of_int (rrAttempts row + 1),
     erPhone = phone, erRegion = rrRegion row\<rparr>"

definition handleRow ::
  "decryptor \<Rightarrow> int \<Rightarrow> 'q enqueuer \<Rightarrow> row_env \<Rightarrow> resp_row \<Rightarrow> 'q retry_world \<Rightarrow> sweep_result \<times> 'q retry_world" where
  "handleRow dec maxAtt enq e row w =
     (if rrAttempts row \<ge> maxAtt
      then (case MarkExhausted (reMark e) (rrID row) (rwRows w) of
              (Inl _, rows) \<Rightarrow> (ResultSkip, w\<lparr>rwRows := rows\<rparr>)
            | (Inr _, rows) \<Rightarrow> (ResultExhausted, w\<lparr>rwRows := rows\<rparr>))
      else
     (case dec (rrTenantID row) (rrID row) (rrPhone row) of
        None \<Rightarrow> (ResultSkip, w)
      | Some phone \<Rightarrow>
     (case enq (reQueue e) (reNow e) (rwQueue w) (retry_request phone row) of
        (Inl _, q) \<Rightarrow> (ResultSkip, w\<lparr>rwQueue := q\<rparr>)
      | (Inr _, q) \<Rightarrow>
     (case MarkScheduled (reMark e) (rrID row) (rwRows w) of
        (Inl _, rows) \<Rightarrow> (ResultSkip, w\<lparr>rwRows := rows, rwQueue := q\<rparr>)
      | (Inr _, rows) \<Rightarrow> (ResultEnqueued, w\<lparr>rwRows := rows, rwQueue := q\<rparr>)))))"

fun handle_rows ::
  "decryptor \<Rightarrow> int \<Rightarrow> 'q enqueuer \<Rightarrow> (nat \<Rightarrow> row_env) \<Rightarrow> nat \<Rightarrow> resp_row list \<Rightarrow> 'q retry_world \<Rightarrow> 'q retry_world" where
  "handle_rows dec maxAtt enq E i [] w = w"
| "handle_rows dec maxAtt enq E i (row # rows) w =
     handle_rows dec maxAtt enq E (Suc i) rows (snd (handleRow dec maxAtt enq (E i) row w))"

definition retry_sweep ::
  "decryptor \<Rightarrow> int \<Rightarrow> 'q enqueuer \<Rightarrow> call_outcome \<Rightarrow> time \<Rightarrow> uuid set \<Rightarrow> int \<Rightarrow> (nat \<Rightarrow> row_env)
   \<Rightarrow> 'q retry_world \<Rightarrow> 'q retry_world" where
  "retry_sweep dec maxAtt enq pg now locked batch E w =
     (case ListMatureRetries pg now locked batch (rwRows w) of
        Inl _ \<Rightarrow> w
      | Inr rows \<Rightarrow> handle_rows dec maxAtt enq E 0 rows w)"

section \<open>Leader election\<close>

text \<open>
  The advisory lock belongs to a database session. A replica keeps the session it got the lock
  on; sessions can die, and then Postgres frees the lock. \<open>alive\<close> are the live sessions of the
  pool, \<open>holder\<close> the session that has the lock.
\<close>

record leader_world =
  lwHolder :: "nat option"
  lwAlive :: "nat set"
  lwConn :: "nat \<Rightarrow> nat option"

datatype pool_reply = PoolErr | PoolConn nat

definition try_advisory_lock :: "leader_world \<Rightarrow> nat \<Rightarrow> bool \<times> leader_world" where
  "try_advisory_lock w c =
     (case lwHolder w of None \<Rightarrow> (True, w\<lparr>lwHolder := Some c\<rparr>) | Some h \<Rightarrow> (h = c, w))"

text \<open>\<open>me\<close> is the replica; the reply of the pool and the fate of the query are inputs.\<close>

definition leader_Acquire :: "nat \<Rightarrow> pool_reply \<Rightarrow> call_outcome \<Rightarrow> leader_world \<Rightarrow> (dialer_error + bool) \<times> leader_world" where
  "leader_Acquire me pool net w =
     (if lwConn w me \<noteq> None then (Inr True, w) else
      case pool of
        PoolErr \<Rightarrow> (Inl ErrTransport, w)
      | PoolConn c \<Rightarrow>
        (let (got, w') = try_advisory_lock w c in
         case net of
           CallLost \<Rightarrow> (Inl ErrTransport, w)
         | ReplyLost \<Rightarrow> (Inl ErrTransport, w')
         | CallOk \<Rightarrow> if got then (Inr True, w'\<lparr>lwConn := (lwConn w')(me := Some c)\<rparr>) else (Inr False, w')))"

definition leader_Release :: "nat \<Rightarrow> call_outcome \<Rightarrow> leader_world \<Rightarrow> leader_world" where
  "leader_Release me net w =
     (case lwConn w me of
        None \<Rightarrow> w
      | Some c \<Rightarrow>
        (let w' = (if net \<noteq> CallLost \<and> lwHolder w = Some c then w\<lparr>lwHolder := None\<rparr> else w)
         in w'\<lparr>lwConn := (lwConn w')(me := None)\<rparr>))"

definition IsLeading :: "nat \<Rightarrow> leader_world \<Rightarrow> bool" where
  "IsLeading me w \<longleftrightarrow> lwConn w me \<noteq> None"

definition session_dies :: "nat \<Rightarrow> leader_world \<Rightarrow> leader_world" where
  "session_dies c w = w\<lparr>lwAlive := lwAlive w - {c}, lwHolder := (if lwHolder w = Some c then None else lwHolder w)\<rparr>"

definition retry_tick ::
  "decryptor \<Rightarrow> int \<Rightarrow> 'q enqueuer \<Rightarrow> nat \<Rightarrow> pool_reply \<Rightarrow> call_outcome \<Rightarrow> call_outcome \<Rightarrow> time \<Rightarrow> uuid set \<Rightarrow> int
   \<Rightarrow> (nat \<Rightarrow> row_env) \<Rightarrow> leader_world \<Rightarrow> 'q retry_world \<Rightarrow> leader_world \<times> 'q retry_world" where
  "retry_tick dec maxAtt enq me pool net pg now locked batch E lw w =
     (case leader_Acquire me pool net lw of
        (Inl _, lw') \<Rightarrow> (lw', w)
      | (Inr leading, lw') \<Rightarrow>
          (lw', if leading then retry_sweep dec maxAtt enq pg now locked batch E w else w))"

section \<open>What a sweep achieves\<close>

definition swept_row :: "int \<Rightarrow> resp_row \<Rightarrow> resp_row" where
  "swept_row maxAtt r = r\<lparr>rrStatus := (if rrAttempts r \<ge> maxAtt then RExhausted else RDialing), rrNextAttemptAt := None\<rparr>"

definition row_env_ok :: "row_env \<Rightarrow> bool" where
  "row_env_ok e \<longleftrightarrow> reMark e = CallOk \<and> reQueue e = CallOk \<and> 0 \<le> reNow e \<and> UnixMilli (reNow e) \<le> int64_max"

definition decryptable :: "decryptor \<Rightarrow> resp_row \<Rightarrow> bool" where
  "decryptable dec row \<longleftrightarrow> dec (rrTenantID row) (rrID row) (rrPhone row) \<noteq> None"

lemma rrID_swept [simp]: "rrID (swept_row m r) = rrID r"
  by (simp add: swept_row_def)

lemma not_mature_swept: "\<not> mature now (swept_row m r)"
  by (simp add: mature_def swept_row_def)

lemma set_status_swept:
  assumes "inj_on rrID (set rows)" and "row \<in> set rows"
  shows "set_status (if rrAttempts row \<ge> m then RExhausted else RDialing) (rrID row) rows =
    map (\<lambda>r. if r = row then swept_row m r else r) rows"
  using assms by (auto simp: set_status_def swept_row_def inj_on_eq_iff)

text \<open>The enqueuer seen by a sweep whose queue calls succeed.\<close>

lemma handleRow_net:
  "reQueue e = CallOk \<Longrightarrow> handleRow dec m enq e row w = handleRow dec m (\<lambda>_. enq CallOk) e row w"
  by (simp add: handleRow_def split: option.splits)

lemma handle_rows_net:
  "(\<And>i. reQueue (E i) = CallOk) \<Longrightarrow> handle_rows dec m enq E i rows w = handle_rows dec m (\<lambda>_. enq CallOk) E i rows w"
  by (induction rows arbitrary: i w) (simp_all add: handleRow_net [of "E _" dec m enq])

context call_queue
begin

definition grows :: "'s \<Rightarrow> 's \<Rightarrow> bool" where
  "grows q q' \<longleftrightarrow> good q' \<and> (\<forall>t p. \<exists>ys. items q' t p = items q t p @ ys)"

definition holds :: "'s \<Rightarrow> resp_row \<Rightarrow> bool" where
  "holds q r \<longleftrightarrow> rrID r \<in> qiRespondentID ` set (items q (rrTenantID r) (rrProjectID r))"

lemma grows_refl: "good q \<Longrightarrow> grows q q"
  by (simp add: grows_def)

lemma grows_trans: "grows q q' \<Longrightarrow> grows q' q'' \<Longrightarrow> grows q q''"
  unfolding grows_def by (metis append.assoc)

lemma grows_holds: "grows q q' \<Longrightarrow> holds q r \<Longrightarrow> holds q' r"
  unfolding grows_def holds_def by (metis UnCI image_Un set_append)

lemma handleRow_spec:
  assumes good: "good (rwQueue w)" and e: "row_env_ok e"
    and inj: "inj_on rrID (set (rwRows w))" "row \<in> set (rwRows w)"
    and dec: "rrAttempts row < maxAtt \<Longrightarrow> decryptable dec row"
    and ex: "handleRow dec maxAtt (\<lambda>_. enq) e row w = (r, w')"
  shows "rwRows w' = map (\<lambda>x. if x = row then swept_row maxAtt x else x) (rwRows w) \<and>
    grows (rwQueue w) (rwQueue w') \<and> (rrAttempts row < maxAtt \<longrightarrow> holds (rwQueue w') row) \<and>
    (rrAttempts row \<ge> maxAtt \<longrightarrow> rwQueue w' = rwQueue w)"
proof (cases "rrAttempts row \<ge> maxAtt")
  case True
  then show ?thesis using ex e good set_status_swept [OF inj, of maxAtt]
    by (auto simp: handleRow_def MarkExhausted_def exec_pg_def row_env_ok_def grows_refl)
next
  case False
  then obtain phone where ph: "dec (rrTenantID row) (rrID row) (rrPhone row) = Some phone"
    using dec by (auto simp: decryptable_def)
  let ?req = "retry_request phone row"
  obtain res q where en: "enq (reNow e) (rwQueue w) ?req = (res, q)" by fastforce
  have iok: "item_ok (new_item (reNow e) ?req)" using e by (simp add: item_ok_def new_item_def row_env_ok_def)
  note law = enq_law [OF good iok en]
  have fields: "erTenantID ?req = rrTenantID row" "erProjectID ?req = rrProjectID row" "erRespondentID ?req = rrID row"
    by (simp_all add: retry_request_def)
  have g: "grows (rwQueue w) q" unfolding grows_def using law by auto
  have h: "holds q row"
    unfolding holds_def using law [of "rrTenantID row" "rrProjectID row"] fields
    by (auto simp: new_item_def split: if_splits)
  obtain b where b: "res = Inr b" using law by blast
  have "w' = w\<lparr>rwRows := set_status RDialing (rrID row) (rwRows w), rwQueue := q\<rparr>"
    using ex e False ph en b by (auto simp: handleRow_def MarkScheduled_def exec_pg_def row_env_ok_def)
  then show ?thesis using False g h set_status_swept [OF inj, of maxAtt] by auto
qed

lemma handle_rows_spec:
  assumes "good (rwQueue w)" and "\<And>i. row_env_ok (E i)" and "inj_on rrID (set (rwRows w))"
    and "set rs \<subseteq> set (rwRows w)" and "distinct rs"
    and "\<And>r. r \<in> set rs \<Longrightarrow> rrAttempts r < maxAtt \<Longrightarrow> decryptable dec r"
  shows "rwRows (handle_rows dec maxAtt (\<lambda>_. enq) E i rs w) =
      map (\<lambda>x. if x \<in> set rs then swept_row maxAtt x else x) (rwRows w) \<and>
    grows (rwQueue w) (rwQueue (handle_rows dec maxAtt (\<lambda>_. enq) E i rs w)) \<and>
    (\<forall>r \<in> set rs. rrAttempts r < maxAtt \<longrightarrow> holds (rwQueue (handle_rows dec maxAtt (\<lambda>_. enq) E i rs w)) r)"
  using assms
proof (induction rs arbitrary: w i)
  case Nil
  then show ?case by (simp add: grows_refl)
next
  case (Cons row rs)
  obtain r w1 where step: "handleRow dec maxAtt (\<lambda>_. enq) (E i) row w = (r, w1)" by fastforce
  let ?f = "\<lambda>x. if x = row then swept_row maxAtt x else x"
  have row: "row \<in> set (rwRows w)" using Cons.prems(4) by simp
  note spec = handleRow_spec [OF Cons.prems(1,2,3) row _ step]
  have rows1: "rwRows w1 = map ?f (rwRows w)" and g1: "grows (rwQueue w) (rwQueue w1)"
    and h1: "rrAttempts row < maxAtt \<longrightarrow> holds (rwQueue w1) row"
    using spec Cons.prems(6) by auto
  have good1: "good (rwQueue w1)" using g1 by (simp add: grows_def)
  have inj1: "inj_on rrID (set (rwRows w1))"
  proof (rule inj_onI)
    fix a b assume "a \<in> set (rwRows w1)" "b \<in> set (rwRows w1)" and eq: "rrID a = rrID b"
    then obtain a' b' where ab: "a = ?f a'" "b = ?f b'" "a' \<in> set (rwRows w)" "b' \<in> set (rwRows w)"
      unfolding rows1 set_map by blast
    moreover have "rrID a' = rrID b'" using eq ab(1,2) by (auto split: if_splits)
    ultimately show "a = b" using Cons.prems(3) by (metis inj_on_eq_iff)
  qed
  have sub1: "set rs \<subseteq> set (rwRows w1)"
  proof
    fix x assume "x \<in> set rs"
    then have "x \<in> set (rwRows w)" "x \<noteq> row" using Cons.prems(4,5) by auto
    then show "x \<in> set (rwRows w1)" unfolding rows1 set_map by (intro image_eqI [of _ _ x]) simp_all
  qed
  let ?w' = "handle_rows dec maxAtt (\<lambda>_. enq) E (Suc i) rs w1"
  have IH: "rwRows ?w' = map (\<lambda>x. if x \<in> set rs then swept_row maxAtt x else x) (rwRows w1)"
      "grows (rwQueue w1) (rwQueue ?w')" "\<forall>r \<in> set rs. rrAttempts r < maxAtt \<longrightarrow> holds (rwQueue ?w') r"
    using Cons.IH [OF good1 Cons.prems(2) inj1 sub1] Cons.prems(5,6) by auto
  have eq: "handle_rows dec maxAtt (\<lambda>_. enq) E i (row # rs) w = ?w'" using step by simp
  have "rwRows ?w' = map (\<lambda>x. if x \<in> set (row # rs) then swept_row maxAtt x else x) (rwRows w)"
    unfolding IH(1) rows1 map_map
  proof (rule map_cong [OF refl])
    fix x assume x: "x \<in> set (rwRows w)"
    have "swept_row maxAtt row \<notin> set rs \<or> swept_row maxAtt row = row"
      using Cons.prems(3,4) row by (metis insert_subset inj_on_eq_iff list.simps(15) rrID_swept subsetD)
    moreover have "row \<notin> set rs" using Cons.prems(5) by simp
    moreover have "swept_row maxAtt (swept_row maxAtt row) = swept_row maxAtt row" by (simp add: swept_row_def)
    ultimately show "((\<lambda>x. if x \<in> set rs then swept_row maxAtt x else x) \<circ> ?f) x =
        (if x \<in> set (row # rs) then swept_row maxAtt x else x)" by auto
  qed
  then show ?case unfolding eq
    using IH(2,3) h1 grows_trans [OF g1 IH(2)] grows_holds [OF IH(2)] by auto
qed

end

section \<open>Properties\<close>

definition redis_enqueuer :: "codec \<Rightarrow> qstore enqueuer" where
  "redis_enqueuer C net now = EnqueueRespondent C now net"

definition chosen_rows :: "time \<Rightarrow> uuid set \<Rightarrow> int \<Rightarrow> resp_row list \<Rightarrow> resp_row list" where
  "chosen_rows now locked batch rows = take (nat (clampLimit batch))
     (sort_key (\<lambda>r. the (rrNextAttemptAt r)) (filter (\<lambda>r. mature now r \<and> rrID r \<notin> locked) rows))"

context hash_codec
begin

lemma redis_sweep:
  assumes inv: "queue_inv C (rwQueue w)" and E: "\<And>i. row_env_ok (E i)" and pk: "distinct (map rrID (rwRows w))"
    and dec: "\<And>r. r \<in> set (chosen_rows now locked batch (rwRows w)) \<Longrightarrow> rrAttempts r < maxAtt \<Longrightarrow> decryptable dec r"
  defines "w' \<equiv> retry_sweep dec maxAtt (redis_enqueuer C) CallOk now locked batch E w"
  shows "rwRows w' = map (\<lambda>x. if x \<in> set (chosen_rows now locked batch (rwRows w)) then swept_row maxAtt x else x) (rwRows w) \<and>
    queue_inv C (rwQueue w') \<and>
    (\<forall>t p. \<exists>ys. queued C (rwQueue w') t p = queued C (rwQueue w) t p @ ys) \<and>
    (\<forall>r \<in> set (chosen_rows now locked batch (rwRows w)). rrAttempts r < maxAtt \<longrightarrow>
       rrID r \<in> qiRespondentID ` set (queued C (rwQueue w') (rrTenantID r) (rrProjectID r)))"
proof -
  let ?rs = "chosen_rows now locked batch (rwRows w)"
  have q: "reQueue (E i) = CallOk" for i using E by (simp add: row_env_ok_def)
  have en: "redis_enqueuer C CallOk = (\<lambda>now. EnqueueRespondent C now CallOk)"
    by (rule ext) (simp add: redis_enqueuer_def)
  have "w' = handle_rows dec maxAtt (redis_enqueuer C) E 0 ?rs w"
    by (simp add: w'_def retry_sweep_def ListMatureRetries_def chosen_rows_def)
  also have "\<dots> = handle_rows dec maxAtt (\<lambda>_ now. EnqueueRespondent C now CallOk) E 0 ?rs w"
    using handle_rows_net [where E = E and i = 0 and rows = ?rs and w = w and dec = dec and m = maxAtt and enq = "redis_enqueuer C", OF q] by (simp only: en)
  finally have w': "w' = handle_rows dec maxAtt (\<lambda>_ now. EnqueueRespondent C now CallOk) E 0 ?rs w" .
  have inj: "inj_on rrID (set (rwRows w))" and d: "distinct (rwRows w)" using pk by (simp_all add: distinct_map)
  have sub: "set ?rs \<subseteq> set (rwRows w)" by (auto simp: chosen_rows_def dest!: in_set_takeD)
  have dist: "distinct ?rs" using d by (simp add: chosen_rows_def distinct_sort)
  show ?thesis
    unfolding w' using redis_queue.handle_rows_spec [where E = E and i = 0 and dec = dec and maxAtt = maxAtt, OF inv E inj sub dist dec]
    by (simp add: redis_queue.grows_def redis_queue.holds_def)
qed

end

text \<open>
  C15: the sweep. When the remote calls succeed and the phones decrypt, one sweep takes the first
  mature rows in order of their due time, up to the clamped batch size, and for each of them
  exactly one of two things happens: at the attempt cap the row becomes exhausted, below it the
  row becomes dialing and its respondent is in the call queue. No other row changes, no queued
  item is lost or duplicated, and no processed row is mature afterwards.
\<close>

theorem sweep_schedules_or_exhausts:
  assumes "hash_codec C" and "queue_inv C (rwQueue w)" and "\<And>i. row_env_ok (E i)" and "distinct (map rrID (rwRows w))"
    and "\<And>r. r \<in> set (chosen_rows now locked batch (rwRows w)) \<Longrightarrow> rrAttempts r < maxAtt \<Longrightarrow> decryptable dec r"
  defines "w' \<equiv> retry_sweep dec maxAtt (redis_enqueuer C) CallOk now locked batch E w"
  shows "rwRows w' = map (\<lambda>x. if x \<in> set (chosen_rows now locked batch (rwRows w)) then swept_row maxAtt x else x) (rwRows w) \<and>
    distinct (map qiRespondentID (queued C (rwQueue w') t p)) \<and>
    (\<exists>ys. queued C (rwQueue w') t p = queued C (rwQueue w) t p @ ys) \<and>
    (\<forall>r \<in> set (chosen_rows now locked batch (rwRows w)). rrAttempts r < maxAtt \<longrightarrow>
       rrID r \<in> qiRespondentID ` set (queued C (rwQueue w') (rrTenantID r) (rrProjectID r))) \<and>
    (\<forall>r \<in> set (chosen_rows now locked batch (rwRows w)). \<not> mature now (swept_row maxAtt r))"
proof -
  note spec = hash_codec.redis_sweep [where E = E and dec = dec and now = now and locked = locked and batch = batch and maxAtt = maxAtt,
      OF assms(1-5), folded w'_def]
  from spec have "distinct (map qiRespondentID (queued C (rwQueue w') t p))"
    by (intro hash_codec.queued_distinct [OF assms(1)]) simp
  with spec show ?thesis by (simp add: not_mature_swept)
qed

definition sample_row :: "uuid \<Rightarrow> int \<Rightarrow> time \<Rightarrow> resp_row" where
  "sample_row i n at = \<lparr>rrID = i, rrTenantID = 1, rrProjectID = 6, rrPhone = ''c'', rrRegion = ''RU-MOW'',
     rrAttempts = n, rrNextAttemptAt = Some at, rrStatus = RPending\<rparr>"

theorem sweep_schedules_or_exhausts_witness:
  "rwRows (retry_sweep (\<lambda>_ _ _. Some ''+7'') 3 (redis_enqueuer canonical_codec) CallOk 100 {} 10
     (\<lambda>_. \<lparr>reNow = 100, reMark = CallOk, reQueue = CallOk\<rparr>)
     \<lparr>rwRows = [sample_row 11 1 50, sample_row 12 3 60, sample_row 13 0 500], rwQueue = empty_queue\<rparr>) =
   [swept_row 3 (sample_row 11 1 50), swept_row 3 (sample_row 12 3 60), sample_row 13 0 500]"
proof -
  let ?rows = "[sample_row 11 1 50, sample_row 12 3 60, sample_row 13 0 500]"
  have ch: "set (chosen_rows 100 {} 10 ?rows) = {sample_row 11 1 50, sample_row 12 3 60}"
    by (auto simp: chosen_rows_def sample_row_def mature_def clampLimit_def)
  have inv: "queue_inv canonical_codec empty_queue" using queue_inv_empty by (simp add: empty_queue_def)
  have ne: "sample_row 13 0 500 \<noteq> sample_row 11 1 50" "sample_row 13 0 500 \<noteq> sample_row 12 3 60"
    by (simp_all add: sample_row_def)
  show ?thesis
    using sweep_schedules_or_exhausts [where E = "\<lambda>_. \<lparr>reNow = 100, reMark = CallOk, reQueue = CallOk\<rparr>" and dec = "\<lambda>_ _ _. Some ''+7''"
        and w = "\<lparr>rwRows = ?rows, rwQueue = empty_queue\<rparr>" and now = 100 and locked = "{}" and batch = 10 and maxAtt = 3,
        OF canonical.hash_codec_axioms]
    by (simp add: inv ch ne row_env_ok_def UnixMilli_def decryptable_def) (simp add: sample_row_def)
qed

text \<open>The dispositions of successive calls to one respondent: attempts so far, and whether to call again.\<close>

fun dispose :: "int \<Rightarrow> (string \<times> time \<times> time) list \<Rightarrow> int \<Rightarrow> int \<times> bool" where
  "dispose m [] a = (a, True)"
| "dispose m ((status, now, cb) # ds) a =
     (let d = Apply status a m now cb; a' = (if dcCountsAttempt d then a + 1 else a) in
      if dcRetry d then dispose m ds a' else (a', False))"

definition effective_cap :: "int \<Rightarrow> int" where
  "effective_cap m = (if m \<le> 0 then DefaultMaxAttempts else m)"

lemma Apply_cap:
  assumes "dcRetry (Apply status a m now cb)" and "dcCountsAttempt (Apply status a m now cb)"
  shows "a + 1 < effective_cap m"
  using assms by (auto simp: Apply_def retryWithCap_def no_decision_def effective_cap_def Let_def split: if_splits)

text \<open>
  The attempt cap. Whatever the dispositions of the calls to a respondent, the counted attempts
  never exceed the cap, and while another call is due they are below it.
\<close>

theorem attempts_never_exceed_cap:
  assumes "a < effective_cap m"
  shows "fst (dispose m ds a) \<le> effective_cap m \<and> (snd (dispose m ds a) \<longrightarrow> fst (dispose m ds a) < effective_cap m)"
  using assms
proof (induction m ds a rule: dispose.induct)
  case (2 m status now cb ds a)
  then show ?case using Apply_cap [of status a m now cb] by (auto simp: Let_def)
qed simp

theorem attempts_never_exceed_cap_witness:
  "fst (dispose 3 [(''busy'', 0, 0), (''tech_failure'', 1, 0), (''no_answer'', 2, 0), (''dropped'', 3, 0)] 0) \<le> 3"
  using attempts_never_exceed_cap [of 0 3 "[(''busy'', 0, 0), (''tech_failure'', 1, 0), (''no_answer'', 2, 0), (''dropped'', 3, 0)]"]
  by (simp add: effective_cap_def DefaultMaxAttempts_def)

text \<open>
  Leadership steps. A pool hands out a connection to one user at a time, so the connection is not
  held by any replica as its leader session.
\<close>

datatype leader_step = LAcquire nat pool_reply call_outcome | LRelease nat call_outcome

fun leader_do :: "leader_step \<Rightarrow> leader_world \<Rightarrow> leader_world" where
  "leader_do (LAcquire me pool net) w = snd (leader_Acquire me pool net w)"
| "leader_do (LRelease me net) w = leader_Release me net w"

fun exclusive_conn :: "leader_step \<Rightarrow> leader_world \<Rightarrow> bool" where
  "exclusive_conn (LAcquire me (PoolConn c) net) w \<longleftrightarrow> (\<forall>r. lwConn w r \<noteq> Some c)"
| "exclusive_conn s w \<longleftrightarrow> True"

inductive leader_run :: "leader_world \<Rightarrow> leader_world \<Rightarrow> bool" where
  start: "leader_run w w"
| step: "leader_run w w1 \<Longrightarrow> exclusive_conn s w1 \<Longrightarrow> leader_run w (leader_do s w1)"

definition lead_inv :: "leader_world \<Rightarrow> bool" where
  "lead_inv w \<longleftrightarrow> (\<forall>me c. lwConn w me = Some c \<longrightarrow> lwHolder w = Some c) \<and>
     (\<forall>me me' c. lwConn w me = Some c \<longrightarrow> lwConn w me' = Some c \<longrightarrow> me = me')"

lemma lead_inv_Acquire:
  assumes "lead_inv w" and "exclusive_conn (LAcquire me pool net) w"
  shows "lead_inv (snd (leader_Acquire me pool net w))"
proof (cases pool)
  case (PoolConn c)
  then have free: "\<forall>r. lwConn w r \<noteq> Some c" using assms(2) by simp
  show ?thesis
  proof (cases "lwHolder w")
    case None
    then have "\<forall>r. lwConn w r = None" using assms(1) by (auto simp: lead_inv_def)
    then show ?thesis using None PoolConn
      by (cases net) (auto simp: leader_Acquire_def try_advisory_lock_def lead_inv_def)
  next
    case (Some h)
    then show ?thesis using assms(1) PoolConn free
      by (cases net) (auto simp: leader_Acquire_def try_advisory_lock_def lead_inv_def split: if_splits)
  qed
qed (use assms(1) in \<open>auto simp: leader_Acquire_def\<close>)

lemma lead_inv_unique:
  assumes "lead_inv w" and "lwConn w me = Some c" and "lwConn w me' = Some c'"
  shows "me = me'"
proof -
  have "c = c'" using assms unfolding lead_inv_def by (metis option.inject)
  then show ?thesis using assms unfolding lead_inv_def by blast
qed

lemma lead_inv_Release: "lead_inv w \<Longrightarrow> lead_inv (leader_Release me net w)"
proof (cases "lwConn w me")
  case (Some c)
  moreover assume "lead_inv w"
  ultimately have "lwConn w r = None" if "r \<noteq> me" for r
    using lead_inv_unique that by (metis not_None_eq)
  with Some show ?thesis by (auto simp: leader_Release_def lead_inv_def Let_def)
qed (simp add: leader_Release_def)

lemma lead_inv_run: "leader_run w w' \<Longrightarrow> lead_inv w \<Longrightarrow> lead_inv w'"
proof (induction rule: leader_run.induct)
  case (step w w1 s)
  then show ?case by (cases s) (simp_all add: lead_inv_Acquire lead_inv_Release)
qed

definition no_leader :: leader_world where
  "no_leader = \<lparr>lwHolder = None, lwAlive = UNIV, lwConn = \<lambda>_. None\<rparr>"

text \<open>
  C16: mutual exclusion. As long as no leader's database session dies, at most one replica leads,
  whatever the order of acquisitions and releases and whichever replies are lost.
\<close>

theorem at_most_one_leader:
  assumes "leader_run no_leader w" and "IsLeading me w" and "IsLeading me' w"
  shows "me = me'"
proof -
  have "lead_inv no_leader" by (simp add: lead_inv_def no_leader_def)
  with assms(1) have "lead_inv w" by (rule lead_inv_run)
  with assms(2,3) show ?thesis using lead_inv_unique by (auto simp: IsLeading_def)
qed

theorem at_most_one_leader_witness:
  "IsLeading 1 (leader_do (LAcquire 2 (PoolConn 8) CallOk) (leader_do (LAcquire 1 (PoolConn 7) CallOk) no_leader)) \<and>
   \<not> IsLeading 2 (leader_do (LAcquire 2 (PoolConn 8) CallOk) (leader_do (LAcquire 1 (PoolConn 7) CallOk) no_leader))"
proof -
  let ?w1 = "leader_do (LAcquire 1 (PoolConn 7) CallOk) no_leader"
  let ?w = "leader_do (LAcquire 2 (PoolConn 8) CallOk) ?w1"
  have one: "IsLeading 1 ?w" by (simp add: IsLeading_def leader_Acquire_def try_advisory_lock_def no_leader_def)
  have "leader_run no_leader ?w"
    by (intro leader_run.step leader_run.start)
      (simp_all add: leader_Acquire_def try_advisory_lock_def no_leader_def)
  from at_most_one_leader [OF this one, of 2] one show ?thesis by auto
qed

text \<open>
  A replica does not notice that its session died. Postgres has freed the lock, a peer takes it,
  and from then on both replicas report leadership and sweep: \<open>Acquire\<close> of the first one answers
  from the connection it still holds.
\<close>

theorem dead_session_gives_two_leaders:
  assumes "lwConn w me = Some c" and "lwHolder w = Some c" and "lwConn w peer = None" and "me \<noteq> peer"
  shows "let w1 = session_dies c w; (r, w2) = leader_Acquire peer (PoolConn c') CallOk w1
    in r = Inr True \<and> IsLeading me w2 \<and> IsLeading peer w2 \<and> fst (leader_Acquire me pool net w2) = Inr True"
  using assms by (simp add: session_dies_def leader_Acquire_def try_advisory_lock_def IsLeading_def Let_def)

theorem dead_session_gives_two_leaders_witness:
  "let w = leader_do (LAcquire 1 (PoolConn 7) CallOk) no_leader; w1 = session_dies 7 w;
     (r, w2) = leader_Acquire 2 (PoolConn 8) CallOk w1
   in r = Inr True \<and> IsLeading 1 w2 \<and> IsLeading 2 w2 \<and> fst (leader_Acquire 1 PoolErr CallOk w2) = Inr True"
  using dead_session_gives_two_leaders [of "leader_do (LAcquire 1 (PoolConn 7) CallOk) no_leader" 1 7 2 8 PoolErr CallOk]
  by (simp add: leader_Acquire_def try_advisory_lock_def no_leader_def)

end
