(* ===== verification/Line_Capacity.thy ===== *)
theory Line_Capacity
  imports Dialer_Api Complex_Main "HOL-Library.List_Lexorder" "HOL-Library.Char_ord"
begin

text \<open>
  Line capacity: the per-node channel counters in Redis (\<open>internal/telephony/router/backpressure.go\<close>),
  the reconciler that resets them to what FreeSWITCH reports (\<open>reconciler.go\<close>), the trunk
  strategies and the router (\<open>strategy.go\<close>, \<open>router.go\<close>), and the dialer's capacity tracker
  (\<open>internal/dialer/capacity/tracker.go\<close>).

  A counter is the integer stored under a node's key; a missing key is \<open>None\<close>. Script bodies run
  atomically. Prices and failure rates are rationals (a finite \<open>float64\<close> is one). The list of
  healthy nodes, the FreeSWITCH counts and the random draw are inputs.
\<close>

section \<open>The counters\<close>

type_synonym counters = "string \<Rightarrow> int option"

definition bpKey :: "string \<Rightarrow> string" where
  "bpKey node = ''op:active_channels:'' @ node"

definition defaultBackpressureCap :: int where
  "defaultBackpressureCap = 60"

definition NewBackpressure :: "int \<Rightarrow> int" where
  "NewBackpressure cap = (if cap \<le> 0 then defaultBackpressureCap else cap)"

definition counter_value :: "counters \<Rightarrow> string \<Rightarrow> int" where
  "counter_value m node = (case m (bpKey node) of None \<Rightarrow> 0 | Some n \<Rightarrow> n)"

definition tryAcquireScript :: "int \<Rightarrow> int option \<Rightarrow> int \<times> int option" where
  "tryAcquireScript cap key =
     (let v = (case key of None \<Rightarrow> 0 | Some n \<Rightarrow> n) in if v \<ge> cap then (0, key) else (1, Some (v + 1)))"

definition releaseScript :: "int option \<Rightarrow> int \<times> int option" where
  "releaseScript key =
     (let v = (case key of None \<Rightarrow> 0 | Some n \<Rightarrow> n) in if v \<le> 0 then (0, key) else (1, Some (v - 1)))"

definition run_counter ::
  "call_outcome \<Rightarrow> (int option \<Rightarrow> int \<times> int option) \<Rightarrow> counters \<Rightarrow> string \<Rightarrow> (dialer_error + int) \<times> counters" where
  "run_counter net script m node =
     (let (r, v) = script (m (bpKey node)); m' = m(bpKey node := v) in
      case net of CallOk \<Rightarrow> (Inr r, m') | CallLost \<Rightarrow> (Inl ErrTransport, m) | ReplyLost \<Rightarrow> (Inl ErrTransport, m'))"

definition bp_TryAcquire :: "int \<Rightarrow> call_outcome \<Rightarrow> counters \<Rightarrow> string \<Rightarrow> (dialer_error + bool) \<times> counters" where
  "bp_TryAcquire cap net m node =
     (case run_counter net (tryAcquireScript cap) m node of
        (Inl err, m') \<Rightarrow> (Inl err, m') | (Inr r, m') \<Rightarrow> (Inr (r = 1), m'))"

definition bp_Release :: "call_outcome \<Rightarrow> counters \<Rightarrow> string \<Rightarrow> (dialer_error + unit) \<times> counters" where
  "bp_Release net m node =
     (case run_counter net releaseScript m node of
        (Inl err, m') \<Rightarrow> (Inl err, m') | (Inr _, m') \<Rightarrow> (Inr (), m'))"

definition bp_Get :: "call_outcome \<Rightarrow> counters \<Rightarrow> string \<Rightarrow> dialer_error + int" where
  "bp_Get net m node = (if net \<noteq> CallOk then Inl ErrTransport else Inr (counter_value m node))"

definition SetActiveChannels :: "call_outcome \<Rightarrow> counters \<Rightarrow> string \<Rightarrow> int \<Rightarrow> (dialer_error + unit) \<times> counters" where
  "SetActiveChannels net m node n0 =
     (let n = (if n0 < 0 then 0 else n0); m' = m(bpKey node \<mapsto> n) in
      case net of CallOk \<Rightarrow> (Inr (), m') | CallLost \<Rightarrow> (Inl ErrTransport, m) | ReplyLost \<Rightarrow> (Inl ErrTransport, m'))"

section \<open>The reconciler\<close>

record sweep_env =
  svTruth :: "dialer_error + int"
  svGet :: call_outcome
  svSet :: call_outcome

definition absDiff :: "int \<Rightarrow> int \<Rightarrow> int" where
  "absDiff a b = (if a \<ge> b then a - b else b - a)"

text \<open>The result is the new drift reading (\<open>None\<close> when the gauge is not set) and the counters.\<close>

definition sweepNode :: "sweep_env \<Rightarrow> string \<Rightarrow> counters \<Rightarrow> int option \<times> counters" where
  "sweepNode e node m =
     (case svTruth e of
        Inl _ \<Rightarrow> (None, m)
      | Inr truth \<Rightarrow>
     (case bp_Get (svGet e) m node of
        Inl _ \<Rightarrow> (None, m)
      | Inr cur \<Rightarrow>
        (Some (absDiff cur truth),
         if cur = truth then m else snd (SetActiveChannels (svSet e) m node truth))))"

definition reconciler_Sweep :: "(string \<Rightarrow> sweep_env) \<Rightarrow> string list \<Rightarrow> counters \<Rightarrow> counters" where
  "reconciler_Sweep E nodes m = fold (\<lambda>node m. snd (sweepNode (E node) node m)) nodes m"

section \<open>Trunks and strategies\<close>

record Trunk =
  tkID :: string
  tkGatewayName :: string
  tkNodeAddrs :: "string list"
  tkCostPerMin :: rat
  tkWeight :: int
  tkActive :: bool
  tkFailureRate :: rat

text \<open>\<open>None\<close> is \<open>ErrNoTrunkAvailable\<close>.\<close>

fun least_cost :: "Trunk option \<Rightarrow> Trunk list \<Rightarrow> Trunk option" where
  "least_cost best [] = best"
| "least_cost best (t # ts) =
     (if \<not> tkActive t then least_cost best ts
      else case best of
          None \<Rightarrow> least_cost (Some t) ts
        | Some b \<Rightarrow> if tkCostPerMin t < tkCostPerMin b then least_cost (Some t) ts else least_cost best ts)"

definition LeastCost_Pick :: "Trunk list \<Rightarrow> Trunk option" where
  "LeastCost_Pick trunks = least_cost None trunks"

definition LeastCostWithFallback_Pick :: "rat \<Rightarrow> Trunk list \<Rightarrow> Trunk option" where
  "LeastCostWithFallback_Pick threshold trunks =
     (let filtered = filter (\<lambda>t. tkActive t \<and> tkFailureRate t \<le> threshold) trunks in
      if filtered = [] then LeastCost_Pick trunks else LeastCost_Pick filtered)"

text \<open>The counter is the state of the strategy; the slice is sorted by identifier.\<close>

definition RoundRobin_Pick :: "64 word \<Rightarrow> Trunk list \<Rightarrow> Trunk option \<times> 64 word" where
  "RoundRobin_Pick counter trunks =
     (let active = filter tkActive trunks in
      if active = [] then (None, counter)
      else let sorted = sort_key tkID active;
               counter' = counter + 1;
               n = counter' - 1
           in (Some (sorted ! (unat n mod length sorted)), counter'))"

definition weight_of :: "Trunk \<Rightarrow> int" where
  "weight_of t = (if tkActive t \<and> tkWeight t > 0 then tkWeight t else 0)"

definition totalW :: "Trunk list \<Rightarrow> int" where
  "totalW trunks = sum_list (map weight_of trunks)"

fun weighted_walk :: "int \<Rightarrow> Trunk list \<Rightarrow> Trunk option" where
  "weighted_walk r [] = None"
| "weighted_walk r (t # ts) =
     (if \<not> tkActive t \<or> tkWeight t \<le> 0 then weighted_walk r ts
      else if r - tkWeight t < 0 then Some t else weighted_walk (r - tkWeight t) ts)"

text \<open>\<open>draw\<close> is the value of \<open>rand.IntN(totalW)\<close>, in the range from 0 to \<open>totalW - 1\<close>.\<close>

definition Weighted_Pick :: "int \<Rightarrow> Trunk list \<Rightarrow> Trunk option" where
  "Weighted_Pick draw trunks = (if totalW trunks = 0 then None else weighted_walk draw trunks)"

section \<open>The router\<close>

record TrunkConfig =
  tcID :: string
  tcSIPGateway :: string
  tcCostPerMinuteRub :: rat
  tcWeight :: int
  tcCapacityChannels :: int

definition materialise :: "TrunkConfig \<Rightarrow> Trunk" where
  "materialise tc = \<lparr>tkID = tcID tc, tkGatewayName = tcSIPGateway tc, tkNodeAddrs = [],
     tkCostPerMin = tcCostPerMinuteRub tc, tkWeight = tcWeight tc,
     tkActive = (tcSIPGateway tc \<noteq> '''' \<and> tcCapacityChannels tc > 0), tkFailureRate = 0\<rparr>"

definition strategies :: "string list" where
  "strategies = [''least_cost'', ''least_cost_with_fallback'', ''round_robin'', ''weighted'']"

definition resolveStrategyName :: "string \<Rightarrow> string \<Rightarrow> string" where
  "resolveStrategyName defaultStrat reqStrat =
     (let name = TrimSpace reqStrat;
          name = (if name = '''' then TrimSpace defaultStrat else name);
          name = (if name = '''' then ''least_cost'' else name)
      in if name \<in> set strategies then name else ''least_cost'')"

text \<open>The strategy by name, with the round-robin counter of the router and the draw.\<close>

definition strategy_Pick :: "string \<Rightarrow> 64 word \<Rightarrow> int \<Rightarrow> Trunk list \<Rightarrow> Trunk option \<times> 64 word" where
  "strategy_Pick name counter draw trunks =
     (if name = ''least_cost_with_fallback'' then (LeastCostWithFallback_Pick (1 / 2) trunks, counter)
      else if name = ''round_robin'' then RoundRobin_Pick counter trunks
      else if name = ''weighted'' then (Weighted_Pick draw trunks, counter)
      else (LeastCost_Pick trunks, counter))"

definition candidateNodes :: "string list \<Rightarrow> Trunk \<Rightarrow> string list" where
  "candidateNodes healthy trunk =
     (if healthy = [] then []
      else if tkNodeAddrs trunk = [] then sort healthy
      else sort (filter (\<lambda>h. h \<in> set (tkNodeAddrs trunk)) healthy))"

datatype select_error = ErrNoTrunkAvailable | ErrCtxCancelled

text \<open>\<open>Inr None\<close> is the empty node name: no candidate accepted. \<open>cancelled i\<close> is the context before the \<open>i\<close>-th try.\<close>

fun acquireFirstHealthy ::
  "int \<Rightarrow> (string \<Rightarrow> call_outcome) \<Rightarrow> (nat \<Rightarrow> bool) \<Rightarrow> nat \<Rightarrow> string list \<Rightarrow> counters
   \<Rightarrow> (select_error + string option) \<times> counters" where
  "acquireFirstHealthy cap net cancelled i [] m = (Inr None, m)"
| "acquireFirstHealthy cap net cancelled i (node # nodes) m =
     (if cancelled i then (Inl ErrCtxCancelled, m) else
      case bp_TryAcquire cap (net node) m node of
        (Inl _, m') \<Rightarrow> acquireFirstHealthy cap net cancelled (Suc i) nodes m'
      | (Inr ok, m') \<Rightarrow> if ok then (Inr (Some node), m') else acquireFirstHealthy cap net cancelled (Suc i) nodes m')"

record SelectionResult =
  srFSNode :: string
  srTrunkID :: string
  srReason :: string

record router_state =
  roTrunks :: "Trunk list"
  roDefaultStrat :: string
  roCounter :: "64 word"
  roCap :: int

definition router_Select ::
  "router_state \<Rightarrow> (string \<Rightarrow> call_outcome) \<Rightarrow> (nat \<Rightarrow> bool) \<Rightarrow> string list \<Rightarrow> int \<Rightarrow> string \<Rightarrow> counters
   \<Rightarrow> (select_error + SelectionResult) \<times> router_state \<times> counters" where
  "router_Select ro net cancelled healthy draw reqStrat m =
     (let stratName = resolveStrategyName (roDefaultStrat ro) reqStrat in
      if roTrunks ro = [] then (Inl ErrNoTrunkAvailable, ro, m) else
      let (picked, counter) = strategy_Pick stratName (roCounter ro) draw (roTrunks ro);
          ro' = ro\<lparr>roCounter := counter\<rparr>
      in case picked of
           None \<Rightarrow> (Inl ErrNoTrunkAvailable, ro', m)
         | Some trunk \<Rightarrow>
           let candidates = candidateNodes healthy trunk in
           if candidates = [] then (Inl ErrNoTrunkAvailable, ro', m) else
           (case acquireFirstHealthy (roCap ro) net cancelled 0 candidates m of
              (Inl err, m') \<Rightarrow> (Inl err, ro', m')
            | (Inr None, m') \<Rightarrow> (Inl ErrNoTrunkAvailable, ro', m')
            | (Inr (Some node), m') \<Rightarrow>
                (Inr \<lparr>srFSNode = node, srTrunkID = tkID trunk, srReason = stratName\<rparr>, ro', m')))"

definition ReleaseChannel :: "call_outcome \<Rightarrow> counters \<Rightarrow> string \<Rightarrow> (dialer_error + unit) \<times> counters" where
  "ReleaseChannel net m nodeAddr = bp_Release net m nodeAddr"

section \<open>The capacity tracker\<close>

text \<open>
  Go's \<open>int\<close> has 64 bits here: the counter is reinterpreted as signed, sums wrap, and the
  remainder takes the sign of the dividend. A negative index panics.
\<close>

definition go_int :: "64 word \<Rightarrow> int" where
  "go_int w = sint w"

definition go_rem :: "int \<Rightarrow> int \<Rightarrow> int" where
  "go_rem a b = (if a < 0 then - ((- a) mod b) else a mod b)"

datatype acquire_result = Acquired string | AllNodesFull | Panic

fun tracker_walk ::
  "int \<Rightarrow> (string \<Rightarrow> call_outcome) \<Rightarrow> string list \<Rightarrow> 64 word \<Rightarrow> nat list \<Rightarrow> counters \<Rightarrow> acquire_result \<times> counters" where
  "tracker_walk cap net nodes start [] m = (AllNodesFull, m)"
| "tracker_walk cap net nodes start (offset # offsets) m =
     (let idx = go_rem (go_int (start + of_nat offset)) (int (length nodes)) in
      if idx < 0 then (Panic, m) else
      let node = nodes ! nat idx in
      case bp_TryAcquire cap (net node) m node of
        (Inl _, m') \<Rightarrow> tracker_walk cap net nodes start offsets m'
      | (Inr ok, m') \<Rightarrow> if ok then (Acquired node, m') else tracker_walk cap net nodes start offsets m')"

definition tracker_Acquire ::
  "int \<Rightarrow> (string \<Rightarrow> call_outcome) \<Rightarrow> string list \<Rightarrow> 64 word \<Rightarrow> counters \<Rightarrow> acquire_result \<times> 64 word \<times> counters" where
  "tracker_Acquire cap net healthy rrCounter m =
     (if healthy = [] then (AllNodesFull, rrCounter, m) else
      let rrCounter' = rrCounter + 1; start = rrCounter' - 1;
          (r, m') = tracker_walk cap net healthy start [0..<length healthy] m
      in (r, rrCounter', m'))"

definition tracker_Release :: "call_outcome \<Rightarrow> counters \<Rightarrow> string \<Rightarrow> (dialer_error + unit) \<times> counters" where
  "tracker_Release net m node = (if node = '''' then (Inl ErrInvalidArgument, m) else bp_Release net m node)"

definition tracker_Stats :: "(string \<Rightarrow> call_outcome) \<Rightarrow> string list \<Rightarrow> counters \<Rightarrow> (string \<times> int) list" where
  "tracker_Stats net healthy m =
     concat (map (\<lambda>node. case bp_Get (net node) m node of Inl _ \<Rightarrow> [] | Inr v \<Rightarrow> [(node, v)]) healthy)"

section \<open>The slot interface\<close>

text \<open>
  What both walkers rely on: a claim on a full node changes nothing, a claim on a node with room
  claims one slot of that node.
\<close>

locale slot_counter =
  fixes load :: "'s \<Rightarrow> string \<Rightarrow> int"
    and cap :: int
    and claim :: "'s \<Rightarrow> string \<Rightarrow> (dialer_error + bool) \<times> 's"
  assumes claim_full: "load s n \<ge> cap \<Longrightarrow> claim s n = (Inr False, s)"
    and claim_free: "load s n < cap \<Longrightarrow> \<exists>s'. claim s n = (Inr True, s') \<and> load s' = (load s)(n := load s n + 1)"

fun walk_nodes :: "('s \<Rightarrow> string \<Rightarrow> (dialer_error + bool) \<times> 's) \<Rightarrow> string list \<Rightarrow> 's \<Rightarrow> string option \<times> 's" where
  "walk_nodes claim [] s = (None, s)"
| "walk_nodes claim (n # ns) s =
     (case claim s n of (Inl _, s') \<Rightarrow> walk_nodes claim ns s'
      | (Inr ok, s') \<Rightarrow> if ok then (Some n, s') else walk_nodes claim ns s')"

context slot_counter
begin

lemma walk_spec:
  "case find (\<lambda>n. load s n < cap) ns of
     None \<Rightarrow> walk_nodes claim ns s = (None, s)
   | Some n \<Rightarrow> \<exists>s'. walk_nodes claim ns s = (Some n, s') \<and> load s' = (load s)(n := load s n + 1)"
proof (induction ns)
  case (Cons n ns)
  then show ?case
    using claim_full [of s n] claim_free [of s n] by (cases "load s n < cap") (auto simp: fun_upd_def split: option.splits)
qed simp

end

lemma bpKey_inject [simp]: "bpKey a = bpKey b \<longleftrightarrow> a = b"
  by (simp add: bpKey_def)

lemma counter_value_upd [simp]:
  "counter_value (m(bpKey node := v)) n = (if n = node then (case v of None \<Rightarrow> 0 | Some x \<Rightarrow> x) else counter_value m n)"
  by (simp add: counter_value_def)

interpretation redis_slots: slot_counter counter_value cap "bp_TryAcquire cap CallOk" for cap
proof
  fix m n assume "cap \<le> counter_value m n"
  then show "bp_TryAcquire cap CallOk m n = (Inr False, m)"
    by (simp add: bp_TryAcquire_def run_counter_def tryAcquireScript_def counter_value_def Let_def)
next
  fix m n assume "counter_value m n < cap"
  then have "bp_TryAcquire cap CallOk m n = (Inr True, m(bpKey n \<mapsto> counter_value m n + 1))"
    by (simp add: bp_TryAcquire_def run_counter_def tryAcquireScript_def counter_value_def Let_def)
  moreover have "counter_value (m(bpKey n \<mapsto> counter_value m n + 1)) = (counter_value m)(n := counter_value m n + 1)"
    by (rule ext) simp
  ultimately show "\<exists>m'. bp_TryAcquire cap CallOk m n = (Inr True, m') \<and>
      counter_value m' = (counter_value m)(n := counter_value m n + 1)" by blast
qed

lemma acquireFirstHealthy_walk:
  "acquireFirstHealthy cap (\<lambda>_. CallOk) (\<lambda>_. False) i nodes m =
     (case walk_nodes (bp_TryAcquire cap CallOk) nodes m of (r, m') \<Rightarrow> (Inr r, m'))"
  by (induction nodes arbitrary: i m) (auto split: prod.splits sum.splits)

text \<open>While the signed counter does not overflow, the tracker walks the rotated node list.\<close>

definition rotated :: "string list \<Rightarrow> 64 word \<Rightarrow> nat list \<Rightarrow> string list" where
  "rotated nodes start offsets = map (\<lambda>k. nodes ! ((unat start + k) mod length nodes)) offsets"

lemma signed_take_bit_small:
  assumes "x < (2 :: nat) ^ 63"
  shows "signed_take_bit 63 (int x) = int x"
  by (rule signed_take_bit_int_eq_self) (use assms in \<open>simp_all add: of_nat_less_iff [symmetric]\<close>)

lemma go_int_small:
  assumes "unat start + k < 2 ^ 63"
  shows "go_int (start + of_nat k) = int (unat start + k)"
proof -
  have "unat (start + of_nat k :: 64 word) = (unat start + unat (of_nat k :: 64 word)) mod 2 ^ 64"
    by (simp add: unat_word_ariths)
  also have "unat (of_nat k :: 64 word) = k" using assms by (simp add: unat_of_nat)
  also have "(unat start + k) mod 2 ^ 64 = unat start + k" using assms by simp
  finally have u: "unat (start + of_nat k :: 64 word) = unat start + k" .
  have "uint (start + of_nat k :: 64 word) = int (unat start + k)" by (simp only: uint_nat u)
  moreover have "signed_take_bit 63 (int (unat start + k)) = int (unat start + k)"
    by (rule signed_take_bit_small [OF assms])
  moreover have "sint (v :: 64 word) = signed_take_bit 63 (uint v)" for v by (simp add: sint_uint)
  ultimately show ?thesis by (simp only: go_int_def)
qed

lemma tracker_walk_rotated:
  assumes "nodes \<noteq> []" and "\<forall>k \<in> set offsets. unat start + k < 2 ^ 63"
  shows "tracker_walk cap (\<lambda>_. CallOk) nodes start offsets m =
    (case walk_nodes (bp_TryAcquire cap CallOk) (rotated nodes start offsets) m of
       (None, m') \<Rightarrow> (AllNodesFull, m') | (Some n, m') \<Rightarrow> (Acquired n, m'))"
  using assms(2)
proof (induction offsets arbitrary: m)
  case (Cons k offsets)
  have idx: "go_rem (go_int (start + of_nat k)) (int (length nodes)) = int ((unat start + k) mod length nodes)"
  proof -
    have "go_int (start + of_nat k) = int (unat start + k)"
      by (rule go_int_small) (use Cons.prems in simp)
    then show ?thesis by (simp only: go_rem_def of_nat_less_0_iff if_False zmod_int)
  qed
  show ?case
    using Cons by (simp add: idx rotated_def Let_def split: prod.splits sum.splits)
qed (simp add: rotated_def)

lemma shift_mod_inject:
  fixes a j k n :: nat
  assumes eq: "(a + j) mod n = (a + k) mod n" and "j < n" "k < n"
  shows "j = k"
proof (cases "j \<le> k")
  case True
  then have "n dvd k - j" using eq mod_eq_dvd_iff_nat [of "a + j" "a + k" n] by simp
  then show ?thesis using assms True by (metis dvd_imp_le leD le_antisym less_imp_diff_less not_gr_zero diff_is_0_eq)
next
  case False
  then have "n dvd j - k" using eq mod_eq_dvd_iff_nat [of "a + k" "a + j" n] by simp
  then show ?thesis using assms False by (metis dvd_imp_le leD less_imp_diff_less nat_le_linear not_gr_zero diff_is_0_eq)
qed

lemma set_rotated:
  assumes "nodes \<noteq> []"
  shows "set (rotated nodes start [0..<length nodes]) = set nodes"
proof -
  let ?n = "length nodes" and ?a = "unat start"
  have "(\<lambda>k. (?a + k) mod ?n) ` {0..<?n} = {0..<?n}"
  proof (rule card_subset_eq)
    show "(\<lambda>k. (?a + k) mod ?n) ` {0..<?n} \<subseteq> {0..<?n}" using assms by auto
    have "inj_on (\<lambda>k. (?a + k) mod ?n) {0..<?n}"
    proof (rule inj_onI)
      fix j k assume "j \<in> {0..<?n}" "k \<in> {0..<?n}" "(?a + j) mod ?n = (?a + k) mod ?n"
      then show "j = k" using shift_mod_inject [of ?a j ?n k] by (simp only: atLeastLessThan_iff)
    qed
    then show "card ((\<lambda>k. (?a + k) mod ?n) ` {0..<?n}) = card {0..<?n}" by (rule card_image)
  qed simp
  then have "(!) nodes ` (\<lambda>k. (?a + k) mod ?n) ` {0..<?n} = (!) nodes ` {0..<?n}" by simp
  also have "\<dots> = set nodes" using nth_image [of ?n nodes] by simp
  finally show ?thesis by (simp only: rotated_def set_map set_upt image_image)
qed

section \<open>Properties\<close>

text \<open>
  The tracker. While the round-robin counter stays below \<open>2 ^ 63\<close> and Redis answers, \<open>Acquire\<close> reports
  that all nodes are full exactly when every healthy node is at the cap, and then changes no
  counter; otherwise it claims one slot on the first node with room in round-robin order and
  changes no other counter.
\<close>

theorem acquire_claims_first_free_node:
  assumes "healthy \<noteq> []" and "unat rr + length healthy \<le> 2 ^ 63"
  defines "order \<equiv> rotated healthy rr [0..<length healthy]"
  shows "set order = set healthy \<and>
    (case find (\<lambda>n. counter_value m n < cap) order of
       None \<Rightarrow> tracker_Acquire cap (\<lambda>_. CallOk) healthy rr m = (AllNodesFull, rr + 1, m) \<and>
         (\<forall>n \<in> set healthy. counter_value m n \<ge> cap)
     | Some n \<Rightarrow> counter_value m n < cap \<and> (\<exists>m'. tracker_Acquire cap (\<lambda>_. CallOk) healthy rr m = (Acquired n, rr + 1, m') \<and>
         counter_value m' = (counter_value m)(n := counter_value m n + 1)))"
proof -
  have set: "set order = set healthy" unfolding order_def by (rule set_rotated [OF assms(1)])
  have "\<forall>k \<in> set [0..<length healthy]. unat rr + k < 2 ^ 63" using assms(2) by auto
  note walk = tracker_walk_rotated [OF assms(1) this, of cap m, folded order_def]
  show ?thesis
  proof (cases "find (\<lambda>n. counter_value m n < cap) order")
    case None
    then have full: "\<forall>n \<in> set healthy. counter_value m n \<ge> cap"
      unfolding find_None_iff set by auto
    have "walk_nodes (bp_TryAcquire cap CallOk) order m = (None, m)"
      using redis_slots.walk_spec [where s = m and ns = order and cap = cap] None by simp
    then show ?thesis using None full set assms(1) by (simp add: tracker_Acquire_def walk Let_def)
  next
    case (Some n)
    then have "counter_value m n < cap" unfolding find_Some_iff by blast
    moreover obtain m' where "walk_nodes (bp_TryAcquire cap CallOk) order m = (Some n, m')"
        "counter_value m' = (counter_value m)(n := counter_value m n + 1)"
      using redis_slots.walk_spec [where s = m and ns = order and cap = cap] Some by auto
    ultimately show ?thesis using Some set assms(1) by (simp add: tracker_Acquire_def walk Let_def)
  qed
qed

theorem acquire_claims_first_free_node_witness:
  "\<exists>m'. tracker_Acquire 2 (\<lambda>_. CallOk) [''fs1'', ''fs2'', ''fs3''] 4 [bpKey ''fs2'' \<mapsto> 2] = (Acquired ''fs3'', 5, m')"
proof -
  let ?h = "[''fs1'', ''fs2'', ''fs3'']" and ?m = "[bpKey ''fs2'' \<mapsto> 2]"
  have "[0..<length ?h] = [0, 1, 2]" by (simp add: upt_rec)
  then have rot: "rotated ?h 4 [0..<length ?h] = [''fs2'', ''fs3'', ''fs1'']" by (simp add: rotated_def)
  have f: "find (\<lambda>n. counter_value ?m n < 2) [''fs2'', ''fs3'', ''fs1''] = Some ''fs3''"
    by (simp add: counter_value_def)
  have "\<exists>m'. tracker_Acquire 2 (\<lambda>_. CallOk) ?h 4 ?m = (Acquired ''fs3'', 4 + 1, m')"
    using acquire_claims_first_free_node [where healthy = ?h and rr = 4 and m = ?m and cap = 2]
    unfolding rot f by auto
  then show ?thesis by simp
qed

text \<open>
  The counter is an unsigned 64-bit word read as a signed one. Once it reaches \<open>2 ^ 63\<close>, a fleet of
  three nodes makes \<open>Acquire\<close> index with a negative remainder, which panics.
\<close>

theorem acquire_panics_after_counter_overflow:
  assumes "length healthy = 3"
  shows "tracker_Acquire cap net healthy (2 ^ 63) m = (Panic, 2 ^ 63 + 1, m)"
proof -
  obtain a b c where h: "healthy = [a, b, c]"
    using assms by (auto simp: length_Suc_conv numeral_3_eq_3)
  have idx: "go_rem (go_int (2 ^ 63)) 3 = - 2" by code_simp
  have "[0..<length healthy] = 0 # [1..<length healthy]" using assms by (simp add: upt_conv_Cons)
  then show ?thesis using idx by (simp add: tracker_Acquire_def h Let_def)
qed

theorem acquire_panics_after_counter_overflow_witness:
  "tracker_Acquire 60 (\<lambda>_. CallOk) [''a'', ''b'', ''c''] (2 ^ 63) (\<lambda>_. None) = (Panic, 2 ^ 63 + 1, \<lambda>_. None)"
  by (rule acquire_panics_after_counter_overflow) simp

text \<open>Histories of the counters: claims and releases by any users, with requests and replies lost.\<close>

datatype slot_op = SAcquire call_outcome string | SRelease call_outcome string

fun slot_step :: "int \<Rightarrow> slot_op \<Rightarrow> counters \<Rightarrow> counters" where
  "slot_step cap (SAcquire net node) m = snd (bp_TryAcquire cap net m node)"
| "slot_step cap (SRelease net node) m = snd (bp_Release net m node)"

definition within_cap :: "int \<Rightarrow> counters \<Rightarrow> bool" where
  "within_cap cap m \<longleftrightarrow> (\<forall>n. 0 \<le> counter_value m n \<and> counter_value m n \<le> cap)"

lemma slot_step_within_cap: "within_cap cap m \<Longrightarrow> within_cap cap (slot_step cap op m)"
proof (cases op)
  case (SAcquire net node)
  then show "within_cap cap m \<Longrightarrow> ?thesis"
    by (cases net) (auto simp: within_cap_def bp_TryAcquire_def run_counter_def tryAcquireScript_def Let_def
        counter_value_def split: option.splits if_splits)
next
  case (SRelease net node)
  then show "within_cap cap m \<Longrightarrow> ?thesis"
    by (cases net) (auto simp: within_cap_def bp_Release_def run_counter_def releaseScript_def Let_def
        counter_value_def split: option.splits if_splits dest!: spec [of _ node])
qed

text \<open>
  C17: the cap. Whatever the history of claims, releases (also duplicate ones) and lost replies, every
  counter stays between 0 and the cap.
\<close>

theorem counters_stay_within_cap:
  "0 \<le> counter_value (fold (slot_step (NewBackpressure cap)) ops (\<lambda>_. None)) node \<and>
   counter_value (fold (slot_step (NewBackpressure cap)) ops (\<lambda>_. None)) node \<le> NewBackpressure cap"
proof -
  have "within_cap (NewBackpressure cap) m \<Longrightarrow> within_cap (NewBackpressure cap) (fold (slot_step (NewBackpressure cap)) ops m)" for m
    by (induction ops arbitrary: m) (simp_all add: slot_step_within_cap)
  moreover have "within_cap (NewBackpressure cap) (\<lambda>_. None)"
    by (simp add: within_cap_def counter_value_def NewBackpressure_def defaultBackpressureCap_def)
  ultimately show ?thesis unfolding within_cap_def by blast
qed

lemma weight_of_nonneg: "0 \<le> weight_of t"
  by (simp add: weight_of_def)

lemma totalW_Cons: "totalW (t # ts) = weight_of t + totalW ts"
  by (simp add: totalW_def)

lemma totalW_nonneg: "0 \<le> totalW ts"
  unfolding totalW_def by (rule sum_list_nonneg) (auto simp: weight_of_nonneg)

lemma weighted_walk_shift:
  "weighted_walk r (t # ts) = (if r < weight_of t then Some t else weighted_walk (r - weight_of t) ts)" if "0 \<le> r"
  using that by (auto simp: weight_of_def)

lemma weighted_walk_in: "weighted_walk r ts = Some t \<Longrightarrow> t \<in> set ts"
  by (induction r ts rule: weighted_walk.induct) (auto split: if_splits)

declare weighted_walk.simps(2) [simp del]

lemma weighted_draws:
  assumes "distinct ts"
  shows "{r. 0 \<le> r \<and> r < totalW ts \<and> weighted_walk r ts = Some t} =
    (if t \<in> set ts then {r. sum_list (map weight_of (takeWhile (\<lambda>x. x \<noteq> t) ts)) \<le> r \<and>
       r < sum_list (map weight_of (takeWhile (\<lambda>x. x \<noteq> t) ts)) + weight_of t} else {})"
  using assms
proof (induction ts)
  case (Cons a ts)
  have tw: "0 \<le> totalW ts" by (rule totalW_nonneg)
  show ?case
  proof (cases "a = t")
    case True
    then have "t \<notin> set ts" using Cons.prems by simp
    then have "weighted_walk r ts \<noteq> Some t" for r using weighted_walk_in by blast
    then show ?thesis using True tw
      by (auto simp: weighted_walk_shift totalW_Cons split: if_splits)
  next
    case False
    let ?w = "weight_of a" and ?S = "\<lambda>xs. {r. 0 \<le> r \<and> r < totalW xs \<and> weighted_walk r xs = Some t}"
    have S: "?S (a # ts) = (\<lambda>r. r + ?w) ` ?S ts"
    proof
      show "?S (a # ts) \<subseteq> (\<lambda>r. r + ?w) ` ?S ts"
      proof
        fix r assume "r \<in> ?S (a # ts)"
        then have "0 \<le> r - ?w" "r - ?w < totalW ts" "weighted_walk (r - ?w) ts = Some t"
          using False by (auto simp: weighted_walk_shift totalW_Cons split: if_splits)
        then show "r \<in> (\<lambda>r. r + ?w) ` ?S ts" by (intro image_eqI [of _ _ "r - ?w"]) simp_all
      qed
      show "(\<lambda>r. r + ?w) ` ?S ts \<subseteq> ?S (a # ts)"
        using weight_of_nonneg [of a] by (auto simp: weighted_walk_shift totalW_Cons simp del: weighted_walk.simps)
    qed
    have img: "(\<lambda>r. r + c) ` {r. lo \<le> r \<and> r < hi} = {r. lo + c \<le> r \<and> r < hi + c}" for c lo hi :: int
      by (auto intro!: image_eqI [of _ _ "_ - c"])
    show ?thesis
    proof (cases "t \<in> set ts")
      case True
      then show ?thesis unfolding S using False Cons.IH Cons.prems by (auto simp: img add.commute add.left_commute)
    next
      case notin: False
      then show ?thesis unfolding S using False Cons.IH Cons.prems by simp
    qed
  qed
qed (simp add: totalW_def)

lemma weighted_total: "0 \<le> r \<Longrightarrow> r < totalW ts \<Longrightarrow> \<exists>t. weighted_walk r ts = Some t"
proof (induction ts arbitrary: r)
  case (Cons a ts)
  show ?case
  proof (cases "r < weight_of a")
    case False
    then show ?thesis using Cons by (simp add: weighted_walk_shift totalW_Cons)
  qed (use Cons.prems in \<open>simp add: weighted_walk_shift\<close>)
qed (simp add: totalW_def)

text \<open>
  The weighted strategy. A draw below the total weight always selects a trunk, and of the possible
  draws exactly as many select a trunk as its weight, provided the catalogue has no trunk twice.
\<close>

theorem weighted_pick_is_proportional:
  assumes "distinct trunks"
  shows "(0 \<le> r \<and> r < totalW trunks \<longrightarrow> (\<exists>t \<in> set trunks. Weighted_Pick r trunks = Some t)) \<and>
    card {r. 0 \<le> r \<and> r < totalW trunks \<and> Weighted_Pick r trunks = Some t} =
      (if t \<in> set trunks then nat (weight_of t) else 0)"
proof -
  have "{r. 0 \<le> r \<and> r < totalW trunks \<and> Weighted_Pick r trunks = Some t} =
      {r. 0 \<le> r \<and> r < totalW trunks \<and> weighted_walk r trunks = Some t}"
    by (auto simp: Weighted_Pick_def)
  moreover have "{r :: int. lo \<le> r \<and> r < hi} = {lo..<hi}" for lo hi by auto
  ultimately have "card {r. 0 \<le> r \<and> r < totalW trunks \<and> Weighted_Pick r trunks = Some t} =
      (if t \<in> set trunks then nat (weight_of t) else 0)"
    using weighted_draws [OF assms, of t] by simp
  then show ?thesis
    using weighted_total [of r trunks] weighted_walk_in by (fastforce simp: Weighted_Pick_def)
qed

definition sample_trunk :: "string \<Rightarrow> int \<Rightarrow> Trunk" where
  "sample_trunk i w = \<lparr>tkID = i, tkGatewayName = ''gw'', tkNodeAddrs = [], tkCostPerMin = of_int w, tkWeight = w,
     tkActive = True, tkFailureRate = 0\<rparr>"

theorem weighted_pick_is_proportional_witness:
  "card {r. 0 \<le> r \<and> r < totalW [sample_trunk ''a'' 3, sample_trunk ''b'' 7] \<and>
     Weighted_Pick r [sample_trunk ''a'' 3, sample_trunk ''b'' 7] = Some (sample_trunk ''b'' 7)} = 7"
  using weighted_pick_is_proportional [of "[sample_trunk ''a'' 3, sample_trunk ''b'' 7]" 0 "sample_trunk ''b'' 7"]
  by (simp add: sample_trunk_def weight_of_def)

lemma least_cost_spec:
  "case least_cost best ts of
     None \<Rightarrow> best = None \<and> (\<forall>x \<in> set ts. \<not> tkActive x)
   | Some t \<Rightarrow> (best = Some t \<or> t \<in> set ts \<and> tkActive t) \<and> (\<forall>x \<in> set ts. tkActive x \<longrightarrow> tkCostPerMin t \<le> tkCostPerMin x) \<and>
       (\<forall>b. best = Some b \<longrightarrow> tkCostPerMin t \<le> tkCostPerMin b)"
proof (induction best ts rule: least_cost.induct)
  case (2 best t ts)
  show ?case
  proof (cases "tkActive t")
    case False
    with 2(1) show ?thesis by (auto split: option.splits)
  next
    case True
    show ?thesis
    proof (cases best)
      case None
      with 2(2) [of] True show ?thesis by (auto split: option.splits)
    next
      case (Some b)
      with 2(3,4) True show ?thesis by (fastforce split: option.splits if_splits)
    qed
  qed
qed (auto split: option.splits)

lemma LeastCost_None: "LeastCost_Pick ts = None \<longleftrightarrow> (\<forall>x \<in> set ts. \<not> tkActive x)"
  using least_cost_spec [of None ts] by (auto simp: LeastCost_Pick_def split: option.splits)

lemma LeastCost_Some:
  "LeastCost_Pick ts = Some t \<Longrightarrow> t \<in> set ts \<and> tkActive t \<and> (\<forall>x \<in> set ts. tkActive x \<longrightarrow> tkCostPerMin t \<le> tkCostPerMin x)"
  using least_cost_spec [of None ts] by (auto simp: LeastCost_Pick_def split: option.splits)

text \<open>
  Least cost with fallback. The strategy fails only when no trunk is active. Its choice is an active
  trunk; if some active trunk is within the failure threshold the choice is within it and no
  such trunk is cheaper, otherwise no active trunk is cheaper.
\<close>

theorem least_cost_with_fallback_choice:
  "(LeastCostWithFallback_Pick th ts = None \<longleftrightarrow> (\<forall>x \<in> set ts. \<not> tkActive x)) \<and>
   (\<forall>t. LeastCostWithFallback_Pick th ts = Some t \<longrightarrow> t \<in> set ts \<and> tkActive t \<and>
      ((\<exists>x \<in> set ts. tkActive x \<and> tkFailureRate x \<le> th) \<longrightarrow> tkFailureRate t \<le> th \<and>
         (\<forall>x \<in> set ts. tkActive x \<and> tkFailureRate x \<le> th \<longrightarrow> tkCostPerMin t \<le> tkCostPerMin x)) \<and>
      ((\<nexists>x. x \<in> set ts \<and> tkActive x \<and> tkFailureRate x \<le> th) \<longrightarrow>
         (\<forall>x \<in> set ts. tkActive x \<longrightarrow> tkCostPerMin t \<le> tkCostPerMin x)))"
proof (cases "filter (\<lambda>t. tkActive t \<and> tkFailureRate t \<le> th) ts = []")
  case True
  then have none: "\<forall>x \<in> set ts. \<not> (tkActive x \<and> tkFailureRate x \<le> th)" by (simp add: filter_empty_conv)
  have "LeastCostWithFallback_Pick th ts = LeastCost_Pick ts"
    using True by (simp add: LeastCostWithFallback_Pick_def)
  then show ?thesis using none LeastCost_None [of ts] LeastCost_Some [of ts] by auto
next
  case False
  let ?fs = "filter (\<lambda>t. tkActive t \<and> tkFailureRate t \<le> th) ts"
  have eq: "LeastCostWithFallback_Pick th ts = LeastCost_Pick ?fs"
    using False by (simp add: LeastCostWithFallback_Pick_def)
  have ex: "\<exists>x \<in> set ts. tkActive x \<and> tkFailureRate x \<le> th" using False by (auto simp: filter_empty_conv)
  then have N: "LeastCost_Pick ?fs \<noteq> None" unfolding LeastCost_None by auto
  have S: "t \<in> set ts \<and> tkActive t \<and> tkFailureRate t \<le> th \<and>
      (\<forall>x \<in> set ts. tkActive x \<and> tkFailureRate x \<le> th \<longrightarrow> tkCostPerMin t \<le> tkCostPerMin x)"
    if "LeastCost_Pick ?fs = Some t" for t
    using LeastCost_Some [OF that] by simp
  show ?thesis unfolding eq using N S ex by blast
qed

theorem least_cost_with_fallback_choice_witness:
  "LeastCostWithFallback_Pick (1 / 2) [sample_trunk ''a'' 3\<lparr>tkFailureRate := 1\<rparr>, sample_trunk ''b'' 7] \<noteq> None"
  using least_cost_with_fallback_choice [of "1 / 2" "[sample_trunk ''a'' 3\<lparr>tkFailureRate := 1\<rparr>, sample_trunk ''b'' 7]"]
  by (simp add: sample_trunk_def)

lemma strategy_Pick_active:
  assumes "strategy_Pick name c draw ts = (Some t, c')"
  shows "t \<in> set ts \<and> tkActive t"
proof -
  have "t \<in> set ts \<and> tkActive t" if "LeastCost_Pick ts = Some t" using LeastCost_Some [OF that] by blast
  moreover have "t \<in> set ts \<and> tkActive t" if "LeastCostWithFallback_Pick th ts = Some t" for th
  proof -
    let ?fs = "filter (\<lambda>t. tkActive t \<and> tkFailureRate t \<le> th) ts"
    have "LeastCost_Pick ts = Some t \<or> LeastCost_Pick ?fs = Some t"
      using that by (auto simp: LeastCostWithFallback_Pick_def Let_def split: if_splits)
    then show ?thesis using LeastCost_Some [of ts t] LeastCost_Some [of ?fs t] by auto
  qed
  moreover have "t \<in> set ts \<and> tkActive t" if "RoundRobin_Pick c ts = (Some t, c')"
  proof -
    let ?s = "sort_key tkID (filter tkActive ts)"
    have "filter tkActive ts \<noteq> []" using that by (auto simp: RoundRobin_Pick_def Let_def split: if_splits)
    moreover have "t = ?s ! (unat c mod length ?s)"
      using that by (auto simp: RoundRobin_Pick_def Let_def split: if_splits)
    ultimately have "t \<in> set ?s" by (metis length_greater_0_conv length_sort mod_less_divisor nth_mem)
    then show ?thesis by simp
  qed
  moreover have "weighted_walk r xs = Some t \<Longrightarrow> tkActive t" for r xs
    by (induction r xs rule: weighted_walk.induct) (auto simp: weighted_walk.simps split: if_splits)
  ultimately show ?thesis
    using assms weighted_walk_in by (auto simp: strategy_Pick_def Weighted_Pick_def split: if_splits)
qed

lemma set_candidateNodes: "set (candidateNodes healthy t) \<subseteq> set healthy"
  by (auto simp: candidateNodes_def)

text \<open>
  The router. When Redis answers and the context lives, \<open>Select\<close> either fails with \<open>ErrNoTrunkAvailable\<close>
  and changes no counter, or it returns an active trunk of the catalogue and a healthy node
  that had room, having claimed exactly one slot there.
\<close>

theorem select_claims_one_slot_or_nothing:
  "case router_Select ro (\<lambda>_. CallOk) (\<lambda>_. False) healthy draw req m of
     (Inl err, ro', m') \<Rightarrow> err = ErrNoTrunkAvailable \<and> m' = m
   | (Inr sel, ro', m') \<Rightarrow> srFSNode sel \<in> set healthy \<and> counter_value m (srFSNode sel) < roCap ro \<and>
       counter_value m' = (counter_value m)(srFSNode sel := counter_value m (srFSNode sel) + 1) \<and>
       (\<exists>t \<in> set (roTrunks ro). tkActive t \<and> tkID t = srTrunkID sel)"
proof (cases "roTrunks ro = []")
  case True
  then show ?thesis by (simp add: router_Select_def Let_def)
next
  case False
  let ?name = "resolveStrategyName (roDefaultStrat ro) req"
  obtain p c where p: "strategy_Pick ?name (roCounter ro) draw (roTrunks ro) = (p, c)" by fastforce
  show ?thesis
  proof (cases "p = None \<or> candidateNodes healthy (the p) = []")
    case True
    then show ?thesis using False p by (auto simp: router_Select_def Let_def split: option.splits)
  next
    case go: False
    then obtain t where t: "p = Some t" "candidateNodes healthy t \<noteq> []" by auto
    let ?ns = "candidateNodes healthy t"
    have walk: "acquireFirstHealthy (roCap ro) (\<lambda>_. CallOk) (\<lambda>_. False) 0 ?ns m =
        (case walk_nodes (bp_TryAcquire (roCap ro) CallOk) ?ns m of (r, m') \<Rightarrow> (Inr r, m'))"
      by (rule acquireFirstHealthy_walk)
    note spec = redis_slots.walk_spec [where s = m and ns = ?ns and cap = "roCap ro"]
    show ?thesis
    proof (cases "find (\<lambda>n. counter_value m n < roCap ro) ?ns")
      case None
      then show ?thesis using spec walk t p False by (simp add: router_Select_def Let_def)
    next
      case (Some n)
      then have n: "n \<in> set ?ns" "counter_value m n < roCap ro" by (auto simp: find_Some_iff)
      then have "n \<in> set healthy" using set_candidateNodes by blast
      then show ?thesis using spec walk t p False Some n strategy_Pick_active [OF p [unfolded t(1)]]
        by (auto simp: router_Select_def Let_def intro!: bexI [of _ t])
    qed
  qed
qed

text \<open>
  The reconciler. A sweep whose reads and writes succeed sets the counter of every swept node to the
  number of channels FreeSWITCH reports (0 for a negative report) and leaves all others alone.
\<close>

theorem sweep_sets_reported_counts:
  assumes "\<And>n. n \<in> set nodes \<Longrightarrow> E n = \<lparr>svTruth = Inr (truth n), svGet = CallOk, svSet = CallOk\<rparr>"
    and "\<And>n. 0 \<le> counter_value m n"
  shows "counter_value (reconciler_Sweep E nodes m) n = (if n \<in> set nodes then max 0 (truth n) else counter_value m n)"
  using assms
proof (induction nodes arbitrary: m)
  case Nil
  then show ?case by (simp add: reconciler_Sweep_def)
next
  case (Cons a nodes)
  let ?m1 = "snd (sweepNode (E a) a m)"
  have E: "E a = \<lparr>svTruth = Inr (truth a), svGet = CallOk, svSet = CallOk\<rparr>" using Cons.prems by simp
  have v: "counter_value ?m1 k = (if k = a then max 0 (truth a) else counter_value m k)" for k
    using Cons.prems(2) [of a] by (auto simp: E sweepNode_def bp_Get_def SetActiveChannels_def Let_def)
  have "counter_value (reconciler_Sweep E nodes ?m1) n = (if n \<in> set nodes then max 0 (truth n) else counter_value ?m1 n)"
    by (rule Cons.IH) (use Cons.prems v in auto)
  then show ?case by (auto simp: reconciler_Sweep_def v)
qed

theorem sweep_sets_reported_counts_witness:
  "counter_value (reconciler_Sweep (\<lambda>_. \<lparr>svTruth = Inr 4, svGet = CallOk, svSet = CallOk\<rparr>) [''fs1'', ''fs2''] [bpKey ''fs1'' \<mapsto> 9]) ''fs1'' = 4"
  using sweep_sets_reported_counts [of "[''fs1'', ''fs2'']" "\<lambda>_. \<lparr>svTruth = Inr 4, svGet = CallOk, svSet = CallOk\<rparr>" "\<lambda>_. 4" "[bpKey ''fs1'' \<mapsto> 9]" "''fs1''"]
  by (auto simp: counter_value_def)

end
