(* ===== verification/Survey_Graph.thy ===== *)
theory Survey_Graph
  imports Prelude Complex_Main "HOL-Library.List_Lexorder" "HOL-Library.Char_ord"
begin

text \<open>
  The graph pass of the survey schema validator (\<open>internal/surveys/schemavalidator/graph.go\<close>,
  \<open>validator.go\<close>): parsing the node list into a graph, breadth-first reachability, the exit test for
  cycles, dominators by fixed-point iteration, and the checks on the \<open>when\<close> expressions.

  The decoded document is the list of its nodes, the form \<open>json.Unmarshal\<close> leaves in
  \<open>runtime/types.go\<close>. The parser of expressions (the \<open>dsl.Evaluator\<close>) and the JSON-Schema pass
  are parameters. The message text of an issue is left out.
\<close>

section \<open>The document\<close>

datatype NodeKind =
  NodeStart | NodeIntro | NodeQuestion | NodeTextBlock | NodeSuccessEnd | NodeRefusalEnd
| NodeCondition | NodeJump | NodeKindOther string

datatype QuestionType = TypeSingle | TypeMulti | TypeNumber | TypeText | TypeSelect | TypeNone | TypeOther string

record schemaEdge =
  seTo :: string
  seWhen :: string

record schemaNode =
  ndID :: string
  ndKind :: NodeKind
  ndQuestionType :: QuestionType
  ndOptions :: "string list"
  ndMin :: "rat option"
  ndMax :: "rat option"
  ndRequired :: bool
  ndNext :: "schemaEdge list"

type_synonym schemaDoc = "schemaNode list"

text \<open>\<open>findNode\<close> of the runtime: the first node with the identifier.\<close>

definition findNode :: "schemaDoc \<Rightarrow> string \<Rightarrow> schemaNode option" where
  "findNode doc i = find (\<lambda>n. ndID n = i) doc"

datatype issue_code =
  CodeJSONSchemaInvalid | CodeJSONSchema string
| CodeGraphNoStart | CodeGraphMultipleStarts | CodeGraphDuplicateNodeID | CodeGraphUnreachableNode
| CodeGraphDanglingEdge | CodeGraphCycleNoExit | CodeGraphNoEndReachable | CodeGraphBadWhen
| CodeGraphBadNodeRef | CodeGraphForwardRef

record Issue =
  isCode :: issue_code
  isPath :: string

section \<open>The graph\<close>

record graphNode =
  gnKind :: NodeKind
  gnQtype :: QuestionType
  gnEdges :: "schemaEdge list"

text \<open>The Go map of nodes is an association list with one entry per identifier.\<close>

record graph =
  gNodes :: "(string \<times> graphNode) list"
  gOrder :: "string list"
  gStartID :: string
  gDuplicates :: "(string \<times> nat) list"

definition gnode :: "graph \<Rightarrow> string \<Rightarrow> graphNode option" where
  "gnode g = map_of (gNodes g)"

definition empty_graph :: graph where
  "empty_graph = \<lparr>gNodes = [], gOrder = [], gStartID = '''', gDuplicates = []\<rparr>"

definition graph_of_node :: "schemaNode \<Rightarrow> graphNode" where
  "graph_of_node n = \<lparr>gnKind = ndKind n, gnQtype = ndQuestionType n, gnEdges = ndNext n\<rparr>"

fun parse_nodes :: "nat \<Rightarrow> schemaNode list \<Rightarrow> graph \<Rightarrow> graph" where
  "parse_nodes i [] g = g"
| "parse_nodes i (n # ns) g =
     (if ndID n = '''' then parse_nodes (Suc i) ns g
      else if gnode g (ndID n) \<noteq> None
      then parse_nodes (Suc i) ns (g\<lparr>gDuplicates := gDuplicates g @ [(ndID n, i)]\<rparr>)
      else parse_nodes (Suc i) ns
             (g\<lparr>gNodes := gNodes g @ [(ndID n, graph_of_node n)], gOrder := gOrder g @ [ndID n]\<rparr>))"

definition parseGraph :: "schemaDoc option \<Rightarrow> graph option" where
  "parseGraph raw = map_option (\<lambda>nodes. let g = parse_nodes 0 nodes empty_graph in g\<lparr>gOrder := sort (gOrder g)\<rparr>) raw"

definition nodePath :: "string \<Rightarrow> string" where
  "nodePath i = ''/nodes/'' @ i"

definition edge_path :: "string \<Rightarrow> nat \<Rightarrow> string \<Rightarrow> string" where
  "edge_path i k f = ''/nodes/'' @ i @ ''/next/'' @ nat_dec k @ ''/'' @ f"

text \<open>\<open>g.nodes[id]\<close> for identifiers of \<open>g.order\<close>: a missing entry would be a nil dereference.\<close>

definition node_of :: "graph \<Rightarrow> string \<Rightarrow> graphNode" where
  "node_of g i = (case gnode g i of Some n \<Rightarrow> n | None \<Rightarrow> \<lparr>gnKind = NodeKindOther '''', gnQtype = TypeNone, gnEdges = []\<rparr>)"

section \<open>The checks\<close>

definition checkStart :: "graph \<Rightarrow> Issue list \<times> graph" where
  "checkStart g =
     (let out = map (\<lambda>(i, idx). \<lparr>isCode = CodeGraphDuplicateNodeID, isPath = ''/nodes/'' @ nat_dec idx @ ''/id''\<rparr>) (gDuplicates g);
          starts = filter (\<lambda>i. gnKind (node_of g i) = NodeStart) (gOrder g)
      in case starts of
           [] \<Rightarrow> (out @ [\<lparr>isCode = CodeGraphNoStart, isPath = ''/nodes''\<rparr>], g)
         | [s] \<Rightarrow> (out, g\<lparr>gStartID := s\<rparr>)
         | _ \<Rightarrow> (out @ map (\<lambda>i. \<lparr>isCode = CodeGraphMultipleStarts, isPath = nodePath i\<rparr>) starts, g))"

definition checkDanglingEdges :: "graph \<Rightarrow> Issue list" where
  "checkDanglingEdges g = concat (map (\<lambda>i. concat (map (\<lambda>(k, e).
       if gnode g (seTo e) = None then [\<lparr>isCode = CodeGraphDanglingEdge, isPath = edge_path i k ''to''\<rparr>] else [])
     (enumerate 0 (gnEdges (node_of g i))))) (gOrder g))"

fun visit_edges :: "graph \<Rightarrow> schemaEdge list \<Rightarrow> string set \<times> string list \<Rightarrow> string set \<times> string list" where
  "visit_edges g [] s = s"
| "visit_edges g (e # es) (out, q) =
     (if gnode g (seTo e) = None then visit_edges g es (out, q)
      else if seTo e \<in> out then visit_edges g es (out, q)
      else visit_edges g es (insert (seTo e) out, q @ [seTo e]))"

definition unvisited :: "graph \<Rightarrow> string set \<Rightarrow> string set" where
  "unvisited g out = set (map fst (gNodes g)) - out"

lemma visit_edges_measure:
  "visit_edges g es (out, q) = (out', q') \<Longrightarrow>
   card (unvisited g out') + length q' = card (unvisited g out) + length q"
proof (induction es arbitrary: out q)
  case (Cons e es)
  show ?case
  proof (cases "gnode g (seTo e) = None \<or> seTo e \<in> out")
    case True
    with Cons show ?thesis by (auto split: if_splits)
  next
    case False
    then have m: "seTo e \<in> unvisited g out"
      by (auto simp: unvisited_def gnode_def map_of_eq_None_iff)
    have "unvisited g (insert (seTo e) out) = unvisited g out - {seTo e}" by (auto simp: unvisited_def)
    moreover have "finite (unvisited g out)" by (simp add: unvisited_def)
    ultimately have c: "card (unvisited g out) = Suc (card (unvisited g (insert (seTo e) out)))"
      using card.remove [OF _ m] by (simp only:)
    have "card (unvisited g out') + length q' = card (unvisited g (insert (seTo e) out)) + length (q @ [seTo e])"
      by (rule Cons.IH) (use Cons.prems False in \<open>auto split: if_splits\<close>)
    with c show ?thesis by simp
  qed
qed simp

function bfs_loop :: "graph \<Rightarrow> string set \<Rightarrow> string list \<Rightarrow> string set" where
  "bfs_loop g out [] = out"
| "bfs_loop g out (cur # q) =
     (case gnode g cur of
        None \<Rightarrow> bfs_loop g out q
      | Some n \<Rightarrow> (case visit_edges g (gnEdges n) (out, q) of (out', q') \<Rightarrow> bfs_loop g out' q'))"
  by pat_completeness auto
termination
  by (relation "measure (\<lambda>(g, out, q). card (unvisited g out) + length q)")
    (auto split: prod.splits dest!: visit_edges_measure)

definition bfs :: "graph \<Rightarrow> string \<Rightarrow> string set" where
  "bfs g start = bfs_loop g {start} [start]"

definition checkReachability :: "graph \<Rightarrow> Issue list" where
  "checkReachability g =
     (if gStartID g = '''' then [] else
      let visited = bfs g (gStartID g) in
      map (\<lambda>i. \<lparr>isCode = CodeGraphUnreachableNode, isPath = nodePath i\<rparr>) (filter (\<lambda>i. i \<notin> visited) (gOrder g)))"

definition is_end :: "NodeKind \<Rightarrow> bool" where
  "is_end k \<longleftrightarrow> k = NodeSuccessEnd \<or> k = NodeRefusalEnd"

definition end_visited :: "graph \<Rightarrow> string set \<Rightarrow> bool" where
  "end_visited g visited \<longleftrightarrow> (\<exists>i \<in> visited. is_end (gnKind (node_of g i)))"

definition checkEndsReachable :: "graph \<Rightarrow> Issue list" where
  "checkEndsReachable g =
     (if gStartID g = '''' then []
      else if end_visited g (bfs g (gStartID g)) then []
      else [\<lparr>isCode = CodeGraphNoEndReachable, isPath = ''/nodes''\<rparr>])"

definition inUnescapableCycle :: "graph \<Rightarrow> string \<Rightarrow> bool" where
  "inUnescapableCycle g nodeID =
     (let n = node_of g nodeID in
      if gnEdges n = [] then False
      else if is_end (gnKind n) then False
      else let visited = bfs g nodeID in
        if end_visited g visited then False
        else \<exists>d \<in> visited. d \<noteq> nodeID \<and> nodeID \<in> seTo ` set (gnEdges (node_of g d)))"

definition checkCyclesHaveExit :: "graph \<Rightarrow> Issue list" where
  "checkCyclesHaveExit g =
     (if gStartID g = '''' then [] else
      map (\<lambda>i. \<lparr>isCode = CodeGraphCycleNoExit, isPath = nodePath i\<rparr>) (filter (inUnescapableCycle g) (gOrder g)))"

text \<open>\<open>parses w\<close>: the evaluator accepts the expression \<open>w\<close>.\<close>

definition checkWhenExpressions :: "(string \<Rightarrow> bool) \<Rightarrow> graph \<Rightarrow> Issue list" where
  "checkWhenExpressions parses g = concat (map (\<lambda>i. concat (map (\<lambda>(k, e).
       if seWhen e = '''' \<or> parses (seWhen e) then [] else [\<lparr>isCode = CodeGraphBadWhen, isPath = edge_path i k ''when''\<rparr>])
     (enumerate 0 (gnEdges (node_of g i))))) (gOrder g))"

section \<open>Dominators\<close>

type_synonym doms = "string \<Rightarrow> string set"

definition initDominators :: "graph \<Rightarrow> doms" where
  "initDominators g i =
     (if i = gStartID g then {gStartID g} else if i \<in> set (gOrder g) then set (gOrder g) else {})"

definition buildPredecessors :: "graph \<Rightarrow> string \<Rightarrow> string list" where
  "buildPredecessors g b = concat (map (\<lambda>a. concat (map (\<lambda>e.
      if gnode g (seTo e) \<noteq> None \<and> seTo e = b then [a] else []) (gnEdges (node_of g a)))) (gOrder g))"

definition new_dom :: "doms \<Rightarrow> string \<Rightarrow> string list \<Rightarrow> string set" where
  "new_dom dm i preds =
     insert i (case preds of [] \<Rightarrow> {} | p # ps \<Rightarrow> foldl (\<lambda>acc p. acc \<inter> dm p) (dm p) ps)"

definition updateDominator :: "string \<Rightarrow> string list \<Rightarrow> doms \<Rightarrow> bool \<times> doms" where
  "updateDominator i preds dm =
     (let nd = new_dom dm i preds in if nd = dm i then (False, dm) else (True, dm(i := nd)))"

fun dom_pass :: "graph \<Rightarrow> string list \<Rightarrow> bool \<Rightarrow> doms \<Rightarrow> bool \<times> doms" where
  "dom_pass g [] changed dm = (changed, dm)"
| "dom_pass g (i # rest) changed dm =
     (if i = gStartID g then dom_pass g rest changed dm
      else case updateDominator i (buildPredecessors g i) dm of
        (c, dm') \<Rightarrow> dom_pass g rest (changed \<or> c) dm')"

partial_function (option) dom_loop :: "graph \<Rightarrow> doms \<Rightarrow> doms option" where
  "dom_loop g dm =
     (case dom_pass g (gOrder g) False dm of
        (changed, dm') \<Rightarrow> if changed then dom_loop g dm' else Some dm')"

definition computeDominators :: "graph \<Rightarrow> doms option" where
  "computeDominators g = dom_loop g (initDominators g)"

section \<open>References\<close>

text \<open>
  The regular expression \<open>\b(q[a-zA-Z0-9_-]*)\.(value|answered)\b\<close>, leftmost matches without
  overlap. The class does not contain the dot, so the run of class characters is the only
  candidate; \<open>prev\<close> is whether the preceding character is a word character.
\<close>

definition is_word :: "char \<Rightarrow> bool" where
  "is_word c \<longleftrightarrow> (let n = (of_char c :: nat) in
     48 \<le> n \<and> n \<le> 57 \<or> 65 \<le> n \<and> n \<le> 90 \<or> 97 \<le> n \<and> n \<le> 122 \<or> n = 95)"

definition is_idchar :: "char \<Rightarrow> bool" where
  "is_idchar c \<longleftrightarrow> is_word c \<or> c = CHR ''-''"

definition ends_word :: "string \<Rightarrow> bool" where
  "ends_word s \<longleftrightarrow> (case s of [] \<Rightarrow> True | c # _ \<Rightarrow> \<not> is_word c)"

definition match_prop :: "string \<Rightarrow> string option" where
  "match_prop s =
     (if HasPrefix s ''.value'' \<and> ends_word (drop 6 s) then Some (drop 6 s)
      else if HasPrefix s ''.answered'' \<and> ends_word (drop 9 s) then Some (drop 9 s) else None)"

lemma match_prop_length: "match_prop s = Some r \<Longrightarrow> length r < length s"
  by (cases s) (auto simp: match_prop_def HasPrefix_def split: if_splits)

function scan_refs :: "bool \<Rightarrow> string \<Rightarrow> string list" where
  "scan_refs prev [] = []"
| "scan_refs prev (c # s) =
     (case (if \<not> prev \<and> c = CHR ''q'' then match_prop (dropWhile is_idchar s) else None) of
        Some rest \<Rightarrow> (c # takeWhile is_idchar s) # scan_refs True rest
      | None \<Rightarrow> scan_refs (is_word c) s)"
  by pat_completeness auto
termination
proof (relation "measure (\<lambda>(_, s). length s)")
  fix prev c s rest
  assume "(if \<not> prev \<and> c = CHR ''q'' then match_prop (dropWhile is_idchar s) else None) = Some rest"
  then have "length rest < length (dropWhile is_idchar s)" by (auto split: if_splits dest: match_prop_length)
  also have "\<dots> \<le> length s" by (rule length_dropWhile_le)
  finally show "((True, rest), prev, c # s) \<in> measure (\<lambda>(_, s). length s)" by simp
qed auto

definition extractNodeRefs :: "string \<Rightarrow> string list" where
  "extractNodeRefs e = sorted_list_of_set (set (scan_refs False e))"

definition validateRef :: "graph \<Rightarrow> doms \<Rightarrow> string \<Rightarrow> nat \<Rightarrow> string \<Rightarrow> Issue list" where
  "validateRef g dm i k ref =
     (if ref = i then []
      else if gnode g ref = None then [\<lparr>isCode = CodeGraphBadNodeRef, isPath = edge_path i k ''when''\<rparr>]
      else if ref \<notin> dm i then [\<lparr>isCode = CodeGraphForwardRef, isPath = edge_path i k ''when''\<rparr>]
      else [])"

definition checkForwardReferences :: "graph \<Rightarrow> Issue list option" where
  "checkForwardReferences g =
     (if gStartID g = '''' then Some [] else
      map_option (\<lambda>dm. concat (map (\<lambda>i. concat (map (\<lambda>(k, e).
          if seWhen e = '''' then [] else concat (map (validateRef g dm i k) (extractNodeRefs (seWhen e))))
        (enumerate 0 (gnEdges (node_of g i))))) (gOrder g))) (computeDominators g))"

section \<open>The validator\<close>

text \<open>\<open>None\<close> would be a graph pass that does not return.\<close>

definition GraphValidator_Validate :: "(string \<Rightarrow> bool) \<Rightarrow> schemaDoc option \<Rightarrow> Issue list option" where
  "GraphValidator_Validate parses raw =
     (case parseGraph raw of
        None \<Rightarrow> Some [\<lparr>isCode = CodeJSONSchemaInvalid, isPath = ''/nodes''\<rparr>]
      | Some g0 \<Rightarrow>
        (case checkStart g0 of (starts, g) \<Rightarrow>
         map_option (\<lambda>refs. starts @ checkDanglingEdges g @ checkReachability g @ checkEndsReachable g @
             checkCyclesHaveExit g @ checkWhenExpressions parses g @ refs)
           (checkForwardReferences g)))"

record ValidationReport =
  vrValid :: bool
  vrIssues :: "Issue list"

text \<open>\<open>js\<close> is the JSON-Schema pass, \<open>unmarshal\<close> the decoder.\<close>

definition SchemaValidator_Validate ::
  "('b \<Rightarrow> Issue list) \<Rightarrow> ('b \<Rightarrow> schemaDoc option) \<Rightarrow> (string \<Rightarrow> bool) \<Rightarrow> 'b \<Rightarrow> ValidationReport option" where
  "SchemaValidator_Validate js unmarshal parses schemaJSON =
     (if js schemaJSON \<noteq> [] then Some \<lparr>vrValid = False, vrIssues = js schemaJSON\<rparr>
      else map_option (\<lambda>gs. if gs \<noteq> [] then \<lparr>vrValid = False, vrIssues = gs\<rparr> else \<lparr>vrValid = True, vrIssues = []\<rparr>)
             (GraphValidator_Validate parses (unmarshal schemaJSON)))"

end
