(* ===== verification/Survey_Graph_Laws.thy ===== *)
theory Survey_Graph_Laws
  imports Survey_Graph
begin

text \<open>
  What the algorithms of the graph pass compute: the parsed graph holds the first node of each
  identifier, breadth-first search yields the reachable nodes, and the dominator iteration
  returns and yields the nodes on every walk from the start.
\<close>

section \<open>Parsing\<close>

definition wf_graph :: "graph \<Rightarrow> bool" where
  "wf_graph g \<longleftrightarrow> distinct (gOrder g) \<and> set (gOrder g) = {i. gnode g i \<noteq> None} \<and> '''' \<notin> set (gOrder g)"

definition parse_inv :: "graph \<Rightarrow> bool" where
  "parse_inv g \<longleftrightarrow> gOrder g = map fst (gNodes g) \<and> distinct (gOrder g) \<and> '''' \<notin> set (gOrder g)"

lemma parse_inv_add:
  "parse_inv g \<Longrightarrow> i \<noteq> '''' \<Longrightarrow> gnode g i = None \<Longrightarrow> parse_inv (g\<lparr>gNodes := gNodes g @ [(i, n)], gOrder := gOrder g @ [i]\<rparr>)"
  by (auto simp: parse_inv_def gnode_def map_of_eq_None_iff)

lemma parse_inv_dup [simp]: "parse_inv (g\<lparr>gDuplicates := ds\<rparr>) = parse_inv g"
  by (simp add: parse_inv_def)

lemma parse_nodes_inv: "parse_inv g \<Longrightarrow> parse_inv (parse_nodes i ns g)"
  by (induction i ns g rule: parse_nodes.induct) (simp_all add: parse_inv_add)

lemma parse_nodes_start [simp]: "gStartID (parse_nodes i ns g) = gStartID g"
  by (induction i ns g rule: parse_nodes.induct) auto

lemma parse_nodes_gnode:
  "i \<noteq> '''' \<Longrightarrow> gnode (parse_nodes k ns g) i =
     (case gnode g i of Some n \<Rightarrow> Some n | None \<Rightarrow> map_option graph_of_node (findNode ns i))"
proof (induction k ns g rule: parse_nodes.induct)
  case (1 k g)
  then show ?case by (simp add: findNode_def split: option.split)
next
  case (2 k n ns g)
  show ?case
  proof (cases "ndID n = '''' \<or> gnode g (ndID n) \<noteq> None")
    case True
    then show ?thesis using 2 by (auto simp: findNode_def gnode_def split: option.splits)
  next
    case False
    then show ?thesis using 2 by (auto simp: findNode_def gnode_def map_add_def split: option.splits)
  qed
qed

lemma parse_nodes_duplicates:
  assumes "parse_inv g"
  shows "gDuplicates (parse_nodes k ns g) = [] \<longleftrightarrow> gDuplicates g = [] \<and>
     distinct (filter (\<lambda>i. i \<noteq> '''') (map ndID ns)) \<and> (\<forall>n \<in> set ns. ndID n \<noteq> '''' \<longrightarrow> gnode g (ndID n) = None)"
  using assms
proof (induction k ns g rule: parse_nodes.induct)
  case (2 k n ns g)
  define G where "G = g\<lparr>gNodes := gNodes g @ [(ndID n, graph_of_node n)], gOrder := gOrder g @ [ndID n]\<rparr>"
  show ?case
  proof (cases "ndID n = ''''")
    case True
    then show ?thesis using 2 by simp
  next
    case ne: False
    show ?thesis
    proof (cases "gnode g (ndID n) = None")
      case True
      then have "parse_inv G" unfolding G_def using 2(4) ne by (simp add: parse_inv_add)
      then have "gDuplicates (parse_nodes (Suc k) ns G) = [] \<longleftrightarrow> gDuplicates G = [] \<and>
         distinct (filter (\<lambda>i. i \<noteq> '''') (map ndID ns)) \<and> (\<forall>m \<in> set ns. ndID m \<noteq> '''' \<longrightarrow> gnode G (ndID m) = None)"
        using 2(3) ne True unfolding G_def by simp
      moreover have "gDuplicates G = gDuplicates g" unfolding G_def by simp
      moreover have "(\<forall>m \<in> set ns. ndID m \<noteq> '''' \<longrightarrow> gnode G (ndID m) = None) \<longleftrightarrow>
          (\<forall>m \<in> set ns. ndID m \<noteq> '''' \<longrightarrow> ndID m \<noteq> ndID n \<and> gnode g (ndID m) = None)"
        unfolding G_def by (auto simp: gnode_def map_of_eq_None_iff)
      moreover have "parse_nodes k (n # ns) g = parse_nodes (Suc k) ns G" unfolding G_def using ne True by simp
      moreover have "ndID n \<notin> set (filter (\<lambda>i. i \<noteq> '''') (map ndID ns)) \<longleftrightarrow> (\<forall>m \<in> set ns. ndID m \<noteq> '''' \<longrightarrow> ndID m \<noteq> ndID n)"
        using ne by (auto simp: image_iff dest: sym)
      moreover have "filter (\<lambda>i. i \<noteq> '''') (map ndID (n # ns)) = ndID n # filter (\<lambda>i. i \<noteq> '''') (map ndID ns)"
        using ne by simp
      ultimately show ?thesis using ne True by (metis (no_types, lifting) distinct.simps(2) list.set_intros set_ConsD)
    next
      case False
      let ?h = "g\<lparr>gDuplicates := gDuplicates g @ [(ndID n, k)]\<rparr>"
      have "parse_inv ?h" using 2(4) by simp
      then show ?thesis using 2(2) ne False by (auto simp: gnode_def)
    qed
  qed
qed simp

definition graph_of :: "schemaDoc \<Rightarrow> graph" where
  "graph_of doc = (let g = parse_nodes 0 doc empty_graph in g\<lparr>gOrder := sort (gOrder g)\<rparr>)"

lemma parseGraph_Some [simp]: "parseGraph (Some doc) = Some (graph_of doc)"
  by (simp add: parseGraph_def graph_of_def Let_def)

lemma parse_inv_empty: "parse_inv empty_graph"
  by (simp add: parse_inv_def empty_graph_def)

lemma graph_of_wf: "wf_graph (graph_of doc)"
proof -
  have "parse_inv (parse_nodes 0 doc empty_graph)" by (rule parse_nodes_inv [OF parse_inv_empty])
  then show ?thesis
    by (auto simp: wf_graph_def graph_of_def parse_inv_def gnode_def Let_def map_of_eq_None_iff)
qed

lemma graph_of_gnode: "i \<noteq> '''' \<Longrightarrow> gnode (graph_of doc) i = map_option graph_of_node (findNode doc i)"
  using parse_nodes_gnode [of i 0 doc empty_graph]
  by (simp add: graph_of_def gnode_def Let_def empty_graph_def)

lemma graph_of_start [simp]: "gStartID (graph_of doc) = ''''"
  by (simp add: graph_of_def Let_def empty_graph_def)

lemma graph_of_duplicates:
  "gDuplicates (graph_of doc) = [] \<longleftrightarrow> distinct (filter (\<lambda>i. i \<noteq> '''') (map ndID doc))"
  using parse_nodes_duplicates [OF parse_inv_empty, of 0 doc]
  by (simp add: graph_of_def Let_def empty_graph_def gnode_def)

section \<open>Reachability\<close>

definition gedge :: "graph \<Rightarrow> string \<Rightarrow> string \<Rightarrow> bool" where
  "gedge g a b \<longleftrightarrow> gnode g b \<noteq> None \<and> b \<in> seTo ` set (gnEdges (node_of g a))"

lemma node_of_Some: "gnode g a = Some n \<Longrightarrow> node_of g a = n"
  by (simp add: node_of_def)

lemma gedge_from: "gedge g a b \<Longrightarrow> gnode g a \<noteq> None"
  by (auto simp: gedge_def node_of_def split: option.splits)

lemma visit_edges_spec:
  "visit_edges g es (out, q) = (out', q') \<Longrightarrow>
   out' = out \<union> {b. gnode g b \<noteq> None \<and> b \<in> seTo ` set es} \<and> set q' = set q \<union> (out' - out)"
proof (induction es arbitrary: out q)
  case (Cons e es)
  show ?case
  proof (cases "gnode g (seTo e) = None \<or> seTo e \<in> out")
    case True
    then have "visit_edges g es (out, q) = (out', q')" using Cons.prems by (auto split: if_splits)
    from Cons.IH [OF this] True show ?thesis by auto
  next
    case False
    then have "visit_edges g es (insert (seTo e) out, q @ [seTo e]) = (out', q')"
      using Cons.prems by (auto split: if_splits)
    from Cons.IH [OF this] False show ?thesis by auto
  qed
qed simp

definition bfs_closed :: "graph \<Rightarrow> string set \<Rightarrow> string list \<Rightarrow> bool" where
  "bfs_closed g out q \<longleftrightarrow> set q \<subseteq> out \<and> (\<forall>a \<in> out - set q. \<forall>b. gedge g a b \<longrightarrow> b \<in> out)"

lemma bfs_loop_spec:
  assumes "bfs_closed g out q"
  shows "out \<subseteq> bfs_loop g out q \<and> bfs_closed g (bfs_loop g out q) [] \<and>
    (\<forall>b \<in> bfs_loop g out q. \<exists>a \<in> out. (gedge g)\<^sup>*\<^sup>* a b)"
  using assms
proof (induction g out q rule: bfs_loop.induct)
  case (1 g out)
  then show ?case by auto
next
  case (2 g out cur q)
  show ?case
  proof (cases "gnode g cur")
    case None
    then have no: "\<not> gedge g cur b" for b using gedge_from by fastforce
    have "bfs_closed g out q" using 2(3) no unfolding bfs_closed_def by auto
    with 2(1) None show ?thesis by simp
  next
    case (Some n)
    obtain out' q' where v: "visit_edges g (gnEdges n) (out, q) = (out', q')" by fastforce
    note spec = visit_edges_spec [OF v]
    have new: "b \<in> out' \<longleftrightarrow> b \<in> out \<or> gedge g cur b" for b
      using spec Some by (auto simp: gedge_def node_of_def)
    have "bfs_closed g out' q'" unfolding bfs_closed_def
    proof (intro conjI ballI allI impI)
      have "set q \<subseteq> out" using 2(3) by (simp add: bfs_closed_def)
      then show "set q' \<subseteq> out'" using spec by blast
      fix a b assume a: "a \<in> out' - set q'" and e: "gedge g a b"
      then have "a \<in> out" "a \<notin> set q" using spec by blast+
      show "b \<in> out'"
      proof (cases "a = cur")
        case True
        then show ?thesis using new e by simp
      next
        case False
        then have "b \<in> out" using \<open>a \<in> out\<close> \<open>a \<notin> set q\<close> 2(3) e unfolding bfs_closed_def by (metis DiffI set_ConsD)
        then show ?thesis using spec by blast
      qed
    qed
    from 2(2) [OF Some v [symmetric] this]
    have IH: "out' \<subseteq> bfs_loop g out' q'" "bfs_closed g (bfs_loop g out' q') []"
        "\<forall>b \<in> bfs_loop g out' q'. \<exists>a \<in> out'. (gedge g)\<^sup>*\<^sup>* a b" by blast+
    have "cur \<in> out" using 2(3) by (simp add: bfs_closed_def)
    have "\<exists>a \<in> out. (gedge g)\<^sup>*\<^sup>* a b" if b: "b \<in> bfs_loop g out' q'" for b
    proof -
      obtain a where a: "a \<in> out'" "(gedge g)\<^sup>*\<^sup>* a b" using IH(3) b by blast
      show ?thesis
      proof (cases "a \<in> out")
        case False
        then have "gedge g cur a" using a(1) new by blast
        then show ?thesis using \<open>cur \<in> out\<close> a(2) by (meson converse_rtranclp_into_rtranclp)
      qed (use a in blast)
    qed
    moreover have "out \<subseteq> bfs_loop g out' q'" using IH(1) new by blast
    ultimately show ?thesis using IH(2) Some v by simp
  qed
qed

theorem bfs_reachable: "bfs g s = {b. (gedge g)\<^sup>*\<^sup>* s b}"
proof -
  have "bfs_closed g {s} [s]" by (simp add: bfs_closed_def)
  note spec = bfs_loop_spec [OF this, folded bfs_def]
  have "b \<in> bfs g s" if "(gedge g)\<^sup>*\<^sup>* s b" for b
    using that by (induction rule: rtranclp_induct) (use spec in \<open>auto simp: bfs_closed_def\<close>)
  with spec show ?thesis by auto
qed

section \<open>Dominators\<close>

text \<open>A walk from \<open>s\<close> lists the nodes it visits, the last one included.\<close>

inductive walk :: "('a \<Rightarrow> 'a \<Rightarrow> bool) \<Rightarrow> 'a \<Rightarrow> 'a list \<Rightarrow> 'a \<Rightarrow> bool" for E s where
  here: "walk E s [s] s"
| step: "walk E s xs a \<Longrightarrow> E a b \<Longrightarrow> walk E s (xs @ [b]) b"

definition dominates :: "('a \<Rightarrow> 'a \<Rightarrow> bool) \<Rightarrow> 'a \<Rightarrow> 'a \<Rightarrow> 'a \<Rightarrow> bool" where
  "dominates E s d n \<longleftrightarrow> (\<forall>xs. walk E s xs n \<longrightarrow> d \<in> set xs)"

lemma walk_iff_reachable: "(\<exists>xs. walk E s xs n) \<longleftrightarrow> E\<^sup>*\<^sup>* s n"
proof
  show "\<exists>xs. walk E s xs n \<Longrightarrow> E\<^sup>*\<^sup>* s n"
    by (elim exE, erule walk.induct) (auto intro: rtranclp.rtrancl_into_rtrancl)
  show "E\<^sup>*\<^sup>* s n \<Longrightarrow> \<exists>xs. walk E s xs n"
    by (induction rule: rtranclp_induct) (blast intro: walk.intros)+
qed

lemma walk_last: "walk E s xs n \<Longrightarrow> n \<in> set xs"
  by (erule walk.cases) auto

lemma walk_reachable: "walk E s xs n \<Longrightarrow> x \<in> set xs \<Longrightarrow> E\<^sup>*\<^sup>* s x"
proof (induction rule: walk.induct)
  case (step xs a b)
  have "E\<^sup>*\<^sup>* s a" using step(1) unfolding walk_iff_reachable [symmetric] by (rule exI)
  then have "E\<^sup>*\<^sup>* s b" using step(2) by (rule rtranclp.rtrancl_into_rtrancl)
  then show ?case using step.prems step.IH by (cases "x = b") simp_all
qed simp

definition fstep :: "graph \<Rightarrow> doms \<Rightarrow> string \<Rightarrow> string set" where
  "fstep g dm i = new_dom dm i (buildPredecessors g i)"

lemma foldl_inter: "foldl (\<lambda>acc p. acc \<inter> dm p) A ps = A \<inter> (\<Inter>p \<in> set ps. dm p)"
  by (induction ps arbitrary: A) auto

lemma fstep_iff: "x \<in> fstep g dm i \<longleftrightarrow>
    x = i \<or> buildPredecessors g i \<noteq> [] \<and> (\<forall>p \<in> set (buildPredecessors g i). x \<in> dm p)"
  by (cases "buildPredecessors g i") (auto simp: fstep_def new_dom_def foldl_inter)

lemma set_preds:
  assumes "wf_graph g"
  shows "set (buildPredecessors g b) = {a. gedge g a b}"
proof -
  have "set (buildPredecessors g b) = {a \<in> set (gOrder g). gedge g a b}"
    by (auto simp: buildPredecessors_def gedge_def split: if_splits)
  then show ?thesis using assms gedge_from by (auto simp: wf_graph_def)
qed

lemma fstep_mono:
  assumes "\<And>i. dm' i \<subseteq> dm i"
  shows "fstep g dm' i \<subseteq> fstep g dm i"
proof
  fix x assume "x \<in> fstep g dm' i"
  then show "x \<in> fstep g dm i" using assms unfolding fstep_iff by blast
qed

text \<open>The sets only shrink, and each pass either changes nothing or makes the total smaller.\<close>

definition dom_inv :: "graph \<Rightarrow> doms \<Rightarrow> bool" where
  "dom_inv g dm \<longleftrightarrow> dm (gStartID g) = {gStartID g} \<and> (\<forall>i. dm i \<subseteq> set (gOrder g)) \<and>
     (\<forall>i \<in> set (gOrder g). i \<noteq> gStartID g \<longrightarrow> fstep g dm i \<subseteq> dm i)"

definition dom_size :: "graph \<Rightarrow> doms \<Rightarrow> nat" where
  "dom_size g dm = (\<Sum>i \<in> set (gOrder g). card (dm i))"

lemma update_step:
  assumes "dom_inv g dm" and "i \<in> set (gOrder g)" and "i \<noteq> gStartID g"
    and "fstep g dm i \<noteq> dm i"
  shows "dom_inv g (dm(i := fstep g dm i)) \<and> dom_size g (dm(i := fstep g dm i)) < dom_size g dm"
proof -
  let ?dm = "dm(i := fstep g dm i)"
  have sub: "fstep g dm i \<subseteq> dm i" using assms by (auto simp: dom_inv_def)
  then have le: "?dm j \<subseteq> dm j" for j by simp
  have "fstep g ?dm j \<subseteq> ?dm j" if "j \<in> set (gOrder g)" "j \<noteq> gStartID g" for j
  proof (cases "j = i")
    case True
    then show ?thesis using fstep_mono [of ?dm dm g j, OF le] by simp
  next
    case False
    have "fstep g dm j \<subseteq> dm j" using that assms(1) by (simp add: dom_inv_def)
    then show ?thesis using fstep_mono [of ?dm dm g j, OF le] False by auto
  qed
  moreover have "?dm j \<subseteq> set (gOrder g)" for j
    using le [of j] assms(1) unfolding dom_inv_def by blast
  ultimately have inv: "dom_inv g ?dm" using assms(1,3) unfolding dom_inv_def by simp
  have fin: "finite (dm i)" using assms(1) by (auto simp: dom_inv_def intro: finite_subset)
  have "card (fstep g dm i) < card (dm i)"
    using sub assms(4) by (intro psubset_card_mono [OF fin]) blast
  then have "dom_size g ?dm < dom_size g dm" unfolding dom_size_def
    by (intro sum_strict_mono_ex1) (use assms(2) in auto)
  with inv show ?thesis by blast
qed

lemma dom_pass_spec:
  assumes "dom_inv g dm" and "set rs \<subseteq> set (gOrder g)" and "dom_pass g rs changed dm = (c, dm')"
  shows "dom_inv g dm' \<and> dom_size g dm' \<le> dom_size g dm \<and> (changed \<longrightarrow> c) \<and>
    (c \<and> \<not> changed \<longrightarrow> dom_size g dm' < dom_size g dm) \<and>
    (\<not> c \<longrightarrow> dm' = dm \<and> (\<forall>i \<in> set rs. i \<noteq> gStartID g \<longrightarrow> fstep g dm i = dm i))"
  using assms
proof (induction rs arbitrary: changed dm)
  case (Cons i rest)
  show ?case
  proof (cases "i = gStartID g \<or> fstep g dm i = dm i")
    case True
    then have "dom_pass g rest changed dm = (c, dm')"
      using Cons.prems(3) by (auto simp: updateDominator_def fstep_def Let_def split: if_splits)
    from Cons.IH [OF Cons.prems(1) _ this] Cons.prems(2) True show ?thesis by auto
  next
    case False
    define D where "D = dm(i := fstep g dm i)"
    have D: "dom_inv g D" "dom_size g D < dom_size g dm"
      unfolding D_def using update_step [OF Cons.prems(1), of i] Cons.prems(2) False by auto
    have "dom_pass g rest True D = (c, dm')" unfolding D_def
      using Cons.prems(3) False by (auto simp: updateDominator_def fstep_def Let_def split: if_splits)
    from Cons.IH [OF D(1) _ this] Cons.prems(2) D(2) show ?thesis by auto
  qed
qed auto

text \<open>The iteration returns a fixed point of the step.\<close>

lemma dom_loop_returns:
  assumes Q: "\<And>dm c dm'. Q dm \<Longrightarrow> dom_pass g (gOrder g) False dm = (c, dm') \<Longrightarrow> Q dm'"
  shows "dom_inv g dm \<Longrightarrow> Q dm \<Longrightarrow> \<exists>dm'. dom_loop g dm = Some dm' \<and> dom_inv g dm' \<and> Q dm' \<and>
     (\<forall>i \<in> set (gOrder g). i \<noteq> gStartID g \<longrightarrow> fstep g dm' i = dm' i)"
proof (induction "dom_size g dm" arbitrary: dm rule: less_induct)
  case less
  obtain c dm' where p: "dom_pass g (gOrder g) False dm = (c, dm')" by fastforce
  note spec = dom_pass_spec [OF less.prems(1) subset_refl p]
  show ?case
  proof (cases c)
    case True
    then have "dom_size g dm' < dom_size g dm" "dom_inv g dm'" using spec by auto
    from less.hyps [OF this Q [OF less.prems(2) p]] show ?thesis using p True by (simp add: dom_loop.simps [of g dm])
  next
    case False
    then show ?thesis using spec p less.prems by (simp add: dom_loop.simps [of g dm])
  qed
qed

lemma initDominators_inv:
  assumes "gStartID g \<in> set (gOrder g)" "wf_graph g"
  shows "dom_inv g (initDominators g)"
proof -
  have "initDominators g i \<subseteq> set (gOrder g)" for i using assms by (auto simp: initDominators_def)
  moreover have "fstep g (initDominators g) i \<subseteq> set (gOrder g)" if "i \<in> set (gOrder g)" for i
  proof
    fix x assume x: "x \<in> fstep g (initDominators g) i"
    show "x \<in> set (gOrder g)"
    proof (cases "x = i")
      case False
      then obtain p where "x \<in> initDominators g p" using x unfolding fstep_iff by (metis list.set_intros(1) neq_Nil_conv)
      then show ?thesis using calculation by blast
    qed (use that in simp)
  qed
  ultimately show ?thesis by (auto simp: dom_inv_def initDominators_def)
qed

lemma dominates_pred:
  assumes "dominates E s d n" "d \<noteq> n" "E p n"
  shows "dominates E s d p"
  unfolding dominates_def
proof (intro allI impI)
  fix xs assume "walk E s xs p"
  then have "walk E s (xs @ [n]) n" using assms(3) by (rule walk.step)
  then show "d \<in> set xs" using assms(1,2) unfolding dominates_def by fastforce
qed

text \<open>Lower bound: a dominator is never removed while every node is reachable.\<close>

definition dom_keeps :: "graph \<Rightarrow> doms \<Rightarrow> bool" where
  "dom_keeps g dm \<longleftrightarrow> (\<forall>n d. n \<in> set (gOrder g) \<and> dominates (gedge g) (gStartID g) d n \<longrightarrow> d \<in> dm n)"

lemma fstep_keeps:
  assumes wf: "wf_graph g" and keeps: "dom_keeps g dm" and n: "n \<in> set (gOrder g)" "n \<noteq> gStartID g"
    and r: "(gedge g)\<^sup>*\<^sup>* (gStartID g) n" and d: "dominates (gedge g) (gStartID g) d n"
  shows "d \<in> fstep g dm n"
proof (cases "d = n")
  case False
  have "d \<in> dm p" if "gedge g p n" for p
    using dominates_pred [OF d False that] keeps gedge_from [OF that] wf unfolding dom_keeps_def wf_graph_def by blast
  moreover obtain p where "gedge g p n" using r n(2) by (metis rtranclp.cases)
  ultimately show ?thesis using set_preds [OF wf, of n] unfolding fstep_iff by (metis empty_iff empty_set mem_Collect_eq)
qed (simp add: fstep_iff)

lemma dom_pass_keeps:
  assumes wf: "wf_graph g" and all: "\<And>n. n \<in> set (gOrder g) \<Longrightarrow> (gedge g)\<^sup>*\<^sup>* (gStartID g) n"
    and "dom_keeps g dm" and "set rs \<subseteq> set (gOrder g)" and "dom_pass g rs changed dm = (c, dm')"
  shows "dom_keeps g dm'"
  using assms(3-)
proof (induction rs arbitrary: changed dm)
  case (Cons i rest)
  have "dom_keeps g (dm(i := fstep g dm i))" if "i \<noteq> gStartID g"
    using fstep_keeps [OF wf Cons.prems(1)] all Cons.prems that unfolding dom_keeps_def by auto
  with Cons show ?case
    by (auto simp: updateDominator_def fstep_def Let_def split: if_splits)
qed simp

lemma fixed_point_dominates:
  assumes wf: "wf_graph g" and start: "dm (gStartID g) = {gStartID g}"
    and fp: "\<And>i. i \<in> set (gOrder g) \<Longrightarrow> i \<noteq> gStartID g \<Longrightarrow> fstep g dm i = dm i"
    and "walk (gedge g) (gStartID g) xs n" and "d \<in> dm n"
  shows "d \<in> set xs"
  using assms(4,5)
proof (induction rule: walk.induct)
  case here
  then show ?case using start by simp
next
  case (step xs a b)
  show ?case
  proof (cases "b = gStartID g")
    case True
    then show ?thesis using step.prems start by simp
  next
    case False
    have "b \<in> set (gOrder g)" using step.hyps(2) wf by (simp add: gedge_def wf_graph_def)
    then have "d \<in> fstep g dm b" using fp False step.prems by blast
    moreover have "a \<in> set (buildPredecessors g b)" using set_preds [OF wf] step.hyps(2) by simp
    ultimately have "d = b \<or> d \<in> dm a" unfolding fstep_iff by blast
    then show ?thesis using step.IH by auto
  qed
qed

lemma computeDominators_returns:
  assumes wf: "wf_graph g" and s: "gStartID g \<in> set (gOrder g)"
  shows "\<exists>dm. computeDominators g = Some dm"
  using dom_loop_returns [of "\<lambda>_. True" g, OF _ initDominators_inv [OF s wf]]
  by (auto simp: computeDominators_def)

lemma computeDominators_exact:
  assumes wf: "wf_graph g" and s: "gStartID g \<in> set (gOrder g)"
    and all: "\<And>n. n \<in> set (gOrder g) \<Longrightarrow> (gedge g)\<^sup>*\<^sup>* (gStartID g) n"
  shows "\<exists>dm. computeDominators g = Some dm \<and>
    (\<forall>n \<in> set (gOrder g). dm n = {d. dominates (gedge g) (gStartID g) d n})"
proof -
  have on: "d \<in> set (gOrder g)" if dn: "dominates (gedge g) (gStartID g) d n" and n: "n \<in> set (gOrder g)" for d n
  proof -
    obtain xs where xs: "walk (gedge g) (gStartID g) xs n" using all [OF n] unfolding walk_iff_reachable [symmetric] by blast
    moreover have "d \<in> set xs" using dn xs by (simp add: dominates_def)
    ultimately have "(gedge g)\<^sup>*\<^sup>* (gStartID g) d" by (rule walk_reachable)
    then show ?thesis using s wf
      by (cases rule: rtranclp.cases) (auto simp: gedge_def wf_graph_def)
  qed
  have "dom_keeps g (initDominators g)" unfolding dom_keeps_def
  proof (intro allI impI)
    fix n d assume nd: "n \<in> set (gOrder g) \<and> dominates (gedge g) (gStartID g) d n"
    show "d \<in> initDominators g n"
    proof (cases "n = gStartID g")
      case True
      then have "d \<in> set [gStartID g]" using nd walk.here [of "gedge g" "gStartID g"] unfolding dominates_def by blast
      then show ?thesis using True by (simp add: initDominators_def)
    qed (use nd on in \<open>auto simp: initDominators_def\<close>)
  qed
  moreover have "dom_keeps g dm'" if "dom_keeps g dm" "dom_pass g (gOrder g) False dm = (c, dm')" for dm c dm'
    by (rule dom_pass_keeps [OF wf all that(1) subset_refl that(2)])
  ultimately obtain dm where dm: "computeDominators g = Some dm" "dom_inv g dm" "dom_keeps g dm"
      "\<forall>i \<in> set (gOrder g). i \<noteq> gStartID g \<longrightarrow> fstep g dm i = dm i"
    using dom_loop_returns [of "dom_keeps g" g, OF _ initDominators_inv [OF s wf]]
    unfolding computeDominators_def by blast
  have "d \<in> dm n \<longleftrightarrow> dominates (gedge g) (gStartID g) d n" if "n \<in> set (gOrder g)" for n d
  proof
    show "dominates (gedge g) (gStartID g) d n \<Longrightarrow> d \<in> dm n" using dm(3) that unfolding dom_keeps_def by blast
    have start: "dm (gStartID g) = {gStartID g}" using dm(2) by (simp add: dom_inv_def)
    show "d \<in> dm n \<Longrightarrow> dominates (gedge g) (gStartID g) d n" unfolding dominates_def
      by (intro allI impI, rule fixed_point_dominates [where dm = dm, OF wf start]) (use dm(4) in auto)
  qed
  then show ?thesis using dm(1) by blast
qed

end
