(* ===== verification/Survey_Validity.thy ===== *)
theory Survey_Validity
  imports Survey_Graph_Laws
begin

text \<open>
  The contract of the graph pass. \<open>valid_survey\<close> says, in terms of the document and of walks
  through it, which surveys the pass accepts; the pass always returns, and it reports no issue
  exactly on these. What acceptance buys (and what it does not) follows.
\<close>

section \<open>The specification\<close>

text \<open>\<open>links doc a b\<close>: the document has nodes \<open>a\<close> and \<open>b\<close> and an edge from \<open>a\<close> to \<open>b\<close>.\<close>

definition links :: "schemaDoc \<Rightarrow> string \<Rightarrow> string \<Rightarrow> bool" where
  "links doc a b \<longleftrightarrow> (\<exists>n \<in> set doc. \<exists>m \<in> set doc. ndID n = a \<and> ndID m = b \<and> b \<in> seTo ` set (ndNext n))"

definition is_node :: "schemaDoc \<Rightarrow> string \<Rightarrow> bool" where
  "is_node doc i \<longleftrightarrow> i \<in> ndID ` set doc"

text \<open>The start of a document with exactly one start node.\<close>

definition starts_at :: "schemaDoc \<Rightarrow> string \<Rightarrow> bool" where
  "starts_at doc s \<longleftrightarrow> (\<forall>n \<in> set doc. ndKind n = NodeStart \<longleftrightarrow> ndID n = s) \<and> is_node doc s"

text \<open>Some terminal node can be reached from \<open>i\<close>.\<close>

definition can_finish :: "schemaDoc \<Rightarrow> string \<Rightarrow> bool" where
  "can_finish doc i \<longleftrightarrow> (\<exists>n \<in> set doc. is_end (ndKind n) \<and> (links doc)\<^sup>*\<^sup>* i (ndID n))"

text \<open>\<open>i\<close> lies on a cycle through another node.\<close>

definition on_long_cycle :: "schemaDoc \<Rightarrow> string \<Rightarrow> bool" where
  "on_long_cycle doc i \<longleftrightarrow> (\<exists>d. d \<noteq> i \<and> (links doc)\<^sup>*\<^sup>* i d \<and> links doc d i)"

definition when_ok :: "(string \<Rightarrow> bool) \<Rightarrow> schemaDoc \<Rightarrow> string \<Rightarrow> schemaNode \<Rightarrow> schemaEdge \<Rightarrow> bool" where
  "when_ok parses doc s n e \<longleftrightarrow> seWhen e = '''' \<or> parses (seWhen e) \<and>
     (\<forall>r \<in> set (extractNodeRefs (seWhen e)). r = ndID n \<or> is_node doc r \<and> dominates (links doc) s r (ndID n))"

definition valid_survey :: "(string \<Rightarrow> bool) \<Rightarrow> schemaDoc \<Rightarrow> string \<Rightarrow> bool" where
  "valid_survey parses doc s \<longleftrightarrow>
     distinct (map ndID doc) \<and> starts_at doc s \<and>
     (\<forall>n \<in> set doc. \<forall>e \<in> set (ndNext n). is_node doc (seTo e)) \<and>
     (\<forall>n \<in> set doc. (links doc)\<^sup>*\<^sup>* s (ndID n)) \<and>
     can_finish doc s \<and>
     (\<forall>n \<in> set doc. on_long_cycle doc (ndID n) \<longrightarrow> can_finish doc (ndID n)) \<and>
     (\<forall>n \<in> set doc. \<forall>e \<in> set (ndNext n). when_ok parses doc s n e)"

section \<open>From the graph to the document\<close>

definition ids_ok :: "schemaDoc \<Rightarrow> bool" where
  "ids_ok doc \<longleftrightarrow> (\<forall>n \<in> set doc. ndID n \<noteq> '''')"

lemma findNode_None_iff: "findNode doc i = None \<longleftrightarrow> \<not> is_node doc i"
  by (auto simp: findNode_def find_None_iff is_node_def)

lemma findNode_Some: "findNode doc i = Some n \<Longrightarrow> n \<in> set doc \<and> ndID n = i"
  by (auto simp: findNode_def find_Some_iff)

lemma findNode_distinct:
  assumes "distinct (map ndID doc)" "n \<in> set doc"
  shows "findNode doc (ndID n) = Some n"
proof -
  obtain m where m: "findNode doc (ndID n) = Some m"
    using assms(2) findNode_None_iff [of doc "ndID n"] by (auto simp: is_node_def)
  then have "m \<in> set doc" "ndID m = ndID n" using findNode_Some by blast+
  then have "m = n" using assms by (auto simp: distinct_map inj_on_def)
  with m show ?thesis by simp
qed

lemma gnode_start [simp]: "gnode (g\<lparr>gStartID := s\<rparr>) = gnode g"
  by (simp add: gnode_def)

lemma node_of_start [simp]: "node_of (g\<lparr>gStartID := s\<rparr>) = node_of g"
  by (rule ext) (simp add: node_of_def)

lemma gedge_start [simp]: "gedge (g\<lparr>gStartID := s\<rparr>) = gedge g"
  by (intro ext) (simp add: gedge_def)

lemma wf_graph_start [simp]: "wf_graph (g\<lparr>gStartID := s\<rparr>) = wf_graph g"
  by (simp add: wf_graph_def)

lemma gnode_doc:
  assumes "ids_ok doc"
  shows "gnode (graph_of doc) i = map_option graph_of_node (findNode doc i)"
proof (cases "i = ''''")
  case True
  have "gnode (graph_of doc) '''' = None"
    using graph_of_wf [of doc] unfolding wf_graph_def by blast
  moreover have "findNode doc '''' = None" using assms by (auto simp: findNode_None_iff is_node_def ids_ok_def)
  ultimately show ?thesis using True by simp
qed (rule graph_of_gnode)

lemma gOrder_doc:
  assumes "ids_ok doc"
  shows "set (gOrder (graph_of doc)) = ndID ` set doc"
  using graph_of_wf [of doc] unfolding wf_graph_def
  by (auto simp: gnode_doc [OF assms] findNode_None_iff is_node_def dest: findNode_Some)

lemma node_of_doc:
  assumes "ids_ok doc" "distinct (map ndID doc)" "n \<in> set doc"
  shows "node_of (graph_of doc) (ndID n) = graph_of_node n"
  using assms by (simp add: node_of_def gnode_doc findNode_distinct)

lemma gedge_doc:
  assumes "ids_ok doc" "distinct (map ndID doc)"
  shows "gedge (graph_of doc) = links doc"
proof (intro ext iffI)
  fix a b
  assume e: "gedge (graph_of doc) a b"
  then have "gnode (graph_of doc) a \<noteq> None" by (rule gedge_from)
  then obtain n where n: "findNode doc a = Some n" by (auto simp: gnode_doc [OF assms(1)])
  with findNode_Some have "n \<in> set doc" "ndID n = a" by blast+
  moreover have "b \<in> seTo ` set (ndNext n)" "is_node doc b"
    using e n findNode_None_iff [of doc b] by (auto simp: gedge_def node_of_def gnode_doc [OF assms(1)] graph_of_node_def)
  ultimately show "links doc a b" unfolding links_def is_node_def by (metis imageE)
next
  fix a b
  assume "links doc a b"
  then obtain n m where "n \<in> set doc" "m \<in> set doc" "ndID n = a" "ndID m = b" "b \<in> seTo ` set (ndNext n)"
    unfolding links_def by blast
  then show "gedge (graph_of doc) a b"
    using node_of_doc [OF assms] findNode_distinct [OF assms(2), of m] assms(1)
    by (auto simp: gedge_def gnode_doc graph_of_node_def)
qed

section \<open>The checks, one by one\<close>

lemma enumerate_ball: "(\<forall>x \<in> set (enumerate k xs). P (snd x)) \<longleftrightarrow> (\<forall>e \<in> set xs. P e)"
proof -
  have "set xs = snd ` set (enumerate k xs)" by (metis list.set_map map_snd_enumerate)
  then show ?thesis by simp
qed

lemma concat_map_Nil: "concat (map f xs) = [] \<longleftrightarrow> (\<forall>x \<in> set xs. f x = [])"
  by auto

text \<open>A report over nodes and their edges is empty when no edge contributes.\<close>

lemma edge_report_Nil:
  assumes "\<And>i k e. f i (k, e) = [] \<longleftrightarrow> P i e"
  shows "concat (map (\<lambda>i. concat (map (f i) (enumerate 0 (E i)))) ids) = [] \<longleftrightarrow> (\<forall>i \<in> set ids. \<forall>e \<in> set (E i). P i e)"
proof -
  have "f i x = [] \<longleftrightarrow> P i (snd x)" for i x using assms [of i "fst x" "snd x"] by simp
  then show ?thesis by (simp only: concat_map_Nil enumerate_ball)
qed

lemma checkDanglingEdges_Nil:
  "checkDanglingEdges g = [] \<longleftrightarrow> (\<forall>i \<in> set (gOrder g). \<forall>e \<in> set (gnEdges (node_of g i)). gnode g (seTo e) \<noteq> None)"
  unfolding checkDanglingEdges_def by (rule edge_report_Nil) simp

lemma checkWhenExpressions_Nil:
  "checkWhenExpressions parses g = [] \<longleftrightarrow>
     (\<forall>i \<in> set (gOrder g). \<forall>e \<in> set (gnEdges (node_of g i)). seWhen e = '''' \<or> parses (seWhen e))"
  unfolding checkWhenExpressions_def by (rule edge_report_Nil) simp

lemma validateRef_Nil: "validateRef g dm i k r = [] \<longleftrightarrow> r = i \<or> gnode g r \<noteq> None \<and> r \<in> dm i"
  by (auto simp: validateRef_def)

lemma checkForwardReferences_Nil:
  assumes "computeDominators g = Some dm" "gStartID g \<noteq> ''''"
  shows "checkForwardReferences g = Some [] \<longleftrightarrow>
     (\<forall>i \<in> set (gOrder g). \<forall>e \<in> set (gnEdges (node_of g i)). seWhen e = '''' \<or>
        (\<forall>r \<in> set (extractNodeRefs (seWhen e)). r = i \<or> gnode g r \<noteq> None \<and> r \<in> dm i))"
proof -
  let ?P = "\<lambda>i e. seWhen e = '''' \<or> (\<forall>r \<in> set (extractNodeRefs (seWhen e)). r = i \<or> gnode g r \<noteq> None \<and> r \<in> dm i)"
  have "concat (map (\<lambda>i. concat (map (\<lambda>(k, e).
          if seWhen e = '''' then [] else concat (map (validateRef g dm i k) (extractNodeRefs (seWhen e))))
        (enumerate 0 (gnEdges (node_of g i))))) (gOrder g)) = [] \<longleftrightarrow>
      (\<forall>i \<in> set (gOrder g). \<forall>e \<in> set (gnEdges (node_of g i)). ?P i e)"
    by (rule edge_report_Nil) (simp add: concat_map_Nil validateRef_Nil)
  then show ?thesis using assms by (simp add: checkForwardReferences_def)
qed

lemma checkForwardReferences_returns:
  assumes "wf_graph g" "gStartID g = '''' \<or> gStartID g \<in> set (gOrder g)"
  shows "\<exists>is. checkForwardReferences g = Some is"
  using assms computeDominators_returns [of g] by (cases "gStartID g = ''''") (auto simp: checkForwardReferences_def)

lemma checkReachability_Nil:
  "gStartID g \<noteq> '''' \<Longrightarrow> checkReachability g = [] \<longleftrightarrow> (\<forall>i \<in> set (gOrder g). (gedge g)\<^sup>*\<^sup>* (gStartID g) i)"
  by (auto simp: checkReachability_def bfs_reachable filter_empty_conv Let_def)

lemma end_visited_iff: "end_visited g (bfs g i) \<longleftrightarrow> (\<exists>j. (gedge g)\<^sup>*\<^sup>* i j \<and> is_end (gnKind (node_of g j)))"
  by (auto simp: end_visited_def bfs_reachable)

lemma checkEndsReachable_Nil:
  "gStartID g \<noteq> '''' \<Longrightarrow> checkEndsReachable g = [] \<longleftrightarrow> (\<exists>j. (gedge g)\<^sup>*\<^sup>* (gStartID g) j \<and> is_end (gnKind (node_of g j)))"
  by (simp add: checkEndsReachable_def end_visited_iff)

lemma inUnescapableCycle_iff:
  assumes "gnode g i \<noteq> None"
  shows "inUnescapableCycle g i \<longleftrightarrow> (\<exists>d. d \<noteq> i \<and> (gedge g)\<^sup>*\<^sup>* i d \<and> gedge g d i) \<and>
     \<not> (\<exists>j. (gedge g)\<^sup>*\<^sup>* i j \<and> is_end (gnKind (node_of g j)))"
proof -
  have "gnEdges (node_of g i) \<noteq> []" if ne: "d \<noteq> i" and r: "(gedge g)\<^sup>*\<^sup>* i d" for d
  proof -
    from r ne obtain b where "gedge g i b" by (auto elim: converse_rtranclpE)
    then show ?thesis by (auto simp: gedge_def)
  qed
  moreover have "inUnescapableCycle g i \<longleftrightarrow> gnEdges (node_of g i) \<noteq> [] \<and> \<not> is_end (gnKind (node_of g i)) \<and>
      \<not> end_visited g (bfs g i) \<and> (\<exists>d \<in> bfs g i. d \<noteq> i \<and> i \<in> seTo ` set (gnEdges (node_of g d)))"
    by (simp add: inUnescapableCycle_def Let_def)
  moreover have "gedge g d i \<longleftrightarrow> i \<in> seTo ` set (gnEdges (node_of g d))" for d using assms by (simp add: gedge_def)
  moreover have "(gedge g)\<^sup>*\<^sup>* i i" by simp
  ultimately show ?thesis unfolding end_visited_iff unfolding bfs_reachable mem_Collect_eq Bex_def by blast
qed

lemma checkCyclesHaveExit_Nil:
  "gStartID g \<noteq> '''' \<Longrightarrow> checkCyclesHaveExit g = [] \<longleftrightarrow> (\<forall>i \<in> set (gOrder g). \<not> inUnescapableCycle g i)"
  by (auto simp: checkCyclesHaveExit_def filter_empty_conv)

section \<open>The pass as a whole\<close>

lemma distinct_singleton_iff:
  assumes "distinct xs"
  shows "xs = [s] \<longleftrightarrow> set xs = {s}"
proof
  assume s: "set xs = {s}"
  then have "length xs = 1" using distinct_card [OF assms] by simp
  then obtain a where "xs = [a]" by (auto simp: length_Suc_conv)
  then show "xs = [s]" using s by simp
qed simp

lemma starts_singleton:
  assumes "ids_ok doc" "distinct (map ndID doc)"
  shows "filter (\<lambda>i. gnKind (node_of (graph_of doc) i) = NodeStart) (gOrder (graph_of doc)) = [s] \<longleftrightarrow> starts_at doc s"
    (is "?F = [s] \<longleftrightarrow> _")
proof -
  have "distinct ?F" using graph_of_wf [of doc] by (simp add: wf_graph_def)
  then have "?F = [s] \<longleftrightarrow> set ?F = {s}" by (rule distinct_singleton_iff)
  also have "set ?F = {i. \<exists>n \<in> set doc. ndID n = i \<and> ndKind n = NodeStart}"
    using assms by (auto simp: gOrder_doc node_of_doc graph_of_node_def)
  also have "\<dots> = {s} \<longleftrightarrow> starts_at doc s"
  proof
    assume *: "{i. \<exists>n \<in> set doc. ndID n = i \<and> ndKind n = NodeStart} = {s}"
    then obtain m where m: "m \<in> set doc" "ndID m = s" "ndKind m = NodeStart" by blast
    have "ndKind n = NodeStart" if "n \<in> set doc" "ndID n = s" for n
      using m that assms(2) by (metis distinct_map inj_onD)
    then show "starts_at doc s" using * m unfolding starts_at_def is_node_def by blast
  next
    assume "starts_at doc s"
    then show "{i. \<exists>n \<in> set doc. ndID n = i \<and> ndKind n = NodeStart} = {s}"
      unfolding starts_at_def is_node_def by blast
  qed
  finally show ?thesis .
qed

lemma ids_distinct: "ids_ok doc \<Longrightarrow> filter (\<lambda>i. i \<noteq> '''') (map ndID doc) = map ndID doc"
  by (simp add: ids_ok_def filter_True)

lemma checkStart_graph:
  "checkStart g = (is, g') \<Longrightarrow> g' = g \<or> (\<exists>s. g' = g\<lparr>gStartID := s\<rparr> \<and> s \<in> set (gOrder g))"
  by (auto simp: checkStart_def Let_def split: list.splits)
    (metis (mono_tags, lifting) filter_eq_ConsD in_set_conv_decomp)

lemma checkStart_Nil:
  assumes "ids_ok doc"
  shows "(\<exists>g. checkStart (graph_of doc) = ([], g)) \<longleftrightarrow> distinct (map ndID doc) \<and> (\<exists>s. starts_at doc s)"
proof -
  let ?F = "filter (\<lambda>i. gnKind (node_of (graph_of doc) i) = NodeStart) (gOrder (graph_of doc))"
  have d: "gDuplicates (graph_of doc) = [] \<longleftrightarrow> distinct (map ndID doc)"
    using graph_of_duplicates [of doc] ids_distinct [OF assms] by simp
  have "(\<exists>g. checkStart (graph_of doc) = ([], g)) \<longleftrightarrow> gDuplicates (graph_of doc) = [] \<and> (\<exists>s. ?F = [s])"
    by (auto simp: checkStart_def Let_def split: list.splits)
  then show ?thesis using d starts_singleton [OF assms] by blast
qed

lemma checkStart_valid:
  assumes "ids_ok doc" "distinct (map ndID doc)" "starts_at doc s"
  shows "checkStart (graph_of doc) = ([], (graph_of doc)\<lparr>gStartID := s\<rparr>)"
proof -
  have "gDuplicates (graph_of doc) = []"
    using graph_of_duplicates [of doc] ids_distinct [OF assms(1)] assms(2) by simp
  then show ?thesis using starts_singleton [OF assms(1,2), of s] assms(3) by (simp add: checkStart_def Let_def)
qed

lemma graph_ball:
  assumes "ids_ok doc" "distinct (map ndID doc)"
  shows "(\<forall>i \<in> set (gOrder (graph_of doc)). P i (node_of (graph_of doc) i)) \<longleftrightarrow> (\<forall>n \<in> set doc. P (ndID n) (graph_of_node n))"
  using assms by (simp add: gOrder_doc node_of_doc)

lemma gnode_is_node: "ids_ok doc \<Longrightarrow> gnode (graph_of doc) i \<noteq> None \<longleftrightarrow> is_node doc i"
  using findNode_None_iff [of doc i] by (simp add: gnode_doc)

lemma links_nodes: "links doc a b \<Longrightarrow> is_node doc a \<and> is_node doc b"
  unfolding links_def is_node_def by blast

lemma links_node: "(links doc)\<^sup>*\<^sup>* i j \<Longrightarrow> is_node doc i \<Longrightarrow> is_node doc j"
  by (induction rule: rtranclp_induct) (auto dest: links_nodes)

lemma can_finish_graph:
  assumes "ids_ok doc" "distinct (map ndID doc)" "is_node doc i"
  shows "(\<exists>j. (links doc)\<^sup>*\<^sup>* i j \<and> is_end (gnKind (node_of (graph_of doc) j))) \<longleftrightarrow> can_finish doc i"
proof
  assume "\<exists>j. (links doc)\<^sup>*\<^sup>* i j \<and> is_end (gnKind (node_of (graph_of doc) j))"
  then obtain j where j: "(links doc)\<^sup>*\<^sup>* i j" "is_end (gnKind (node_of (graph_of doc) j))" by blast
  then obtain n where "n \<in> set doc" "ndID n = j" using links_node [OF j(1) assms(3)] by (auto simp: is_node_def)
  then show "can_finish doc i" using j node_of_doc [OF assms(1,2)] by (auto simp: can_finish_def graph_of_node_def)
next
  assume "can_finish doc i"
  then show "\<exists>j. (links doc)\<^sup>*\<^sup>* i j \<and> is_end (gnKind (node_of (graph_of doc) j))"
    using node_of_doc [OF assms(1,2)] by (force simp: can_finish_def graph_of_node_def)
qed

lemma graph_checks_valid:
  assumes doc: "ids_ok doc" "distinct (map ndID doc)" and s: "starts_at doc s"
  defines "g \<equiv> (graph_of doc)\<lparr>gStartID := s\<rparr>"
  shows "(checkDanglingEdges g = [] \<and> checkReachability g = [] \<and> checkEndsReachable g = [] \<and> checkCyclesHaveExit g = [] \<and>
      checkWhenExpressions parses g = [] \<and> checkForwardReferences g = Some []) \<longleftrightarrow> valid_survey parses doc s"
proof -
  have sn: "is_node doc s" and sne: "s \<noteq> ''''" using s doc(1) by (auto simp: starts_at_def is_node_def ids_ok_def)
  have gs [simp]: "gStartID g = s" "gOrder g = gOrder (graph_of doc)" "gnode g = gnode (graph_of doc)"
      "node_of g = node_of (graph_of doc)" "gedge g = links doc"
    by (simp_all add: g_def gedge_doc [OF doc])
  have wf: "wf_graph g" unfolding g_def by (simp add: graph_of_wf)
  have so: "s \<in> set (gOrder g)" using sn by (simp add: gOrder_doc [OF doc(1)] is_node_def)
  note ball = graph_ball [OF doc] and node = gnode_is_node [OF doc(1)]
  have dang: "checkDanglingEdges g = [] \<longleftrightarrow> (\<forall>n \<in> set doc. \<forall>e \<in> set (ndNext n). is_node doc (seTo e))"
    unfolding checkDanglingEdges_Nil gs node by (simp add: ball [of "\<lambda>_ n. \<forall>e \<in> set (gnEdges n). is_node doc (seTo e)"] graph_of_node_def)
  have reach: "checkReachability g = [] \<longleftrightarrow> (\<forall>n \<in> set doc. (links doc)\<^sup>*\<^sup>* s (ndID n))"
    using checkReachability_Nil [of g] sne by (simp add: gOrder_doc [OF doc(1)])
  have ends: "checkEndsReachable g = [] \<longleftrightarrow> can_finish doc s"
    using checkEndsReachable_Nil [of g] sne can_finish_graph [OF doc sn] by simp
  have cyc: "checkCyclesHaveExit g = [] \<longleftrightarrow> (\<forall>n \<in> set doc. on_long_cycle doc (ndID n) \<longrightarrow> can_finish doc (ndID n))"
  proof -
    have "inUnescapableCycle g (ndID n) \<longleftrightarrow> on_long_cycle doc (ndID n) \<and> \<not> can_finish doc (ndID n)" if "n \<in> set doc" for n
    proof -
      have n: "is_node doc (ndID n)" using that by (simp add: is_node_def)
      then show ?thesis
        using inUnescapableCycle_iff [of g "ndID n"] node [of "ndID n"] can_finish_graph [OF doc n] by (simp add: on_long_cycle_def)
    qed
    then show ?thesis using checkCyclesHaveExit_Nil [of g] sne by (auto simp: gOrder_doc [OF doc(1)])
  qed
  have whens: "checkWhenExpressions parses g = [] \<longleftrightarrow> (\<forall>n \<in> set doc. \<forall>e \<in> set (ndNext n). seWhen e = '''' \<or> parses (seWhen e))"
    unfolding checkWhenExpressions_Nil gs by (simp add: ball [of "\<lambda>_ n. \<forall>e \<in> set (gnEdges n). seWhen e = '''' \<or> parses (seWhen e)"] graph_of_node_def)
  have refs: "checkForwardReferences g = Some [] \<longleftrightarrow> (\<forall>n \<in> set doc. \<forall>e \<in> set (ndNext n). seWhen e = '''' \<or>
      (\<forall>r \<in> set (extractNodeRefs (seWhen e)). r = ndID n \<or> is_node doc r \<and> dominates (links doc) s r (ndID n)))"
    if "\<forall>n \<in> set doc. (links doc)\<^sup>*\<^sup>* s (ndID n)"
  proof -
    have "(gedge g)\<^sup>*\<^sup>* (gStartID g) n" if "n \<in> set (gOrder g)" for n
      using that \<open>\<forall>n \<in> set doc. (links doc)\<^sup>*\<^sup>* s (ndID n)\<close> by (auto simp: gOrder_doc [OF doc(1)])
    then obtain dm where dm: "computeDominators g = Some dm" "\<forall>n \<in> set (gOrder g). dm n = {d. dominates (links doc) s d n}"
      using computeDominators_exact [OF wf] so by auto
    have "checkForwardReferences g = Some [] \<longleftrightarrow> (\<forall>i \<in> set (gOrder (graph_of doc)). \<forall>e \<in> set (gnEdges (node_of (graph_of doc) i)).
        seWhen e = '''' \<or> (\<forall>r \<in> set (extractNodeRefs (seWhen e)). r = i \<or> is_node doc r \<and> dominates (links doc) s r i))"
      using checkForwardReferences_Nil [OF dm(1)] sne dm(2) node by simp
    also have "\<dots> \<longleftrightarrow> (\<forall>n \<in> set doc. \<forall>e \<in> set (gnEdges (graph_of_node n)).
        seWhen e = '''' \<or> (\<forall>r \<in> set (extractNodeRefs (seWhen e)). r = ndID n \<or> is_node doc r \<and> dominates (links doc) s r (ndID n)))"
      by (rule ball)
    finally show ?thesis by (simp add: graph_of_node_def)
  qed
  show ?thesis unfolding valid_survey_def when_ok_def dang ends cyc whens
    using reach refs doc(2) s by blast
qed

lemma Validate_returns:
  "\<exists>issues. GraphValidator_Validate parses (Some doc) = Some issues"
proof -
  obtain ss g where c: "checkStart (graph_of doc) = (ss, g)" by fastforce
  have "wf_graph g \<and> (gStartID g = '''' \<or> gStartID g \<in> set (gOrder g))"
    using checkStart_graph [OF c] graph_of_wf [of doc] by auto
  then obtain rs where "checkForwardReferences g = Some rs" using checkForwardReferences_returns by blast
  then show ?thesis using c by (simp add: GraphValidator_Validate_def)
qed

lemma Validate_Nil_iff:
  assumes "ids_ok doc"
  shows "GraphValidator_Validate parses (Some doc) = Some [] \<longleftrightarrow> (\<exists>s. valid_survey parses doc s)"
proof (cases "distinct (map ndID doc) \<and> (\<exists>s. starts_at doc s)")
  case True
  then obtain s where d: "distinct (map ndID doc)" and s: "starts_at doc s" by blast
  note c = checkStart_valid [OF assms d s]
  have "GraphValidator_Validate parses (Some doc) = Some [] \<longleftrightarrow> valid_survey parses doc s"
    using graph_checks_valid [OF assms d s, of parses] c
    by (auto simp: GraphValidator_Validate_def)
  moreover have "t = s" if "starts_at doc t" for t
    using that s unfolding starts_at_def is_node_def by (metis imageE)
  ultimately show ?thesis unfolding valid_survey_def by blast
next
  case False
  then have "\<not> (\<exists>g. checkStart (graph_of doc) = ([], g))" using checkStart_Nil [OF assms] by blast
  then have "GraphValidator_Validate parses (Some doc) \<noteq> Some []"
    by (auto simp: GraphValidator_Validate_def split: prod.splits)
  with False show ?thesis unfolding valid_survey_def by blast
qed

section \<open>Leaving cycles\<close>

text \<open>In a finite graph where every trapped node leads to another trapped node there is a long cycle.\<close>

lemma trapped_cycle:
  assumes fin: "finite R" and n: "n \<in> R"
    and out: "\<And>j. j \<in> R \<Longrightarrow> \<exists>k \<in> R. k \<noteq> j \<and> E j k"
  shows "\<exists>w d. w \<in> R \<and> d \<noteq> w \<and> E\<^sup>*\<^sup>* w d \<and> E d w"
proof -
  obtain f where f: "\<And>j. j \<in> R \<Longrightarrow> f j \<in> R \<and> f j \<noteq> j \<and> E j (f j)" using out by metis
  define x where "x i = (f ^^ i) n" for i
  have x: "x i \<in> R \<and> E (x i) (x (Suc i)) \<and> x (Suc i) \<noteq> x i" for i
    unfolding x_def by (induction i) (use n f in auto)
  have path: "E\<^sup>*\<^sup>* (x a) (x (a + k))" for a k
    by (induction k) (use x in \<open>auto intro: rtranclp.rtrancl_into_rtrancl\<close>)
  have "finite (range x)" by (rule finite_subset [of _ R]) (use x fin in auto)
  then have "\<not> inj x" using finite_imageD infinite_UNIV_nat by blast
  then obtain a b where ab: "a < b" "x a = x b" by (metis inj_def linorder_neqE_nat)
  then obtain k where k: "b = Suc (a + k)" using less_iff_Suc_add by auto
  have "E (x (a + k)) (x a)" "x (a + k) \<noteq> x a" using x [of "a + k"] ab(2) k by auto
  then show ?thesis using path [of a k] x [of a] by blast
qed

lemma valid_can_finish:
  assumes v: "valid_survey parses doc s"
    and out: "\<And>n. n \<in> set doc \<Longrightarrow> \<not> is_end (ndKind n) \<Longrightarrow> \<exists>e \<in> set (ndNext n). seTo e \<noteq> ndID n"
    and n: "n \<in> set doc"
  shows "can_finish doc (ndID n)"
proof (rule ccontr)
  assume bad: "\<not> can_finish doc (ndID n)"
  define R where "R = {j. (links doc)\<^sup>*\<^sup>* (ndID n) j}"
  have node: "is_node doc j" if "j \<in> R" for j
    using that links_node n unfolding R_def is_node_def by blast
  have stuck: "\<not> can_finish doc j" if "j \<in> R" for j
    using that bad unfolding R_def can_finish_def by (meson mem_Collect_eq rtranclp_trans)
  have "\<exists>k \<in> R. k \<noteq> j \<and> links doc j k" if j: "j \<in> R" for j
  proof -
    obtain m where m: "m \<in> set doc" "ndID m = j" using node [OF j] by (auto simp: is_node_def)
    have "\<not> is_end (ndKind m)" using stuck [OF j] m unfolding can_finish_def by blast
    then obtain e where e: "e \<in> set (ndNext m)" "seTo e \<noteq> j" using out m by blast
    have "is_node doc (seTo e)" using v m e unfolding valid_survey_def by blast
    then obtain m' where "m' \<in> set doc" "ndID m' = seTo e" by (auto simp: is_node_def)
    then have "links doc j (seTo e)" using m e unfolding links_def by blast
    moreover then have "seTo e \<in> R" using j unfolding R_def by (simp add: rtranclp.rtrancl_into_rtrancl)
    ultimately show ?thesis using e by blast
  qed
  moreover have "finite R" by (rule finite_subset [of _ "ndID ` set doc"]) (use node in \<open>auto simp: is_node_def\<close>)
  moreover have "ndID n \<in> R" by (simp add: R_def)
  ultimately obtain w d where w: "w \<in> R" "d \<noteq> w" "(links doc)\<^sup>*\<^sup>* w d" "links doc d w"
    using trapped_cycle [of R "ndID n" "links doc"] by blast
  then have "on_long_cycle doc w" unfolding on_long_cycle_def by blast
  moreover obtain m where "m \<in> set doc" "ndID m = w" using node [OF w(1)] by (auto simp: is_node_def)
  ultimately show False using v stuck [OF w(1)] unfolding valid_survey_def by blast
qed

section \<open>Properties\<close>

definition text_node :: "string \<Rightarrow> NodeKind \<Rightarrow> schemaEdge list \<Rightarrow> schemaNode" where
  "text_node i k es = \<lparr>ndID = i, ndKind = k, ndQuestionType = TypeText, ndOptions = [], ndMin = None, ndMax = None,
     ndRequired = True, ndNext = es\<rparr>"

definition goto :: "string \<Rightarrow> string \<Rightarrow> schemaEdge" where
  "goto t w = \<lparr>seTo = t, seWhen = w\<rparr>"

text \<open>A survey that asks one question and refers to its answer from the next node.\<close>

definition sample_survey :: schemaDoc where
  "sample_survey = [text_node ''s'' NodeStart [goto ''q1'' ''''], text_node ''q1'' NodeQuestion [goto ''c'' ''''],
     text_node ''c'' NodeCondition [goto ''e'' ''q1.answered'', goto ''s'' ''''], text_node ''e'' NodeSuccessEnd []]"

lemmas sample_defs = sample_survey_def text_node_def goto_def

text \<open>A survey with a text block whose only edge leads back to itself.\<close>

definition trap_survey :: schemaDoc where
  "trap_survey = [text_node ''s'' NodeStart [goto ''t'' '''', goto ''e'' ''''],
     text_node ''t'' NodeTextBlock [goto ''t'' ''''], text_node ''e'' NodeSuccessEnd []]"

declare dom_loop.simps [code]

text \<open>
  C18: the graph pass decides validity. On a document whose identifiers are not empty the pass always
  returns, and it reports no issue exactly when the identifiers are distinct, there is one start
  node, every edge has a target, every node is reachable, a terminal is reachable, every node on
  a cycle through another node can reach a terminal, every condition parses, and every answer a
  condition refers to belongs to the node itself or to a node on every walk from the start.
\<close>

theorem graph_pass_accepts_exactly_the_valid:
  assumes "ids_ok doc"
  shows "(\<exists>issues. GraphValidator_Validate parses (Some doc) = Some issues) \<and>
    (GraphValidator_Validate parses (Some doc) = Some [] \<longleftrightarrow> (\<exists>s. valid_survey parses doc s))"
  using Validate_returns Validate_Nil_iff [OF assms] by blast

text \<open>
  C19: dominators. On a document with distinct identifiers, one start and no unreachable node the
  fixed-point iteration ends, and it assigns to every node exactly the nodes that lie on every
  walk from the start to it.
\<close>

theorem dominators_lie_on_every_walk:
  assumes "ids_ok doc" "distinct (map ndID doc)" "starts_at doc s" "\<forall>n \<in> set doc. (links doc)\<^sup>*\<^sup>* s (ndID n)"
  shows "\<exists>dm. computeDominators ((graph_of doc)\<lparr>gStartID := s\<rparr>) = Some dm \<and>
    (\<forall>n \<in> set doc. dm (ndID n) = {d. dominates (links doc) s d (ndID n)})"
proof -
  let ?g = "(graph_of doc)\<lparr>gStartID := s\<rparr>"
  have "s \<in> ndID ` set doc" using assms(3) by (simp add: starts_at_def is_node_def)
  then have "\<exists>dm. computeDominators ?g = Some dm \<and> (\<forall>n \<in> set (gOrder ?g). dm n = {d. dominates (gedge ?g) (gStartID ?g) d n})"
    using assms(1,2,4) graph_of_wf by (intro computeDominators_exact) (auto simp: gOrder_doc gedge_doc)
  then show ?thesis by (simp add: gOrder_doc [OF assms(1)] gedge_doc [OF assms(1,2)])
qed

text \<open>
  C20: finishing. If the pass accepts a survey in which every node other than a terminal has an edge to
  some other node, then a terminal can be reached from every node.
\<close>

theorem accepted_survey_can_finish:
  assumes "ids_ok doc" and "GraphValidator_Validate parses (Some doc) = Some []"
    and "\<forall>n \<in> set doc. \<not> is_end (ndKind n) \<longrightarrow> (\<exists>e \<in> set (ndNext n). seTo e \<noteq> ndID n)"
  shows "\<forall>n \<in> set doc. can_finish doc (ndID n)"
  using assms Validate_Nil_iff [OF assms(1), of parses] valid_can_finish by blast

text \<open>
  Without that condition acceptance does not exclude traps. The exit test looks for a cycle through
  another node, so the pass accepts a survey with a text block whose only edge leads back to
  itself, and from that block no terminal can be reached.
\<close>

theorem self_loop_trap_is_accepted:
  "GraphValidator_Validate parses (Some trap_survey) = Some [] \<and> is_node trap_survey ''t'' \<and>
   (links trap_survey) ''s'' ''t'' \<and> \<not> can_finish trap_survey ''t''"
proof -
  have l: "links trap_survey a b \<longleftrightarrow> (a, b) \<in> {(''s'', ''t''), (''s'', ''e''), (''t'', ''t'')}" for a b
    by (auto simp: links_def trap_survey_def sample_defs)
  have "b = ''t''" if "(links trap_survey)\<^sup>*\<^sup>* ''t'' b" for b
    using that by (induction rule: rtranclp_induct) (auto simp: l)
  then have nf: "\<not> can_finish trap_survey ''t''"
    by (auto simp: can_finish_def trap_survey_def sample_defs is_end_def)
  have "GraphValidator_Validate parses (Some trap_survey) = Some []" by code_simp
  moreover have "is_node trap_survey ''t''" by (simp add: is_node_def trap_survey_def sample_defs)
  ultimately show ?thesis using nf l [of "''s''" "''t''"] by simp
qed

theorem graph_pass_accepts_exactly_the_valid_witness:
  "\<exists>s. valid_survey (\<lambda>_. True) sample_survey s"
proof -
  have "GraphValidator_Validate (\<lambda>_. True) (Some sample_survey) = Some []" by code_simp
  then show ?thesis using graph_pass_accepts_exactly_the_valid [of sample_survey "\<lambda>_. True"]
    by (simp add: ids_ok_def sample_defs)
qed

lemma sample_valid: "valid_survey (\<lambda>_. True) sample_survey ''s''"
proof -
  have "GraphValidator_Validate (\<lambda>_. True) (Some sample_survey) = Some []" by code_simp
  then obtain s where "valid_survey (\<lambda>_. True) sample_survey s"
    using Validate_Nil_iff [of sample_survey "\<lambda>_. True"] by (auto simp: ids_ok_def sample_defs)
  moreover then have "s = ''s''" by (auto simp: valid_survey_def starts_at_def sample_defs)
  ultimately show ?thesis by simp
qed

theorem dominators_lie_on_every_walk_witness:
  "\<exists>dm. computeDominators ((graph_of sample_survey)\<lparr>gStartID := ''s''\<rparr>) = Some dm \<and>
    (\<forall>n \<in> set sample_survey. dm (ndID n) = {d. dominates (links sample_survey) ''s'' d (ndID n)})"
  using sample_valid unfolding valid_survey_def
  by (intro dominators_lie_on_every_walk) (auto simp: ids_ok_def sample_defs)

theorem accepted_survey_can_finish_witness:
  "list_all (\<lambda>n. can_finish sample_survey (ndID n)) sample_survey"
proof -
  have "GraphValidator_Validate (\<lambda>_. True) (Some sample_survey) = Some []" by code_simp
  then have "\<forall>n \<in> set sample_survey. can_finish sample_survey (ndID n)"
    by (intro accepted_survey_can_finish) (simp_all add: ids_ok_def sample_defs is_end_def)
  then show ?thesis by (simp add: list_all_iff)
qed

end
