(* ===== verification/Lru_Cache.thy ===== *)
theory Lru_Cache
  imports Prelude
begin

text \<open>
  The two bounded least-recently-used caches of the surveys module: the compiled-program cache
  (\<open>internal/surveys/dsl/cache.go\<close>) and the parsed-schema cache
  (\<open>internal/surveys/runtime/cache.go\<close>). A doubly linked list with an index map is modelled by
  the list of its entries, most recent first; the index is the lookup in that list.
\<close>

section \<open>Operations\<close>

record ('k, 'v) lru =
  lrCapacity :: int
  lrEntries :: "('k \<times> 'v) list"

text \<open>\<open>MoveToFront\<close> of the entry of a key.\<close>

definition move_front :: "'k \<Rightarrow> ('k \<times> 'v) list \<Rightarrow> ('k \<times> 'v) list" where
  "move_front k es = (case map_of es k of None \<Rightarrow> es | Some v \<Rightarrow> (k, v) # filter (\<lambda>e. fst e \<noteq> k) es)"

definition newProgramCache :: "int \<Rightarrow> ('k, 'v) lru" where
  "newProgramCache capacity = \<lparr>lrCapacity = (if capacity \<le> 0 then 1024 else capacity), lrEntries = []\<rparr>"

definition cache_Get :: "('k, 'v) lru \<Rightarrow> 'k \<Rightarrow> 'v option \<times> ('k, 'v) lru" where
  "cache_Get c k =
     (case map_of (lrEntries c) k of
        None \<Rightarrow> (None, c)
      | Some v \<Rightarrow> (Some v, c\<lparr>lrEntries := move_front k (lrEntries c)\<rparr>))"

definition evictOldest :: "('k, 'v) lru \<Rightarrow> ('k, 'v) lru" where
  "evictOldest c = c\<lparr>lrEntries := butlast (lrEntries c)\<rparr>"

definition push_front :: "('k, 'v) lru \<Rightarrow> 'k \<Rightarrow> 'v \<Rightarrow> ('k, 'v) lru" where
  "push_front c k v =
     (let c' = c\<lparr>lrEntries := (k, v) # lrEntries c\<rparr> in
      if int (length (lrEntries c')) > lrCapacity c' then evictOldest c' else c')"

definition program_Put :: "('k, 'v) lru \<Rightarrow> 'k \<Rightarrow> 'v \<Rightarrow> ('k, 'v) lru" where
  "program_Put c k v =
     (if map_of (lrEntries c) k \<noteq> None
      then c\<lparr>lrEntries := (k, v) # filter (\<lambda>e. fst e \<noteq> k) (lrEntries c)\<rparr>
      else push_front c k v)"

text \<open>The schema cache may be absent (a nil receiver), and keeps the entry it has.\<close>

definition newSchemaCache :: "int \<Rightarrow> ('k, 'v) lru option" where
  "newSchemaCache capacity =
     (let capacity = (if capacity = 0 then 256 else capacity) in
      if capacity < 0 then None else Some \<lparr>lrCapacity = capacity, lrEntries = []\<rparr>)"

definition schema_get :: "('k, 'v) lru option \<Rightarrow> 'k \<Rightarrow> 'v option \<times> ('k, 'v) lru option" where
  "schema_get c k = (case c of None \<Rightarrow> (None, None) | Some c \<Rightarrow> map_prod id Some (cache_Get c k))"

definition schema_put :: "('k, 'v) lru option \<Rightarrow> 'k \<Rightarrow> 'v \<Rightarrow> ('k, 'v) lru option" where
  "schema_put c k v =
     (case c of
        None \<Rightarrow> None
      | Some c \<Rightarrow> Some (if map_of (lrEntries c) k \<noteq> None
                        then c\<lparr>lrEntries := move_front k (lrEntries c)\<rparr> else push_front c k v))"

definition cache_Len :: "('k, 'v) lru option \<Rightarrow> nat" where
  "cache_Len c = (case c of None \<Rightarrow> 0 | Some c \<Rightarrow> length (lrEntries c))"

section \<open>The cache contract\<close>

text \<open>
  What the clients rely on: a hit returns what was put for that key. \<open>contents\<close> lists what the
  cache holds; as long as every entry stored is correct, every hit is.
\<close>

locale value_cache =
  fixes contents :: "'c \<Rightarrow> ('k \<times> 'v) set"
    and get :: "'c \<Rightarrow> 'k \<Rightarrow> 'v option \<times> 'c"
    and put :: "'c \<Rightarrow> 'k \<Rightarrow> 'v \<Rightarrow> 'c"
  assumes get_hit: "get c k = (Some v, c') \<Longrightarrow> (k, v) \<in> contents c"
    and get_keeps: "get c k = (r, c') \<Longrightarrow> contents c' \<subseteq> contents c"
    and put_keeps: "contents (put c k v) \<subseteq> insert (k, v) (contents c)"
begin

definition correct :: "('k \<Rightarrow> 'v \<Rightarrow> bool) \<Rightarrow> 'c \<Rightarrow> bool" where
  "correct ok c \<longleftrightarrow> (\<forall>(k, v) \<in> contents c. ok k v)"

lemma correct_get:
  assumes "correct ok c" "get c k = (r, c')"
  shows "correct ok c' \<and> (\<forall>v. r = Some v \<longrightarrow> ok k v)"
  using assms get_hit [of c k _ c'] get_keeps [of c k r c'] unfolding correct_def by blast

lemma correct_put: "correct ok c \<Longrightarrow> ok k v \<Longrightarrow> correct ok (put c k v)"
  using put_keeps [of c k v] unfolding correct_def by blast

end

section \<open>Both caches satisfy it\<close>

lemma map_of_in: "map_of es k = Some v \<Longrightarrow> (k, v) \<in> set es"
  by (rule map_of_SomeD)

lemma set_move_front: "set (move_front k es) \<subseteq> set es"
  by (auto simp: move_front_def split: option.splits dest: map_of_in)

lemma cache_Get_spec:
  "cache_Get c k = (r, c') \<Longrightarrow> r = map_of (lrEntries c) k \<and> set (lrEntries c') \<subseteq> set (lrEntries c)"
  using set_move_front [of k "lrEntries c"] by (auto simp: cache_Get_def split: option.splits)

lemma set_push_front: "set (lrEntries (push_front c k v)) \<subseteq> insert (k, v) (set (lrEntries c))"
  by (auto simp: push_front_def evictOldest_def Let_def dest: in_set_butlastD split: if_splits)

interpretation program: value_cache "\<lambda>c. set (lrEntries c)" cache_Get program_Put
proof
  fix c :: "('k, 'v) lru" and k v c'
  assume "cache_Get c k = (Some v, c')"
  then show "(k, v) \<in> set (lrEntries c)" by (auto dest!: cache_Get_spec sym [of "Some v"] map_of_in)
next
  fix c :: "('k, 'v) lru" and k r c'
  assume "cache_Get c k = (r, c')"
  then show "set (lrEntries c') \<subseteq> set (lrEntries c)" using cache_Get_spec [of c k r c'] by simp
next
  fix c :: "('k, 'v) lru" and k v
  show "set (lrEntries (program_Put c k v)) \<subseteq> insert (k, v) (set (lrEntries c))"
    using set_push_front [of c k v] by (auto simp: program_Put_def)
qed

definition schema_contents :: "('k, 'v) lru option \<Rightarrow> ('k \<times> 'v) set" where
  "schema_contents c = (case c of None \<Rightarrow> {} | Some c \<Rightarrow> set (lrEntries c))"

interpretation schemas: value_cache schema_contents schema_get schema_put
proof
  fix c :: "('k, 'v) lru option" and k v c'
  assume "schema_get c k = (Some v, c')"
  then show "(k, v) \<in> schema_contents c"
    by (auto simp: schema_get_def schema_contents_def cache_Get_def split: option.splits dest: map_of_in)
next
  fix c :: "('k, 'v) lru option" and k r c'
  assume "schema_get c k = (r, c')"
  then show "schema_contents c' \<subseteq> schema_contents c"
    by (auto simp: schema_get_def schema_contents_def cache_Get_def split: option.splits dest: subsetD [OF set_move_front])
next
  fix c :: "('k, 'v) lru option" and k v
  show "schema_contents (schema_put c k v) \<subseteq> insert (k, v) (schema_contents c)"
  proof (cases c)
    case (Some d)
    then show ?thesis using set_push_front [of d k v] set_move_front [of k "lrEntries d"]
      by (auto simp: schema_put_def schema_contents_def)
  qed (simp add: schema_put_def schema_contents_def)
qed

section \<open>Bounds\<close>

definition lru_ok :: "('k, 'v) lru \<Rightarrow> bool" where
  "lru_ok c \<longleftrightarrow> distinct (map fst (lrEntries c)) \<and> int (length (lrEntries c)) \<le> lrCapacity c"

lemma filter_key_length:
  "k \<in> fst ` set es \<Longrightarrow> length (filter (\<lambda>e. fst e \<noteq> k) es) < length es"
  by (auto intro: length_filter_less)

lemma refresh_ok:
  assumes "lru_ok c" "map_of (lrEntries c) k \<noteq> None"
  shows "lru_ok (c\<lparr>lrEntries := (k, v) # filter (\<lambda>e. fst e \<noteq> k) (lrEntries c)\<rparr>)"
proof -
  have "k \<in> fst ` set (lrEntries c)" using assms(2) by (auto simp: map_of_eq_None_iff)
  then have "length (filter (\<lambda>e. fst e \<noteq> k) (lrEntries c)) < length (lrEntries c)" by (rule filter_key_length)
  then show ?thesis using assms(1) by (auto simp: lru_ok_def distinct_map_filter)
qed

lemma push_front_ok:
  assumes "lru_ok c" "map_of (lrEntries c) k = None" "0 < lrCapacity c"
  shows "lru_ok (push_front c k v)"
proof -
  have d: "distinct (map fst ((k, v) # lrEntries c))" using assms by (auto simp: lru_ok_def map_of_eq_None_iff)
  then have "distinct (map fst (butlast ((k, v) # lrEntries c)))" by (metis distinct_butlast map_butlast)
  then show ?thesis using assms d by (auto simp: push_front_def evictOldest_def lru_ok_def Let_def)
qed

lemma program_Put_ok: "lru_ok c \<Longrightarrow> 0 < lrCapacity c \<Longrightarrow> lru_ok (program_Put c k v)"
  by (simp add: program_Put_def refresh_ok push_front_ok)

lemma move_front_ok: "lru_ok c \<Longrightarrow> lru_ok (c\<lparr>lrEntries := move_front k (lrEntries c)\<rparr>)"
  using refresh_ok [of c k] by (auto simp: move_front_def split: option.splits)

lemma cache_Get_ok: "lru_ok c \<Longrightarrow> cache_Get c k = (r, c') \<Longrightarrow> lru_ok c' \<and> lrCapacity c' = lrCapacity c"
  by (auto simp: cache_Get_def move_front_ok split: option.splits)

lemma put_capacity [simp]: "lrCapacity (program_Put c k v) = lrCapacity c" "lrCapacity (push_front c k v) = lrCapacity c"
  by (simp_all add: program_Put_def push_front_def evictOldest_def Let_def)

text \<open>What was put last is found, and with its value.\<close>

lemma Put_Get:
  assumes "0 < lrCapacity c"
  shows "fst (cache_Get (program_Put c k v) k) = Some v"
proof -
  have "map_of (lrEntries (push_front c k v)) k = Some v"
    using assms by (cases "lrEntries c") (auto simp: push_front_def evictOldest_def Let_def)
  then show ?thesis by (auto simp: cache_Get_def program_Put_def split: option.splits)
qed

end
