(* ===== verification/Survey_Runtime.thy ===== *)
theory Survey_Runtime
  imports Survey_Validity Lru_Cache
begin

text \<open>
  The survey evaluator (\<open>internal/surveys/runtime\<close>, \<open>internal/surveys/dsl/env.go\<close>): parsing through
  the schema cache, the environment of a condition, the next node, answer validation and the
  progress estimate. The JSON decoder, the digest and the expression evaluator are parameters.
  Numbers and progress are rationals.
\<close>

section \<open>Answers and environments\<close>

datatype survey_error = ErrSchema | ErrNodeNotFound | ErrNoMatchingEdge | ErrBadAnswer | ErrDSLParse | ErrDSLEval

text \<open>A nil slice of choices differs from an empty one in \<open>answerValue\<close>, so it is an option.\<close>

record Answer =
  anSingleChoice :: string
  anMultiChoice :: "string list option"
  anNumber :: "rat option"
  anText :: string

datatype answer_value = VMulti "string list" | VNum rat | VStr string | VNil

type_synonym dsl_env = "string \<rightharpoonup> answer_value \<times> bool"

definition answerValue :: "Answer \<Rightarrow> answer_value" where
  "answerValue a =
     (case anMultiChoice a of
        Some xs \<Rightarrow> VMulti xs
      | None \<Rightarrow> (case anNumber a of
          Some v \<Rightarrow> VNum v
        | None \<Rightarrow> if anSingleChoice a \<noteq> '''' then VStr (anSingleChoice a) else VStr (anText a)))"

definition answeredEntry :: "Answer \<Rightarrow> answer_value \<times> bool" where
  "answeredEntry a = (answerValue a, True)"

definition unansweredEntry :: "answer_value \<times> bool" where
  "unansweredEntry = (VNil, False)"

definition BuildEnv :: "(string \<rightharpoonup> Answer) \<Rightarrow> string list \<Rightarrow> dsl_env" where
  "BuildEnv answers known i =
     (if i \<in> set known
      then Some (case answers i of Some a \<Rightarrow> answeredEntry a | None \<Rightarrow> unansweredEntry)
      else map_option answeredEntry (answers i))"

section \<open>Parsing\<close>

definition collectNodeIDs :: "schemaDoc \<Rightarrow> string list" where
  "collectNodeIDs doc = sort (map ndID doc)"

type_synonym 'h schema_cache = "('h, schemaDoc \<times> string list) lru option"

definition runtime_parse ::
  "(string \<Rightarrow> 'h) \<Rightarrow> (string \<Rightarrow> schemaDoc option) \<Rightarrow> 'h schema_cache \<Rightarrow> string
   \<Rightarrow> (survey_error + schemaDoc \<times> string list) \<times> 'h schema_cache" where
  "runtime_parse hashSchema unmarshal c schema =
     (if schema = '''' then (Inl ErrSchema, c) else
      let key = hashSchema schema in
      case schema_get c key of
        (Some entry, c') \<Rightarrow> (Inr entry, c')
      | (None, c') \<Rightarrow>
        (case unmarshal schema of
           None \<Rightarrow> (Inl ErrSchema, c')
         | Some doc \<Rightarrow>
           if doc = [] then (Inl ErrSchema, c')
           else let ids = collectNodeIDs doc in (Inr (doc, ids), schema_put c' key (doc, ids))))"

section \<open>The next node\<close>

datatype EndKind = EndKindSuccess | EndKindRefusal | EndKindNone

definition terminalKind :: "NodeKind \<Rightarrow> EndKind \<times> bool" where
  "terminalKind k =
     (if k = NodeSuccessEnd then (EndKindSuccess, True)
      else if k = NodeRefusalEnd then (EndKindRefusal, True) else (EndKindNone, False))"

definition countQuestions :: "schemaDoc \<Rightarrow> nat" where
  "countQuestions doc = length (filter (\<lambda>n. ndKind n = NodeQuestion) doc)"

definition countAnswered :: "schemaDoc \<Rightarrow> (string \<rightharpoonup> Answer) \<Rightarrow> nat" where
  "countAnswered doc answers = length (filter (\<lambda>n. ndKind n = NodeQuestion \<and> answers (ndID n) \<noteq> None) doc)"

text \<open>\<open>None\<close> is the nil map of \<open>CalculateProgress\<close>.\<close>

definition progressOf :: "schemaDoc \<Rightarrow> string \<Rightarrow> (string \<rightharpoonup> Answer) option \<Rightarrow> rat" where
  "progressOf doc cur answers =
     (if cur = '''' then 0 else
      case findNode doc cur of
        None \<Rightarrow> 0
      | Some n \<Rightarrow>
        if snd (terminalKind (ndKind n)) then 1
        else let denom = countQuestions doc in
          if denom = 0 then 0
          else case answers of
              Some m \<Rightarrow> of_nat (countAnswered doc m) / of_nat denom
            | None \<Rightarrow> of_nat (countQuestions (takeWhile (\<lambda>n. ndID n \<noteq> cur) doc)) / of_nat denom)"

datatype dsl_value = DBool bool | DOther

type_synonym evaluator = "string \<Rightarrow> dsl_env \<Rightarrow> survey_error + dsl_value"

definition edgeMatches :: "evaluator \<Rightarrow> string \<Rightarrow> dsl_env \<Rightarrow> survey_error + bool" where
  "edgeMatches eval w env =
     (if w = '''' then Inr True else
      case eval w env of
        Inl err \<Rightarrow> Inl err
      | Inr (DBool b) \<Rightarrow> Inr b
      | Inr DOther \<Rightarrow> Inl ErrDSLEval)"

record NodeResult =
  nrNextNodeID :: string
  nrTerminated :: bool
  nrEndKind :: EndKind
  nrProgress :: rat

fun next_edge :: "evaluator \<Rightarrow> dsl_env \<Rightarrow> schemaEdge list \<Rightarrow> survey_error + schemaEdge" where
  "next_edge eval env [] = Inl ErrNoMatchingEdge"
| "next_edge eval env (e # es) =
     (case edgeMatches eval (seWhen e) env of
        Inl err \<Rightarrow> Inl err
      | Inr matched \<Rightarrow> if matched then Inr e else next_edge eval env es)"

definition next_in :: "evaluator \<Rightarrow> schemaDoc \<Rightarrow> string list \<Rightarrow> string \<Rightarrow> (string \<rightharpoonup> Answer) \<Rightarrow> survey_error + NodeResult" where
  "next_in eval doc ids cur answers =
     (case findNode doc cur of
        None \<Rightarrow> Inl ErrNodeNotFound
      | Some n \<Rightarrow>
     (case terminalKind (ndKind n) of (endKind, terminated) \<Rightarrow>
      if terminated
      then Inr \<lparr>nrNextNodeID = '''', nrTerminated = True, nrEndKind = endKind, nrProgress = progressOf doc cur (Some answers)\<rparr>
      else
     (case next_edge eval (BuildEnv answers ids) (ndNext n) of
        Inl err \<Rightarrow> Inl err
      | Inr e \<Rightarrow>
     (case findNode doc (seTo e) of
        None \<Rightarrow> Inl ErrSchema
      | Some t \<Rightarrow>
        (case terminalKind (ndKind t) of (endKind, terminated) \<Rightarrow>
         Inr \<lparr>nrNextNodeID = ndID t, nrTerminated = terminated, nrEndKind = endKind,
              nrProgress = progressOf doc (ndID t) (Some answers)\<rparr>)))))"

definition NextNodeCtx ::
  "(string \<Rightarrow> 'h) \<Rightarrow> (string \<Rightarrow> schemaDoc option) \<Rightarrow> evaluator \<Rightarrow> 'h schema_cache \<Rightarrow> string \<Rightarrow> string \<Rightarrow> (string \<rightharpoonup> Answer)
   \<Rightarrow> (survey_error + NodeResult) \<times> 'h schema_cache" where
  "NextNodeCtx hashSchema unmarshal eval c schema cur answers =
     (case runtime_parse hashSchema unmarshal c schema of
        (Inl err, c') \<Rightarrow> (Inl err, c')
      | (Inr (doc, ids), c') \<Rightarrow> (next_in eval doc ids cur answers, c'))"

definition CalculateProgress ::
  "(string \<Rightarrow> 'h) \<Rightarrow> (string \<Rightarrow> schemaDoc option) \<Rightarrow> 'h schema_cache \<Rightarrow> string \<Rightarrow> string \<Rightarrow> (survey_error + rat) \<times> 'h schema_cache" where
  "CalculateProgress hashSchema unmarshal c schema cur =
     (case runtime_parse hashSchema unmarshal c schema of
        (Inl err, c') \<Rightarrow> (Inl err, c')
      | (Inr (doc, ids), c') \<Rightarrow>
        (if findNode doc cur = None then Inl ErrNodeNotFound else Inr (progressOf doc cur None), c'))"

section \<open>Answer validation\<close>

definition validateSingleAnswer :: "schemaNode \<Rightarrow> Answer \<Rightarrow> survey_error + unit" where
  "validateSingleAnswer n a =
     (if anSingleChoice a = '''' then if ndRequired n then Inl ErrBadAnswer else Inr ()
      else if anSingleChoice a \<notin> set (ndOptions n) then Inl ErrBadAnswer else Inr ())"

fun check_choices :: "schemaNode \<Rightarrow> string set \<Rightarrow> string list \<Rightarrow> survey_error + unit" where
  "check_choices n seen [] = Inr ()"
| "check_choices n seen (i # rest) =
     (if i = '''' then Inl ErrBadAnswer
      else if i \<in> seen then Inl ErrBadAnswer
      else if i \<notin> set (ndOptions n) then Inl ErrBadAnswer
      else check_choices n (insert i seen) rest)"

definition validateMultiAnswer :: "schemaNode \<Rightarrow> Answer \<Rightarrow> survey_error + unit" where
  "validateMultiAnswer n a =
     (let choices = (case anMultiChoice a of None \<Rightarrow> [] | Some xs \<Rightarrow> xs) in
      if choices = [] then if ndRequired n then Inl ErrBadAnswer else Inr () else check_choices n {} choices)"

definition validateNumberAnswer :: "schemaNode \<Rightarrow> Answer \<Rightarrow> survey_error + unit" where
  "validateNumberAnswer n a =
     (case anNumber a of
        None \<Rightarrow> if ndRequired n then Inl ErrBadAnswer else Inr ()
      | Some v \<Rightarrow>
        if (case ndMin n of None \<Rightarrow> False | Some lo \<Rightarrow> v < lo) then Inl ErrBadAnswer
        else if (case ndMax n of None \<Rightarrow> False | Some hi \<Rightarrow> v > hi) then Inl ErrBadAnswer else Inr ())"

definition validateTextAnswer :: "schemaNode \<Rightarrow> Answer \<Rightarrow> survey_error + unit" where
  "validateTextAnswer n a = (if ndRequired n \<and> anText a = '''' then Inl ErrBadAnswer else Inr ())"

definition validateQuestionAnswer :: "schemaNode \<Rightarrow> Answer \<Rightarrow> survey_error + unit" where
  "validateQuestionAnswer n a =
     (case ndQuestionType n of
        TypeSingle \<Rightarrow> validateSingleAnswer n a
      | TypeSelect \<Rightarrow> validateSingleAnswer n a
      | TypeMulti \<Rightarrow> validateMultiAnswer n a
      | TypeNumber \<Rightarrow> validateNumberAnswer n a
      | TypeText \<Rightarrow> validateTextAnswer n a
      | TypeNone \<Rightarrow> Inl ErrSchema
      | TypeOther _ \<Rightarrow> Inl ErrSchema)"

definition validate_in :: "schemaDoc \<Rightarrow> string \<Rightarrow> Answer \<Rightarrow> survey_error + unit" where
  "validate_in doc i a =
     (case findNode doc i of
        None \<Rightarrow> Inl ErrNodeNotFound
      | Some n \<Rightarrow> if ndKind n \<noteq> NodeQuestion then Inr () else validateQuestionAnswer n a)"

definition ValidateAnswer ::
  "(string \<Rightarrow> 'h) \<Rightarrow> (string \<Rightarrow> schemaDoc option) \<Rightarrow> 'h schema_cache \<Rightarrow> string \<Rightarrow> string \<Rightarrow> Answer
   \<Rightarrow> (survey_error + unit) \<times> 'h schema_cache" where
  "ValidateAnswer hashSchema unmarshal c schema i a =
     (case runtime_parse hashSchema unmarshal c schema of
        (Inl err, c') \<Rightarrow> (Inl err, c')
      | (Inr (doc, ids), c') \<Rightarrow> (validate_in doc i a, c'))"

end
