(* ===== verification/Survey_Runs.thy ===== *)
theory Survey_Runs
  imports Survey_Runtime
begin

text \<open>
  The evaluator at work: interviews that walk through an accepted survey, the transparency of the
  schema cache, and the meaning of answer validation.
\<close>

section \<open>Interviews\<close>

definition is_question :: "schemaDoc \<Rightarrow> string \<Rightarrow> bool" where
  "is_question doc i \<longleftrightarrow> (\<exists>n. findNode doc i = Some n \<and> ndKind n = NodeQuestion)"

text \<open>The caller records an answer at a question before it asks for the next node.\<close>

definition record_answer :: "schemaDoc \<Rightarrow> string \<Rightarrow> Answer \<Rightarrow> (string \<rightharpoonup> Answer) \<Rightarrow> (string \<rightharpoonup> Answer)" where
  "record_answer doc cur a answers = (if is_question doc cur then answers(cur \<mapsto> a) else answers)"

inductive interview :: "evaluator \<Rightarrow> schemaDoc \<Rightarrow> string \<Rightarrow> string list \<Rightarrow> string \<Rightarrow> (string \<rightharpoonup> Answer) \<Rightarrow> bool"
  for eval doc s where
  begin_at: "interview eval doc s [s] s Map.empty"
| move: "interview eval doc s visited cur answers \<Longrightarrow>
    next_in eval doc (collectNodeIDs doc) cur (record_answer doc cur a answers) = Inr r \<Longrightarrow> nrNextNodeID r \<noteq> '''' \<Longrightarrow>
    interview eval doc s (visited @ [nrNextNodeID r]) (nrNextNodeID r) (record_answer doc cur a answers)"

lemma next_edge_in: "next_edge eval env es = Inr e \<Longrightarrow> e \<in> set es"
  by (induction es) (auto split: sum.splits if_splits)

lemma next_in_links:
  assumes "next_in eval doc ids cur answers = Inr r" "nrNextNodeID r \<noteq> ''''"
  shows "links doc cur (nrNextNodeID r)"
proof -
  obtain n e t where "findNode doc cur = Some n" "next_edge eval (BuildEnv answers ids) (ndNext n) = Inr e"
      "findNode doc (seTo e) = Some t" "nrNextNodeID r = ndID t"
    using assms by (auto simp: next_in_def split: option.splits prod.splits sum.splits if_splits)
  then show ?thesis using next_edge_in findNode_Some unfolding links_def by (metis image_eqI)
qed

lemma interview_walk: "interview eval doc s visited cur answers \<Longrightarrow> walk (links doc) s visited cur"
  by (induction rule: interview.induct) (auto intro: walk.intros next_in_links)

lemma interview_answers:
  "interview eval doc s visited cur answers \<Longrightarrow> v \<in> set visited \<Longrightarrow> v \<noteq> cur \<Longrightarrow> is_question doc v \<Longrightarrow> answers v \<noteq> None"
proof (induction rule: interview.induct)
  case (move visited cur answers a r)
  then show ?case by (cases "v = cur") (auto simp: record_answer_def)
qed simp

lemma recorded_visited:
  assumes "interview eval doc s visited cur answers" "v \<in> set visited" "is_question doc v"
  shows "record_answer doc cur a answers v \<noteq> None"
  using interview_answers [OF assms(1,2)] assms(3) by (cases "v = cur") (auto simp: record_answer_def)

section \<open>Errors of the next node\<close>

text \<open>The documented errors of the evaluator.\<close>

definition evaluator_errors :: "evaluator \<Rightarrow> bool" where
  "evaluator_errors eval \<longleftrightarrow> (\<forall>w env err. eval w env = Inl err \<longrightarrow> err \<in> {ErrDSLParse, ErrDSLEval})"

lemma edgeMatches_error:
  "evaluator_errors eval \<Longrightarrow> edgeMatches eval w env = Inl err \<Longrightarrow> err \<in> {ErrDSLParse, ErrDSLEval}"
  unfolding evaluator_errors_def edgeMatches_def by (auto split: if_splits sum.splits dsl_value.splits)

lemma next_edge_error:
  assumes "evaluator_errors eval"
  shows "next_edge eval env es = Inl err \<Longrightarrow> err \<in> {ErrNoMatchingEdge, ErrDSLParse, ErrDSLEval}"
proof (induction es)
  case (Cons e es)
  then show ?case using edgeMatches_error [OF assms, of "seWhen e" env err] by (simp split: sum.splits if_splits)
qed simp

lemma next_in_error:
  assumes "evaluator_errors eval" "findNode doc cur = Some n" "\<And>e. e \<in> set (ndNext n) \<Longrightarrow> is_node doc (seTo e)"
    and "next_in eval doc ids cur answers = Inl err"
  shows "err \<in> {ErrNoMatchingEdge, ErrDSLParse, ErrDSLEval}"
proof (cases "next_edge eval (BuildEnv answers ids) (ndNext n)")
  case (Inl e)
  then have "err = e" using assms(2,4) by (auto simp: next_in_def split: prod.splits if_splits)
  then show ?thesis using next_edge_error [OF assms(1)] Inl by simp
next
  case (Inr e)
  then obtain t where "findNode doc (seTo e) = Some t"
    using next_edge_in assms(3) findNode_None_iff by (metis not_None_eq)
  then show ?thesis using assms(2,4) Inr by (auto simp: next_in_def split: prod.splits if_splits)
qed

section \<open>Properties\<close>

text \<open>
  Interviews on accepted surveys. Wherever an interview of an accepted survey stands, the current
  node exists, asking for the next node never fails with \<open>ErrSchema\<close> or \<open>ErrNodeNotFound\<close> (only
  with \<open>ErrNoMatchingEdge\<close> or an evaluator error), and every question that a condition of the
  current node refers to has been visited and is marked answered in the environment the condition
  is evaluated in.
\<close>

theorem accepted_interview_is_safe:
  fixes a :: Answer
  assumes doc: "ids_ok doc" and ok: "GraphValidator_Validate parses (Some doc) = Some []" and s: "starts_at doc s"
    and eval: "evaluator_errors eval"
    and run: "interview eval doc s visited cur answers"
  defines "now \<equiv> record_answer doc cur a answers"
  shows "\<exists>n \<in> set doc. findNode doc cur = Some n \<and>
    (\<forall>err. next_in eval doc (collectNodeIDs doc) cur now = Inl err \<longrightarrow> err \<in> {ErrNoMatchingEdge, ErrDSLParse, ErrDSLEval}) \<and>
    (\<forall>e \<in> set (ndNext n). seWhen e \<noteq> '''' \<longrightarrow> (\<forall>r \<in> set (extractNodeRefs (seWhen e)).
       r \<in> set visited \<and> (is_question doc r \<longrightarrow> (\<exists>x. BuildEnv now (collectNodeIDs doc) r = Some (x, True)))))"
proof -
  obtain t where "valid_survey parses doc t" using ok Validate_Nil_iff [OF doc] by blast
  moreover then have "t = s" using s unfolding valid_survey_def starts_at_def is_node_def by (metis imageE)
  ultimately have v: "valid_survey parses doc s" by simp
  then have d: "distinct (map ndID doc)" by (simp add: valid_survey_def)
  note w = interview_walk [OF run]
  have "is_node doc cur" using walk_reachable [OF w walk_last [OF w]] links_node s by (auto simp: starts_at_def)
  then obtain n where n: "n \<in> set doc" "ndID n = cur" by (auto simp: is_node_def)
  then have f: "findNode doc cur = Some n" using findNode_distinct [OF d] by auto
  have err: "err \<in> {ErrNoMatchingEdge, ErrDSLParse, ErrDSLEval}"
    if fail: "next_in eval doc (collectNodeIDs doc) cur now = Inl err" for err
    by (rule next_in_error [OF eval f _ fail]) (use v n(1) in \<open>auto simp: valid_survey_def\<close>)
  have "r \<in> set visited \<and> (is_question doc r \<longrightarrow> (\<exists>x. BuildEnv now (collectNodeIDs doc) r = Some (x, True)))"
    if e: "e \<in> set (ndNext n)" "seWhen e \<noteq> ''''" and r: "r \<in> set (extractNodeRefs (seWhen e))" for e r
  proof -
    have "r = ndID n \<or> is_node doc r \<and> dominates (links doc) s r (ndID n)"
      using v n(1) e r unfolding valid_survey_def when_ok_def by blast
    then have vis: "r \<in> set visited" and nd: "is_node doc r"
      using w n walk_last [OF w] \<open>is_node doc cur\<close> unfolding dominates_def by auto
    have "now r \<noteq> None" if "is_question doc r" unfolding now_def by (rule recorded_visited [OF run vis that])
    then show ?thesis using vis nd by (auto simp: BuildEnv_def collectNodeIDs_def is_node_def answeredEntry_def)
  qed
  then show ?thesis using n(1) f err by blast
qed

definition yes :: evaluator where
  "yes w env = Inr (DBool True)"

definition some_answer :: Answer where
  "some_answer = \<lparr>anSingleChoice = '''', anMultiChoice = None, anNumber = None, anText = ''x''\<rparr>"

lemma sample_interview:
  "interview yes sample_survey ''s'' [''s'', ''q1'', ''c''] ''c'' [''q1'' \<mapsto> some_answer]"
proof -
  have "interview yes sample_survey ''s'' ([''s''] @ [''q1'']) ''q1'' Map.empty"
    using interview.move [OF interview.begin_at, of yes sample_survey "''s''" some_answer]
    by (simp add: next_in_def findNode_def sample_defs terminalKind_def edgeMatches_def record_answer_def is_question_def)
  from interview.move [OF this, of some_answer] show ?thesis
    by (simp add: next_in_def findNode_def sample_defs terminalKind_def edgeMatches_def record_answer_def is_question_def)
qed

theorem accepted_interview_is_safe_witness:
  "\<exists>n \<in> set sample_survey. findNode sample_survey ''c'' = Some n \<and>
    (\<forall>e \<in> set (ndNext n). seWhen e \<noteq> '''' \<longrightarrow> (\<forall>r \<in> set (extractNodeRefs (seWhen e)). r \<in> {''s'', ''q1'', ''c''}))"
proof -
  have "GraphValidator_Validate (\<lambda>_. True) (Some sample_survey) = Some []" by code_simp
  moreover have "starts_at sample_survey ''s''" using sample_valid by (simp add: valid_survey_def)
  ultimately show ?thesis
    using accepted_interview_is_safe [OF _ _ _ _ sample_interview, of "\<lambda>_. True" some_answer]
    by (force simp: ids_ok_def sample_defs evaluator_errors_def yes_def)
qed

section \<open>The schema cache\<close>

text \<open>Calls to the evaluator and their results.\<close>

datatype rt_call = RNext string string "string \<rightharpoonup> Answer" | RValidate string string Answer | RProgress string string

datatype rt_result = RNode "survey_error + NodeResult" | RDone "survey_error + unit" | RRatio "survey_error + rat"

fun rt_do ::
  "(string \<Rightarrow> 'h) \<Rightarrow> (string \<Rightarrow> schemaDoc option) \<Rightarrow> evaluator \<Rightarrow> 'h schema_cache \<Rightarrow> rt_call \<Rightarrow> rt_result \<times> 'h schema_cache" where
  "rt_do h u ev c (RNext schema cur answers) = map_prod RNode id (NextNodeCtx h u ev c schema cur answers)"
| "rt_do h u ev c (RValidate schema i a) = map_prod RDone id (ValidateAnswer h u c schema i a)"
| "rt_do h u ev c (RProgress schema cur) = map_prod RRatio id (CalculateProgress h u c schema cur)"

fun rt_run ::
  "(string \<Rightarrow> 'h) \<Rightarrow> (string \<Rightarrow> schemaDoc option) \<Rightarrow> evaluator \<Rightarrow> 'h schema_cache \<Rightarrow> rt_call list \<Rightarrow> rt_result list \<times> 'h schema_cache" where
  "rt_run h u ev c [] = ([], c)"
| "rt_run h u ev c (x # xs) = (case rt_do h u ev c x of (r, c') \<Rightarrow> case rt_run h u ev c' xs of (rs, c'') \<Rightarrow> (r # rs, c''))"

definition entry_of :: "(string \<Rightarrow> 'h) \<Rightarrow> (string \<Rightarrow> schemaDoc option) \<Rightarrow> 'h \<Rightarrow> schemaDoc \<times> string list \<Rightarrow> bool" where
  "entry_of h u k e \<longleftrightarrow> (\<forall>schema. h schema = k \<longrightarrow> (case e of (doc, ids) \<Rightarrow> schema \<noteq> '''' \<and> u schema = Some doc \<and> doc \<noteq> [] \<and> ids = collectNodeIDs doc))"

definition cache_bounded :: "int \<Rightarrow> ('k, 'v) lru option \<Rightarrow> bool" where
  "cache_bounded cap c \<longleftrightarrow> (case c of None \<Rightarrow> True | Some d \<Rightarrow> lru_ok d \<and> lrCapacity d = cap \<and> 0 < cap)"

definition cache_inv :: "(string \<Rightarrow> 'h) \<Rightarrow> (string \<Rightarrow> schemaDoc option) \<Rightarrow> int \<Rightarrow> 'h schema_cache \<Rightarrow> bool" where
  "cache_inv h u cap c \<longleftrightarrow> schemas.correct (entry_of h u) c \<and> cache_bounded cap c"

lemma schema_get_bounded: "cache_bounded cap c \<Longrightarrow> schema_get c k = (r, c') \<Longrightarrow> cache_bounded cap c'"
  using cache_Get_ok [of "the c" k r "the c'"]
  by (cases c) (auto simp: cache_bounded_def schema_get_def map_prod_def split: prod.splits)

lemma schema_put_bounded: "cache_bounded cap c \<Longrightarrow> cache_bounded cap (schema_put c k v)"
  by (auto simp: cache_bounded_def schema_put_def move_front_ok push_front_ok split: option.splits)

lemma runtime_parse_cached:
  assumes inj: "inj h" and c: "cache_inv h u cap c"
  shows "fst (runtime_parse h u c schema) = fst (runtime_parse h u None schema) \<and> cache_inv h u cap (snd (runtime_parse h u c schema))"
proof (cases "schema = ''''")
  case True
  then show ?thesis using c by (simp add: runtime_parse_def)
next
  case ne: False
  obtain r c' where g: "schema_get c (h schema) = (r, c')" by fastforce
  have c': "cache_inv h u cap c'" "\<And>v. r = Some v \<Longrightarrow> entry_of h u (h schema) v"
    using schemas.correct_get [OF _ g] schema_get_bounded [OF _ g] c unfolding cache_inv_def by blast+
  show ?thesis
  proof (cases r)
    case (Some e)
    then have "entry_of h u (h schema) e" using c'(2) by blast
    then show ?thesis using ne g Some c'(1) by (cases e) (auto simp: runtime_parse_def schema_get_def entry_of_def Let_def)
  next
    case None
    have "cache_inv h u cap (schema_put c' (h schema) (doc, collectNodeIDs doc))" if "u schema = Some doc" "doc \<noteq> []" for doc
    proof -
      have "entry_of h u (h schema) (doc, collectNodeIDs doc)" using that ne inj by (auto simp: entry_of_def dest: injD)
      with c'(1) show ?thesis unfolding cache_inv_def by (simp add: schemas.correct_put schema_put_bounded)
    qed
    then show ?thesis using ne g None c'(1)
      by (auto simp: runtime_parse_def schema_get_def schema_put_def Let_def split: option.splits)
  qed
qed

lemma parse_None_cache [simp]: "snd (runtime_parse h u None schema) = None"
  by (auto simp: runtime_parse_def schema_get_def schema_put_def Let_def split: option.splits)

lemma rt_do_cached:
  assumes "inj h" "cache_inv h u cap c"
  shows "fst (rt_do h u ev c x) = fst (rt_do h u ev None x) \<and> cache_inv h u cap (snd (rt_do h u ev c x)) \<and> snd (rt_do h u ev None x) = None"
proof -
  have p: "fst (runtime_parse h u c schema) = fst (runtime_parse h u None schema)"
    "cache_inv h u cap (snd (runtime_parse h u c schema))" for schema
    using runtime_parse_cached [OF assms] by blast+
  show ?thesis
  proof (cases x)
    case (RNext schema cur answers)
    show ?thesis using p [of schema] parse_None_cache [of h u schema]
      by (cases "runtime_parse h u c schema"; cases "runtime_parse h u None schema")
        (auto simp: RNext NextNodeCtx_def split: sum.splits)
  next
    case (RValidate schema i a)
    show ?thesis using p [of schema] parse_None_cache [of h u schema]
      by (cases "runtime_parse h u c schema"; cases "runtime_parse h u None schema")
        (auto simp: RValidate ValidateAnswer_def split: sum.splits)
  next
    case (RProgress schema cur)
    show ?thesis using p [of schema] parse_None_cache [of h u schema]
      by (cases "runtime_parse h u c schema"; cases "runtime_parse h u None schema")
        (auto simp: RProgress CalculateProgress_def split: sum.splits)
  qed
qed

lemma rt_run_cached:
  assumes "inj h"
  shows "cache_inv h u cap c \<Longrightarrow> fst (rt_run h u ev c xs) = fst (rt_run h u ev None xs) \<and> cache_inv h u cap (snd (rt_run h u ev c xs))"
proof (induction xs arbitrary: c)
  case (Cons x xs)
  note d = rt_do_cached [OF assms Cons.prems, of ev x]
  obtain r c' where c': "rt_do h u ev c x = (r, c')" by fastforce
  with d have n: "rt_do h u ev None x = (r, None)" "cache_inv h u cap c'" by (auto simp: prod_eq_iff)
  from Cons.IH [OF n(2)] show ?case using c' n(1) by (auto split: prod.splits)
qed simp

text \<open>
  C21: the schema cache. If no two schemas have the same digest, any sequence of calls gives the same
  results with a cache of any size as without one, and the cache never holds more schemas than its
  capacity.
\<close>

theorem schema_cache_is_transparent:
  assumes "inj hashSchema"
  shows "fst (rt_run hashSchema unmarshal eval (newSchemaCache sz) calls) = fst (rt_run hashSchema unmarshal eval None calls) \<and>
    int (cache_Len (snd (rt_run hashSchema unmarshal eval (newSchemaCache sz) calls))) \<le> (if sz = 0 then 256 else max 0 sz)"
proof -
  let ?cap = "if sz = 0 then 256 else sz"
  have "cache_inv hashSchema unmarshal ?cap (newSchemaCache sz)"
    by (auto simp: cache_inv_def schemas.correct_def schema_contents_def newSchemaCache_def cache_bounded_def lru_ok_def Let_def)
  note run = rt_run_cached [OF assms this, of eval calls]
  moreover have "int (cache_Len c) \<le> max 0 cap" if "cache_bounded cap c" for cap and c :: "'a schema_cache"
    using that by (auto simp: cache_bounded_def cache_Len_def lru_ok_def split: option.splits)
  ultimately show ?thesis unfolding cache_inv_def by (smt (verit))
qed

theorem schema_cache_is_transparent_witness:
  "fst (rt_run id (\<lambda>_. Some sample_survey) yes (newSchemaCache 1) [RProgress ''a'' ''e'', RProgress ''b'' ''s'', RProgress ''a'' ''e'']) =
   fst (rt_run id (\<lambda>_. Some sample_survey) yes None [RProgress ''a'' ''e'', RProgress ''b'' ''s'', RProgress ''a'' ''e''])"
  by (rule conjunct1 [OF schema_cache_is_transparent]) simp

section \<open>Answers\<close>

text \<open>What an answer to a question must be.\<close>

definition choices :: "Answer \<Rightarrow> string list" where
  "choices a = (case anMultiChoice a of None \<Rightarrow> [] | Some xs \<Rightarrow> xs)"

fun answers_question :: "QuestionType \<Rightarrow> schemaNode \<Rightarrow> Answer \<Rightarrow> bool" where
  "answers_question TypeSingle n a \<longleftrightarrow> anSingleChoice a \<noteq> '''' \<and> anSingleChoice a \<in> set (ndOptions n)"
| "answers_question TypeSelect n a \<longleftrightarrow> anSingleChoice a \<noteq> '''' \<and> anSingleChoice a \<in> set (ndOptions n)"
| "answers_question TypeMulti n a \<longleftrightarrow> choices a \<noteq> [] \<and> distinct (choices a) \<and> '''' \<notin> set (choices a) \<and> set (choices a) \<subseteq> set (ndOptions n)"
| "answers_question TypeNumber n a \<longleftrightarrow> (\<exists>v. anNumber a = Some v \<and> (\<forall>lo. ndMin n = Some lo \<longrightarrow> lo \<le> v) \<and> (\<forall>hi. ndMax n = Some hi \<longrightarrow> v \<le> hi))"
| "answers_question TypeText n a \<longleftrightarrow> anText a \<noteq> ''''"
| "answers_question TypeNone n a \<longleftrightarrow> False"
| "answers_question (TypeOther _) n a \<longleftrightarrow> False"

fun left_blank :: "QuestionType \<Rightarrow> Answer \<Rightarrow> bool" where
  "left_blank TypeSingle a \<longleftrightarrow> anSingleChoice a = ''''"
| "left_blank TypeSelect a \<longleftrightarrow> anSingleChoice a = ''''"
| "left_blank TypeMulti a \<longleftrightarrow> choices a = []"
| "left_blank TypeNumber a \<longleftrightarrow> anNumber a = None"
| "left_blank TypeText a \<longleftrightarrow> anText a = ''''"
| "left_blank TypeNone a \<longleftrightarrow> False"
| "left_blank (TypeOther _) a \<longleftrightarrow> False"

lemma check_choices_iff:
  "check_choices n seen xs = Inr () \<longleftrightarrow> distinct xs \<and> '''' \<notin> set xs \<and> set xs \<inter> seen = {} \<and> set xs \<subseteq> set (ndOptions n)"
  by (induction n seen xs rule: check_choices.induct) auto

text \<open>
  C24: answer validation. An answer to a question of the survey is accepted exactly when it answers the
  question (an offered option; a non-empty list of distinct offered options; a number within the
  bounds; a non-empty text) or the question is optional and was left blank. A question without a
  known type accepts nothing.
\<close>

theorem answer_accepted_iff:
  assumes "findNode doc i = Some n" "ndKind n = NodeQuestion"
  shows "validate_in doc i a = Inr () \<longleftrightarrow>
    answers_question (ndQuestionType n) n a \<or> \<not> ndRequired n \<and> left_blank (ndQuestionType n) a"
proof (cases "ndQuestionType n")
  case TypeMulti
  then show ?thesis using assms check_choices_iff [of n "{}"]
    by (auto simp: validate_in_def validateQuestionAnswer_def validateMultiAnswer_def choices_def Let_def split: option.splits)
qed (use assms in \<open>auto simp: validate_in_def validateQuestionAnswer_def validateSingleAnswer_def validateNumberAnswer_def
    validateTextAnswer_def not_less split: option.splits\<close>)

theorem answer_accepted_iff_witness:
  "validate_in sample_survey ''q1'' some_answer = Inr ()"
  using answer_accepted_iff [of sample_survey "''q1''" "text_node ''q1'' NodeQuestion [goto ''c'' '''']" some_answer]
  by (simp add: findNode_def sample_defs some_answer_def)

end
