(* ===== verification/Survey_Service.thy ===== *)
theory Survey_Service
  imports Survey_Runs
begin

text \<open>
  The survey service and its stores (\<open>internal/surveys/service\<close>, \<open>internal/surveys/store\<close>): surveys,
  their immutable versions, and the activation of a version.

  Every method runs its statements in one transaction that commits, is lost, or commits while the
  reply is lost; any statement may fail, which rolls back. Transactions of other callers commit
  between the statements of one: \<open>vw s\<close> is the committed state that the reading statement \<open>s\<close> sees
  (read committed), and the world passed along is the one the first write meets. From that write on
  row locks, unique indexes and the advisory lock of \<open>Activate\<close> keep conflicting writers out until
  the commit. Row-level security hides the rows of other tenants. The constraints are those of
  migrations 1 and 8. An audit row is written on a connection of its own.

  The schema validator is a parameter of the service, as in the code; \<open>V s = None\<close> is a validation
  that does not return. The conversion to \<open>jsonb\<close> and both ways of folding case are parameters too.
  Message texts of issues and the encoding of events as JSON are left out.
\<close>

section \<open>Data\<close>

definition ModeForm :: string where
  "ModeForm = ''form''"

definition ModeFlow :: string where
  "ModeFlow = ''flow''"

definition StatusActive :: string where
  "StatusActive = ''active''"

definition StatusArchived :: string where
  "StatusArchived = ''archived''"

record Survey =
  syID :: uuid
  syTenantID :: uuid
  syName :: string
  syDescription :: string
  syPrimaryMode :: string
  syStatus :: string
  syCreatedAt :: time
  syUpdatedAt :: time
  syCreatedBy :: uuid

record Version =
  veID :: uuid
  veSurveyID :: uuid
  veMajor :: int
  veMinor :: int
  veSchema :: string
  veIsActive :: bool
  veCreatedAt :: time
  veCreatedBy :: uuid
  veActivatedAt :: "time option"

record CreateSurveyInput =
  csName :: string
  csDescription :: string
  csPrimaryMode :: string

text \<open>\<open>UpdateSurveyInput\<close> and \<open>SurveyPatch\<close>, which have the same fields.\<close>

record SurveyPatch =
  ptName :: "string option"
  ptDescription :: "string option"
  ptPrimaryMode :: "string option"

definition IsEmpty :: "SurveyPatch \<Rightarrow> bool" where
  "IsEmpty p \<longleftrightarrow> ptName p = None \<and> ptDescription p = None \<and> ptPrimaryMode p = None"

record ListFilter =
  lfStatus :: string
  lfSearch :: string
  lfLimit :: int
  lfOffset :: int

datatype surveys_error =
    ErrNotFound | ErrValidation "(issue_code \<times> string) list" | ErrNoActiveVersion | ErrVersionNotFound
  | ErrSurveyArchived | ErrInvalidArgument | ErrAlreadyActive | ErrIDRequired | ErrStorage

definition convertReport :: "ValidationReport \<Rightarrow> (issue_code \<times> string) list" where
  "convertReport r = map (\<lambda>i. (isCode i, isPath i)) (vrIssues r)"

section \<open>Tables\<close>

record survey_row =
  srID :: uuid
  srTenantID :: uuid
  srName :: string
  srDescription :: string
  srPrimaryMode :: string
  srStatus :: string
  srCreatedAt :: time
  srUpdatedAt :: time
  srCreatedBy :: "uuid option"
  srArchivedAt :: "time option"
  srCurrentVersionID :: "uuid option"

record version_row =
  vwID :: uuid
  vwTenantID :: uuid
  vwSurveyID :: uuid
  vwMajor :: int
  vwMinor :: int
  vwSchema :: string
  vwIsActive :: bool
  vwCreatedAt :: time
  vwCreatedBy :: "uuid option"
  vwActivatedAt :: "time option"

record survey_db =
  sdSurveys :: "survey_row list"
  sdVersions :: "version_row list"
  sdUsers :: "uuid list"

datatype sv_action =
    SurveyCreated string string string
  | SurveyUpdated SurveyPatch
  | SurveyArchived string
  | VersionSaved uuid int int
  | VersionActivated uuid uuid uuid
  | EventPublishError

record sv_audit =
  saTenantID :: uuid
  saAction :: sv_action
  saTarget :: uuid
  saActorID :: "uuid option"
  saTimestamp :: time

datatype sv_event = VersionSavedEvent uuid uuid uuid int int | VersionActivatedEvent uuid uuid uuid

record sv_world =
  swDb :: survey_db
  swAudit :: "sv_audit list"
  swBus :: "sv_event list"

datatype sv_stmt =
    StBegin | StGetSurvey | StInsertSurvey | StListSurveys | StCountSurveys | StUpdateSurvey | StArchive | StSetCurrent
  | StTenant | StInsertVersion | StGetVersion | StGetActive | StListVersions | StLatestMajor | StLatestMinor
  | StDeactivate | StActivate | StLock

text \<open>
  The environment of a call: the identities in its context, the clocks of the service and of the
  transaction, the generated key, which statements succeed, and the outcomes of the audit write, the
  commit and the publication (\<open>None\<close>: no bus is wired), and of the audit of a failed publication.
\<close>

record sv_env =
  sxTenant :: "uuid option"
  sxActor :: "uuid option"
  sxNow :: time
  sxTxNow :: time
  sxFresh :: uuid
  sxOk :: "sv_stmt \<Rightarrow> bool"
  sxAudit :: call_outcome
  sxCommit :: call_outcome
  sxPublish :: "call_outcome option"
  sxPublishAudit :: call_outcome

definition tenantIDFromContext :: "sv_env \<Rightarrow> surveys_error + uuid" where
  "tenantIDFromContext e = (case sxTenant e of None \<Rightarrow> Inl ErrInvalidArgument | Some t \<Rightarrow> if t = uuid_Nil then Inl ErrInvalidArgument else Inr t)"

definition actorIDFromContext :: "sv_env \<Rightarrow> uuid option" where
  "actorIDFromContext e = (case sxActor e of None \<Rightarrow> None | Some a \<Rightarrow> if a = uuid_Nil then None else Some a)"

definition stmt :: "sv_env \<Rightarrow> sv_stmt \<Rightarrow> surveys_error + 'a \<Rightarrow> surveys_error + 'a" where
  "stmt e s r = (if sxOk e s then r else Inl ErrStorage)"

text \<open>The rows a transaction of the tenant sees; \<open>None\<close> bypasses row-level security.\<close>

definition sees :: "uuid option \<Rightarrow> uuid \<Rightarrow> bool" where
  "sees scope t \<longleftrightarrow> (case scope of None \<Rightarrow> True | Some t' \<Rightarrow> t = t')"

section \<open>The survey store\<close>

definition scanSurvey :: "survey_row \<Rightarrow> Survey" where
  "scanSurvey r = \<lparr>syID = srID r, syTenantID = srTenantID r, syName = srName r, syDescription = srDescription r, syPrimaryMode = srPrimaryMode r,
     syStatus = srStatus r, syCreatedAt = srCreatedAt r, syUpdatedAt = srUpdatedAt r,
     syCreatedBy = (case srCreatedBy r of None \<Rightarrow> uuid_Nil | Some u \<Rightarrow> u)\<rparr>"

definition created_by :: "uuid \<Rightarrow> uuid option" where
  "created_by u = (if u = uuid_Nil then None else Some u)"

definition known_user :: "survey_db \<Rightarrow> uuid option \<Rightarrow> bool" where
  "known_user db u \<longleftrightarrow> (case u of None \<Rightarrow> True | Some u \<Rightarrow> u \<in> set (sdUsers db))"

definition survey_Insert :: "sv_env \<Rightarrow> uuid option \<Rightarrow> survey_db \<Rightarrow> Survey \<Rightarrow> surveys_error + Survey \<times> survey_db" where
  "survey_Insert e scope db inp =
     (let mode = (if syPrimaryMode inp = '''' then ModeForm else syPrimaryMode inp);
          status = (if syStatus inp = '''' then StatusActive else syStatus inp);
          row = \<lparr>srID = sxFresh e, srTenantID = syTenantID inp, srName = syName inp, srDescription = syDescription inp, srPrimaryMode = mode,
            srStatus = status, srCreatedAt = sxTxNow e, srUpdatedAt = sxTxNow e, srCreatedBy = created_by (syCreatedBy inp), srArchivedAt = None,
            srCurrentVersionID = None\<rparr>
      in stmt e StInsertSurvey
          (if \<not> sees scope (syTenantID inp) \<or> mode \<notin> {ModeForm, ModeFlow} \<or> status \<notin> {StatusActive, StatusArchived} \<or>
              \<not> known_user db (srCreatedBy row) \<or> srID row \<in> srID ` set (sdSurveys db)
           then Inl ErrStorage
           else Inr (scanSurvey row, db\<lparr>sdSurveys := sdSurveys db @ [row]\<rparr>)))"

definition survey_GetByID :: "sv_env \<Rightarrow> uuid option \<Rightarrow> survey_db \<Rightarrow> uuid \<Rightarrow> surveys_error + Survey" where
  "survey_GetByID e scope db i =
     stmt e StGetSurvey (case find (\<lambda>r. srID r = i \<and> sees scope (srTenantID r)) (sdSurveys db) of None \<Rightarrow> Inl ErrNotFound | Some r \<Rightarrow> Inr (scanSurvey r))"

text \<open>\<open>LIKE\<close>: percent matches any text, underscore any character, backslash takes the next character literally.\<close>

fun sql_like :: "string \<Rightarrow> string \<Rightarrow> bool" where
  "sql_like [] s = (s = [])"
| "sql_like (p # ps) s =
     (if p = CHR ''%'' then sql_like ps s \<or> (case s of [] \<Rightarrow> False | _ # s' \<Rightarrow> sql_like (p # ps) s')
      else if p = CHR 0x5C then (case ps of [] \<Rightarrow> False | q # qs \<Rightarrow> (case s of [] \<Rightarrow> False | c # s' \<Rightarrow> c = q \<and> sql_like qs s'))
      else case s of [] \<Rightarrow> False | c # s' \<Rightarrow> (p = CHR ''_'' \<or> c = p) \<and> sql_like ps s')"

record case_folding =
  cfGo :: "string \<Rightarrow> string"
  cfSql :: "string \<Rightarrow> string"

definition buildSurveyListPredicate :: "case_folding \<Rightarrow> ListFilter \<Rightarrow> survey_row \<Rightarrow> bool" where
  "buildSurveyListPredicate F f r \<longleftrightarrow>
     srArchivedAt r = None \<and>
     (lfStatus f \<noteq> '''' \<longrightarrow> srStatus r = lfStatus f) \<and>
     (let trimmed = TrimSpace (lfSearch f);
          pat = ''%'' @ cfGo F trimmed @ ''%''
      in trimmed \<noteq> '''' \<longrightarrow> sql_like pat (cfSql F (srName r)) \<or> sql_like pat (cfSql F (srDescription r)))"

definition survey_List :: "case_folding \<Rightarrow> sv_env \<Rightarrow> uuid option \<Rightarrow> (sv_stmt \<Rightarrow> survey_db) \<Rightarrow> ListFilter \<Rightarrow> surveys_error + Survey list \<times> int" where
  "survey_List F e scope vw f =
     (let rows = (\<lambda>s. filter (\<lambda>r. sees scope (srTenantID r) \<and> buildSurveyListPredicate F f r) (sdSurveys (vw s)));
          limit = (if lfLimit f \<le> 0 then 50 else lfLimit f);
          offset = (if lfOffset f < 0 then 0 else lfOffset f)
      in bindE (stmt e StListSurveys (Inr (map scanSurvey (take (nat limit) (drop (nat offset) (sort_key (\<lambda>r. - srCreatedAt r) (rows StListSurveys))))))) (\<lambda>out.
         bindE (stmt e StCountSurveys (Inr (int (length (rows StCountSurveys))))) (\<lambda>total. Inr (out, total))))"

text \<open>An \<open>UPDATE\<close> by key of the rows the transaction sees; the count tells whether a row was hit.\<close>

definition update_rows :: "('r \<Rightarrow> bool) \<Rightarrow> ('r \<Rightarrow> 'r) \<Rightarrow> 'r list \<Rightarrow> 'r list option" where
  "update_rows P f rows = (if \<exists>r \<in> set rows. P r then Some (map (\<lambda>r. if P r then f r else r) rows) else None)"

definition survey_Update :: "sv_env \<Rightarrow> uuid option \<Rightarrow> survey_db \<Rightarrow> uuid \<Rightarrow> SurveyPatch \<Rightarrow> surveys_error + Survey \<times> survey_db" where
  "survey_Update e scope db i p =
     (let hit = (\<lambda>r. srID r = i \<and> sees scope (srTenantID r) \<and> srArchivedAt r = None);
          upd = (\<lambda>r. r\<lparr>srName := (case ptName p of None \<Rightarrow> srName r | Some n \<Rightarrow> n),
            srDescription := (case ptDescription p of None \<Rightarrow> srDescription r | Some d \<Rightarrow> d),
            srPrimaryMode := (case ptPrimaryMode p of None \<Rightarrow> srPrimaryMode r | Some m \<Rightarrow> m), srUpdatedAt := sxTxNow e\<rparr>)
      in stmt e StUpdateSurvey
          (case (find hit (sdSurveys db), update_rows hit upd (sdSurveys db)) of
             (Some r, Some rows) \<Rightarrow>
               if srPrimaryMode (upd r) \<notin> {ModeForm, ModeFlow} then Inl ErrStorage
               else Inr (scanSurvey (upd r), db\<lparr>sdSurveys := rows\<rparr>)
           | _ \<Rightarrow> Inl ErrNotFound))"

definition survey_Archive :: "sv_env \<Rightarrow> uuid option \<Rightarrow> survey_db \<Rightarrow> uuid \<Rightarrow> time \<Rightarrow> surveys_error + survey_db" where
  "survey_Archive e scope db i at_time =
     stmt e StArchive
      (case update_rows (\<lambda>r. srID r = i \<and> sees scope (srTenantID r))
          (\<lambda>r. r\<lparr>srStatus := StatusArchived, srArchivedAt := Some (case srArchivedAt r of None \<Rightarrow> at_time | Some t \<Rightarrow> t), srUpdatedAt := sxTxNow e\<rparr>) (sdSurveys db) of
         None \<Rightarrow> Inl ErrNotFound
       | Some rows \<Rightarrow> Inr (db\<lparr>sdSurveys := rows\<rparr>))"

definition SetCurrentVersion :: "sv_env \<Rightarrow> uuid option \<Rightarrow> survey_db \<Rightarrow> uuid \<Rightarrow> uuid \<Rightarrow> surveys_error + survey_db" where
  "SetCurrentVersion e scope db sid vid =
     stmt e StSetCurrent
      (case update_rows (\<lambda>r. srID r = sid \<and> sees scope (srTenantID r))
          (\<lambda>r. r\<lparr>srCurrentVersionID := Some vid, srUpdatedAt := sxTxNow e\<rparr>) (sdSurveys db) of
         None \<Rightarrow> Inl ErrNotFound
       | Some rows \<Rightarrow> if vid \<notin> vwID ` set (sdVersions db) then Inl ErrStorage else Inr (db\<lparr>sdSurveys := rows\<rparr>))"

section \<open>The version store\<close>

definition scanVersion :: "version_row \<Rightarrow> Version" where
  "scanVersion r = \<lparr>veID = vwID r, veSurveyID = vwSurveyID r, veMajor = vwMajor r, veMinor = vwMinor r, veSchema = vwSchema r, veIsActive = vwIsActive r,
     veCreatedAt = vwCreatedAt r, veCreatedBy = (case vwCreatedBy r of None \<Rightarrow> uuid_Nil | Some u \<Rightarrow> u), veActivatedAt = vwActivatedAt r\<rparr>"

definition versions_of :: "uuid option \<Rightarrow> survey_db \<Rightarrow> uuid \<Rightarrow> version_row list" where
  "versions_of scope db sid = filter (\<lambda>r. vwSurveyID r = sid \<and> sees scope (vwTenantID r)) (sdVersions db)"

definition tenantIDForSurvey :: "sv_env \<Rightarrow> uuid option \<Rightarrow> survey_db \<Rightarrow> uuid \<Rightarrow> surveys_error + uuid" where
  "tenantIDForSurvey e scope db sid =
     stmt e StTenant (case find (\<lambda>r. srID r = sid \<and> sees scope (srTenantID r)) (sdSurveys db) of None \<Rightarrow> Inl ErrNotFound | Some r \<Rightarrow> Inr (srTenantID r))"

text \<open>\<open>J\<close> is the cast to \<open>jsonb\<close>, which may refuse a text. The columns of the numbers have 32 bits.\<close>

definition version_Insert :: "(string \<Rightarrow> string option) \<Rightarrow> sv_env \<Rightarrow> uuid option \<Rightarrow> survey_db \<Rightarrow> Version \<Rightarrow> surveys_error + Version \<times> survey_db" where
  "version_Insert J e scope db v =
     bindE (tenantIDForSurvey e scope db (veSurveyID v)) (\<lambda>tenantID.
       stmt e StInsertVersion
        (case J (veSchema v) of
           None \<Rightarrow> Inl ErrStorage
         | Some schema \<Rightarrow>
           let row = \<lparr>vwID = sxFresh e, vwTenantID = tenantID, vwSurveyID = veSurveyID v, vwMajor = veMajor v, vwMinor = veMinor v, vwSchema = schema,
                 vwIsActive = veIsActive v, vwCreatedAt = sxTxNow e, vwCreatedBy = created_by (veCreatedBy v), vwActivatedAt = veActivatedAt v\<rparr>
           in if vwMajor row \<ge> 2 ^ 31 \<or> vwMinor row \<ge> 2 ^ 31 \<or> \<not> known_user db (vwCreatedBy row) \<or> vwID row \<in> vwID ` set (sdVersions db) \<or>
                 (\<exists>r \<in> set (sdVersions db). vwSurveyID r = vwSurveyID row \<and> (vwMajor r = vwMajor row \<and> vwMinor r = vwMinor row \<or> vwIsActive r \<and> vwIsActive row))
              then Inl ErrStorage
              else Inr (scanVersion row, db\<lparr>sdVersions := sdVersions db @ [row]\<rparr>)))"

definition version_GetByID :: "sv_env \<Rightarrow> uuid option \<Rightarrow> survey_db \<Rightarrow> uuid \<Rightarrow> surveys_error + Version" where
  "version_GetByID e scope db i =
     stmt e StGetVersion (case find (\<lambda>r. vwID r = i \<and> sees scope (vwTenantID r)) (sdVersions db) of None \<Rightarrow> Inl ErrVersionNotFound | Some r \<Rightarrow> Inr (scanVersion r))"

definition GetActive :: "sv_env \<Rightarrow> uuid option \<Rightarrow> survey_db \<Rightarrow> uuid \<Rightarrow> surveys_error + Version" where
  "GetActive e scope db sid =
     stmt e StGetActive (case find vwIsActive (versions_of scope db sid) of None \<Rightarrow> Inl ErrNoActiveVersion | Some r \<Rightarrow> Inr (scanVersion r))"

definition version_List :: "sv_env \<Rightarrow> uuid option \<Rightarrow> survey_db \<Rightarrow> uuid \<Rightarrow> surveys_error + Version list" where
  "version_List e scope db sid =
     stmt e StListVersions (Inr (map scanVersion
       (sort_key (\<lambda>r. - vwMajor r) (sort_key (\<lambda>r. - vwMinor r) (sort_key (\<lambda>r. - vwCreatedAt r) (versions_of scope db sid))))))"

definition LatestMajor :: "sv_env \<Rightarrow> uuid option \<Rightarrow> survey_db \<Rightarrow> uuid \<Rightarrow> surveys_error + int" where
  "LatestMajor e scope db sid = stmt e StLatestMajor (Inr (case map vwMajor (versions_of scope db sid) of [] \<Rightarrow> 0 | m # ms \<Rightarrow> Max (set (m # ms))))"

definition LatestMinor :: "sv_env \<Rightarrow> uuid option \<Rightarrow> survey_db \<Rightarrow> uuid \<Rightarrow> int \<Rightarrow> surveys_error + int" where
  "LatestMinor e scope db sid major =
     stmt e StLatestMinor (Inr (case map vwMinor (filter (\<lambda>r. vwMajor r = major) (versions_of scope db sid)) of [] \<Rightarrow> - 1 | m # ms \<Rightarrow> Max (set (m # ms))))"

definition DeactivateAll :: "sv_env \<Rightarrow> uuid option \<Rightarrow> survey_db \<Rightarrow> uuid \<Rightarrow> surveys_error + survey_db" where
  "DeactivateAll e scope db sid =
     stmt e StDeactivate (Inr (db\<lparr>sdVersions :=
       map (\<lambda>r. if vwSurveyID r = sid \<and> sees scope (vwTenantID r) \<and> vwIsActive r then r\<lparr>vwIsActive := False\<rparr> else r) (sdVersions db)\<rparr>))"

text \<open>The partial unique index refuses a second active version of a survey.\<close>

definition version_Activate :: "sv_env \<Rightarrow> uuid option \<Rightarrow> survey_db \<Rightarrow> uuid \<Rightarrow> time \<Rightarrow> surveys_error + survey_db" where
  "version_Activate e scope db vid at_time =
     stmt e StActivate
      (case find (\<lambda>r. vwID r = vid \<and> sees scope (vwTenantID r)) (sdVersions db) of
         None \<Rightarrow> Inl ErrVersionNotFound
       | Some v \<Rightarrow>
         if \<exists>r \<in> set (sdVersions db). vwSurveyID r = vwSurveyID v \<and> vwIsActive r \<and> vwID r \<noteq> vid then Inl ErrStorage
         else Inr (db\<lparr>sdVersions := map (\<lambda>r. if vwID r = vid then r\<lparr>vwIsActive := True, vwActivatedAt := Some at_time\<rparr> else r) (sdVersions db)\<rparr>))"

section \<open>The service\<close>

definition maxNameLength :: nat where
  "maxNameLength = 200"

definition maxDescriptionLength :: nat where
  "maxDescriptionLength = 4096"

definition validateCreateInput :: "CreateSurveyInput \<Rightarrow> surveys_error + unit" where
  "validateCreateInput inp =
     (if TrimSpace (csName inp) = '''' then Inl ErrInvalidArgument
      else if length (csName inp) > maxNameLength then Inl ErrInvalidArgument
      else if length (csDescription inp) > maxDescriptionLength then Inl ErrInvalidArgument
      else Inr ())"

definition validateUpdateInput :: "SurveyPatch \<Rightarrow> surveys_error + unit" where
  "validateUpdateInput p =
     (if (case ptName p of None \<Rightarrow> False | Some n \<Rightarrow> TrimSpace n = '''' \<or> length n > maxNameLength) then Inl ErrInvalidArgument
      else if (case ptDescription p of None \<Rightarrow> False | Some d \<Rightarrow> length d > maxDescriptionLength) then Inl ErrInvalidArgument
      else if (case ptPrimaryMode p of None \<Rightarrow> False | Some m \<Rightarrow> m \<noteq> ModeForm \<and> m \<noteq> ModeFlow) then Inl ErrInvalidArgument
      else Inr ())"

definition audit_of :: "sv_env \<Rightarrow> uuid \<Rightarrow> sv_action \<Rightarrow> uuid \<Rightarrow> sv_audit" where
  "audit_of e t act target = \<lparr>saTenantID = t, saAction = act, saTarget = target, saActorID = actorIDFromContext e, saTimestamp = sxNow e\<rparr>"

definition writeAudit :: "call_outcome \<Rightarrow> sv_audit \<Rightarrow> sv_world \<Rightarrow> (surveys_error + unit) \<times> sv_world" where
  "writeAudit out row w =
     (case out of
        CallOk \<Rightarrow> (Inr (), w\<lparr>swAudit := swAudit w @ [row]\<rparr>)
      | CallLost \<Rightarrow> (Inl ErrStorage, w)
      | ReplyLost \<Rightarrow> (Inl ErrStorage, w\<lparr>swAudit := swAudit w @ [row]\<rparr>))"

text \<open>
  \<open>WithTenant\<close> and \<open>BypassRLS\<close> around the statements of a method: their result with the new tables and
  the audit row that the method writes last, before the commit.
\<close>

definition transact :: "sv_env \<Rightarrow> sv_world \<Rightarrow> surveys_error + 'a \<times> survey_db \<times> sv_audit option \<Rightarrow> (surveys_error + 'a) \<times> sv_world" where
  "transact e w body =
     (if \<not> sxOk e StBegin then (Inl ErrStorage, w)
      else case body of
             Inl err \<Rightarrow> (Inl err, w)
           | Inr (x, db, row) \<Rightarrow>
             (case (case row of None \<Rightarrow> (Inr (), w) | Some row \<Rightarrow> writeAudit (sxAudit e) row w) of
                (Inl err, w1) \<Rightarrow> (Inl err, w1)
              | (Inr _, w1) \<Rightarrow>
                (case sxCommit e of
                   CallOk \<Rightarrow> (Inr x, w1\<lparr>swDb := db\<rparr>)
                 | CallLost \<Rightarrow> (Inl ErrStorage, w1)
                 | ReplyLost \<Rightarrow> (Inl ErrStorage, w1\<lparr>swDb := db\<rparr>))))"

text \<open>A failed publication is audited, without a tenant; the result of that audit write is ignored.\<close>

definition publishEvent :: "sv_env \<Rightarrow> sv_event \<Rightarrow> sv_world \<Rightarrow> sv_world" where
  "publishEvent e ev w =
     (let row = audit_of e uuid_Nil EventPublishError uuid_Nil in
      case sxPublish e of
        None \<Rightarrow> w
      | Some CallOk \<Rightarrow> w\<lparr>swBus := swBus w @ [ev]\<rparr>
      | Some CallLost \<Rightarrow> snd (writeAudit (sxPublishAudit e) row w)
      | Some ReplyLost \<Rightarrow> snd (writeAudit (sxPublishAudit e) row (w\<lparr>swBus := swBus w @ [ev]\<rparr>)))"

definition Create :: "sv_env \<Rightarrow> sv_world \<Rightarrow> CreateSurveyInput \<Rightarrow> (surveys_error + uuid) \<times> sv_world" where
  "Create e w inp =
     (case bindE (tenantIDFromContext e) (\<lambda>t. bindE (validateCreateInput inp) (\<lambda>_.
             let mode = (if csPrimaryMode inp = '''' then ModeForm else csPrimaryMode inp)
             in if mode \<noteq> ModeForm \<and> mode \<noteq> ModeFlow then Inl ErrInvalidArgument else Inr (t, mode))) of
        Inl err \<Rightarrow> (Inl err, w)
      | Inr (t, mode) \<Rightarrow>
        transact e w
         (bindE (survey_Insert e (Some t) (swDb w) \<lparr>syID = uuid_Nil, syTenantID = t, syName = csName inp, syDescription = csDescription inp,
              syPrimaryMode = mode, syStatus = StatusActive, syCreatedAt = 0, syUpdatedAt = 0,
              syCreatedBy = (case actorIDFromContext e of None \<Rightarrow> uuid_Nil | Some a \<Rightarrow> a)\<rparr>)
          (\<lambda>(saved, db). Inr (syID saved, db,
             Some (audit_of e (syTenantID saved) (SurveyCreated (syName saved) (syDescription saved) (syPrimaryMode saved)) (syID saved))))))"

text \<open>Methods that only read: \<open>f\<close> is given the tenant of the context.\<close>

definition read_as :: "sv_env \<Rightarrow> bool \<Rightarrow> (uuid \<Rightarrow> surveys_error + 'a) \<Rightarrow> surveys_error + 'a" where
  "read_as e bad f =
     (if bad then Inl ErrInvalidArgument
      else bindE (tenantIDFromContext e) (\<lambda>t.
        if \<not> sxOk e StBegin then Inl ErrStorage
        else bindE (f t) (\<lambda>x. if sxCommit e = CallOk then Inr x else Inl ErrStorage)))"

definition Get :: "sv_env \<Rightarrow> (sv_stmt \<Rightarrow> survey_db) \<Rightarrow> uuid \<Rightarrow> surveys_error + Survey" where
  "Get e vw i = read_as e (i = uuid_Nil) (\<lambda>t. survey_GetByID e (Some t) (vw StGetSurvey) i)"

definition lookupSurvey :: "sv_env \<Rightarrow> (sv_stmt \<Rightarrow> survey_db) \<Rightarrow> uuid \<Rightarrow> surveys_error + Survey" where
  "lookupSurvey e vw i =
     (if \<not> sxOk e StBegin then Inl ErrStorage
      else bindE (survey_GetByID e None (vw StGetSurvey) i) (\<lambda>sv. if sxCommit e = CallOk then Inr sv else Inl ErrStorage))"

definition ResolveTenant :: "sv_env \<Rightarrow> (sv_stmt \<Rightarrow> survey_db) \<Rightarrow> uuid \<Rightarrow> surveys_error + uuid" where
  "ResolveTenant e vw i = (if i = uuid_Nil then Inl ErrIDRequired else bindE (lookupSurvey e vw i) (\<lambda>sv. Inr (syTenantID sv)))"

definition service_List :: "case_folding \<Rightarrow> sv_env \<Rightarrow> (sv_stmt \<Rightarrow> survey_db) \<Rightarrow> ListFilter \<Rightarrow> surveys_error + Survey list" where
  "service_List F e vw f =
     (let limit = (if lfLimit f \<le> 0 then 50 else lfLimit f);
          limit = (if limit > 500 then 500 else limit);
          offset = (if lfOffset f < 0 then 0 else lfOffset f)
      in read_as e False (\<lambda>t. bindE (survey_List F e (Some t) vw (f\<lparr>lfLimit := limit, lfOffset := offset\<rparr>)) (\<lambda>(rows, _). Inr rows)))"

definition service_Update :: "sv_env \<Rightarrow> (sv_stmt \<Rightarrow> survey_db) \<Rightarrow> sv_world \<Rightarrow> uuid \<Rightarrow> SurveyPatch \<Rightarrow> (surveys_error + unit) \<times> sv_world" where
  "service_Update e vw w i patch =
     (if i = uuid_Nil then (Inl ErrInvalidArgument, w)
      else case bindE (validateUpdateInput patch) (\<lambda>_. tenantIDFromContext e) of
             Inl err \<Rightarrow> (Inl err, w)
           | Inr t \<Rightarrow>
             transact e w
              (bindE (survey_GetByID e (Some t) (vw StGetSurvey) i) (\<lambda>cur.
                 if syStatus cur = StatusArchived then Inl ErrSurveyArchived
                 else if IsEmpty patch then Inr ((), swDb w, None)
                 else bindE (survey_Update e (Some t) (swDb w) i patch) (\<lambda>(saved, db).
                        Inr ((), db, Some (audit_of e (syTenantID saved) (SurveyUpdated patch) (syID saved)))))))"

definition service_Archive :: "sv_env \<Rightarrow> (sv_stmt \<Rightarrow> survey_db) \<Rightarrow> sv_world \<Rightarrow> uuid \<Rightarrow> (surveys_error + unit) \<times> sv_world" where
  "service_Archive e vw w i =
     (if i = uuid_Nil then (Inl ErrInvalidArgument, w)
      else case tenantIDFromContext e of
             Inl err \<Rightarrow> (Inl err, w)
           | Inr t \<Rightarrow>
             transact e w
              (bindE (survey_GetByID e (Some t) (vw StGetSurvey) i) (\<lambda>cur.
                 if syStatus cur = StatusArchived then Inr ((), swDb w, None)
                 else bindE (survey_Archive e (Some t) (swDb w) i (sxNow e)) (\<lambda>db.
                        Inr ((), db, Some (audit_of e t (SurveyArchived (syStatus cur)) i))))))"

section \<open>Versions\<close>

definition computeNextVersion :: "sv_env \<Rightarrow> uuid option \<Rightarrow> (sv_stmt \<Rightarrow> survey_db) \<Rightarrow> uuid \<Rightarrow> bool \<Rightarrow> surveys_error + int \<times> int" where
  "computeNextVersion e scope vw sid minor =
     bindE (LatestMajor e scope (vw StLatestMajor) sid) (\<lambda>latestMajor.
       if \<not> minor \<or> latestMajor = 0 then Inr (latestMajor + 1, 0)
       else bindE (LatestMinor e scope (vw StLatestMinor) sid latestMajor) (\<lambda>latestMinor.
              if latestMinor < 0 then Inr (latestMajor, 0) else Inr (latestMajor, latestMinor + 1)))"

text \<open>\<open>V\<close> is the validator; the result \<open>None\<close> is a call that never returns.\<close>

definition SaveVersion ::
  "(string \<Rightarrow> ValidationReport option) \<Rightarrow> (string \<Rightarrow> string option) \<Rightarrow> sv_env \<Rightarrow> (sv_stmt \<Rightarrow> survey_db) \<Rightarrow> sv_world \<Rightarrow> uuid \<Rightarrow> string \<Rightarrow> bool
   \<Rightarrow> ((surveys_error + Version) \<times> sv_world) option" where
  "SaveVersion V J e vw w sid schemaJSON minor =
     (if sid = uuid_Nil then Some (Inl ErrInvalidArgument, w)
      else if schemaJSON = '''' then Some (Inl ErrInvalidArgument, w)
      else case V schemaJSON of
             None \<Rightarrow> None
           | Some report \<Rightarrow>
             if \<not> vrValid report then Some (Inl (ErrValidation (convertReport report)), w)
             else case tenantIDFromContext e of
                    Inl err \<Rightarrow> Some (Inl err, w)
                  | Inr t \<Rightarrow>
                    (case transact e w
                        (bindE (survey_GetByID e (Some t) (vw StGetSurvey) sid) (\<lambda>cur.
                           if syStatus cur = StatusArchived then Inl ErrSurveyArchived
                           else bindE (computeNextVersion e (Some t) vw sid minor) (\<lambda>(ma, mi).
                                bindE (version_Insert J e (Some t) (swDb w) \<lparr>veID = uuid_Nil, veSurveyID = sid, veMajor = ma, veMinor = mi, veSchema = schemaJSON,
                                    veIsActive = False, veCreatedAt = 0, veCreatedBy = (case actorIDFromContext e of None \<Rightarrow> uuid_Nil | Some a \<Rightarrow> a),
                                    veActivatedAt = None\<rparr>)
                                 (\<lambda>(saved, db). Inr (saved, db, Some (audit_of e t (VersionSaved sid (veMajor saved) (veMinor saved)) (veID saved))))))) of
                       (Inl err, w1) \<Rightarrow> Some (Inl err, w1)
                     | (Inr saved, w1) \<Rightarrow> Some (Inr saved, publishEvent e (VersionSavedEvent t sid (veID saved) (veMajor saved) (veMinor saved)) w1)))"

definition captureCurrentActive :: "sv_env \<Rightarrow> uuid option \<Rightarrow> survey_db \<Rightarrow> uuid \<Rightarrow> uuid \<Rightarrow> surveys_error + uuid" where
  "captureCurrentActive e scope db sid vid =
     (case GetActive e scope db sid of
        Inr prev \<Rightarrow> if veID prev = vid then Inl ErrAlreadyActive else Inr (veID prev)
      | Inl ErrNoActiveVersion \<Rightarrow> Inr uuid_Nil
      | Inl err \<Rightarrow> Inl err)"

definition applyActivate :: "sv_env \<Rightarrow> uuid \<Rightarrow> survey_db \<Rightarrow> uuid \<Rightarrow> uuid \<Rightarrow> time \<Rightarrow> surveys_error + unit \<times> survey_db \<times> sv_audit option" where
  "applyActivate e t db sid vid at_time =
     bindE (stmt e StLock (Inr ())) (\<lambda>_.
     bindE (version_GetByID e (Some t) db vid) (\<lambda>target.
       if veSurveyID target \<noteq> sid then Inl ErrVersionNotFound
       else bindE (captureCurrentActive e (Some t) db sid vid) (\<lambda>prev.
            bindE (DeactivateAll e (Some t) db sid) (\<lambda>db.
            bindE (version_Activate e (Some t) db vid at_time) (\<lambda>db.
            bindE (SetCurrentVersion e (Some t) db sid vid) (\<lambda>db.
              Inr ((), db, Some (audit_of e t (VersionActivated sid vid prev) vid))))))))"

definition service_Activate :: "sv_env \<Rightarrow> (sv_stmt \<Rightarrow> survey_db) \<Rightarrow> sv_world \<Rightarrow> uuid \<Rightarrow> uuid \<Rightarrow> (surveys_error + unit) \<times> sv_world" where
  "service_Activate e vw w sid vid =
     (if sid = uuid_Nil \<or> vid = uuid_Nil then (Inl ErrInvalidArgument, w)
      else case tenantIDFromContext e of
             Inl err \<Rightarrow> (Inl err, w)
           | Inr t \<Rightarrow>
             (case transact e w
                 (bindE (survey_GetByID e (Some t) (vw StGetSurvey) sid) (\<lambda>cur.
                    if syStatus cur = StatusArchived then Inl ErrSurveyArchived
                    else applyActivate e t (swDb w) sid vid (sxNow e))) of
                (Inl ErrAlreadyActive, w1) \<Rightarrow> (Inr (), w1)
              | (Inl err, w1) \<Rightarrow> (Inl err, w1)
              | (Inr _, w1) \<Rightarrow> (Inr (), publishEvent e (VersionActivatedEvent t sid vid) w1)))"

definition GetActiveVersion :: "sv_env \<Rightarrow> (sv_stmt \<Rightarrow> survey_db) \<Rightarrow> uuid \<Rightarrow> surveys_error + Version" where
  "GetActiveVersion e vw sid =
     read_as e (sid = uuid_Nil) (\<lambda>t. bindE (survey_GetByID e (Some t) (vw StGetSurvey) sid) (\<lambda>_. GetActive e (Some t) (vw StGetActive) sid))"

definition ListVersions :: "sv_env \<Rightarrow> (sv_stmt \<Rightarrow> survey_db) \<Rightarrow> uuid \<Rightarrow> surveys_error + Version list" where
  "ListVersions e vw sid =
     read_as e (sid = uuid_Nil) (\<lambda>t. bindE (survey_GetByID e (Some t) (vw StGetSurvey) sid) (\<lambda>_. version_List e (Some t) (vw StListVersions) sid))"

section \<open>Runs\<close>

text \<open>The methods that write, in the order in which they commit, with whatever their reads saw before.\<close>

datatype sv_op =
    OpCreate sv_env CreateSurveyInput
  | OpUpdate sv_env "sv_stmt \<Rightarrow> survey_db" uuid SurveyPatch
  | OpArchive sv_env "sv_stmt \<Rightarrow> survey_db" uuid
  | OpSave sv_env "sv_stmt \<Rightarrow> survey_db" uuid string bool
  | OpActivate sv_env "sv_stmt \<Rightarrow> survey_db" uuid uuid

fun sv_do :: "(string \<Rightarrow> ValidationReport option) \<Rightarrow> (string \<Rightarrow> string option) \<Rightarrow> sv_op \<Rightarrow> sv_world \<Rightarrow> sv_world" where
  "sv_do V J (OpCreate e inp) w = snd (Create e w inp)"
| "sv_do V J (OpUpdate e vw i p) w = snd (service_Update e vw w i p)"
| "sv_do V J (OpArchive e vw i) w = snd (service_Archive e vw w i)"
| "sv_do V J (OpSave e vw sid schema minor) w = (case SaveVersion V J e vw w sid schema minor of None \<Rightarrow> w | Some (_, w') \<Rightarrow> w')"
| "sv_do V J (OpActivate e vw sid vid) w = snd (service_Activate e vw w sid vid)"

end
