(* ===== verification/Survey_Versions.thy ===== *)
theory Survey_Versions
  imports Survey_Service
begin

text \<open>
  What the survey service keeps, whatever its calls and their interleaving: an invariant of the two
  tables, that saved versions never change, the numbering of versions, and that a published version
  has been accepted by the validator.
\<close>

section \<open>Runs\<close>

fun op_view :: "sv_op \<Rightarrow> sv_stmt \<Rightarrow> survey_db \<Rightarrow> survey_db" where
  "op_view (OpCreate e inp) s db = db"
| "op_view (OpUpdate e vw i p) s db = vw s"
| "op_view (OpArchive e vw i) s db = vw s"
| "op_view (OpSave e vw sid schema minor) s db = vw s"
| "op_view (OpActivate e vw sid vid) s db = vw s"

text \<open>The worlds of a run, the latest first; a call's reads see states of the past.\<close>

inductive sv_run :: "(string \<Rightarrow> ValidationReport option) \<Rightarrow> (string \<Rightarrow> string option) \<Rightarrow> sv_world list \<Rightarrow> bool" for V J where
  start: "sdSurveys (swDb w) = [] \<Longrightarrow> sdVersions (swDb w) = [] \<Longrightarrow> sv_run V J [w]"
| step: "sv_run V J (w # ws) \<Longrightarrow> (\<And>s. op_view op s (swDb w) \<in> swDb ` set (w # ws)) \<Longrightarrow> sv_run V J (sv_do V J op w # w # ws)"

inductive_cases sv_run_NilE: "sv_run V J []"

lemma swDb_publish [simp]: "swDb (publishEvent e ev w) = swDb w"
  by (simp add: publishEvent_def writeAudit_def Let_def split: option.splits call_outcome.splits)

lemma transact_db: "swDb (snd (transact e w body)) = swDb w \<or> (\<exists>x row. body = Inr (x, swDb (snd (transact e w body)), row))"
proof (cases body)
  case (Inr r)
  then show ?thesis
    by (cases r) (auto simp: transact_def writeAudit_def split: option.splits call_outcome.splits)
qed (simp add: transact_def)

lemma transact_Inr: "transact e w body = (Inr x, w') \<Longrightarrow> \<exists>row. body = Inr (x, swDb w', row)"
proof (cases body)
  case (Inr r)
  then show "transact e w body = (Inr x, w') \<Longrightarrow> \<exists>row. body = Inr (x, swDb w', row)"
    by (cases r) (auto simp: transact_def writeAudit_def split: option.splits call_outcome.splits if_splits)
qed (simp add: transact_def split: if_splits)

lemma transact_outcome:
  assumes "transact e w body = (r, w')"
  shows "swDb w' = swDb w \<and> isl r \<or> (\<exists>x row. body = Inr (x, swDb w', row) \<and> (r = Inr x \<or> isl r))"
proof (cases r)
  case (Inl err)
  then show ?thesis using transact_db [of e w body] assms by auto
next
  case (Inr x)
  then show ?thesis using transact_Inr assms by metis
qed

lemma stmt_Inr [simp]: "stmt e s r = Inr x \<longleftrightarrow> sxOk e s \<and> r = Inr x"
  by (simp add: stmt_def)

section \<open>Steps of the tables\<close>

text \<open>What a call does to the two tables.\<close>

definition same_survey :: "survey_row \<Rightarrow> survey_row \<Rightarrow> bool" where
  "same_survey r r' \<longleftrightarrow> srID r' = srID r \<and> srTenantID r' = srTenantID r \<and> srCreatedAt r' = srCreatedAt r \<and> srCurrentVersionID r' = srCurrentVersionID r \<and>
     (srPrimaryMode r \<in> {ModeForm, ModeFlow} \<longrightarrow> srPrimaryMode r' \<in> {ModeForm, ModeFlow}) \<and>
     (srStatus r' = srStatus r \<and> srArchivedAt r' = srArchivedAt r \<or> srStatus r' = StatusArchived \<and> srArchivedAt r' \<noteq> None)"

inductive db_step :: "(string \<Rightarrow> ValidationReport option) \<Rightarrow> (string \<Rightarrow> string option) \<Rightarrow> survey_db \<Rightarrow> survey_db \<Rightarrow> bool" for V J db where
  stay: "db_step V J db db"
| create: "srID row \<notin> srID ` set (sdSurveys db) \<Longrightarrow> srCurrentVersionID row = None \<Longrightarrow> srStatus row = StatusActive \<Longrightarrow> srArchivedAt row = None \<Longrightarrow>
     srPrimaryMode row \<in> {ModeForm, ModeFlow} \<Longrightarrow> db_step V J db (db\<lparr>sdSurveys := sdSurveys db @ [row]\<rparr>)"
| edit: "(\<And>r. r \<in> set (sdSurveys db) \<Longrightarrow> same_survey r (f r)) \<Longrightarrow> db_step V J db (db\<lparr>sdSurveys := map f (sdSurveys db)\<rparr>)"
| save: "vwID row \<notin> vwID ` set (sdVersions db) \<Longrightarrow> \<not> vwIsActive row \<Longrightarrow> s \<in> set (sdSurveys db) \<Longrightarrow> srID s = vwSurveyID row \<Longrightarrow> srTenantID s = vwTenantID row \<Longrightarrow>
     (\<And>r. r \<in> set (sdVersions db) \<Longrightarrow> vwSurveyID r = vwSurveyID row \<Longrightarrow> (vwMajor r, vwMinor r) \<noteq> (vwMajor row, vwMinor row)) \<Longrightarrow>
     1 \<le> vwMajor row \<Longrightarrow> 0 \<le> vwMinor row \<Longrightarrow>
     V schema = Some report \<Longrightarrow> vrValid report \<Longrightarrow> J schema = Some (vwSchema row) \<Longrightarrow> db_step V J db (db\<lparr>sdVersions := sdVersions db @ [row]\<rparr>)"
| activate: "s \<in> set (sdSurveys db) \<Longrightarrow> v \<in> set (sdVersions db) \<Longrightarrow> vwSurveyID v = srID s \<Longrightarrow> srTenantID s = vwTenantID v \<Longrightarrow>
     db_step V J db (db\<lparr>sdVersions := map (\<lambda>r. if vwID r = vwID v then r\<lparr>vwIsActive := True, vwActivatedAt := Some t\<rparr>
         else if vwSurveyID r = vwSurveyID v then r\<lparr>vwIsActive := False\<rparr> else r) (sdVersions db),
       sdSurveys := map (\<lambda>r. if srID r = srID s then r\<lparr>srCurrentVersionID := Some (vwID v), srUpdatedAt := now\<rparr> else r) (sdSurveys db)\<rparr>)"

text \<open>The invariant of the two tables.\<close>

definition survey_row_ok :: "survey_db \<Rightarrow> survey_row \<Rightarrow> bool" where
  "survey_row_ok db s \<longleftrightarrow> srPrimaryMode s \<in> {ModeForm, ModeFlow} \<and> srStatus s \<in> {StatusActive, StatusArchived} \<and>
     (srStatus s = StatusArchived \<longleftrightarrow> srArchivedAt s \<noteq> None) \<and>
     (\<forall>i. srCurrentVersionID s = Some i \<longleftrightarrow> (\<exists>v \<in> set (sdVersions db). vwID v = i \<and> vwSurveyID v = srID s \<and> vwIsActive v))"

definition version_row_ok :: "(string \<Rightarrow> ValidationReport option) \<Rightarrow> (string \<Rightarrow> string option) \<Rightarrow> survey_db \<Rightarrow> version_row \<Rightarrow> bool" where
  "version_row_ok V J db v \<longleftrightarrow> 1 \<le> vwMajor v \<and> 0 \<le> vwMinor v \<and>
     (\<exists>s \<in> set (sdSurveys db). srID s = vwSurveyID v \<and> srTenantID s = vwTenantID v) \<and>
     (\<exists>schema report. V schema = Some report \<and> vrValid report \<and> J schema = Some (vwSchema v))"

text \<open>Two versions of one survey that are both active or have one number.\<close>

definition clash :: "version_row \<Rightarrow> version_row \<Rightarrow> bool" where
  "clash v v' \<longleftrightarrow> vwSurveyID v' = vwSurveyID v \<and> (vwIsActive v \<and> vwIsActive v' \<or> vwMajor v' = vwMajor v \<and> vwMinor v' = vwMinor v)"

definition versions_ok :: "(string \<Rightarrow> ValidationReport option) \<Rightarrow> (string \<Rightarrow> string option) \<Rightarrow> survey_db \<Rightarrow> bool" where
  "versions_ok V J db \<longleftrightarrow>
     distinct (map srID (sdSurveys db)) \<and> distinct (map vwID (sdVersions db)) \<and>
     (\<forall>s \<in> set (sdSurveys db). survey_row_ok db s) \<and> (\<forall>v \<in> set (sdVersions db). version_row_ok V J db v) \<and>
     (\<forall>v \<in> set (sdVersions db). \<forall>v' \<in> set (sdVersions db). clash v v' \<longrightarrow> v' = v)"

lemma versions_okD:
  assumes "versions_ok V J db"
  shows "distinct (map srID (sdSurveys db))" "distinct (map vwID (sdVersions db))" "s \<in> set (sdSurveys db) \<Longrightarrow> survey_row_ok db s"
    "v \<in> set (sdVersions db) \<Longrightarrow> version_row_ok V J db v" "v \<in> set (sdVersions db) \<Longrightarrow> v' \<in> set (sdVersions db) \<Longrightarrow> clash v v' \<Longrightarrow> v' = v"
  using assms by (auto simp: versions_ok_def)

lemma versions_okI:
  assumes "distinct (map srID (sdSurveys db))" "distinct (map vwID (sdVersions db))" "\<And>s. s \<in> set (sdSurveys db) \<Longrightarrow> survey_row_ok db s"
    "\<And>v. v \<in> set (sdVersions db) \<Longrightarrow> version_row_ok V J db v" "\<And>v v'. v \<in> set (sdVersions db) \<Longrightarrow> v' \<in> set (sdVersions db) \<Longrightarrow> clash v v' \<Longrightarrow> v' = v"
  shows "versions_ok V J db"
  using assms by (auto simp: versions_ok_def)

text \<open>What never changes in a version.\<close>

definition content :: "version_row \<Rightarrow> uuid \<times> uuid \<times> uuid \<times> int \<times> int \<times> string" where
  "content v = (vwID v, vwTenantID v, vwSurveyID v, vwMajor v, vwMinor v, vwSchema v)"

lemma step_content: "db_step V J db db' \<Longrightarrow> \<exists>new. map content (sdVersions db') = map content (sdVersions db) @ new"
proof (induction rule: db_step.induct)
  case (activate s v now t)
  show ?case by (rule exI [of _ "[]"]) (auto simp: content_def)
qed auto

lemma ok_create:
  assumes ok: "versions_ok V J db" and row: "srID row \<notin> srID ` set (sdSurveys db)" "srCurrentVersionID row = None" "srStatus row = StatusActive" "srArchivedAt row = None"
    "srPrimaryMode row \<in> {ModeForm, ModeFlow}"
  shows "versions_ok V J (db\<lparr>sdSurveys := sdSurveys db @ [row]\<rparr>)"
proof -
  have "vwSurveyID v \<noteq> srID row" if "v \<in> set (sdVersions db)" for v using versions_okD(4) [OF ok that] row(1) by (metis image_eqI version_row_ok_def)
  then have new: "survey_row_ok db row" using row by (auto simp: survey_row_ok_def StatusActive_def StatusArchived_def)
  show ?thesis
    by (rule versions_okI) (use versions_okD [OF ok] row(1) new in \<open>auto simp: survey_row_ok_def version_row_ok_def\<close>)
qed

lemma ok_edit:
  assumes ok: "versions_ok V J db" and f: "\<And>r. r \<in> set (sdSurveys db) \<Longrightarrow> same_survey r (f r)"
  shows "versions_ok V J (db\<lparr>sdSurveys := map f (sdSurveys db)\<rparr>)"
proof (rule versions_okI)
  have ids: "map (srID \<circ> f) (sdSurveys db) = map srID (sdSurveys db)" using f by (simp add: same_survey_def)
  show "distinct (map srID (sdSurveys (db\<lparr>sdSurveys := map f (sdSurveys db)\<rparr>)))" using versions_okD(1) [OF ok] by (simp add: ids)
  show "survey_row_ok (db\<lparr>sdSurveys := map f (sdSurveys db)\<rparr>) s" if mem: "s \<in> set (sdSurveys (db\<lparr>sdSurveys := map f (sdSurveys db)\<rparr>))" for s
  proof -
    obtain r where r: "r \<in> set (sdSurveys db)" "s = f r" using mem by auto
    show ?thesis using f [OF r(1)] versions_okD(3) [OF ok r(1)] unfolding r(2) by (auto simp: survey_row_ok_def same_survey_def)
  qed
  show "version_row_ok V J (db\<lparr>sdSurveys := map f (sdSurveys db)\<rparr>) v" if "v \<in> set (sdVersions (db\<lparr>sdSurveys := map f (sdSurveys db)\<rparr>))" for v
    using that f versions_okD(4) [OF ok] by (fastforce simp: version_row_ok_def same_survey_def)
qed (use versions_okD [OF ok] in auto)

lemma ok_save:
  assumes ok: "versions_ok V J db" and row: "vwID row \<notin> vwID ` set (sdVersions db)" "\<not> vwIsActive row" "s \<in> set (sdSurveys db)" "srID s = vwSurveyID row" "srTenantID s = vwTenantID row"
    "\<And>r. r \<in> set (sdVersions db) \<Longrightarrow> vwSurveyID r = vwSurveyID row \<Longrightarrow> (vwMajor r, vwMinor r) \<noteq> (vwMajor row, vwMinor row)"
    "1 \<le> vwMajor row" "0 \<le> vwMinor row" "V schema = Some report" "vrValid report" "J schema = Some (vwSchema row)"
  shows "versions_ok V J (db\<lparr>sdVersions := sdVersions db @ [row]\<rparr>)"
proof (rule versions_okI)
  show "survey_row_ok (db\<lparr>sdVersions := sdVersions db @ [row]\<rparr>) r" if "r \<in> set (sdSurveys (db\<lparr>sdVersions := sdVersions db @ [row]\<rparr>))" for r
    using versions_okD(3) [OF ok, of r] row(2) that by (auto simp: survey_row_ok_def)
  have "version_row_ok V J db row" using row by (auto simp: version_row_ok_def)
  then show "version_row_ok V J (db\<lparr>sdVersions := sdVersions db @ [row]\<rparr>) v" if "v \<in> set (sdVersions (db\<lparr>sdVersions := sdVersions db @ [row]\<rparr>))" for v
    using versions_okD(4) [OF ok, of v] that by (auto simp: version_row_ok_def)
  have "\<not> clash v row \<and> \<not> clash row v" if "v \<in> set (sdVersions db)" for v using row(2) row(6) [OF that] by (auto simp: clash_def)
  then show "v' = v" if "v \<in> set (sdVersions (db\<lparr>sdVersions := sdVersions db @ [row]\<rparr>))" "v' \<in> set (sdVersions (db\<lparr>sdVersions := sdVersions db @ [row]\<rparr>))" "clash v v'" for v v'
    using versions_okD(5) [OF ok, of v v'] that by auto
qed (use versions_okD [OF ok] row(1) in auto)

lemma ok_activate:
  fixes t now :: time
  assumes ok: "versions_ok V J db" and v: "s \<in> set (sdSurveys db)" "v \<in> set (sdVersions db)" "vwSurveyID v = srID s" "srTenantID s = vwTenantID v"
  defines "g \<equiv> \<lambda>r. if vwID r = vwID v then r\<lparr>vwIsActive := True, vwActivatedAt := Some t\<rparr> else if vwSurveyID r = vwSurveyID v then r\<lparr>vwIsActive := False\<rparr> else r"
    and "f \<equiv> \<lambda>r. if srID r = srID s then r\<lparr>srCurrentVersionID := Some (vwID v), srUpdatedAt := now\<rparr> else r"
  shows "versions_ok V J (db\<lparr>sdVersions := map g (sdVersions db), sdSurveys := map f (sdSurveys db)\<rparr>)" (is "versions_ok V J ?db")
proof -
  have g: "vwID (g r) = vwID r" "vwSurveyID (g r) = vwSurveyID r" "vwTenantID (g r) = vwTenantID r" "vwMajor (g r) = vwMajor r" "vwMinor (g r) = vwMinor r"
    "vwSchema (g r) = vwSchema r" for r by (simp_all add: g_def)
  have f: "srID (f r) = srID r" "srTenantID (f r) = srTenantID r" "srPrimaryMode (f r) = srPrimaryMode r" "srStatus (f r) = srStatus r" "srArchivedAt (f r) = srArchivedAt r"
    "srCurrentVersionID (f r) = (if srID r = srID s then Some (vwID v) else srCurrentVersionID r)" for r by (simp_all add: f_def)
  have inj: "r = v" if "r \<in> set (sdVersions db)" "vwID r = vwID v" for r using versions_okD(2) [OF ok] v(2) that by (auto simp: distinct_map inj_on_def)
  have act: "vwIsActive (g r) \<longleftrightarrow> (if vwSurveyID r = srID s then r = v else vwIsActive r)" if "r \<in> set (sdVersions db)" for r
    using inj [OF that] v(3) by (auto simp: g_def)
  have "(\<exists>r \<in> set (sdVersions db). vwID r = i \<and> vwSurveyID r = j \<and> vwIsActive (g r)) \<longleftrightarrow>
      (if j = srID s then i = vwID v else \<exists>r \<in> set (sdVersions db). vwID r = i \<and> vwSurveyID r = j \<and> vwIsActive r)" for i j
    using v(2,3) act by (cases "j = srID s") (auto cong: bex_cong)
  then have cur: "(\<exists>r \<in> set (sdVersions ?db). vwID r = i \<and> vwSurveyID r = j \<and> vwIsActive r) \<longleftrightarrow>
      (if j = srID s then i = vwID v else \<exists>r \<in> set (sdVersions db). vwID r = i \<and> vwSurveyID r = j \<and> vwIsActive r)" for i j by (simp add: g)
  show ?thesis
  proof (rule versions_okI)
    show "distinct (map srID (sdSurveys ?db))" "distinct (map vwID (sdVersions ?db))" using versions_okD(1,2) [OF ok] by (simp_all add: g f comp_def)
    show "survey_row_ok ?db r" if mem: "r \<in> set (sdSurveys ?db)" for r
    proof -
      obtain r0 where r: "r0 \<in> set (sdSurveys db)" "r = f r0" using mem by auto
      show ?thesis using versions_okD(3) [OF ok r(1)] v unfolding r(2) survey_row_ok_def cur f by auto
    qed
    show "version_row_ok V J ?db r" if "r \<in> set (sdVersions ?db)" for r
      using that versions_okD(4) [OF ok] by (auto simp: version_row_ok_def g f)
    show "r' = r" if "r \<in> set (sdVersions ?db)" "r' \<in> set (sdVersions ?db)" "clash r r'" for r r'
      using that versions_okD(5) [OF ok] by (auto simp: clash_def g act split: if_splits) (metis clash_def)+
  qed
qed

lemma step_ok: "versions_ok V J db \<Longrightarrow> db_step V J db db' \<Longrightarrow> versions_ok V J db'"
  by (erule db_step.cases) (auto intro: ok_create ok_edit ok_save ok_activate)

section \<open>Every call is a step\<close>

lemma distinct_key_eq: "distinct (map k xs) \<Longrightarrow> x \<in> set xs \<Longrightarrow> y \<in> set xs \<Longrightarrow> k x = k y \<Longrightarrow> x = y"
  by (auto simp: distinct_map inj_on_def)

lemma survey_tenant:
  assumes "versions_ok V J db" "s \<in> set (sdSurveys db)" "r \<in> set (sdVersions db)" "vwSurveyID r = srID s"
  shows "vwTenantID r = srTenantID s"
proof -
  obtain s' where s': "s' \<in> set (sdSurveys db)" "srID s' = srID s" "srTenantID s' = vwTenantID r"
    using versions_okD(4) [OF assms(1,3)] assms(4) by (auto simp: version_row_ok_def)
  then show ?thesis using distinct_key_eq [OF versions_okD(1) [OF assms(1)] s'(1) assms(2) s'(2)] by simp
qed

lemma find_hit: "find P xs = Some x \<Longrightarrow> x \<in> set xs \<and> P x"
  by (auto simp: find_Some_iff)

lemma insert_step: "survey_Insert e scope db inp = Inr (sv, db') \<Longrightarrow> syStatus inp = StatusActive \<Longrightarrow> db_step V J db db'"
  by (auto simp: survey_Insert_def Let_def StatusActive_def StatusArchived_def split: if_splits intro!: db_step.create)

lemma survey_update_step:
  assumes "survey_Update e scope db i p = Inr (sv, db')" "versions_ok V J db"
  shows "db_step V J db db'"
proof -
  let ?hit = "\<lambda>r. srID r = i \<and> sees scope (srTenantID r) \<and> srArchivedAt r = None"
  let ?upd = "\<lambda>r. r\<lparr>srName := (case ptName p of None \<Rightarrow> srName r | Some n \<Rightarrow> n), srDescription := (case ptDescription p of None \<Rightarrow> srDescription r | Some d \<Rightarrow> d),
            srPrimaryMode := (case ptPrimaryMode p of None \<Rightarrow> srPrimaryMode r | Some m \<Rightarrow> m), srUpdatedAt := sxTxNow e\<rparr>"
  obtain r where r: "find ?hit (sdSurveys db) = Some r" "srPrimaryMode (?upd r) \<in> {ModeForm, ModeFlow}"
      "db' = db\<lparr>sdSurveys := map (\<lambda>r. if ?hit r then ?upd r else r) (sdSurveys db)\<rparr>"
    using assms(1) unfolding survey_Update_def Let_def by (auto simp: update_rows_def split: option.splits if_splits)
  have "r \<in> set (sdSurveys db)" "srID r = i" using r(1) by (auto simp: find_Some_iff)
  then have "r' = r" if "r' \<in> set (sdSurveys db)" "srID r' = i" for r' using distinct_key_eq [OF versions_okD(1) [OF assms(2)]] that by metis
  then show ?thesis unfolding r(3) using r(2) by (intro db_step.edit) (auto simp: same_survey_def)
qed

lemma archive_step: "survey_Archive e scope db i t = Inr db' \<Longrightarrow> db_step V J db db'"
  by (auto simp: survey_Archive_def update_rows_def same_survey_def split: option.splits if_splits intro!: db_step.edit)

lemma max_column:
  "(case map k rs of [] \<Rightarrow> d | m # ms \<Rightarrow> Max (set (m # ms))) = n \<Longrightarrow> (rs = [] \<and> n = d \<or> (\<exists>r \<in> set rs. k r = n)) \<and> (\<forall>r \<in> set rs. k r \<le> n)" for k :: "'r \<Rightarrow> int"
proof (cases rs)
  case (Cons r rs')
  moreover have "Max (set (map k rs)) \<in> set (map k rs)" using Cons by (intro Max_in) auto
  moreover have "k x \<le> Max (set (map k rs))" if "x \<in> set rs" for x using that by simp
  ultimately show "(case map k rs of [] \<Rightarrow> d | m # ms \<Rightarrow> Max (set (m # ms))) = n \<Longrightarrow> ?thesis" by auto
qed simp

lemma LatestMajor_max:
  "LatestMajor e scope db sid = Inr m \<Longrightarrow> (versions_of scope db sid = [] \<and> m = 0 \<or> (\<exists>r \<in> set (versions_of scope db sid). vwMajor r = m)) \<and> (\<forall>r \<in> set (versions_of scope db sid). vwMajor r \<le> m)"
  unfolding LatestMajor_def stmt_Inr by (rule max_column) simp

lemma LatestMinor_max:
  "LatestMinor e scope db sid major = Inr m \<Longrightarrow> rs = filter (\<lambda>r. vwMajor r = major) (versions_of scope db sid) \<Longrightarrow>
     (rs = [] \<and> m = - 1 \<or> (\<exists>r \<in> set rs. vwMinor r = m)) \<and> (\<forall>r \<in> set rs. vwMinor r \<le> m)"
  unfolding LatestMinor_def stmt_Inr by (rule max_column) simp

lemma in_versions_of: "r \<in> set (versions_of scope db sid) \<longleftrightarrow> r \<in> set (sdVersions db) \<and> vwSurveyID r = sid \<and> sees scope (vwTenantID r)"
  by (auto simp: versions_of_def)

lemma LatestMajor_nonneg: "LatestMajor e scope db sid = Inr m \<Longrightarrow> versions_ok V J db \<Longrightarrow> 0 \<le> m"
  using LatestMajor_max versions_okD(4) by (fastforce simp: in_versions_of version_row_ok_def)

lemma next_version_positive:
  assumes "computeNextVersion e scope vw sid minor = Inr (ma, mi)" "\<And>s. versions_ok V J (vw s)"
  shows "1 \<le> ma" "0 \<le> mi"
  using assms LatestMajor_nonneg [OF _ assms(2)] by (fastforce simp: computeNextVersion_def bindE_Inr_iff split: if_splits)+

lemma version_inserted:
  assumes "version_Insert J e scope db v = Inr (saved, db')"
  shows "\<exists>row. db' = db\<lparr>sdVersions := sdVersions db @ [row]\<rparr> \<and> saved = scanVersion row \<and> vwSurveyID row = veSurveyID v \<and> vwIsActive row = veIsActive v \<and>
     J (veSchema v) = Some (vwSchema row) \<and> vwMajor row = veMajor v \<and> vwMinor row = veMinor v"
proof (cases "J (veSchema v)")
  case (Some schema)
  then show ?thesis using assms by (auto simp: version_Insert_def bindE_Inr_iff Let_def split: if_splits intro!: exI)
qed (use assms in \<open>auto simp: version_Insert_def bindE_Inr_iff\<close>)

lemma version_insert_step:
  assumes "version_Insert J e (Some t) db v = Inr (saved, db')" "\<not> veIsActive v" "1 \<le> veMajor v" "0 \<le> veMinor v" "V (veSchema v) = Some report" "vrValid report"
  shows "db_step V J db db'"
proof -
  obtain s schema where s: "s \<in> set (sdSurveys db)" "srID s = veSurveyID v" "J (veSchema v) = Some schema" "tenantIDForSurvey e (Some t) db (veSurveyID v) = Inr (srTenantID s)"
    using assms(1) by (auto simp: version_Insert_def bindE_Inr_iff tenantIDForSurvey_def dest!: find_hit split: option.splits)
  show ?thesis using assms s
    by (auto simp: version_Insert_def Let_def split: if_splits intro!: db_step.save [where s = s and schema = "veSchema v" and report = report])
qed

lemma deactivate_db: "DeactivateAll e (Some t) db sid = Inr db' \<Longrightarrow>
    db' = db\<lparr>sdVersions := map (\<lambda>r. if vwSurveyID r = sid \<and> vwTenantID r = t \<and> vwIsActive r then r\<lparr>vwIsActive := False\<rparr> else r) (sdVersions db)\<rparr>"
  by (simp add: DeactivateAll_def sees_def)

lemma activate_db: "version_Activate e scope db vid t = Inr db' \<Longrightarrow>
    db' = db\<lparr>sdVersions := map (\<lambda>r. if vwID r = vid then r\<lparr>vwIsActive := True, vwActivatedAt := Some t\<rparr> else r) (sdVersions db)\<rparr>"
  by (auto simp: version_Activate_def split: option.splits if_splits)

lemma set_current_db: "SetCurrentVersion e (Some t) db sid vid = Inr db' \<Longrightarrow>
    (\<exists>s \<in> set (sdSurveys db). srID s = sid \<and> srTenantID s = t) \<and>
    db' = db\<lparr>sdSurveys := map (\<lambda>r. if srID r = sid \<and> srTenantID r = t then r\<lparr>srCurrentVersionID := Some vid, srUpdatedAt := sxTxNow e\<rparr> else r) (sdSurveys db)\<rparr>"
  by (auto simp: SetCurrentVersion_def update_rows_def sees_def split: option.splits if_splits)

lemma applied:
  assumes "applyActivate e t db sid vid at_time = Inr (u, db', row)"
  obtains v s where "v \<in> set (sdVersions db)" "vwID v = vid" "vwSurveyID v = sid" "vwTenantID v = t" "s \<in> set (sdSurveys db)" "srID s = sid" "srTenantID s = t"
    "db' = db\<lparr>sdVersions := map ((\<lambda>r. if vwID r = vid then r\<lparr>vwIsActive := True, vwActivatedAt := Some at_time\<rparr> else r) \<circ>
        (\<lambda>r. if vwSurveyID r = sid \<and> vwTenantID r = t \<and> vwIsActive r then r\<lparr>vwIsActive := False\<rparr> else r)) (sdVersions db),
      sdSurveys := map (\<lambda>r. if srID r = sid \<and> srTenantID r = t then r\<lparr>srCurrentVersionID := Some vid, srUpdatedAt := sxTxNow e\<rparr> else r) (sdSurveys db)\<rparr>"
proof -
  obtain target db1 db2 where st: "version_GetByID e (Some t) db vid = Inr target" "veSurveyID target = sid" "DeactivateAll e (Some t) db sid = Inr db1"
      "version_Activate e (Some t) db1 vid at_time = Inr db2" "SetCurrentVersion e (Some t) db2 sid vid = Inr db'"
    using assms by (auto simp: applyActivate_def bindE_Inr_iff split: if_splits)
  obtain v where v: "v \<in> set (sdVersions db)" "vwID v = vid" "vwSurveyID v = sid" "vwTenantID v = t"
    using st(1,2) by (auto simp: version_GetByID_def sees_def scanVersion_def dest!: find_hit split: option.splits)
  show ?thesis using that v set_current_db [OF st(5)] activate_db [OF st(4)] deactivate_db [OF st(3)] by auto
qed

lemma activate_step:
  assumes "applyActivate e t db sid vid at_time = Inr (u, db', row)" "versions_ok V J db"
  shows "db_step V J db db'"
proof -
  obtain v s where v: "v \<in> set (sdVersions db)" "vwID v = vid" "vwSurveyID v = sid" "vwTenantID v = t" "s \<in> set (sdSurveys db)" "srID s = sid" "srTenantID s = t"
    and db: "db' = db\<lparr>sdVersions := map ((\<lambda>r. if vwID r = vid then r\<lparr>vwIsActive := True, vwActivatedAt := Some at_time\<rparr> else r) \<circ>
        (\<lambda>r. if vwSurveyID r = sid \<and> vwTenantID r = t \<and> vwIsActive r then r\<lparr>vwIsActive := False\<rparr> else r)) (sdVersions db),
      sdSurveys := map (\<lambda>r. if srID r = sid \<and> srTenantID r = t then r\<lparr>srCurrentVersionID := Some vid, srUpdatedAt := sxTxNow e\<rparr> else r) (sdSurveys db)\<rparr>"
    by (rule applied [OF assms(1)])
  have key: "r = s" if "r \<in> set (sdSurveys db)" "srID r = sid" for r using distinct_key_eq [OF versions_okD(1) [OF assms(2)] that(1) v(5)] that(2) v(6) by simp
  have ten: "vwTenantID r = t" if "r \<in> set (sdVersions db)" "vwSurveyID r = sid" for r
    using survey_tenant [OF assms(2) v(5) that(1)] that(2) v(6,7) by simp
  have vers: "map ((\<lambda>r. if vwID r = vid then r\<lparr>vwIsActive := True, vwActivatedAt := Some at_time\<rparr> else r) \<circ>
        (\<lambda>r. if vwSurveyID r = sid \<and> vwTenantID r = t \<and> vwIsActive r then r\<lparr>vwIsActive := False\<rparr> else r)) (sdVersions db) =
      map (\<lambda>r. if vwID r = vid then r\<lparr>vwIsActive := True, vwActivatedAt := Some at_time\<rparr> else if vwSurveyID r = sid then r\<lparr>vwIsActive := False\<rparr> else r) (sdVersions db)"
    using ten by (intro map_cong refl) auto
  have surv: "map (\<lambda>r. if srID r = sid \<and> srTenantID r = t then r\<lparr>srCurrentVersionID := Some vid, srUpdatedAt := sxTxNow e\<rparr> else r) (sdSurveys db) =
      map (\<lambda>r. if srID r = sid then r\<lparr>srCurrentVersionID := Some vid, srUpdatedAt := sxTxNow e\<rparr> else r) (sdSurveys db)"
    using key v(7) by (intro map_cong refl) auto
  have "vwSurveyID v = srID s" "srTenantID s = vwTenantID v" using v by simp_all
  from db_step.activate [OF v(5,1) this, where V = V and J = J and t = at_time and now = "sxTxNow e"] show ?thesis unfolding db vers surv v(2,3,6) .
qed

lemma transact_step:
  assumes "\<And>x db row. body = Inr (x, db, row) \<Longrightarrow> db_step V J (swDb w) db"
  shows "db_step V J (swDb w) (swDb (snd (transact e w body)))"
  using transact_db [of e w body] assms db_step.stay by metis

lemma Create_step: "db_step V J (swDb w) (swDb (snd (Create e w inp)))"
proof -
  have "db_step V J (swDb w) (swDb (snd (transact e w (bindE (survey_Insert e (Some t) (swDb w) sv) (\<lambda>(saved, db). Inr (syID saved, db, row saved))))))"
    if "syStatus sv = StatusActive" for t sv row
    by (rule transact_step) (use insert_step [OF _ that] in \<open>auto simp: bindE_Inr_iff\<close>)
  then show ?thesis by (auto simp: Create_def db_step.stay split: sum.splits)
qed

lemma Update_step: "versions_ok V J (swDb w) \<Longrightarrow> db_step V J (swDb w) (swDb (snd (service_Update e vw w i p)))"
  unfolding service_Update_def
  by (auto simp: db_step.stay bindE_Inr_iff split: sum.splits if_splits intro!: transact_step intro: survey_update_step)

lemma Archive_step: "db_step V J (swDb w) (swDb (snd (service_Archive e vw w i)))"
  unfolding service_Archive_def
  by (auto simp: db_step.stay bindE_Inr_iff split: sum.splits if_splits intro!: transact_step intro: archive_step)

lemma Activate_step: "versions_ok V J (swDb w) \<Longrightarrow> db_step V J (swDb w) (swDb (snd (service_Activate e vw w sid vid)))"
proof -
  assume ok: "versions_ok V J (swDb w)"
  have "db_step V J (swDb w) (swDb (snd (transact e w (bindE (survey_GetByID e (Some t) (vw StGetSurvey) sid) (\<lambda>cur.
      if syStatus cur = StatusArchived then Inl ErrSurveyArchived else applyActivate e t (swDb w) sid vid (sxNow e))))))" (is "db_step V J _ (swDb (snd ?r))") for t
    by (rule transact_step) (use activate_step [OF _ ok] in \<open>auto simp: bindE_Inr_iff split: if_splits\<close>)
  then show ?thesis unfolding service_Activate_def
    by (auto simp: db_step.stay split: sum.splits if_splits prod.splits surveys_error.splits) (metis snd_conv)+
qed

text \<open>A version that is saved passed the validator, and its number came from the tables the call read.\<close>

lemma saved:
  assumes "SaveVersion V J e vw w sid schema minor = Some (r, w')"
  shows "swDb w' = swDb w \<and> isl r \<or> (\<exists>report t ma mi v saved. V schema = Some report \<and> vrValid report \<and> tenantIDFromContext e = Inr t \<and>
      computeNextVersion e (Some t) vw sid minor = Inr (ma, mi) \<and> veMajor v = ma \<and> veMinor v = mi \<and> veSchema v = schema \<and> veSurveyID v = sid \<and> \<not> veIsActive v \<and>
      version_Insert J e (Some t) (swDb w) v = Inr (saved, swDb w') \<and> (r = Inr saved \<or> isl r))"
proof -
  define cand where "cand = (\<lambda>ma mi. \<lparr>veID = uuid_Nil, veSurveyID = sid, veMajor = ma, veMinor = mi, veSchema = schema, veIsActive = False, veCreatedAt = 0,
     veCreatedBy = (case actorIDFromContext e of None \<Rightarrow> uuid_Nil | Some a \<Rightarrow> a), veActivatedAt = None\<rparr>)"
  define body where "body = (\<lambda>t. bindE (survey_GetByID e (Some t) (vw StGetSurvey) sid) (\<lambda>cur.
     if syStatus cur = StatusArchived then Inl ErrSurveyArchived
     else bindE (computeNextVersion e (Some t) vw sid minor) (\<lambda>(ma, mi). bindE (version_Insert J e (Some t) (swDb w) (cand ma mi))
       (\<lambda>(saved, db). Inr (saved, db, Some (audit_of e t (VersionSaved sid (veMajor saved) (veMinor saved)) (veID saved)))))))"
  consider "w' = w" "isl r" | report t r1 w1 where "V schema = Some report" "vrValid report" "tenantIDFromContext e = Inr t" "transact e w (body t) = (r1, w1)"
      "swDb w' = swDb w1" "r1 = r"
    using assms unfolding SaveVersion_def body_def cand_def
    by (auto split: if_splits option.splits sum.splits prod.splits)
  then show ?thesis
  proof cases
    case 2
    from transact_outcome [OF 2(4)] consider "swDb w1 = swDb w" "isl r1" | x row where "body t = Inr (x, swDb w1, row)" "r1 = Inr x \<or> isl r1" by blast
    then show ?thesis
    proof cases
      case b: 2
      then obtain ma mi where "computeNextVersion e (Some t) vw sid minor = Inr (ma, mi)" "version_Insert J e (Some t) (swDb w) (cand ma mi) = Inr (x, swDb w1)"
        by (auto simp: body_def bindE_Inr_iff split: if_splits)
      then show ?thesis using \<open>V schema = _\<close> \<open>vrValid report\<close> \<open>tenantIDFromContext e = _\<close> 2(5,6) b(2) by (intro disjI2 exI [of _ report] exI [of _ t] exI [of _ ma] exI [of _ mi] exI [of _ "cand ma mi"] exI [of _ x]) (simp add: cand_def)
    qed (use 2 in simp_all)
  qed simp
qed

lemma do_step:
  assumes "versions_ok V J (swDb w)" "\<And>s. versions_ok V J (op_view op s (swDb w))"
  shows "db_step V J (swDb w) (swDb (sv_do V J op w))"
proof (cases op)
  case (OpSave e vw sid schema minor)
  show ?thesis
  proof (cases "SaveVersion V J e vw w sid schema minor")
    case (Some res)
    obtain r w' where res: "res = (r, w')" by (cases res)
    from saved [OF Some [unfolded res]] consider "swDb w' = swDb w" | report t ma mi v saved where "V schema = Some report" "vrValid report"
        "computeNextVersion e (Some t) vw sid minor = Inr (ma, mi)" "veMajor v = ma" "veMinor v = mi" "veSchema v = schema" "\<not> veIsActive v"
        "version_Insert J e (Some t) (swDb w) v = Inr (saved, swDb w')" by blast
    then have "db_step V J (swDb w) (swDb w')"
    proof cases
      case 2
      then have "1 \<le> ma" "0 \<le> mi" using next_version_positive [where V = V and J = J] assms(2) OpSave by auto
      then show ?thesis using 2 by (intro version_insert_step) auto
    qed (simp add: db_step.stay)
    then show ?thesis by (simp add: OpSave Some res)
  qed (simp add: OpSave db_step.stay)
qed (use Create_step Update_step Archive_step Activate_step assms(1) in simp_all)

section \<open>The invariant\<close>

lemma run_ok: "sv_run V J ws \<Longrightarrow> w \<in> set ws \<Longrightarrow> versions_ok V J (swDb w)"
proof (induction arbitrary: w rule: sv_run.induct)
  case (step w0 ws op)
  have past: "versions_ok V J (op_view op s (swDb w0))" for s using step.hyps(2) [of s] step.IH by auto
  then have "versions_ok V J (swDb (sv_do V J op w0))" using step.IH [of w0] by (intro step_ok [OF _ do_step]) auto
  then show ?case using step.prems step.IH by auto
qed (simp add: versions_ok_def)

lemma run_step:
  assumes "sv_run V J (w # ws)" "\<And>s. op_view op s (swDb w) \<in> swDb ` set (w # ws)"
  shows "db_step V J (swDb w) (swDb (sv_do V J op w))"
proof (rule do_step)
  show "versions_ok V J (swDb w)" using run_ok [OF assms(1)] by simp
  show "versions_ok V J (op_view op s (swDb w))" for s using run_ok [OF assms(1)] assms(2) [of s] by (metis imageE)
qed

lemma run_content: "sv_run V J ws \<Longrightarrow> w \<in> set ws \<Longrightarrow> \<exists>new. map content (sdVersions (swDb (hd ws))) = map content (sdVersions (swDb w)) @ new"
proof (induction arbitrary: w rule: sv_run.induct)
  case (step w0 ws op)
  obtain new where new: "map content (sdVersions (swDb (sv_do V J op w0))) = map content (sdVersions (swDb w0)) @ new"
    using step_content [OF run_step [OF step.hyps]] by blast
  show ?case
  proof (cases "w \<in> set (w0 # ws)")
    case True
    then show ?thesis using step.IH [OF True] new by auto
  qed (use step.prems in auto)
qed simp

text \<open>
  C22: surveys and their versions stay consistent. However calls of the survey service interleave, fail or
  lose their replies: a survey has at most one active version, and it is the one its row names as
  current; version numbers are unique within a survey; every version belongs to a survey of its tenant
  and was accepted by the validator; a survey is archived exactly when it carries an archiving time;
  and a version once saved keeps its tenant, survey, number and schema for ever.
\<close>

theorem survey_versions_consistent:
  assumes "sv_run V J (w # ws)"
  shows "versions_ok V J (swDb w) \<and> (\<forall>w' \<in> set ws. \<exists>new. map content (sdVersions (swDb w)) = map content (sdVersions (swDb w')) @ new)"
  using run_ok [OF assms] run_content [OF assms] by auto

section \<open>Numbers\<close>

text \<open>In a survey that the tenant sees, all versions belong to the tenant.\<close>

lemma survey_versions_seen:
  assumes "versions_ok V J db" "survey_GetByID e (Some t) db sid = Inr sv \<or> tenantIDForSurvey e (Some t) db sid = Inr x"
  shows "versions_of (Some t) db sid = filter (\<lambda>r. vwSurveyID r = sid) (sdVersions db)"
proof -
  obtain s where s: "s \<in> set (sdSurveys db)" "srID s = sid" "srTenantID s = t"
    using assms(2) by (auto simp: survey_GetByID_def tenantIDForSurvey_def sees_def dest!: find_hit split: option.splits)
  have "vwTenantID r = t" if "r \<in> set (sdVersions db)" "vwSurveyID r = sid" for r
    using survey_tenant [OF assms(1) s(1) that(1)] that(2) s(2,3) by simp
  then show ?thesis by (auto simp: versions_of_def sees_def intro!: filter_cong)
qed

lemma next_number:
  assumes "computeNextVersion e scope (\<lambda>_. db) sid minor = Inr (ma, mi)" "versions_ok V J db"
  defines "olds \<equiv> versions_of scope db sid"
  shows "(\<forall>r \<in> set olds. vwMajor r < ma \<or> vwMajor r = ma \<and> vwMinor r < mi) \<and>
     (if olds = [] then ma = 1 \<and> mi = 0
      else if minor then \<exists>r \<in> set olds. ma = vwMajor r \<and> mi = vwMinor r + 1
      else mi = 0 \<and> (\<exists>r \<in> set olds. ma = vwMajor r + 1))"
proof -
  obtain m where m: "LatestMajor e scope db sid = Inr m" using assms(1) by (auto simp: computeNextVersion_def bindE_Inr_iff)
  note mx = LatestMajor_max [OF m, folded olds_def]
  have pos: "1 \<le> vwMajor r" "0 \<le> vwMinor r" if "r \<in> set olds" for r
    using that versions_okD(4) [OF assms(2)] by (auto simp: olds_def in_versions_of version_row_ok_def)
  show ?thesis
  proof (cases "\<not> minor \<or> m = 0")
    case True
    then have "ma = m + 1" "mi = 0" using assms(1) m by (auto simp: computeNextVersion_def)
    moreover have "m = 0 \<Longrightarrow> olds = []" using mx pos by fastforce
    ultimately show ?thesis using mx True by auto
  next
    case False
    then obtain n where n: "LatestMinor e scope db sid m = Inr n" "ma = m" "mi = (if n < 0 then 0 else n + 1)"
      using assms(1) m by (auto simp: computeNextVersion_def bindE_Inr_iff split: if_splits)
    note mn = LatestMinor_max [OF n(1) refl, folded olds_def]
    obtain r where r: "r \<in> set olds" "vwMajor r = m" using mx False by auto
    then have ne: "filter (\<lambda>r. vwMajor r = m) olds \<noteq> []" by (auto simp: filter_empty_conv)
    then obtain r' where r': "r' \<in> set olds" "vwMajor r' = m" "vwMinor r' = n" using mn by auto
    then have "mi = n + 1" using n(3) pos(2) by fastforce
    then show ?thesis using mx mn n(2) r' False ne by (fastforce simp: less_le)
  qed
qed

text \<open>
  A saved version follows the latest one. When no other call commits in between, a successful
  \<open>SaveVersion\<close> adds exactly one inactive version with the given schema, and its number is above
  every earlier number of the survey: 1.0 for the first version, the next minor of the latest major
  if a minor was asked for, and otherwise the next major with minor 0.
\<close>

theorem saved_version_follows_latest:
  assumes "sv_run V J (w # ws)" "SaveVersion V J e (\<lambda>_. swDb w) w sid schema minor = Some (Inr v, w')"
  defines "olds \<equiv> filter (\<lambda>r. vwSurveyID r = sid) (sdVersions (swDb w))"
  shows "\<exists>row. swDb w' = (swDb w)\<lparr>sdVersions := sdVersions (swDb w) @ [row]\<rparr> \<and> v = scanVersion row \<and> vwSurveyID row = sid \<and> \<not> vwIsActive row \<and> J schema = Some (vwSchema row) \<and>
     (\<forall>r \<in> set olds. vwMajor r < vwMajor row \<or> vwMajor r = vwMajor row \<and> vwMinor r < vwMinor row) \<and>
     (if olds = [] then vwMajor row = 1 \<and> vwMinor row = 0
      else if minor then \<exists>r \<in> set olds. vwMajor row = vwMajor r \<and> vwMinor row = vwMinor r + 1
      else vwMinor row = 0 \<and> (\<exists>r \<in> set olds. vwMajor row = vwMajor r + 1))"
proof -
  have ok: "versions_ok V J (swDb w)" using run_ok [OF assms(1)] by simp
  obtain t ma mi c where c: "computeNextVersion e (Some t) (\<lambda>_. swDb w) sid minor = Inr (ma, mi)" "veMajor c = ma" "veMinor c = mi" "veSchema c = schema" "veSurveyID c = sid" "\<not> veIsActive c"
      "version_Insert J e (Some t) (swDb w) c = Inr (v, swDb w')"
    using saved [OF assms(2)] by auto
  obtain x where "tenantIDForSurvey e (Some t) (swDb w) sid = Inr x" using c(5,7) by (auto simp: version_Insert_def bindE_Inr_iff)
  then have "versions_of (Some t) (swDb w) sid = olds" unfolding olds_def by (intro survey_versions_seen [OF ok]) blast
  note num = next_number [OF c(1) ok, unfolded this]
  obtain row where row: "swDb w' = (swDb w)\<lparr>sdVersions := sdVersions (swDb w) @ [row]\<rparr>" "v = scanVersion row" "vwSurveyID row = sid" "\<not> vwIsActive row" "J schema = Some (vwSchema row)"
      "vwMajor row = ma" "vwMinor row = mi"
    using version_inserted [OF c(7)] c(2-6) by auto
  show ?thesis using num by (intro exI [of _ row]) (simp add: row)
qed

section \<open>Published versions\<close>

text \<open>The version a survey runs on decodes to a document that the graph pass accepted.\<close>

lemma published_accepted:
  assumes "sv_run (SchemaValidator_Validate js unmarshal parses) J ws" "\<And>s. vw s \<in> swDb ` set ws" "GetActiveVersion e vw sid = Inr v"
    and "\<And>b doc. js b = [] \<Longrightarrow> unmarshal b = Some doc \<Longrightarrow> ids_ok doc" "\<And>b b'. J b = Some b' \<Longrightarrow> unmarshal b' = unmarshal b"
  obtains doc where "veSurveyID v = sid" "veIsActive v" "unmarshal (veSchema v) = Some doc" "ids_ok doc" "GraphValidator_Validate parses (Some doc) = Some []"
proof -
  let ?V = "SchemaValidator_Validate js unmarshal parses"
  obtain r where r: "r \<in> set (sdVersions (vw StGetActive))" "vwSurveyID r = sid" "vwIsActive r" "v = scanVersion r"
    using assms(3) by (auto simp: GetActiveVersion_def read_as_def GetActive_def bindE_Inr_iff in_versions_of dest!: find_hit split: if_splits option.splits)
  obtain w where "w \<in> set ws" "vw StGetActive = swDb w" using assms(2) [of StGetActive] by blast
  then have "version_row_ok ?V J (vw StGetActive) r" using run_ok [OF assms(1)] r(1) by (metis versions_okD(4))
  then obtain schema report where s: "?V schema = Some report" "vrValid report" "J schema = Some (vwSchema r)" by (auto simp: version_row_ok_def)
  have g: "js schema = []" "GraphValidator_Validate parses (unmarshal schema) = Some []"
    using s(1,2) by (auto simp: SchemaValidator_Validate_def split: if_splits)
  then obtain doc where "unmarshal schema = Some doc" by (cases "unmarshal schema") (auto simp: GraphValidator_Validate_def parseGraph_def)
  then show ?thesis using that [of doc] r g assms(4) assms(5) [OF s(3)] by (simp add: scanVersion_def)
qed

section \<open>A survey and its first version\<close>

definition all_ok :: sv_env where
  "all_ok = \<lparr>sxTenant = Some 1, sxActor = None, sxNow = 10, sxTxNow = 10, sxFresh = 5, sxOk = (\<lambda>_. True), sxAudit = CallOk, sxCommit = CallOk,
     sxPublish = Some CallOk, sxPublishAudit = CallOk\<rparr>"

definition sample_validator :: "string \<Rightarrow> ValidationReport option" where
  "sample_validator = SchemaValidator_Validate (\<lambda>_. []) (\<lambda>_. Some sample_survey) (\<lambda>_. True)"

definition world0 :: sv_world where
  "world0 = \<lparr>swDb = \<lparr>sdSurveys = [], sdVersions = [], sdUsers = []\<rparr>, swAudit = [], swBus = []\<rparr>"

definition world1 :: sv_world where
  "world1 = sv_do sample_validator Some (OpCreate all_ok \<lparr>csName = ''Poll'', csDescription = '''', csPrimaryMode = ''''\<rparr>) world0"

definition world2 :: sv_world where
  "world2 = sv_do sample_validator Some (OpSave all_ok (\<lambda>_. swDb world1) 5 ''{}'' True) world1"

definition world3 :: sv_world where
  "world3 = sv_do sample_validator Some (OpActivate (all_ok\<lparr>sxCommit := ReplyLost\<rparr>) (\<lambda>_. swDb world2) 5 5) world2"

lemma sample_run: "sv_run sample_validator Some [world3, world2, world1, world0]"
  unfolding world3_def by (rule sv_run.step, unfold world2_def, rule sv_run.step, unfold world1_def, rule sv_run.step, rule sv_run.start)
    (simp_all add: world0_def)

theorem survey_versions_consistent_witness:
  "versions_ok sample_validator Some (swDb world3) \<and> map (\<lambda>v. (vwMajor v, vwMinor v, vwIsActive v)) (sdVersions (swDb world3)) = [(1, 0, True)]"
proof
  show "versions_ok sample_validator Some (swDb world3)" using survey_versions_consistent [OF sample_run] by simp
qed code_simp

theorem saved_version_follows_latest_witness:
  "\<exists>v w. SaveVersion sample_validator Some (all_ok\<lparr>sxFresh := 6\<rparr>) (\<lambda>_. swDb world3) world3 5 ''{}'' True = Some (Inr v, w) \<and> veMajor v = 1 \<and> veMinor v = 1"
proof -
  let ?r = "SaveVersion sample_validator Some (all_ok\<lparr>sxFresh := 6\<rparr>) (\<lambda>_. swDb world3) world3 5 ''{}'' True"
  have "case ?r of Some (Inr _, _) \<Rightarrow> True | _ \<Rightarrow> False" "map (\<lambda>r. (vwSurveyID r, vwMajor r, vwMinor r)) (sdVersions (swDb world3)) = [(5, 1, 0)]" by code_simp+
  then obtain v w r where w: "?r = Some (Inr v, w)" and r: "sdVersions (swDb world3) = [r]" "vwSurveyID r = 5" "vwMajor r = 1" "vwMinor r = 0"
    by (auto split: option.splits sum.splits prod.splits)
  show ?thesis using saved_version_follows_latest [OF sample_run w] w r by (auto simp: scanVersion_def)
qed

end

