(* ===== verification/Auth_Stores.thy ===== *)
theory Auth_Stores
  imports Uuid_Text Complex_Main
begin

text \<open>
  The Redis-backed stores of the authentication module: account lockout
  (\<open>internal/auth/service/lockout.go\<close>), the sliding-window rate limiter (\<open>ratelimit.go\<close>), session
  revocation (\<open>session_revoker.go\<close>) and the whitelist of refresh tokens with its rotation script
  (\<open>internal/auth/store/refresh_store.go\<close>).

  All of them share one keyspace of string keys with expiry. The server and the application read
  the same clock. A command is executed, never arrives, or is executed while its reply is lost
  (\<open>call_outcome\<close>); a pipeline may be cut after any number of its commands.
\<close>

section \<open>Errors\<close>

text \<open>\<open>ErrStore\<close> stands for every wrapped infrastructure error, which no caller inspects.\<close>

datatype auth_error =
    ErrInvalidCredentials | ErrAccountLocked | ErrAccountArchived | ErrTOTPRequired | ErrTOTPInvalid
  | ErrPasswordExpired | ErrTokenInvalid | ErrTokenRevoked | ErrRateLimitExceeded | ErrInsufficientRole
  | ErrRefreshReplay | ErrUserNotFound | ErrTOTPAlreadyEnabled | ErrTOTPNotEnrolled
  | ErrLoginTaken | ErrUserNotArchived | ErrEmptyRoles | ErrRefreshNotFound | ErrRefreshAlreadyRotated | ErrStore

section \<open>The keyspace\<close>

record RefreshRecord =
  rrUserID :: uuid
  rrTenantID :: uuid
  rrSessionID :: string
  rrExpiresAt :: time

text \<open>A refresh record is stored as JSON text; the model keeps the record the text decodes to.\<close>

datatype rvalue = RString string | RRecord RefreshRecord | RZset "(string \<times> int) list"

type_synonym redis = "string \<rightharpoonup> rvalue \<times> time option"

definition live_entry :: "redis \<Rightarrow> time \<Rightarrow> string \<Rightarrow> (rvalue \<times> time option) option" where
  "live_entry db now k =
     (case db k of
        None \<Rightarrow> None
      | Some (v, None) \<Rightarrow> Some (v, None)
      | Some (v, Some e) \<Rightarrow> if now < e then Some (v, Some e) else None)"

definition live :: "redis \<Rightarrow> time \<Rightarrow> string \<Rightarrow> rvalue option" where
  "live db now k = map_option fst (live_entry db now k)"

text \<open>
  The client sends an expiry in whole seconds when it can and in milliseconds otherwise (\<open>SET\<close>), or
  always in whole seconds (\<open>EXPIRE\<close>), at least one unit.
\<close>

definition whole :: "duration \<Rightarrow> duration \<Rightarrow> duration" where
  "whole u d = (if d < u then u else d div u * u)"

definition cmd_SET :: "redis \<Rightarrow> time \<Rightarrow> string \<Rightarrow> rvalue \<Rightarrow> duration \<Rightarrow> redis" where
  "cmd_SET db now k v ttl = db(k \<mapsto> (v, if ttl \<le> 0 then None else Some (now + whole millisecond ttl)))"

definition cmd_EXPIRE :: "redis \<Rightarrow> time \<Rightarrow> string \<Rightarrow> duration \<Rightarrow> redis" where
  "cmd_EXPIRE db now k ttl =
     (case live db now k of None \<Rightarrow> db | Some v \<Rightarrow> db(k \<mapsto> (v, Some (now + whole second ttl))))"

definition cmd_INCR :: "redis \<Rightarrow> time \<Rightarrow> string \<Rightarrow> (auth_error + int) \<times> redis" where
  "cmd_INCR db now k =
     (case live_entry db now k of
        None \<Rightarrow> (Inr 1, db(k \<mapsto> (RString ''1'', None)))
      | Some (RString s, e) \<Rightarrow>
          (case ParseInt64 s of
             None \<Rightarrow> (Inl ErrStore, db)
           | Some n \<Rightarrow> if n = int64_max then (Inl ErrStore, db)
                       else (Inr (n + 1), db(k \<mapsto> (RString (FormatInt (n + 1)), e))))
      | Some _ \<Rightarrow> (Inl ErrStore, db))"

text \<open>\<open>Get(...).Int64()\<close>: a missing key is \<open>redis.Nil\<close>.\<close>

definition get_int :: "redis \<Rightarrow> time \<Rightarrow> string \<Rightarrow> auth_error + int option" where
  "get_int db now k =
     (case live db now k of
        None \<Rightarrow> Inr None
      | Some (RString s) \<Rightarrow> (case ParseInt64 s of None \<Rightarrow> Inl ErrStore | Some n \<Rightarrow> Inr (Some n))
      | Some _ \<Rightarrow> Inl ErrStore)"

definition remote :: "call_outcome \<Rightarrow> redis \<Rightarrow> (auth_error + 'a) \<times> redis \<Rightarrow> (auth_error + 'a) \<times> redis" where
  "remote net db reply =
     (case net of CallOk \<Rightarrow> reply | CallLost \<Rightarrow> (Inl ErrStore, db) | ReplyLost \<Rightarrow> (Inl ErrStore, snd reply))"

section \<open>Account lockout\<close>

record LockoutRedis =
  lkThreshold :: int
  lkDuration :: duration

definition NewLockoutRedis :: "int \<Rightarrow> duration \<Rightarrow> LockoutRedis" where
  "NewLockoutRedis threshold dur =
     \<lparr>lkThreshold = (if threshold \<le> 0 then 5 else threshold),
      lkDuration = (if dur \<le> 0 then 15 * minute else dur)\<rparr>"

definition lockoutFailsKey :: "codec \<Rightarrow> uuid \<Rightarrow> string" where
  "lockoutFailsKey C i = ''auth:lk:fails:'' @ uuid_String C i"

definition lockoutUntilKey :: "codec \<Rightarrow> uuid \<Rightarrow> string" where
  "lockoutUntilKey C i = ''auth:lk:until:'' @ uuid_String C i"

definition IsLocked :: "codec \<Rightarrow> call_outcome \<Rightarrow> redis \<Rightarrow> time \<Rightarrow> uuid \<Rightarrow> auth_error + bool" where
  "IsLocked C net db now i =
     (if net \<noteq> CallOk then Inl ErrStore else
      case get_int db now (lockoutUntilKey C i) of
        Inl e \<Rightarrow> Inl e
      | Inr None \<Rightarrow> Inr False
      | Inr (Some v) \<Rightarrow> Inr (UnixSec now < v))"

definition RegisterFailure ::
  "codec \<Rightarrow> LockoutRedis \<Rightarrow> call_outcome \<times> call_outcome \<times> call_outcome \<Rightarrow> redis \<Rightarrow> time \<Rightarrow> uuid
   \<Rightarrow> (auth_error + bool) \<times> redis" where
  "RegisterFailure C L nets db now i =
     (case nets of (netIncr, netExpire, netSet) \<Rightarrow>
      let failsKey = lockoutFailsKey C i in
      case remote netIncr db (cmd_INCR db now failsKey) of
        (Inl e, db1) \<Rightarrow> (Inl e, db1)
      | (Inr n, db1) \<Rightarrow>
     (case (if n = 1 then remote netExpire db1 (Inr (), cmd_EXPIRE db1 now failsKey (lkDuration L * 2))
            else (Inr (), db1)) of
        (Inl e, db2) \<Rightarrow> (Inl e, db2)
      | (Inr _, db2) \<Rightarrow>
        if n < lkThreshold L then (Inr False, db2) else
        let untl = UnixSec (now + lkDuration L) in
        case remote netSet db2 (Inr (), cmd_SET db2 now (lockoutUntilKey C i) (RString (FormatInt untl)) (lkDuration L)) of
          (Inl e, db3) \<Rightarrow> (Inl e, db3)
        | (Inr _, db3) \<Rightarrow> (Inr True, db3)))"

definition lockout_Reset :: "codec \<Rightarrow> call_outcome \<Rightarrow> redis \<Rightarrow> uuid \<Rightarrow> (auth_error + unit) \<times> redis" where
  "lockout_Reset C net db i =
     remote net db (Inr (), db(lockoutFailsKey C i := None, lockoutUntilKey C i := None))"

section \<open>The rate limiter\<close>

record RateLimiterRedis =
  rlPerIP :: int
  rlPerUser :: int
  rlWindow :: duration

definition NewRateLimiterRedis :: "int \<Rightarrow> int \<Rightarrow> duration \<Rightarrow> RateLimiterRedis" where
  "NewRateLimiterRedis perIP perUser window =
     \<lparr>rlPerIP = (if perIP \<le> 0 then 30 else perIP), rlPerUser = (if perUser \<le> 0 then 10 else perUser),
      rlWindow = (if window \<le> 0 then hour else window)\<rparr>"

definition zset_of :: "redis \<Rightarrow> time \<Rightarrow> string \<Rightarrow> (string \<times> int) list option" where
  "zset_of db now k =
     (case live db now k of None \<Rightarrow> Some [] | Some (RZset z) \<Rightarrow> Some z | Some _ \<Rightarrow> None)"

text \<open>Writing a sorted set keeps the key's expiry; an empty one is removed.\<close>

definition put_zset :: "redis \<Rightarrow> time \<Rightarrow> string \<Rightarrow> (string \<times> int) list \<Rightarrow> redis" where
  "put_zset db now k z =
     (if z = [] then db(k := None)
      else db(k \<mapsto> (RZset z, case live_entry db now k of None \<Rightarrow> None | Some (_, e) \<Rightarrow> e)))"

definition cmd_ZREMRANGE :: "time \<Rightarrow> string \<Rightarrow> int \<Rightarrow> redis \<Rightarrow> redis" where
  "cmd_ZREMRANGE now k hi db =
     (case zset_of db now k of None \<Rightarrow> db | Some z \<Rightarrow> put_zset db now k (filter (\<lambda>(m, s). \<not> (0 \<le> s \<and> s < hi)) z))"

definition cmd_ZADD :: "time \<Rightarrow> string \<Rightarrow> int \<Rightarrow> string \<Rightarrow> redis \<Rightarrow> redis" where
  "cmd_ZADD now k s m db =
     (case zset_of db now k of None \<Rightarrow> db | Some z \<Rightarrow> put_zset db now k ((m, s) # filter (\<lambda>e. fst e \<noteq> m) z))"

text \<open>Four random bytes in hexadecimal make concurrent members distinct.\<close>

definition rl_member :: "time \<Rightarrow> 32 word \<Rightarrow> string" where
  "rl_member now r = FormatInt now @ ''-'' @ map hex_char (pad16 8 (unat r))"

definition rl_record :: "RateLimiterRedis \<Rightarrow> string \<Rightarrow> time \<Rightarrow> 32 word \<Rightarrow> redis \<Rightarrow> redis" where
  "rl_record R k now r db = cmd_ZADD now k (UnixMilli now) (rl_member now r) db"

definition rl_prune :: "RateLimiterRedis \<Rightarrow> string \<Rightarrow> time \<Rightarrow> redis \<Rightarrow> redis" where
  "rl_prune R k now db = cmd_ZREMRANGE now k (UnixMilli (now - rlWindow R)) db"

text \<open>
  \<open>rand\<close> is \<open>None\<close> when the random source fails; \<open>lost = Some n\<close> when the connection is lost after
  \<open>n\<close> commands of the pipeline.
\<close>

definition rl_allow ::
  "RateLimiterRedis \<Rightarrow> 32 word option \<Rightarrow> nat option \<Rightarrow> redis \<Rightarrow> time \<Rightarrow> string \<Rightarrow> int \<Rightarrow> (auth_error + bool) \<times> redis" where
  "rl_allow R rand lost db now k limit =
     (case rand of
        None \<Rightarrow> (Inl ErrStore, db)
      | Some r \<Rightarrow>
        let db1 = rl_prune R k now db;
            db2 = rl_record R k now r db1;
            db3 = cmd_EXPIRE db2 now k (rlWindow R + minute)
        in case lost of
             Some n \<Rightarrow> (Inl ErrStore, if n = 0 then db else if n < 3 then db1 else if n = 3 then db2 else db3)
           | None \<Rightarrow>
            (case zset_of db1 now k of
               None \<Rightarrow> (Inl ErrStore, db3)
             | Some z \<Rightarrow> (Inr (int (length z) < limit), db3)))"

definition AllowIP :: "RateLimiterRedis \<Rightarrow> 32 word option \<Rightarrow> nat option \<Rightarrow> redis \<Rightarrow> time \<Rightarrow> string \<Rightarrow> (auth_error + bool) \<times> redis" where
  "AllowIP R rand lost db now ip = rl_allow R rand lost db now (''auth:rl:ip:'' @ ip) (rlPerIP R)"

definition AllowAccount ::
  "codec \<Rightarrow> RateLimiterRedis \<Rightarrow> 32 word option \<Rightarrow> nat option \<Rightarrow> redis \<Rightarrow> time \<Rightarrow> uuid \<Rightarrow> (auth_error + bool) \<times> redis" where
  "AllowAccount C R rand lost db now i = rl_allow R rand lost db now (''auth:rl:user:'' @ uuid_String C i) (rlPerUser R)"

section \<open>Session revocation\<close>

text \<open>Roles and actions are strings, as in \<open>api/dto.go\<close>.\<close>

record Claims =
  clUserID :: uuid
  clTenantID :: uuid
  clLogin :: string
  clRoles :: "string list"
  clSessionID :: string
  clJTI :: string
  clIssuedAt :: time
  clExpiresAt :: time
  clTOTPDone :: bool

record SessionRevoker =
  rvTtl :: duration
  rvCutoffTTL :: duration

definition NewSessionRevoker :: "duration \<Rightarrow> SessionRevoker" where
  "NewSessionRevoker ttl = \<lparr>rvTtl = ttl, rvCutoffTTL = 30 * 24 * hour\<rparr>"

definition sidKey :: "string \<Rightarrow> string" where
  "sidKey sid = ''auth:revoke:sid:'' @ sid"

definition userCutoffKey :: "codec \<Rightarrow> uuid \<Rightarrow> string" where
  "userCutoffKey C i = ''auth:revoke:user:'' @ uuid_String C i @ '':cutoff''"

definition RevokeSession :: "SessionRevoker \<Rightarrow> call_outcome \<Rightarrow> redis \<Rightarrow> time \<Rightarrow> string \<Rightarrow> (auth_error + unit) \<times> redis" where
  "RevokeSession V net db now sid =
     (if sid = '''' then (Inl ErrStore, db)
      else remote net db (Inr (), cmd_SET db now (sidKey sid) (RString ''1'') (rvTtl V)))"

definition RevokeAllForUser ::
  "codec \<Rightarrow> SessionRevoker \<Rightarrow> call_outcome \<Rightarrow> redis \<Rightarrow> time \<Rightarrow> uuid \<Rightarrow> (auth_error + unit) \<times> redis" where
  "RevokeAllForUser C V net db now i =
     (if i = uuid_Nil then (Inl ErrStore, db)
      else remote net db (Inr (), cmd_SET db now (userCutoffKey C i) (RString (FormatInt (UnixSec now))) (rvCutoffTTL V)))"

definition IsRevoked :: "call_outcome \<Rightarrow> redis \<Rightarrow> time \<Rightarrow> string \<Rightarrow> auth_error + bool" where
  "IsRevoked net db now sid =
     (if sid = '''' then Inr False else if net \<noteq> CallOk then Inl ErrStore
      else Inr (live db now (sidKey sid) \<noteq> None))"

definition IsRevokedClaims ::
  "codec \<Rightarrow> call_outcome \<times> call_outcome \<Rightarrow> redis \<Rightarrow> time \<Rightarrow> Claims \<Rightarrow> auth_error + bool" where
  "IsRevokedClaims C nets db now c =
     (case nets of (netSid, netCutoff) \<Rightarrow>
      if clSessionID c \<noteq> '''' \<and> netSid \<noteq> CallOk then Inl ErrStore
      else if clSessionID c \<noteq> '''' \<and> live db now (sidKey (clSessionID c)) \<noteq> None then Inr True
      else if clUserID c = uuid_Nil then Inr False
      else if netCutoff \<noteq> CallOk then Inl ErrStore
      else case get_int db now (userCutoffKey C (clUserID c)) of
             Inl e \<Rightarrow> Inl e
           | Inr None \<Rightarrow> Inr False
           | Inr (Some cutoff) \<Rightarrow> Inr (UnixSec (clIssuedAt c) \<le> cutoff))"

section \<open>Refresh tokens\<close>

definition refreshKey :: "string \<Rightarrow> string" where
  "refreshKey jti = ''auth:refresh:'' @ jti"

definition rotatedKey :: "string \<Rightarrow> string" where
  "rotatedKey jti = ''auth:refresh:rotated:'' @ jti"

definition refresh_Save ::
  "duration \<Rightarrow> call_outcome \<Rightarrow> redis \<Rightarrow> time \<Rightarrow> string \<Rightarrow> RefreshRecord \<Rightarrow> (auth_error + unit) \<times> redis" where
  "refresh_Save ttl net db now jti rec = remote net db (Inr (), cmd_SET db now (refreshKey jti) (RRecord rec) ttl)"

definition refresh_Lookup :: "call_outcome \<Rightarrow> redis \<Rightarrow> time \<Rightarrow> string \<Rightarrow> auth_error + RefreshRecord" where
  "refresh_Lookup net db now jti =
     (if net \<noteq> CallOk then Inl ErrStore else
      case live db now (refreshKey jti) of
        None \<Rightarrow> Inl ErrRefreshNotFound
      | Some (RRecord rec) \<Rightarrow> Inr rec
      | Some _ \<Rightarrow> Inl ErrStore)"

text \<open>
  The script's reply is its flag. A lifetime below one second makes the first \<open>SET ... EX 0\<close> fail,
  which aborts the script before it has written anything.
\<close>

definition rotateScript :: "redis \<Rightarrow> time \<Rightarrow> string \<Rightarrow> string \<Rightarrow> int \<Rightarrow> RefreshRecord \<Rightarrow> (auth_error + int) \<times> redis" where
  "rotateScript db now old new secs rec =
     (case live db now (rotatedKey old) of
        Some (RString _) \<Rightarrow> (Inr 0, db)
      | Some _ \<Rightarrow> (Inl ErrStore, db)
      | None \<Rightarrow>
        if live db now (refreshKey old) = None then (Inr 2, db)
        else if secs \<le> 0 then (Inl ErrStore, db)
        else (Inr 1, db(rotatedKey old \<mapsto> (RString new, Some (now + secs * second)), refreshKey old := None,
                        refreshKey new \<mapsto> (RRecord rec, Some (now + secs * second)))))"

definition refresh_Rotate ::
  "duration \<Rightarrow> call_outcome \<Rightarrow> redis \<Rightarrow> time \<Rightarrow> string \<Rightarrow> string \<Rightarrow> RefreshRecord \<Rightarrow> (auth_error + unit) \<times> redis" where
  "refresh_Rotate ttl net db now old new rec =
     (case remote net db (rotateScript db now old new (ttl div second) rec) of
        (Inl e, db') \<Rightarrow> (Inl e, db')
      | (Inr flag, db') \<Rightarrow>
          (if flag = 0 then Inl ErrRefreshAlreadyRotated else if flag = 2 then Inl ErrRefreshNotFound else Inr (), db'))"

definition refresh_Delete :: "call_outcome \<Rightarrow> redis \<Rightarrow> string \<Rightarrow> (auth_error + unit) \<times> redis" where
  "refresh_Delete net db jti = remote net db (Inr (), db(refreshKey jti := None))"

end
