(* ===== verification/Auth_Tokens.thy ===== *)
theory Auth_Tokens
  imports Auth_Stores
begin

text \<open>
  Token issuing and validation (\<open>internal/auth/service/jwt_issuer.go\<close>) and the role matrix
  (\<open>rbac.go\<close>, \<open>api/rbac.go\<close>).

  The JWT package is a parameter: \<open>jwSign\<close> signs a claims map with a secret, \<open>jwParse\<close> checks the
  signature, the issuer and the times and returns the map. Tokens are values of any type. The
  locale \<open>jwt_library\<close> states what is relied on: a token parses back to the claims it was signed
  with as long as the issuer agrees and the times, with the leeway, admit it; and whatever parses
  has the expected issuer and has not expired.
\<close>

section \<open>Claims maps\<close>

datatype jval = JStr string | JNum rat | JBool bool | JList "jval list" | JOther

type_synonym MapClaims = "string \<rightharpoonup> jval"

record 'tok jwt_lib =
  jwSign :: "string \<Rightarrow> MapClaims \<Rightarrow> 'tok option"
  jwParse :: "string \<Rightarrow> string \<Rightarrow> duration \<Rightarrow> time \<Rightarrow> 'tok \<Rightarrow> MapClaims option"

record JWTConfig =
  jcIssuer :: string
  jcSecret :: string
  jcAccessTTL :: duration
  jcRefreshTTL :: duration
  jcLeeway :: duration

definition NewJWTIssuer :: "JWTConfig \<Rightarrow> JWTConfig option" where
  "NewJWTIssuer cfg =
     (if jcIssuer cfg = '''' \<or> length (jcSecret cfg) < 32 \<or> jcAccessTTL cfg \<le> 0 \<or> jcRefreshTTL cfg \<le> 0 \<or> jcLeeway cfg < 0
      then None else Some cfg)"

text \<open>Sixteen random bytes in hexadecimal; \<open>None\<close> when the random source fails.\<close>

definition hex32 :: "128 word \<Rightarrow> string" where
  "hex32 r = map hex_char (pad16 32 (unat r))"

definition randomHex :: "128 word option \<Rightarrow> auth_error + string" where
  "randomHex r = (case r of None \<Rightarrow> Inl ErrStore | Some r \<Rightarrow> Inr (hex32 r))"

section \<open>Issuing\<close>

definition claims_map :: "codec \<Rightarrow> JWTConfig \<Rightarrow> time \<Rightarrow> Claims \<Rightarrow> string \<Rightarrow> duration \<Rightarrow> MapClaims" where
  "claims_map C cfg now c typ ttl =
     (let mc = [''iss'' \<mapsto> JStr (jcIssuer cfg), ''sub'' \<mapsto> JStr (uuid_String C (clUserID c)),
        ''tid'' \<mapsto> JStr (uuid_String C (clTenantID c)), ''login'' \<mapsto> JStr (clLogin c),
        ''roles'' \<mapsto> JList (map JStr (clRoles c)), ''sid'' \<mapsto> JStr (clSessionID c), ''jti'' \<mapsto> JStr (clJTI c),
        ''iat'' \<mapsto> JNum (of_int (UnixSec now)), ''exp'' \<mapsto> JNum (of_int (UnixSec (now + ttl))), ''typ'' \<mapsto> JStr typ]
      in if clTOTPDone c then mc(''totp_done'' \<mapsto> JBool True) else mc)"

text \<open>\<open>r1\<close> and \<open>r2\<close> are what the random source would give for the \<open>jti\<close> and the session id.\<close>

definition jwt_sign ::
  "codec \<Rightarrow> 'tok jwt_lib \<Rightarrow> JWTConfig \<Rightarrow> time \<Rightarrow> 128 word option \<Rightarrow> 128 word option \<Rightarrow> Claims \<Rightarrow> string \<Rightarrow> duration
   \<Rightarrow> auth_error + 'tok \<times> time" where
  "jwt_sign C J cfg now r1 r2 c typ ttl =
     (if clUserID c = uuid_Nil then Inl ErrTokenInvalid
      else if clTenantID c = uuid_Nil then Inl ErrTokenInvalid
      else
      bindE (if clJTI c = '''' then randomHex r1 else Inr (clJTI c)) (\<lambda>jti.
      bindE (if clSessionID c = '''' then randomHex r2 else Inr (clSessionID c)) (\<lambda>sid.
      let c = c\<lparr>clJTI := jti, clSessionID := sid\<rparr> in
      case jwSign J (jcSecret cfg) (claims_map C cfg now c typ ttl) of
        None \<Rightarrow> Inl ErrStore
      | Some tok \<Rightarrow> Inr (tok, now + ttl))))"

definition IssueAccess ::
  "codec \<Rightarrow> 'tok jwt_lib \<Rightarrow> JWTConfig \<Rightarrow> time \<Rightarrow> 128 word option \<Rightarrow> 128 word option \<Rightarrow> Claims \<Rightarrow> auth_error + 'tok \<times> time" where
  "IssueAccess C J cfg now r1 r2 c = jwt_sign C J cfg now r1 r2 c ''access'' (jcAccessTTL cfg)"

definition IssueRefresh ::
  "codec \<Rightarrow> 'tok jwt_lib \<Rightarrow> JWTConfig \<Rightarrow> time \<Rightarrow> 128 word option \<Rightarrow> 128 word option \<Rightarrow> Claims \<Rightarrow> auth_error + 'tok \<times> time" where
  "IssueRefresh C J cfg now r1 r2 c = jwt_sign C J cfg now r1 r2 c ''refresh'' (jcRefreshTTL cfg)"

section \<open>Validation\<close>

text \<open>A failed type assertion leaves the zero value.\<close>

definition str_claim :: "MapClaims \<Rightarrow> string \<Rightarrow> string" where
  "str_claim mc k = (case mc k of Some (JStr s) \<Rightarrow> s | _ \<Rightarrow> '''')"

fun role_entries :: "jval list \<Rightarrow> auth_error + string list" where
  "role_entries [] = Inr []"
| "role_entries (JStr s # xs) = bindE (role_entries xs) (\<lambda>rs. Inr (s # rs))"
| "role_entries (_ # xs) = Inl ErrTokenInvalid"

text \<open>\<open>int64(f)\<close> truncates towards zero.\<close>

definition numericTime :: "MapClaims \<Rightarrow> string \<Rightarrow> auth_error + time" where
  "numericTime mc k =
     (case mc k of
        Some (JNum f) \<Rightarrow> Inr ((if 0 \<le> f then \<lfloor>f\<rfloor> else \<lceil>f\<rceil>) * second)
      | _ \<Rightarrow> Inl ErrTokenInvalid)"

definition parse_id :: "codec \<Rightarrow> string \<Rightarrow> auth_error + uuid" where
  "parse_id C s =
     (if s = '''' then Inl ErrTokenInvalid
      else case uuid_Parse C s of
        None \<Rightarrow> Inl ErrTokenInvalid
      | Some u \<Rightarrow> if u = uuid_Nil then Inl ErrTokenInvalid else Inr u)"

definition mapClaimsTo :: "codec \<Rightarrow> MapClaims \<Rightarrow> auth_error + Claims" where
  "mapClaimsTo C mc =
     bindE (parse_id C (str_claim mc ''sub'')) (\<lambda>uid.
     bindE (parse_id C (str_claim mc ''tid'')) (\<lambda>tid.
     bindE (case mc ''roles'' of Some (JList xs) \<Rightarrow> role_entries xs | _ \<Rightarrow> Inr []) (\<lambda>roles.
     bindE (numericTime mc ''iat'') (\<lambda>iat.
     bindE (numericTime mc ''exp'') (\<lambda>expires.
     Inr \<lparr>clUserID = uid, clTenantID = tid, clLogin = str_claim mc ''login'', clRoles = roles,
          clSessionID = str_claim mc ''sid'', clJTI = str_claim mc ''jti'', clIssuedAt = iat, clExpiresAt = expires,
          clTOTPDone = (mc ''totp_done'' = Some (JBool True))\<rparr>)))))"

definition jwt_Validate ::
  "codec \<Rightarrow> 'tok jwt_lib \<Rightarrow> JWTConfig \<Rightarrow> time \<Rightarrow> 'tok \<Rightarrow> string \<Rightarrow> auth_error + Claims" where
  "jwt_Validate C J cfg now tok expectedType =
     (case jwParse J (jcSecret cfg) (jcIssuer cfg) (jcLeeway cfg) now tok of
        None \<Rightarrow> Inl ErrTokenInvalid
      | Some mc \<Rightarrow>
        if str_claim mc ''typ'' \<noteq> expectedType then Inl ErrTokenInvalid else mapClaimsTo C mc)"

section \<open>The JWT package\<close>

definition time_claim :: "MapClaims \<Rightarrow> string \<Rightarrow> time \<Rightarrow> bool" where
  "time_claim mc k t \<longleftrightarrow> (\<exists>n. mc k = Some (JNum (of_int n)) \<and> t = n * second)"

locale jwt_library =
  fixes J :: "'tok jwt_lib"
  assumes parse_signed:
      "jwSign J sec mc = Some tok \<Longrightarrow> mc ''iss'' = Some (JStr iss) \<Longrightarrow> time_claim mc ''exp'' e \<Longrightarrow> time_claim mc ''iat'' i
       \<Longrightarrow> now < e + lee \<Longrightarrow> i \<le> now + lee \<Longrightarrow> jwParse J sec iss lee now tok = Some mc"
    and parsed_signed:
      "jwSign J sec mc = Some tok \<Longrightarrow> jwParse J sec iss lee now tok = Some mc' \<Longrightarrow> mc' = mc"
    and parsed_unexpired:
      "jwParse J sec iss lee now tok = Some mc \<Longrightarrow> time_claim mc ''exp'' e \<Longrightarrow> now < e + lee"

text \<open>The symbolic instance: a token is its secret and its claims.\<close>

definition num_claim :: "MapClaims \<Rightarrow> string \<Rightarrow> time option" where
  "num_claim mc k = (case mc k of Some (JNum f) \<Rightarrow> Some (\<lfloor>f\<rfloor> * second) | _ \<Rightarrow> None)"

definition symbolic_jwt :: "(string \<times> MapClaims) jwt_lib" where
  "symbolic_jwt = \<lparr>jwSign = (\<lambda>sec mc. Some (sec, mc)),
     jwParse = (\<lambda>sec iss lee now (s, mc).
       if s = sec \<and> mc ''iss'' = Some (JStr iss)
          \<and> (case num_claim mc ''exp'' of None \<Rightarrow> False | Some e \<Rightarrow> now < e + lee)
          \<and> (case num_claim mc ''iat'' of None \<Rightarrow> True | Some i \<Rightarrow> i \<le> now + lee)
       then Some mc else None)\<rparr>"

lemma num_time_claim: "time_claim mc k t \<Longrightarrow> num_claim mc k = Some t"
  by (auto simp: time_claim_def num_claim_def)

interpretation symbolic: jwt_library symbolic_jwt
  by unfold_locales (auto simp: symbolic_jwt_def num_time_claim split: if_splits)

section \<open>Round trip\<close>

lemma role_entries_JStr [simp]: "role_entries (map JStr rs) = Inr rs"
  by (induction rs) simp_all

lemma UnixSec_mono: "a \<le> b \<Longrightarrow> UnixSec a \<le> UnixSec b"
  by (simp add: UnixSec_def zdiv_mono1)

lemma UnixSec_le: "UnixSec t * second \<le> t" and UnixSec_gt: "t < (UnixSec t + 1) * second"
  unfolding UnixSec_def by (simp_all add: minus_mod_eq_div_mult [symmetric] algebra_simps)

text \<open>The claims a token carries: the issuer fills in the identifiers and the times.\<close>

definition issued_claims :: "time \<Rightarrow> duration \<Rightarrow> Claims \<Rightarrow> Claims" where
  "issued_claims now ttl c = c\<lparr>clIssuedAt := UnixSec now * second, clExpiresAt := UnixSec (now + ttl) * second\<rparr>"

lemma parse_id_String: "hash_codec C \<Longrightarrow> u \<noteq> uuid_Nil \<Longrightarrow> parse_id C (uuid_String C u) = Inr u"
  by (simp add: parse_id_def hash_codec.uuid_Parse_String hash_codec.uuid_String_not_Nil)

lemma claims_map_simps [simp]:
  "claims_map C cfg now c typ ttl ''iss'' = Some (JStr (jcIssuer cfg))"
  "claims_map C cfg now c typ ttl ''sub'' = Some (JStr (uuid_String C (clUserID c)))"
  "claims_map C cfg now c typ ttl ''tid'' = Some (JStr (uuid_String C (clTenantID c)))"
  "claims_map C cfg now c typ ttl ''login'' = Some (JStr (clLogin c))"
  "claims_map C cfg now c typ ttl ''roles'' = Some (JList (map JStr (clRoles c)))"
  "claims_map C cfg now c typ ttl ''sid'' = Some (JStr (clSessionID c))"
  "claims_map C cfg now c typ ttl ''jti'' = Some (JStr (clJTI c))"
  "claims_map C cfg now c typ ttl ''iat'' = Some (JNum (of_int (UnixSec now)))"
  "claims_map C cfg now c typ ttl ''exp'' = Some (JNum (of_int (UnixSec (now + ttl))))"
  "claims_map C cfg now c typ ttl ''typ'' = Some (JStr typ)"
  "claims_map C cfg now c typ ttl ''totp_done'' = (if clTOTPDone c then Some (JBool True) else None)"
  by (simp_all add: claims_map_def Let_def)

lemma str_claims_map [simp]:
  "str_claim (claims_map C cfg now c typ ttl) ''typ'' = typ"
  by (simp add: str_claim_def)

lemma mapClaimsTo_claims_map:
  assumes "hash_codec C" "clUserID c \<noteq> uuid_Nil" "clTenantID c \<noteq> uuid_Nil"
  shows "mapClaimsTo C (claims_map C cfg now c typ ttl) = Inr (issued_claims now ttl c)"
  by (simp add: mapClaimsTo_def str_claim_def parse_id_String [OF assms(1)] assms(2,3) numericTime_def issued_claims_def)

text \<open>
  What a token issued by \<open>jwt_sign\<close> validates to: its claims, with the identifiers the issuer filled
  in, at every later instant before the expiry; afterwards, and for the other token type, nothing.
\<close>

lemma jwt_sign_cases:
  assumes "jwt_sign C J cfg now r1 r2 c typ ttl = Inr (tok, expires)"
  obtains jti sid where "clUserID c \<noteq> uuid_Nil" "clTenantID c \<noteq> uuid_Nil"
    "if clJTI c = '''' then \<exists>r. r1 = Some r \<and> jti = hex32 r else jti = clJTI c"
    "if clSessionID c = '''' then \<exists>r. r2 = Some r \<and> sid = hex32 r else sid = clSessionID c"
    "jwSign J (jcSecret cfg) (claims_map C cfg now (c\<lparr>clJTI := jti, clSessionID := sid\<rparr>) typ ttl) = Some tok"
    "expires = now + ttl"
  using assms by (auto simp: jwt_sign_def bindE_Inr_iff randomHex_def Let_def split: if_splits option.splits)

lemma Validate_signed:
  assumes "jwt_library J" "hash_codec C" "clUserID c \<noteq> uuid_Nil" "clTenantID c \<noteq> uuid_Nil" "0 \<le> jcLeeway cfg"
    and "jwSign J (jcSecret cfg) (claims_map C cfg now c typ ttl) = Some tok"
    and "now \<le> t" "t < UnixSec (now + ttl) * second + jcLeeway cfg"
  shows "jwt_Validate C J cfg t tok typ = Inr (issued_claims now ttl c)"
proof -
  have "UnixSec now * second \<le> t + jcLeeway cfg" using UnixSec_le [of now] assms(5,7) by simp
  then have "jwParse J (jcSecret cfg) (jcIssuer cfg) (jcLeeway cfg) t tok = Some (claims_map C cfg now c typ ttl)"
    using assms(6,8) by (intro jwt_library.parse_signed [OF assms(1)]) (simp_all add: time_claim_def)
  then show ?thesis by (simp add: jwt_Validate_def mapClaimsTo_claims_map assms(2-4))
qed

lemma Validate_signed_only:
  assumes "jwt_library J" "hash_codec C" "clUserID c \<noteq> uuid_Nil" "clTenantID c \<noteq> uuid_Nil"
    and "jwSign J (jcSecret cfg) (claims_map C cfg now c typ ttl) = Some tok"
    and "jwt_Validate C J cfg t tok typ' = Inr c'"
  shows "typ' = typ \<and> c' = issued_claims now ttl c \<and> t < UnixSec (now + ttl) * second + jcLeeway cfg"
proof -
  obtain mc where mc: "jwParse J (jcSecret cfg) (jcIssuer cfg) (jcLeeway cfg) t tok = Some mc"
    using assms(6) by (auto simp: jwt_Validate_def split: option.splits)
  then have "mc = claims_map C cfg now c typ ttl" using jwt_library.parsed_signed [OF assms(1,5)] by blast
  with mc assms(6) show ?thesis
    using jwt_library.parsed_unexpired [OF assms(1) mc, of "UnixSec (now + ttl) * second"]
    by (simp add: jwt_Validate_def mapClaimsTo_claims_map assms(2-4) time_claim_def split: if_splits)
qed

section \<open>Roles\<close>

definition rbacMatrix :: "string \<rightharpoonup> string list" where
  "rbacMatrix = [
     ''operator'' \<mapsto> [''self.change_password'', ''self.totp_enroll'', ''self.totp_disable'', ''project.list'', ''call.start'', ''call.end''],
     ''supervisor'' \<mapsto> [''self.change_password'', ''self.totp_enroll'', ''self.totp_disable'', ''project.list'',
       ''project.assign_operator'', ''call.start'', ''call.end'', ''call.listen'', ''call.list'', ''recording.list'',
       ''recording.download'', ''report.generate'', ''report.list'', ''billing.view''],
     ''admin'' \<mapsto> [''user.create'', ''user.list'', ''user.get'', ''user.update'', ''user.archive'', ''user.reset_password'',
       ''self.change_password'', ''self.totp_enroll'', ''self.totp_disable'', ''project.create'', ''project.list'',
       ''project.assign_operator'', ''call.start'', ''call.end'', ''call.listen'', ''call.list'', ''recording.list'',
       ''recording.download'', ''report.generate'', ''report.list'', ''billing.view'', ''billing.tariff_update'']]"

fun rbac_walk :: "string list \<Rightarrow> string \<Rightarrow> auth_error + unit" where
  "rbac_walk [] action = Inl ErrInsufficientRole"
| "rbac_walk (role # roles) action =
     (case rbacMatrix role of
        None \<Rightarrow> rbac_walk roles action
      | Some perms \<Rightarrow> if action \<in> set perms then Inr () else rbac_walk roles action)"

definition rbac_Check :: "Claims \<Rightarrow> string \<Rightarrow> auth_error + unit" where
  "rbac_Check c action = rbac_walk (clRoles c) action"

lemma rbac_walk_iff: "rbac_walk roles action = Inr () \<longleftrightarrow> (\<exists>role \<in> set roles. \<exists>perms. rbacMatrix role = Some perms \<and> action \<in> set perms)"
  by (induction roles action rule: rbac_walk.induct) (auto split: option.splits)

end
