(* ===== verification/Auth_Users.thy ===== *)
theory Auth_Users
  imports Auth_Tokens
begin

text \<open>
  Users and their second factor: the \<open>users\<close> and \<open>auth_totp\<close> tables with their statements
  (\<open>internal/auth/store/user_store.go\<close>, \<open>totp_store.go\<close>) and the user administration service
  (\<open>service/user_service.go\<close>).

  A table is the list of its rows. A transaction under row-level security sees the rows of one
  tenant, a bypassing one sees all; it commits as a whole or not at all, and its commit may be
  lost with the request or with the reply. The password hasher, the TOTP arithmetic, the
  encryption of secrets and the collation's lower-casing are parameters (\<open>auth_lib\<close>); what a call
  draws from the environment is in its \<open>auth_env\<close>. Audit rows are the calls of the audit logger;
  addresses, user agents and timestamps in them are left out.
\<close>

section \<open>Data\<close>

record User =
  usID :: uuid
  usTenantID :: uuid
  usLogin :: string
  usFullName :: string
  usEmail :: string
  usRoles :: "string list"
  usTOTPEnabled :: bool
  usMustChangePwd :: bool
  usCreatedAt :: time
  usUpdatedAt :: time
  usArchivedAt :: "time option"

record TOTPState =
  tsUserID :: uuid
  tsTenantID :: uuid
  tsSecretEncrypted :: string
  tsEnrolled :: bool
  tsEnrolledAt :: "time option"
  tsLastVerifiedAt :: "time option"
  tsBackupCodeHashes :: "string list"
  tsBackupUsedCount :: int

record audit_row =
  auAction :: string
  auTarget :: string
  auActor :: "uuid option"
  auPayload :: "(string \<times> string) list"

text \<open>A user row carries the password hash beside the projected columns.\<close>

record auth_db =
  adUsers :: "(User \<times> string) list"
  adTotp :: "TOTPState list"

record auth_world =
  awRedis :: redis
  awDb :: auth_db
  awTenants :: "string \<rightharpoonup> uuid"
  awAudit :: "audit_row list"
  awOutbox :: "(string \<times> uuid) list"

datatype site =
    SiteTenant | SiteUser | SiteHash | SiteLocked | SiteIncr | SiteExpire | SiteUntil | SiteReset | SiteSave
  | SiteSid | SiteCutoff | SiteRotate | SiteRevoke | SiteDelete | SiteResolve | SiteTotp | SiteWrite

datatype rsite = RandIP | RandAccount | RandAccess | RandRefresh | RandSid | RandNew | RandIssueJti | RandIssueSid

record auth_env =
  avNow :: time
  avNet :: "site \<Rightarrow> call_outcome"
  avLost :: "rsite \<Rightarrow> nat option"
  avRand32 :: "rsite \<Rightarrow> 32 word option"
  avRand :: "rsite \<Rightarrow> 128 word option"
  avBytes :: "nat \<Rightarrow> 8 word option"
  avKey :: "(string \<times> string) option"
  avSalt :: nat
  avFreshID :: uuid
  avAuditOk :: bool
  avActor :: "uuid option"

record 'tok auth_lib =
  alCodec :: codec
  alJwt :: "'tok jwt_lib"
  alHash :: "nat \<Rightarrow> string \<Rightarrow> string option"
  alVerify :: "string \<Rightarrow> string \<Rightarrow> bool option"
  alLower :: "string \<Rightarrow> string"
  alTotp :: "string \<Rightarrow> string \<Rightarrow> time \<Rightarrow> bool option"
  alBackupHash :: "nat \<Rightarrow> string \<Rightarrow> string option"
  alBackupVerify :: "string \<Rightarrow> string \<Rightarrow> bool option"
  alEncrypt :: "uuid \<Rightarrow> string \<Rightarrow> string \<Rightarrow> string option"
  alDecrypt :: "uuid \<Rightarrow> string \<Rightarrow> string \<Rightarrow> string option"

section \<open>Transactions\<close>

text \<open>\<open>scope\<close> is the tenant of \<open>WithTenant\<close>, or \<open>None\<close> for \<open>BypassRLS\<close>.\<close>

definition tx ::
  "call_outcome \<Rightarrow> auth_db \<Rightarrow> (auth_db \<Rightarrow> (auth_error + 'a) \<times> auth_db) \<Rightarrow> (auth_error + 'a) \<times> auth_db" where
  "tx net db f =
     (case net of
        CallLost \<Rightarrow> (Inl ErrStore, db)
      | _ \<Rightarrow> (case f db of
          (Inl e, _) \<Rightarrow> (Inl e, db)
        | (Inr x, db') \<Rightarrow> if net = ReplyLost then (Inl ErrStore, db') else (Inr x, db')))"

definition visible :: "uuid option \<Rightarrow> uuid \<Rightarrow> bool" where
  "visible scope t \<longleftrightarrow> (case scope of None \<Rightarrow> True | Some s \<Rightarrow> t = s)"

definition user_row :: "uuid option \<Rightarrow> auth_db \<Rightarrow> uuid \<Rightarrow> (User \<times> string) option" where
  "user_row scope db i = find (\<lambda>(u, h). usID u = i \<and> visible scope (usTenantID u)) (adUsers db)"

definition update_users :: "uuid option \<Rightarrow> uuid \<Rightarrow> (User \<times> string \<Rightarrow> User \<times> string) \<Rightarrow> auth_db \<Rightarrow> auth_db" where
  "update_users scope i f db =
     db\<lparr>adUsers := map (\<lambda>r. if usID (fst r) = i \<and> visible scope (usTenantID (fst r)) then f r else r) (adUsers db)\<rparr>"

section \<open>Statements on users\<close>

definition GetByID :: "uuid option \<Rightarrow> auth_db \<Rightarrow> uuid \<Rightarrow> auth_error + User" where
  "GetByID scope db i = (case user_row scope db i of None \<Rightarrow> Inl ErrUserNotFound | Some (u, h) \<Rightarrow> Inr u)"

definition GetByLogin :: "'tok auth_lib \<Rightarrow> auth_db \<Rightarrow> uuid \<Rightarrow> string \<Rightarrow> auth_error + User" where
  "GetByLogin L db tenantID login =
     (case find (\<lambda>(u, h). usTenantID u = tenantID \<and> alLower L (usLogin u) = alLower L login) (adUsers db) of
        None \<Rightarrow> Inl ErrUserNotFound
      | Some (u, h) \<Rightarrow> Inr u)"

definition GetPasswordHash :: "uuid option \<Rightarrow> auth_db \<Rightarrow> uuid \<Rightarrow> auth_error + string" where
  "GetPasswordHash scope db i = (case user_row scope db i of None \<Rightarrow> Inl ErrUserNotFound | Some (u, h) \<Rightarrow> Inr h)"

text \<open>The check constraints on the roles column.\<close>

definition roles_valid :: "string list \<Rightarrow> bool" where
  "roles_valid roles \<longleftrightarrow> roles \<noteq> [] \<and> set roles \<subseteq> {''operator'', ''supervisor'', ''admin''}"

definition UpdateRoles :: "time \<Rightarrow> uuid option \<Rightarrow> uuid \<Rightarrow> string list \<Rightarrow> auth_db \<Rightarrow> (auth_error + User) \<times> auth_db" where
  "UpdateRoles now scope i roles db =
     (if \<not> roles_valid roles then (Inl ErrStore, db) else
      case user_row scope db i of
        None \<Rightarrow> (Inl ErrUserNotFound, db)
      | Some (u, h) \<Rightarrow>
        (Inr (u\<lparr>usRoles := roles, usUpdatedAt := now\<rparr>),
         update_users scope i (\<lambda>(u, h). (u\<lparr>usRoles := roles, usUpdatedAt := now\<rparr>, h)) db))"

definition UpdatePassword :: "time \<Rightarrow> uuid option \<Rightarrow> uuid \<Rightarrow> string \<Rightarrow> bool \<Rightarrow> auth_db \<Rightarrow> (auth_error + unit) \<times> auth_db" where
  "UpdatePassword now scope i hash mustChange db =
     (case user_row scope db i of
        None \<Rightarrow> (Inl ErrUserNotFound, db)
      | Some _ \<Rightarrow> (Inr (), update_users scope i (\<lambda>(u, h). (u\<lparr>usMustChangePwd := mustChange, usUpdatedAt := now\<rparr>, hash)) db))"

definition store_Archive :: "time \<Rightarrow> uuid option \<Rightarrow> uuid \<Rightarrow> auth_db \<Rightarrow> (auth_error + unit) \<times> auth_db" where
  "store_Archive now scope i db =
     (case user_row scope db i of
        None \<Rightarrow> (Inl ErrUserNotFound, db)
      | Some (u, h) \<Rightarrow>
        (Inr (), if usArchivedAt u \<noteq> None then db
          else update_users scope i (\<lambda>(u, h). (u\<lparr>usArchivedAt := Some now, usUpdatedAt := now\<rparr>, h)) db))"

definition store_Restore :: "time \<Rightarrow> uuid option \<Rightarrow> uuid \<Rightarrow> auth_db \<Rightarrow> (auth_error + unit) \<times> auth_db" where
  "store_Restore now scope i db =
     (case user_row scope db i of
        None \<Rightarrow> (Inl ErrUserNotFound, db)
      | Some (u, h) \<Rightarrow>
        if usArchivedAt u = None then (Inl ErrUserNotArchived, db)
        else (Inr (), update_users scope i (\<lambda>(u, h). (u\<lparr>usArchivedAt := None, usUpdatedAt := now\<rparr>, h)) db))"

definition SetTOTPEnabled :: "time \<Rightarrow> uuid option \<Rightarrow> uuid \<Rightarrow> bool \<Rightarrow> auth_db \<Rightarrow> (auth_error + unit) \<times> auth_db" where
  "SetTOTPEnabled now scope i enabled db =
     (case user_row scope db i of
        None \<Rightarrow> (Inl ErrUserNotFound, db)
      | Some _ \<Rightarrow> (Inr (), update_users scope i (\<lambda>(u, h). (u\<lparr>usTOTPEnabled := enabled, usUpdatedAt := now\<rparr>, h)) db))"

text \<open>
  \<open>INSERT ... RETURNING\<close>: the database mints the identifier and the timestamps. The unique
  constraint is on the login as written.
\<close>

definition user_Insert :: "time \<Rightarrow> uuid \<Rightarrow> User \<Rightarrow> string \<Rightarrow> auth_db \<Rightarrow> (auth_error + User) \<times> auth_db" where
  "user_Insert now newID u hash db =
     (if \<exists>(v, h) \<in> set (adUsers db). usTenantID v = usTenantID u \<and> usLogin v = usLogin u then (Inl ErrLoginTaken, db)
      else if \<not> roles_valid (usRoles u) then (Inl ErrStore, db)
      else let saved = u\<lparr>usID := newID, usCreatedAt := now, usUpdatedAt := now, usArchivedAt := None\<rparr>
           in (Inr saved, db\<lparr>adUsers := adUsers db @ [(saved, hash)]\<rparr>))"

text \<open>\<open>coll\<close> is the order of the logins under the column's collation.\<close>

record ListUsersInput =
  luTenantID :: uuid
  luIncludeArchived :: bool
  luLimit :: int
  luOffset :: int

definition store_List :: "(string \<Rightarrow> int) \<Rightarrow> ListUsersInput \<Rightarrow> auth_db \<Rightarrow> User list \<times> int" where
  "store_List coll inp db =
     (let rows = sort_key (\<lambda>u. coll (usLogin u))
            (filter (\<lambda>u. usTenantID u = luTenantID inp \<and> (luIncludeArchived inp \<or> usArchivedAt u = None)) (map fst (adUsers db)))
      in (take (nat (luLimit inp)) (drop (nat (luOffset inp)) rows), int (length rows)))"

section \<open>User administration\<close>

definition user_audit :: "auth_env \<Rightarrow> codec \<Rightarrow> string \<Rightarrow> uuid \<Rightarrow> audit_row" where
  "user_audit e C action i = \<lparr>auAction = action, auTarget = ''user:'' @ uuid_String C i, auActor = avActor e, auPayload = []\<rparr>"

text \<open>
  The body of every mutating method: the statements, then the audit row, then the outbox rows, in one
  \<open>WithTenant\<close> transaction. The audit logger has its own connection, so a row written before a
  commit that is lost stays.
\<close>

definition user_mutation ::
  "auth_env \<Rightarrow> auth_world \<Rightarrow> (auth_db \<Rightarrow> (auth_error + 'a) \<times> auth_db) \<Rightarrow> ('a \<Rightarrow> audit_row) \<Rightarrow> ('a \<Rightarrow> (string \<times> uuid) list)
   \<Rightarrow> (auth_error + 'a) \<times> auth_world" where
  "user_mutation e w f row events =
     (case f (awDb w) of
        (Inl err, _) \<Rightarrow> (Inl err, w)
      | (Inr x, db) \<Rightarrow>
        if \<not> avAuditOk e then (Inl ErrStore, w)
        else let w1 = w\<lparr>awAudit := awAudit w @ [row x]\<rparr>;
                 w2 = w1\<lparr>awDb := db, awOutbox := awOutbox w1 @ events x\<rparr>
             in case avNet e SiteWrite of
                  CallOk \<Rightarrow> (Inr x, w2)
                | CallLost \<Rightarrow> (Inl ErrStore, w1)
                | ReplyLost \<Rightarrow> (Inl ErrStore, w2))"

definition tempPasswordAlphabet :: string where
  "tempPasswordAlphabet = ''ABCDEFGHIJKLMNOPQRSTUVWXYZabcdefghijklmnopqrstuvwxyz0123456789-_''"

definition GenerateTempPassword :: "(nat \<Rightarrow> 8 word option) \<Rightarrow> string option" where
  "GenerateTempPassword bytes =
     (if \<exists>i \<in> {0..<16}. bytes i = None then None
      else Some (map (\<lambda>i. tempPasswordAlphabet ! unat (the (bytes i) mod 64)) [0..<16]))"

record CreateUserInput =
  ciTenantID :: uuid
  ciLogin :: string
  ciFullName :: string
  ciEmail :: string
  ciRoles :: "string list"

definition user_Create ::
  "'tok auth_lib \<Rightarrow> auth_env \<Rightarrow> auth_world \<Rightarrow> CreateUserInput \<Rightarrow> (auth_error + User \<times> string) \<times> auth_world" where
  "user_Create L e w inp =
     (if ciTenantID inp = uuid_Nil then (Inl ErrStore, w)
      else if ciLogin inp = '''' then (Inl ErrStore, w)
      else if ciRoles inp = [] then (Inl ErrEmptyRoles, w)
      else case GenerateTempPassword (avBytes e) of
        None \<Rightarrow> (Inl ErrStore, w)
      | Some tempPwd \<Rightarrow>
     (case alHash L (avSalt e) tempPwd of
        None \<Rightarrow> (Inl ErrStore, w)
      | Some hash \<Rightarrow>
        let candidate = \<lparr>usID = uuid_Nil, usTenantID = ciTenantID inp, usLogin = ciLogin inp, usFullName = ciFullName inp,
              usEmail = ciEmail inp, usRoles = ciRoles inp, usTOTPEnabled = False, usMustChangePwd = True,
              usCreatedAt = zero_time, usUpdatedAt = zero_time, usArchivedAt = None\<rparr>
        in case user_mutation e w (user_Insert (avNow e) (avFreshID e) candidate hash)
                  (\<lambda>u. user_audit e (alCodec L) ''user.created'' (usID u)) (\<lambda>u. []) of
             (Inl err, w') \<Rightarrow> (Inl err, w')
           | (Inr u, w') \<Rightarrow> (Inr (u, tempPwd), w')))"

definition user_Get :: "auth_env \<Rightarrow> auth_world \<Rightarrow> uuid \<Rightarrow> auth_error + User" where
  "user_Get e w i =
     (if i = uuid_Nil then Inl ErrStore
      else if avNet e SiteUser \<noteq> CallOk then Inl ErrStore else GetByID None (awDb w) i)"

definition GetByTenant :: "auth_env \<Rightarrow> auth_world \<Rightarrow> uuid \<Rightarrow> uuid \<Rightarrow> auth_error + User" where
  "GetByTenant e w callerTenantID i =
     (if callerTenantID = uuid_Nil then Inl ErrStore else if i = uuid_Nil then Inl ErrStore
      else if avNet e SiteUser \<noteq> CallOk then Inl ErrStore else GetByID (Some callerTenantID) (awDb w) i)"

definition user_List :: "(string \<Rightarrow> int) \<Rightarrow> auth_env \<Rightarrow> auth_world \<Rightarrow> ListUsersInput \<Rightarrow> auth_error + User list \<times> int" where
  "user_List coll e w inp =
     (if luTenantID inp = uuid_Nil then Inl ErrStore else
      let limit = (if luLimit inp \<le> 0 then 50 else luLimit inp);
          limit = (if limit > 500 then 500 else limit);
          offset = (if luOffset inp < 0 then 0 else luOffset inp)
      in if avNet e SiteUser \<noteq> CallOk then Inl ErrStore
         else Inr (store_List coll (inp\<lparr>luLimit := limit, luOffset := offset\<rparr>) (awDb w)))"

definition ResolveTenant :: "auth_env \<Rightarrow> auth_world \<Rightarrow> uuid \<Rightarrow> auth_error + uuid" where
  "ResolveTenant e w i =
     (if i = uuid_Nil then Inl ErrStore
      else if avNet e SiteResolve \<noteq> CallOk then Inl ErrStore
      else bindE (GetByID None (awDb w) i) (\<lambda>u. Inr (usTenantID u)))"

text \<open>
  Paging through a listing with a fixed limit shows every user of the tenant once, in order: the
  pages are consecutive pieces of the ordered rows.
\<close>

lemma list_pages_complete:
  assumes "0 < luLimit inp" "luLimit inp * int n \<ge> snd (store_List coll inp db)"
  shows "concat (map (\<lambda>k. fst (store_List coll (inp\<lparr>luOffset := luLimit inp * int k\<rparr>) db)) [0..<n]) =
    fst (store_List coll (inp\<lparr>luOffset := 0, luLimit := snd (store_List coll inp db)\<rparr>) db)"
proof -
  let ?rows = "sort_key (\<lambda>u. coll (usLogin u))
    (filter (\<lambda>u. usTenantID u = luTenantID inp \<and> (luIncludeArchived inp \<or> usArchivedAt u = None)) (map fst (adUsers db)))"
  obtain l where l: "luLimit inp = int l" "0 < l" using assms(1) by (metis zero_less_imp_eq_int)
  have "concat (map (\<lambda>k. take l (drop (l * k) xs)) [0..<n]) = take (l * n) xs" for xs :: "User list"
    by (induction n) (simp_all add: take_add [symmetric] add.commute)
  moreover have "length ?rows \<le> l * n" using assms(2) l by (simp add: store_List_def Let_def flip: of_nat_mult)
  ultimately show ?thesis using l by (simp add: store_List_def Let_def nat_mult_distrib flip: of_nat_mult)
qed

definition UpdateRole ::
  "'tok auth_lib \<Rightarrow> auth_env \<Rightarrow> auth_world \<Rightarrow> uuid \<Rightarrow> uuid \<Rightarrow> string list \<Rightarrow> (auth_error + User) \<times> auth_world" where
  "UpdateRole L e w callerTenantID i roles =
     (if callerTenantID = uuid_Nil \<or> i = uuid_Nil then (Inl ErrStore, w)
      else if roles = [] then (Inl ErrEmptyRoles, w)
      else user_mutation e w (UpdateRoles (avNow e) (Some callerTenantID) i roles)
             (\<lambda>u. user_audit e (alCodec L) ''user.roles_updated'' (usID u)) (\<lambda>u. []))"

definition user_Archive :: "'tok auth_lib \<Rightarrow> auth_env \<Rightarrow> auth_world \<Rightarrow> uuid \<Rightarrow> uuid \<Rightarrow> (auth_error + unit) \<times> auth_world" where
  "user_Archive L e w callerTenantID i =
     (if callerTenantID = uuid_Nil \<or> i = uuid_Nil then (Inl ErrStore, w)
      else user_mutation e w (store_Archive (avNow e) (Some callerTenantID) i)
             (\<lambda>_. user_audit e (alCodec L) ''user.archived'' i)
             (\<lambda>_. [(''tenant.'' @ uuid_String (alCodec L) callerTenantID @ ''.auth.user.deleted'', i)]))"

definition user_Restore :: "'tok auth_lib \<Rightarrow> auth_env \<Rightarrow> auth_world \<Rightarrow> uuid \<Rightarrow> uuid \<Rightarrow> (auth_error + unit) \<times> auth_world" where
  "user_Restore L e w callerTenantID i =
     (if callerTenantID = uuid_Nil \<or> i = uuid_Nil then (Inl ErrStore, w)
      else user_mutation e w (store_Restore (avNow e) (Some callerTenantID) i)
             (\<lambda>_. user_audit e (alCodec L) ''user.restored'' i) (\<lambda>_. []))"

definition ResetPassword :: "'tok auth_lib \<Rightarrow> auth_env \<Rightarrow> auth_world \<Rightarrow> uuid \<Rightarrow> uuid \<Rightarrow> (auth_error + string) \<times> auth_world" where
  "ResetPassword L e w callerTenantID i =
     (if callerTenantID = uuid_Nil \<or> i = uuid_Nil then (Inl ErrStore, w)
      else case GenerateTempPassword (avBytes e) of
        None \<Rightarrow> (Inl ErrStore, w)
      | Some tempPwd \<Rightarrow>
     (case alHash L (avSalt e) tempPwd of
        None \<Rightarrow> (Inl ErrStore, w)
      | Some hash \<Rightarrow>
        (case user_mutation e w (UpdatePassword (avNow e) (Some callerTenantID) i hash True)
                (\<lambda>_. user_audit e (alCodec L) ''user.password_reset'' i) (\<lambda>_. []) of
           (Inl err, w') \<Rightarrow> (Inl err, w')
         | (Inr _, w') \<Rightarrow> (Inr tempPwd, w'))))"

definition applyPasswordChange ::
  "'tok auth_lib \<Rightarrow> auth_env \<Rightarrow> uuid \<Rightarrow> uuid \<Rightarrow> string \<Rightarrow> string \<Rightarrow> auth_db \<Rightarrow> (auth_error + unit) \<times> auth_db" where
  "applyPasswordChange L e i tenantID oldPassword newPassword db =
     (case GetPasswordHash (Some tenantID) db i of
        Inl err \<Rightarrow> (Inl (if err = ErrUserNotFound then ErrInvalidCredentials else err), db)
      | Inr oldHash \<Rightarrow>
     (case alVerify L oldHash oldPassword of
        None \<Rightarrow> (Inl ErrStore, db)
      | Some ok \<Rightarrow>
        if \<not> ok then (Inl ErrInvalidCredentials, db)
        else case alHash L (avSalt e) newPassword of
               None \<Rightarrow> (Inl ErrStore, db)
             | Some newHash \<Rightarrow> UpdatePassword (avNow e) (Some tenantID) i newHash False db))"

definition ChangePassword :: "'tok auth_lib \<Rightarrow> auth_env \<Rightarrow> auth_world \<Rightarrow> uuid \<Rightarrow> string \<Rightarrow> string \<Rightarrow> (auth_error + unit) \<times> auth_world" where
  "ChangePassword L e w i oldPassword newPassword =
     (if i = uuid_Nil then (Inl ErrStore, w)
      else if newPassword = '''' then (Inl ErrStore, w)
      else if avNet e SiteResolve \<noteq> CallOk then (Inl ErrStore, w)
      else case GetByID None (awDb w) i of
        Inl err \<Rightarrow> (Inl (if err = ErrUserNotFound then ErrInvalidCredentials else err), w)
      | Inr u \<Rightarrow>
        user_mutation e w (applyPasswordChange L e i (usTenantID u) oldPassword newPassword)
          (\<lambda>_. user_audit e (alCodec L) ''user.password_changed'' i) (\<lambda>_. []))"

section \<open>Statements on second factors\<close>

definition totp_row :: "uuid option \<Rightarrow> auth_db \<Rightarrow> uuid \<Rightarrow> TOTPState option" where
  "totp_row scope db i = find (\<lambda>t. tsUserID t = i \<and> visible scope (tsTenantID t)) (adTotp db)"

definition update_totp :: "uuid option \<Rightarrow> uuid \<Rightarrow> (TOTPState \<Rightarrow> TOTPState) \<Rightarrow> auth_db \<Rightarrow> auth_db" where
  "update_totp scope i f db = db\<lparr>adTotp := map (\<lambda>t. if tsUserID t = i \<and> visible scope (tsTenantID t) then f t else t) (adTotp db)\<rparr>"

definition totp_GetAny :: "uuid option \<Rightarrow> auth_db \<Rightarrow> uuid \<Rightarrow> auth_error + TOTPState" where
  "totp_GetAny scope db i = (case totp_row scope db i of None \<Rightarrow> Inl ErrTOTPNotEnrolled | Some t \<Rightarrow> Inr t)"

definition totp_Get :: "uuid option \<Rightarrow> auth_db \<Rightarrow> uuid \<Rightarrow> auth_error + TOTPState" where
  "totp_Get scope db i =
     (case totp_GetAny scope db i of
        Inl e \<Rightarrow> Inl e
      | Inr t \<Rightarrow> if \<not> tsEnrolled t then Inl ErrTOTPNotEnrolled else Inr t)"

definition totp_Upsert :: "uuid \<Rightarrow> uuid \<Rightarrow> string \<Rightarrow> string list \<Rightarrow> auth_db \<Rightarrow> (auth_error + unit) \<times> auth_db" where
  "totp_Upsert userID tenantID enc hashes db =
     (let fresh = \<lparr>tsUserID = userID, tsTenantID = tenantID, tsSecretEncrypted = enc, tsEnrolled = False, tsEnrolledAt = None,
                   tsLastVerifiedAt = None, tsBackupCodeHashes = hashes, tsBackupUsedCount = 0\<rparr>
      in case find (\<lambda>t. tsUserID t = userID) (adTotp db) of
           None \<Rightarrow> (Inr (), db\<lparr>adTotp := adTotp db @ [fresh]\<rparr>)
         | Some old \<Rightarrow>
             if tsTenantID old \<noteq> tenantID then (Inl ErrStore, db)
             else (Inr (), db\<lparr>adTotp := map (\<lambda>t. if tsUserID t = userID then fresh\<lparr>tsLastVerifiedAt := tsLastVerifiedAt t\<rparr> else t) (adTotp db)\<rparr>))"

definition totp_store_Confirm :: "time \<Rightarrow> uuid option \<Rightarrow> uuid \<Rightarrow> auth_db \<Rightarrow> (auth_error + unit) \<times> auth_db" where
  "totp_store_Confirm stamp scope i db =
     (case totp_row scope db i of
        None \<Rightarrow> (Inl ErrTOTPNotEnrolled, db)
      | Some _ \<Rightarrow> (Inr (), update_totp scope i (\<lambda>t. t\<lparr>tsEnrolled := True, tsEnrolledAt := Some stamp\<rparr>) db))"

definition totp_Delete :: "uuid option \<Rightarrow> uuid \<Rightarrow> auth_db \<Rightarrow> auth_db" where
  "totp_Delete scope i db = db\<lparr>adTotp := filter (\<lambda>t. \<not> (tsUserID t = i \<and> visible scope (tsTenantID t))) (adTotp db)\<rparr>"

definition UpdateLastVerified :: "time \<Rightarrow> uuid option \<Rightarrow> uuid \<Rightarrow> auth_db \<Rightarrow> (auth_error + unit) \<times> auth_db" where
  "UpdateLastVerified stamp scope i db =
     (case totp_row scope db i of
        None \<Rightarrow> (Inl ErrTOTPNotEnrolled, db)
      | Some _ \<Rightarrow> (Inr (), update_totp scope i (\<lambda>t. t\<lparr>tsLastVerifiedAt := Some stamp\<rparr>) db))"

definition MarkBackupUsed :: "uuid option \<Rightarrow> uuid \<Rightarrow> string \<Rightarrow> auth_db \<Rightarrow> (auth_error + unit) \<times> auth_db" where
  "MarkBackupUsed scope i hash db =
     (case totp_row scope db i of
        None \<Rightarrow> (Inl ErrTOTPNotEnrolled, db)
      | Some t \<Rightarrow>
        if hash \<notin> set (tsBackupCodeHashes t) then (Inl ErrTOTPInvalid, db)
        else (Inr (), update_totp scope i (\<lambda>t. t\<lparr>tsBackupCodeHashes := removeAll hash (tsBackupCodeHashes t),
                                                  tsBackupUsedCount := tsBackupUsedCount t + 1\<rparr>) db))"

end
