(* ===== verification/Auth_Totp.thy ===== *)
theory Auth_Totp
  imports Auth_Users
begin

text \<open>
  The TOTP service (\<open>internal/auth/service/totp.go\<close>): enrolment, confirmation, verification with
  single-use backup codes, disabling and status. The secret generator, the code arithmetic, the
  encryption of secrets and the hasher of backup codes are parameters. \<open>Verify\<close> reads the row in
  one transaction and marks a used code in another; \<open>totp_finish\<close> is the part after the read, so
  that two calls can be interleaved.
\<close>

section \<open>Loading\<close>

definition resolveUser :: "auth_env \<Rightarrow> auth_db \<Rightarrow> uuid \<Rightarrow> auth_error + User" where
  "resolveUser e db i = (if avNet e SiteResolve \<noteq> CallOk then Inl ErrStore else GetByID None db i)"

definition loadAnyState :: "auth_env \<Rightarrow> auth_db \<Rightarrow> uuid \<Rightarrow> auth_error + TOTPState" where
  "loadAnyState e db i =
     bindE (resolveUser e db i) (\<lambda>u.
     if avNet e SiteTotp \<noteq> CallOk then Inl ErrStore else totp_GetAny (Some (usTenantID u)) db i)"

definition loadEnrolledState :: "auth_env \<Rightarrow> auth_db \<Rightarrow> uuid \<Rightarrow> auth_error + TOTPState" where
  "loadEnrolledState e db i =
     bindE (resolveUser e db i) (\<lambda>u.
     if avNet e SiteTotp \<noteq> CallOk then Inl ErrStore else totp_Get (Some (usTenantID u)) db i)"

definition totp_audit :: "codec \<Rightarrow> string \<Rightarrow> uuid \<Rightarrow> auth_world \<Rightarrow> auth_world" where
  "totp_audit C action i w =
     w\<lparr>awAudit := awAudit w @ [\<lparr>auAction = action, auTarget = ''user:'' @ uuid_String C i, auActor = Some i, auPayload = []\<rparr>]\<rparr>"

section \<open>Enrolment\<close>

text \<open>Ten codes of five random bytes in hexadecimal, each hashed with its own salt.\<close>

definition backup_code :: "(nat \<Rightarrow> 8 word option) \<Rightarrow> nat \<Rightarrow> string option" where
  "backup_code bytes i =
     (if \<exists>k \<in> {5 * i..<5 * i + 5}. bytes k = None then None
      else Some (concat (map (\<lambda>k. let b = unat (the (bytes k)) in [hex_char (b div 16), hex_char (b mod 16)]) [5 * i..<5 * i + 5])))"

fun backup_codes :: "'tok auth_lib \<Rightarrow> auth_env \<Rightarrow> nat list \<Rightarrow> auth_error + (string \<times> string) list" where
  "backup_codes L e [] = Inr []"
| "backup_codes L e (i # is) =
     (case backup_code (avBytes e) i of
        None \<Rightarrow> Inl ErrStore
      | Some code \<Rightarrow>
     (case alBackupHash L (avSalt e + i) code of
        None \<Rightarrow> Inl ErrStore
      | Some hash \<Rightarrow> bindE (backup_codes L e is) (\<lambda>cs. Inr ((code, hash) # cs))))"

definition generateBackupCodes :: "'tok auth_lib \<Rightarrow> auth_env \<Rightarrow> auth_error + (string \<times> string) list" where
  "generateBackupCodes L e = backup_codes L e [0..<10]"

record TOTPEnrollment =
  teSecret :: string
  teOTPAuthURL :: string
  teBackupCodes :: "string list"

definition Enroll :: "'tok auth_lib \<Rightarrow> auth_env \<Rightarrow> auth_world \<Rightarrow> uuid \<Rightarrow> (auth_error + TOTPEnrollment) \<times> auth_world" where
  "Enroll L e w i =
     (case resolveUser e (awDb w) i of
        Inl err \<Rightarrow> (Inl err, w)
      | Inr u \<Rightarrow>
      if avNet e SiteTotp \<noteq> CallOk then (Inl ErrStore, w)
      else if (case totp_GetAny (Some (usTenantID u)) (awDb w) i of Inl _ \<Rightarrow> False | Inr t \<Rightarrow> tsEnrolled t)
      then (Inl ErrTOTPAlreadyEnabled, w)
      else case avKey e of
        None \<Rightarrow> (Inl ErrStore, w)
      | Some (secret, url) \<Rightarrow>
     (case alEncrypt L (usTenantID u) (uuid_String (alCodec L) i) secret of
        None \<Rightarrow> (Inl ErrStore, w)
      | Some enc \<Rightarrow>
     (case generateBackupCodes L e of
        Inl err \<Rightarrow> (Inl err, w)
      | Inr cs \<Rightarrow>
     (case tx (avNet e SiteWrite) (awDb w) (totp_Upsert i (usTenantID u) enc (map snd cs)) of
        (Inl err, db) \<Rightarrow> (Inl err, w\<lparr>awDb := db\<rparr>)
      | (Inr _, db) \<Rightarrow> (Inr \<lparr>teSecret = secret, teOTPAuthURL = url, teBackupCodes = map fst cs\<rparr>, w\<lparr>awDb := db\<rparr>)))))"

definition totp_Confirm :: "'tok auth_lib \<Rightarrow> auth_env \<Rightarrow> auth_world \<Rightarrow> uuid \<Rightarrow> string \<Rightarrow> (auth_error + unit) \<times> auth_world" where
  "totp_Confirm L e w i code =
     (case loadAnyState e (awDb w) i of
        Inl err \<Rightarrow> (Inl err, w)
      | Inr state \<Rightarrow>
      if tsEnrolled state then (Inr (), w)
      else case alDecrypt L (tsTenantID state) (uuid_String (alCodec L) i) (tsSecretEncrypted state) of
        None \<Rightarrow> (Inl ErrStore, w)
      | Some secret \<Rightarrow>
      if alTotp L code secret (avNow e) \<noteq> Some True then (Inl ErrTOTPInvalid, w)
      else case tx (avNet e SiteWrite) (awDb w) (\<lambda>db.
                 case totp_store_Confirm (avNow e) (Some (tsTenantID state)) i db of
                   (Inl err, db') \<Rightarrow> (Inl err, db')
                 | (Inr _, db') \<Rightarrow> SetTOTPEnabled (avNow e) (Some (tsTenantID state)) i True db') of
             (Inl err, db) \<Rightarrow> (Inl err, w\<lparr>awDb := db\<rparr>)
           | (Inr _, db) \<Rightarrow> (Inr (), totp_audit (alCodec L) ''auth.totp.enrolled'' i (w\<lparr>awDb := db\<rparr>)))"

section \<open>Verification\<close>

text \<open>The first stored hash the code matches; a malformed hash stops the walk.\<close>

fun backup_match :: "('h \<Rightarrow> string \<Rightarrow> bool option) \<Rightarrow> 'h list \<Rightarrow> string \<Rightarrow> auth_error + 'h option" where
  "backup_match vf [] code = Inr None"
| "backup_match vf (h # hs) code =
     (case vf h code of
        None \<Rightarrow> Inl ErrStore
      | Some ok \<Rightarrow> if ok then Inr (Some h) else backup_match vf hs code)"

definition totp_finish ::
  "'tok auth_lib \<Rightarrow> auth_env \<Rightarrow> auth_world \<Rightarrow> uuid \<Rightarrow> string \<Rightarrow> TOTPState \<Rightarrow> (auth_error + bool) \<times> auth_world" where
  "totp_finish L e w i code state =
     (case alDecrypt L (tsTenantID state) (uuid_String (alCodec L) i) (tsSecretEncrypted state) of
        None \<Rightarrow> (Inl ErrStore, w)
      | Some secret \<Rightarrow>
      if alTotp L code secret (avNow e) = Some True
      then (case tx (avNet e SiteWrite) (awDb w) (UpdateLastVerified (avNow e) (Some (tsTenantID state)) i) of
              (Inl err, db) \<Rightarrow> (Inl err, w\<lparr>awDb := db\<rparr>)
            | (Inr _, db) \<Rightarrow> (Inr True, totp_audit (alCodec L) ''auth.totp.verified'' i (w\<lparr>awDb := db\<rparr>)))
      else case backup_match (alBackupVerify L) (tsBackupCodeHashes state) code of
        Inl err \<Rightarrow> (Inl err, w)
      | Inr None \<Rightarrow> (Inr False, w)
      | Inr (Some hash) \<Rightarrow>
           (case tx (avNet e SiteWrite) (awDb w) (MarkBackupUsed (Some (tsTenantID state)) i hash) of
              (Inl err, db) \<Rightarrow> (if err = ErrTOTPInvalid then Inr False else Inl err, w\<lparr>awDb := db\<rparr>)
            | (Inr _, db) \<Rightarrow> (Inr True, totp_audit (alCodec L) ''auth.totp.backup_used'' i (w\<lparr>awDb := db\<rparr>))))"

definition totp_Verify :: "'tok auth_lib \<Rightarrow> auth_env \<Rightarrow> auth_world \<Rightarrow> uuid \<Rightarrow> string \<Rightarrow> (auth_error + bool) \<times> auth_world" where
  "totp_Verify L e w i code =
     (case loadEnrolledState e (awDb w) i of
        Inl err \<Rightarrow> (Inl err, w)
      | Inr state \<Rightarrow> totp_finish L e w i code state)"

section \<open>Disabling and status\<close>

definition totp_Disable :: "'tok auth_lib \<Rightarrow> auth_env \<Rightarrow> auth_world \<Rightarrow> uuid \<Rightarrow> (auth_error + unit) \<times> auth_world" where
  "totp_Disable L e w i =
     (case resolveUser e (awDb w) i of
        Inl err \<Rightarrow> (Inl err, w)
      | Inr u \<Rightarrow>
     (case tx (avNet e SiteWrite) (awDb w) (\<lambda>db.
              SetTOTPEnabled (avNow e) (Some (usTenantID u)) i False (totp_Delete (Some (usTenantID u)) i db)) of
        (Inl err, db) \<Rightarrow> (Inl err, w\<lparr>awDb := db\<rparr>)
      | (Inr _, db) \<Rightarrow> (Inr (), totp_audit (alCodec L) ''auth.totp.disabled'' i (w\<lparr>awDb := db\<rparr>))))"

record TOTPStatus =
  tuEnabled :: bool
  tuEnrolledAt :: "time option"
  tuLastVerifiedAt :: "time option"
  tuBackupRemaining :: nat

definition totp_Status :: "auth_env \<Rightarrow> auth_world \<Rightarrow> uuid \<Rightarrow> auth_error + TOTPStatus" where
  "totp_Status e w i =
     bindE (resolveUser e (awDb w) i) (\<lambda>u.
     if avNet e SiteTotp \<noteq> CallOk then Inl ErrStore
     else case totp_GetAny (Some (usTenantID u)) (awDb w) i of
            Inl err \<Rightarrow> if err = ErrTOTPNotEnrolled
              then Inr \<lparr>tuEnabled = False, tuEnrolledAt = None, tuLastVerifiedAt = None, tuBackupRemaining = 0\<rparr> else Inl err
          | Inr t \<Rightarrow> Inr \<lparr>tuEnabled = tsEnrolled t, tuEnrolledAt = tsEnrolledAt t, tuLastVerifiedAt = tsLastVerifiedAt t,
                          tuBackupRemaining = length (tsBackupCodeHashes t)\<rparr>)"

end
