(* ===== verification/Authenticator.thy ===== *)
theory Authenticator
  imports Auth_Totp
begin

text \<open>
  The authenticator (\<open>internal/auth/service/authenticator.go\<close>): password login with its checks,
  the second step with a TOTP code, refresh-token rotation with reuse detection, logout, and
  validation of access tokens. It composes the stores, the token issuer and the TOTP service of
  the other theories. Metrics and the dummy hash verifications, which only spend time, are left
  out; one instant stands for the clock readings of one call.
\<close>

section \<open>Configuration and messages\<close>

record auth_cfg =
  acIssuer :: JWTConfig
  acPartialIssuer :: "JWTConfig option"
  acRefreshTTL :: duration
  acRevoker :: SessionRevoker
  acRate :: RateLimiterRedis
  acLockout :: LockoutRedis
  acPartialAccess :: duration
  acAudit :: bool

text \<open>\<open>NewAuthenticator\<close> falls back to the main issuer and to five minutes.\<close>

definition partialIssuer :: "auth_cfg \<Rightarrow> JWTConfig" where
  "partialIssuer A = (case acPartialIssuer A of None \<Rightarrow> acIssuer A | Some cfg \<Rightarrow> cfg)"

definition partialAccess :: "auth_cfg \<Rightarrow> duration" where
  "partialAccess A = (if acPartialAccess A \<le> 0 then 5 * minute else acPartialAccess A)"

record LoginInput =
  liOrgID :: string
  liLogin :: string
  liPassword :: string
  liIP :: string

record 'tok AuthResult =
  arAccessToken :: 'tok
  arAccessExpiresAt :: time
  arRefreshToken :: "'tok option"
  arRefreshExpiresAt :: time
  arUser :: "User option"
  arTOTPRequired :: bool

definition writeAuditAction :: "auth_cfg \<Rightarrow> string \<Rightarrow> LoginInput \<Rightarrow> auth_world \<Rightarrow> auth_world" where
  "writeAuditAction A action inp w =
     (if \<not> acAudit A then w
      else w\<lparr>awAudit := awAudit w @ [\<lparr>auAction = action, auTarget = ''login:'' @ liOrgID inp @ ''/'' @ liLogin inp,
                                     auActor = None, auPayload = []\<rparr>]\<rparr>)"

definition writeAuditPayload :: "auth_cfg \<Rightarrow> string \<Rightarrow> uuid \<Rightarrow> (string \<times> string) list \<Rightarrow> auth_world \<Rightarrow> auth_world" where
  "writeAuditPayload A action actor payload w =
     (if \<not> acAudit A then w
      else w\<lparr>awAudit := awAudit w @ [\<lparr>auAction = action, auTarget = '''',
                                     auActor = (if actor = uuid_Nil then None else Some actor), auPayload = payload\<rparr>]\<rparr>)"

section \<open>Issuing\<close>

definition issuePartial :: "'tok auth_lib \<Rightarrow> auth_cfg \<Rightarrow> auth_env \<Rightarrow> User \<Rightarrow> auth_error + 'tok \<times> time" where
  "issuePartial L A e user =
     (let claims = \<lparr>clUserID = usID user, clTenantID = usTenantID user, clLogin = usLogin user, clRoles = usRoles user,
                    clSessionID = '''', clJTI = '''', clIssuedAt = zero_time, clExpiresAt = zero_time, clTOTPDone = False\<rparr>
      in case IssueAccess (alCodec L) (alJwt L) (partialIssuer A) (avNow e) (avRand e RandIssueJti) (avRand e RandIssueSid) claims of
           Inl err \<Rightarrow> Inl err
         | Inr (access, expires) \<Rightarrow> Inr (access, min expires (avNow e + partialAccess A)))"

definition issueFullPairWithSession ::
  "'tok auth_lib \<Rightarrow> auth_cfg \<Rightarrow> auth_env \<Rightarrow> auth_world \<Rightarrow> User \<Rightarrow> string \<Rightarrow> bool \<Rightarrow> (auth_error + 'tok AuthResult) \<times> auth_world" where
  "issueFullPairWithSession L A e w user sid totpDone =
     (case randomHex (avRand e RandAccess) of
        Inl err \<Rightarrow> (Inl err, w)
      | Inr accessJTI \<Rightarrow>
     (case randomHex (avRand e RandRefresh) of
        Inl err \<Rightarrow> (Inl err, w)
      | Inr refreshJTI \<Rightarrow>
     (case (if sid = '''' then randomHex (avRand e RandSid) else Inr sid) of
        Inl err \<Rightarrow> (Inl err, w)
      | Inr sid \<Rightarrow>
      let base = \<lparr>clUserID = usID user, clTenantID = usTenantID user, clLogin = usLogin user, clRoles = usRoles user,
                  clSessionID = sid, clJTI = '''', clIssuedAt = zero_time, clExpiresAt = zero_time, clTOTPDone = totpDone\<rparr>
      in case IssueAccess (alCodec L) (alJwt L) (acIssuer A) (avNow e) None None (base\<lparr>clJTI := accessJTI\<rparr>) of
        Inl err \<Rightarrow> (Inl err, w)
      | Inr (access, accessExp) \<Rightarrow>
     (case IssueRefresh (alCodec L) (alJwt L) (acIssuer A) (avNow e) None None (base\<lparr>clJTI := refreshJTI\<rparr>) of
        Inl err \<Rightarrow> (Inl err, w)
      | Inr (refresh, refreshExp) \<Rightarrow>
     (case refresh_Save (acRefreshTTL A) (avNet e SiteSave) (awRedis w) (avNow e) refreshJTI
             \<lparr>rrUserID = usID user, rrTenantID = usTenantID user, rrSessionID = sid, rrExpiresAt = refreshExp\<rparr> of
        (Inl err, r) \<Rightarrow> (Inl err, w\<lparr>awRedis := r\<rparr>)
      | (Inr _, r) \<Rightarrow>
        (Inr \<lparr>arAccessToken = access, arAccessExpiresAt = accessExp, arRefreshToken = Some refresh,
              arRefreshExpiresAt = refreshExp, arUser = Some user, arTOTPRequired = False\<rparr>, w\<lparr>awRedis := r\<rparr>))))))"

definition issueFullPair ::
  "'tok auth_lib \<Rightarrow> auth_cfg \<Rightarrow> auth_env \<Rightarrow> auth_world \<Rightarrow> User \<Rightarrow> bool \<Rightarrow> (auth_error + 'tok AuthResult) \<times> auth_world" where
  "issueFullPair L A e w user totpDone = issueFullPairWithSession L A e w user '''' totpDone"

section \<open>Password login\<close>

definition failLoginInvalidCreds :: "auth_cfg \<Rightarrow> LoginInput \<Rightarrow> auth_world \<Rightarrow> (auth_error + 'a) \<times> auth_world" where
  "failLoginInvalidCreds A inp w = (Inl ErrInvalidCredentials, writeAuditAction A ''auth.login.failed'' inp w)"

definition loginPreflight ::
  "'tok auth_lib \<Rightarrow> auth_cfg \<Rightarrow> auth_env \<Rightarrow> auth_world \<Rightarrow> LoginInput \<Rightarrow> (auth_error + User \<times> uuid) \<times> auth_world" where
  "loginPreflight L A e w inp =
     (case AllowIP (acRate A) (avRand32 e RandIP) (avLost e RandIP) (awRedis w) (avNow e) (liIP inp) of
        (Inl err, r) \<Rightarrow> (Inl err, w\<lparr>awRedis := r\<rparr>)
      | (Inr allowed, r) \<Rightarrow>
      let w = w\<lparr>awRedis := r\<rparr> in
      if \<not> allowed then (Inl ErrRateLimitExceeded, writeAuditAction A ''auth.login.rate_limited'' inp w)
      else case (if avNet e SiteTenant \<noteq> CallOk then None else awTenants w (liOrgID inp)) of
        None \<Rightarrow> failLoginInvalidCreds A inp w
      | Some tenantID \<Rightarrow>
     (case (if avNet e SiteUser \<noteq> CallOk then Inl ErrStore else GetByLogin L (awDb w) tenantID (liLogin inp)) of
        Inl err \<Rightarrow> failLoginInvalidCreds A inp w
      | Inr user \<Rightarrow>
      if usArchivedAt user \<noteq> None then (Inl ErrAccountArchived, writeAuditAction A ''auth.login.failed'' inp w)
      else case IsLocked (alCodec L) (avNet e SiteLocked) (awRedis w) (avNow e) (usID user) of
        Inl err \<Rightarrow> (Inl err, w)
      | Inr True \<Rightarrow> (Inl ErrAccountLocked, writeAuditAction A ''auth.login.failed'' inp w)
      | Inr False \<Rightarrow>
     (case AllowAccount (alCodec L) (acRate A) (avRand32 e RandAccount) (avLost e RandAccount) (awRedis w) (avNow e) (usID user) of
        (Inl err, r) \<Rightarrow> (Inl err, w\<lparr>awRedis := r\<rparr>)
      | (Inr allowed, r) \<Rightarrow>
        let w = w\<lparr>awRedis := r\<rparr> in
        if \<not> allowed then (Inl ErrRateLimitExceeded, writeAuditAction A ''auth.login.rate_limited'' inp w)
        else (Inr (user, tenantID), w))))"

definition lockout_nets :: "auth_env \<Rightarrow> call_outcome \<times> call_outcome \<times> call_outcome" where
  "lockout_nets e = (avNet e SiteIncr, avNet e SiteExpire, avNet e SiteUntil)"

definition verifyPassword ::
  "'tok auth_lib \<Rightarrow> auth_cfg \<Rightarrow> auth_env \<Rightarrow> auth_world \<Rightarrow> uuid \<Rightarrow> User \<Rightarrow> LoginInput \<Rightarrow> (auth_error + unit) \<times> auth_world" where
  "verifyPassword L A e w tenantID user inp =
     (case (if avNet e SiteHash \<noteq> CallOk then Inl ErrStore else GetPasswordHash (Some tenantID) (awDb w) (usID user)) of
        Inl err \<Rightarrow> failLoginInvalidCreds A inp w
      | Inr hash \<Rightarrow>
     (case alVerify L hash (liPassword inp) of
        None \<Rightarrow> (Inl ErrInvalidCredentials, writeAuditAction A ''auth.login.failed'' inp w)
      | Some False \<Rightarrow>
        let r = snd (RegisterFailure (alCodec L) (acLockout A) (lockout_nets e) (awRedis w) (avNow e) (usID user))
        in (Inl ErrInvalidCredentials, writeAuditAction A ''auth.login.failed'' inp (w\<lparr>awRedis := r\<rparr>))
      | Some True \<Rightarrow>
        let (res, r) = lockout_Reset (alCodec L) (avNet e SiteReset) (awRedis w) (usID user);
            w = w\<lparr>awRedis := r\<rparr>;
            w = (case res of Inl _ \<Rightarrow> writeAuditAction A ''auth.lockout.reset_failed'' inp w | Inr _ \<Rightarrow> w)
        in if usMustChangePwd user
           then (Inl ErrPasswordExpired, writeAuditAction A ''auth.login.password_expired'' inp w)
           else (Inr (), w)))"

definition Login ::
  "'tok auth_lib \<Rightarrow> auth_cfg \<Rightarrow> auth_env \<Rightarrow> auth_world \<Rightarrow> LoginInput \<Rightarrow> (auth_error + 'tok AuthResult) \<times> auth_world" where
  "Login L A e w inp =
     (case loginPreflight L A e w inp of
        (Inl err, w) \<Rightarrow> (Inl err, w)
      | (Inr (user, tenantID), w) \<Rightarrow>
     (case verifyPassword L A e w tenantID user inp of
        (Inl err, w) \<Rightarrow> (Inl err, w)
      | (Inr _, w) \<Rightarrow>
      if usTOTPEnabled user
      then (case issuePartial L A e user of
              Inl err \<Rightarrow> (Inl err, w)
            | Inr (partial, partialExp) \<Rightarrow>
              (Inr \<lparr>arAccessToken = partial, arAccessExpiresAt = partialExp, arRefreshToken = None, arRefreshExpiresAt = zero_time,
                    arUser = Some user, arTOTPRequired = True\<rparr>, writeAuditAction A ''auth.login.totp_required'' inp w))
      else (case issueFullPair L A e w user True of
              (Inl err, w) \<Rightarrow> (Inl err, w)
            | (Inr res, w) \<Rightarrow> (Inr res, writeAuditAction A ''auth.login'' inp w))))"

section \<open>The second step\<close>

definition no_login :: "string \<Rightarrow> LoginInput" where
  "no_login ip = \<lparr>liOrgID = '''', liLogin = '''', liPassword = '''', liIP = ip\<rparr>"

definition LoginTOTP ::
  "'tok auth_lib \<Rightarrow> auth_cfg \<Rightarrow> auth_env \<Rightarrow> auth_world \<Rightarrow> 'tok \<Rightarrow> string \<Rightarrow> string \<Rightarrow> (auth_error + 'tok AuthResult) \<times> auth_world" where
  "LoginTOTP L A e w partialToken code ip =
     (case jwt_Validate (alCodec L) (alJwt L) (acIssuer A) (avNow e) partialToken ''access'' of
        Inl err \<Rightarrow> (Inl ErrTokenInvalid, w)
      | Inr claims \<Rightarrow>
      if clTOTPDone claims then (Inl ErrTokenInvalid, w)
      else case totp_Verify L e w (clUserID claims) code of
        (Inl err, w) \<Rightarrow> (Inl err, w)
      | (Inr False, w) \<Rightarrow>
        let r = snd (RegisterFailure (alCodec L) (acLockout A) (lockout_nets e) (awRedis w) (avNow e) (clUserID claims))
        in (Inl ErrTOTPInvalid, writeAuditAction A ''auth.totp.failed'' (no_login ip) (w\<lparr>awRedis := r\<rparr>))
      | (Inr True, w) \<Rightarrow>
     (case (if avNet e SiteUser \<noteq> CallOk then Inl ErrStore else GetByID None (awDb w) (clUserID claims)) of
        Inl err \<Rightarrow> (Inl err, w)
      | Inr user \<Rightarrow>
     (case issueFullPairWithSession L A e w user (clSessionID claims) True of
        (Inl err, w) \<Rightarrow> (Inl err, w)
      | (Inr res, w) \<Rightarrow> (Inr res, writeAuditAction A ''auth.login'' (no_login ip) w))))"

section \<open>Refresh, logout and validation\<close>

definition revoked_nets :: "auth_env \<Rightarrow> call_outcome \<times> call_outcome" where
  "revoked_nets e = (avNet e SiteSid, avNet e SiteCutoff)"

definition Refresh ::
  "'tok auth_lib \<Rightarrow> auth_cfg \<Rightarrow> auth_env \<Rightarrow> auth_world \<Rightarrow> 'tok \<Rightarrow> (auth_error + 'tok AuthResult) \<times> auth_world" where
  "Refresh L A e w refreshToken =
     (case jwt_Validate (alCodec L) (alJwt L) (acIssuer A) (avNow e) refreshToken ''refresh'' of
        Inl err \<Rightarrow> (Inl ErrTokenInvalid, w)
      | Inr claims \<Rightarrow>
     (case IsRevokedClaims (alCodec L) (revoked_nets e) (awRedis w) (avNow e) claims of
        Inl err \<Rightarrow> (Inl err, w)
      | Inr True \<Rightarrow> (Inl ErrTokenRevoked, w)
      | Inr False \<Rightarrow>
     (case randomHex (avRand e RandNew) of
        Inl err \<Rightarrow> (Inl err, w)
      | Inr newJTI \<Rightarrow>
     (case refresh_Rotate (acRefreshTTL A) (avNet e SiteRotate) (awRedis w) (avNow e) (clJTI claims) newJTI
             \<lparr>rrUserID = clUserID claims, rrTenantID = clTenantID claims, rrSessionID = clSessionID claims, rrExpiresAt = clExpiresAt claims\<rparr> of
        (Inl err, r) \<Rightarrow>
          let w = w\<lparr>awRedis := r\<rparr> in
          if err = ErrRefreshNotFound then (Inl ErrTokenInvalid, w)
          else if err = ErrRefreshAlreadyRotated
          then (case RevokeSession (acRevoker A) (avNet e SiteRevoke) (awRedis w) (avNow e) (clSessionID claims) of
                  (res, r) \<Rightarrow>
                    (Inl ErrRefreshReplay,
                     writeAuditPayload A ''auth.refresh_replay'' (clUserID claims)
                       (case res of Inl _ \<Rightarrow> [(''sid'', clSessionID claims), (''revoke_error'', ''error'')]
                                  | Inr _ \<Rightarrow> [(''sid'', clSessionID claims)]) (w\<lparr>awRedis := r\<rparr>)))
          else (Inl err, w)
      | (Inr _, r) \<Rightarrow>
        let w = w\<lparr>awRedis := r\<rparr>;
            newClaims = claims\<lparr>clJTI := newJTI, clIssuedAt := zero_time, clExpiresAt := zero_time\<rparr>
        in case IssueAccess (alCodec L) (alJwt L) (acIssuer A) (avNow e) None (avRand e RandIssueSid) newClaims of
             Inl err \<Rightarrow> (Inl err, w)
           | Inr (access, accessExp) \<Rightarrow>
          (case IssueRefresh (alCodec L) (alJwt L) (acIssuer A) (avNow e) None (avRand e RandSid) newClaims of
             Inl err \<Rightarrow> (Inl err, w)
           | Inr (refreshNew, refreshExp) \<Rightarrow>
             (Inr \<lparr>arAccessToken = access, arAccessExpiresAt = accessExp, arRefreshToken = Some refreshNew,
                   arRefreshExpiresAt = refreshExp, arUser = None, arTOTPRequired = False\<rparr>,
              writeAuditPayload A ''auth.refresh'' (clUserID claims) [(''sid'', clSessionID claims)] w))))))"

definition Logout :: "'tok auth_lib \<Rightarrow> auth_cfg \<Rightarrow> auth_env \<Rightarrow> auth_world \<Rightarrow> 'tok \<Rightarrow> (auth_error + unit) \<times> auth_world" where
  "Logout L A e w refreshToken =
     (case jwt_Validate (alCodec L) (alJwt L) (acIssuer A) (avNow e) refreshToken ''refresh'' of
        Inl err \<Rightarrow> (Inr (), writeAuditPayload A ''auth.logout'' uuid_Nil [(''token_invalid'', ''true'')] w)
      | Inr claims \<Rightarrow>
        let (res, r) = refresh_Delete (avNet e SiteDelete) (awRedis w) (clJTI claims);
            w = w\<lparr>awRedis := r\<rparr>;
            w = (case res of
                   Inl _ \<Rightarrow> writeAuditPayload A ''auth.logout.delete_failed'' (clUserID claims)
                             [(''sid'', clSessionID claims), (''error'', ''error'')] w
                 | Inr _ \<Rightarrow> w)
        in case RevokeSession (acRevoker A) (avNet e SiteRevoke) (awRedis w) (avNow e) (clSessionID claims) of
             (Inl err, r) \<Rightarrow> (Inl err, w\<lparr>awRedis := r\<rparr>)
           | (Inr _, r) \<Rightarrow>
             (Inr (), writeAuditPayload A ''auth.logout'' (clUserID claims) [(''sid'', clSessionID claims)] (w\<lparr>awRedis := r\<rparr>)))"

definition ValidateAccessToken ::
  "'tok auth_lib \<Rightarrow> auth_cfg \<Rightarrow> auth_env \<Rightarrow> auth_world \<Rightarrow> 'tok \<Rightarrow> auth_error + Claims" where
  "ValidateAccessToken L A e w accessToken =
     (case jwt_Validate (alCodec L) (alJwt L) (acIssuer A) (avNow e) accessToken ''access'' of
        Inl err \<Rightarrow> Inl ErrTokenInvalid
      | Inr claims \<Rightarrow>
     (case IsRevokedClaims (alCodec L) (revoked_nets e) (awRedis w) (avNow e) claims of
        Inl err \<Rightarrow> Inl err
      | Inr True \<Rightarrow> Inl ErrTokenRevoked
      | Inr False \<Rightarrow> Inr claims))"

end
