(* ===== verification/Auth_Laws.thy ===== *)
theory Auth_Laws
  imports Authenticator
begin

text \<open>
  What each store may do to the shared keyspace. \<open>only P\<close> says
  that a call touches no key outside \<open>P\<close>; \<open>session_ok\<close> says what it may do to the keys of
  sessions and refresh tokens.
\<close>

section \<open>Footprints\<close>

definition only :: "(string \<Rightarrow> bool) \<Rightarrow> redis \<Rightarrow> redis \<Rightarrow> bool" where
  "only P db db' \<longleftrightarrow> (\<forall>k. \<not> P k \<longrightarrow> db' k = db k)"

lemma only_refl [simp]: "only P db db"
  by (simp add: only_def)

lemma only_trans: "only P db db' \<Longrightarrow> only P db' db'' \<Longrightarrow> only P db db''"
  by (simp add: only_def)

lemma only_mono: "only P db db' \<Longrightarrow> (\<And>k. P k \<Longrightarrow> Q k) \<Longrightarrow> only Q db db'"
  by (auto simp: only_def)

lemma onlyD: "only P db db' \<Longrightarrow> \<not> P k \<Longrightarrow> db' k = db k"
  by (simp add: only_def)

lemma only_remote: "only P db (snd reply) \<Longrightarrow> only P db (snd (remote net db reply))"
  by (auto simp: remote_def split: call_outcome.splits)

named_theorems footprints \<open>the keys a command or a store operation writes\<close>

lemma only_SET [footprints]: "only (\<lambda>x. x = k) db (cmd_SET db now k v ttl)"
  by (simp add: only_def cmd_SET_def)

lemma only_EXPIRE [footprints]: "only (\<lambda>x. x = k) db (cmd_EXPIRE db now k ttl)"
  by (simp add: only_def cmd_EXPIRE_def split: option.splits)

lemma only_INCR [footprints]: "only (\<lambda>x. x = k) db (snd (cmd_INCR db now k))"
  by (auto simp: only_def cmd_INCR_def split: option.splits prod.splits rvalue.splits)

lemma only_ZREMRANGE [footprints]: "only (\<lambda>x. x = k) db (cmd_ZREMRANGE now k hi db)"
  by (simp add: only_def cmd_ZREMRANGE_def put_zset_def split: option.splits)

lemma only_ZADD [footprints]: "only (\<lambda>x. x = k) db (cmd_ZADD now k s m db)"
  by (simp add: only_def cmd_ZADD_def put_zset_def split: option.splits)

lemma only_rl_allow [footprints]: "only (\<lambda>x. x = k) db (snd (rl_allow R rand lost db now k limit))"
proof -
  have 1: "only (\<lambda>x. x = k) db (rl_prune R k now db)" unfolding rl_prune_def by (rule footprints)
  have 2: "only (\<lambda>x. x = k) db (rl_record R k now r (rl_prune R k now db))" for r
    unfolding rl_record_def by (rule only_trans [OF 1 only_ZADD])
  have 3: "only (\<lambda>x. x = k) db (cmd_EXPIRE (rl_record R k now r (rl_prune R k now db)) now k ttl)" for r ttl
    by (rule only_trans [OF 2 only_EXPIRE])
  show ?thesis using 1 2 3 by (auto simp: rl_allow_def Let_def split: option.splits)
qed

definition lockout_key :: "codec \<Rightarrow> uuid \<Rightarrow> string \<Rightarrow> bool" where
  "lockout_key C i k \<longleftrightarrow> k = lockoutFailsKey C i \<or> k = lockoutUntilKey C i"

lemma only_remoteI: "only (\<lambda>x. x = k) db (snd reply) \<Longrightarrow> P k \<Longrightarrow> remote net db reply = (r, db') \<Longrightarrow> only P db db'"
  using only_remote [of "\<lambda>x. x = k" db reply net] by (auto simp: only_def)

lemma only_RegisterFailure [footprints]: "only (lockout_key C i) db (snd (RegisterFailure C L nets db now i))"
proof -
  let ?P = "lockout_key C i"
  obtain n1 n2 n3 where nets: "nets = (n1, n2, n3)" by (cases nets)
  have f: "?P (lockoutFailsKey C i)" "?P (lockoutUntilKey C i)" by (simp_all add: lockout_key_def)
  have o1: "only ?P db db1" if "remote n1 db (cmd_INCR db now (lockoutFailsKey C i)) = (a, db1)" for a db1
    using only_remoteI [where P = ?P, OF only_INCR f(1) that] .
  have o2: "only ?P db1 db2"
    if "remote n2 db1 (Inr (), cmd_EXPIRE db1 now (lockoutFailsKey C i) ttl) = (b, db2)" for b db1 db2 ttl
    by (rule only_remoteI [where P = ?P, OF _ f(1) that]) (simp add: only_EXPIRE)
  have o3: "only ?P db2 db3"
    if "remote n3 db2 (Inr (), cmd_SET db2 now (lockoutUntilKey C i) v ttl) = (c, db3)" for c db2 db3 v ttl
    by (rule only_remoteI [where P = ?P, OF _ f(2) that]) (simp add: only_SET)
  show ?thesis unfolding RegisterFailure_def nets Let_def prod.case
    by (auto split: sum.splits prod.splits if_splits dest!: o1 o2 o3 intro: only_trans)
qed

lemma only_Reset [footprints]: "only (lockout_key C i) db (snd (lockout_Reset C net db i))"
  unfolding lockout_Reset_def by (rule only_remote) (simp add: only_def lockout_key_def)

lemma only_RevokeSession [footprints]: "only (\<lambda>x. x = sidKey sid) db (snd (RevokeSession V net db now sid))"
  by (simp add: RevokeSession_def only_remote only_SET)

lemma only_RevokeAll [footprints]: "only (\<lambda>x. x = userCutoffKey C i) db (snd (RevokeAllForUser C V net db now i))"
  by (simp add: RevokeAllForUser_def only_remote only_SET)

lemma only_Save [footprints]: "only (\<lambda>x. x = refreshKey jti) db (snd (refresh_Save ttl net db now jti rec))"
  by (simp add: refresh_Save_def only_remote only_SET)

lemma only_Delete [footprints]: "only (\<lambda>x. x = refreshKey jti) db (snd (refresh_Delete net db jti))"
  unfolding refresh_Delete_def by (rule only_remote) (simp add: only_def)

lemma only_rotateScript [footprints]:
  "only (\<lambda>x. x = rotatedKey old \<or> x = refreshKey old \<or> x = refreshKey new) db (snd (rotateScript db now old new secs rec))"
  by (simp add: rotateScript_def only_def split: option.splits rvalue.splits)

lemma only_Rotate [footprints]:
  "only (\<lambda>x. x = rotatedKey old \<or> x = refreshKey old \<or> x = refreshKey new) db (snd (refresh_Rotate ttl net db now old new rec))"
proof -
  have "only (\<lambda>x. x = rotatedKey old \<or> x = refreshKey old \<or> x = refreshKey new) db
      (snd (remote net db (rotateScript db now old new (ttl div second) rec)))" by (rule only_remote [OF only_rotateScript])
  then show ?thesis by (auto simp: refresh_Rotate_def split: prod.splits sum.splits)
qed

section \<open>Key families\<close>

text \<open>Keys of different families differ; within a family they differ when their identifiers do.\<close>

lemma key_families [simp]:
  "sidKey s \<noteq> userCutoffKey C i" "sidKey s \<noteq> refreshKey j" "sidKey s \<noteq> rotatedKey j"
  "userCutoffKey C i \<noteq> sidKey s" "refreshKey j \<noteq> sidKey s" "rotatedKey j \<noteq> sidKey s"
  "userCutoffKey C i \<noteq> refreshKey j" "userCutoffKey C i \<noteq> rotatedKey j"
  "refreshKey j \<noteq> userCutoffKey C i" "rotatedKey j \<noteq> userCutoffKey C i"
  "sidKey s = sidKey s' \<longleftrightarrow> s = s'" "refreshKey j = refreshKey j' \<longleftrightarrow> j = j'" "rotatedKey j = rotatedKey j' \<longleftrightarrow> j = j'"
  by (auto simp: sidKey_def userCutoffKey_def refreshKey_def rotatedKey_def)

text \<open>The two families of refresh keys are disjoint on identifiers without a colon.\<close>

lemma refresh_trail_disjoint:
  assumes "CHR '':'' \<notin> set j"
  shows "refreshKey j \<noteq> rotatedKey j'" "rotatedKey j' \<noteq> refreshKey j"
  using assms by (auto simp: refreshKey_def rotatedKey_def)

lemma lockout_key_families [simp]:
  "\<not> lockout_key C i (sidKey s)" "\<not> lockout_key C i (refreshKey j)" "\<not> lockout_key C i (rotatedKey j)"
  "\<not> lockout_key C i (userCutoffKey C' i')" "\<not> lockout_key C i (''auth:rl:'' @ k)"
  by (simp_all add: lockout_key_def lockoutFailsKey_def lockoutUntilKey_def sidKey_def refreshKey_def rotatedKey_def userCutoffKey_def)

lemma limiter_key_families [simp]:
  "sidKey s \<noteq> ''auth:rl:'' @ k" "refreshKey j \<noteq> ''auth:rl:'' @ k" "rotatedKey j \<noteq> ''auth:rl:'' @ k"
  by (simp_all add: sidKey_def refreshKey_def rotatedKey_def)

lemma hex32_no_colon: "CHR '':'' \<notin> set (hex32 r)"
  using hex_digits [of 32 "unat r"] is_hex_not unfolding hex32_def list_all_iff by blast

lemma hex32_not_Nil [simp]: "hex32 r \<noteq> ''''"
  using length_pad16 [of 32 "unat r"] by (auto simp: hex32_def simp del: length_pad16)

lemma hex32_inject: "hex32 r = hex32 r' \<longleftrightarrow> r = r'"
proof
  assume "hex32 r = hex32 r'"
  then have "map (hex_val \<circ> hex_char) (pad16 32 (unat r)) = map (hex_val \<circ> hex_char) (pad16 32 (unat r'))"
    by (metis hex32_def map_map)
  moreover have "map (hex_val \<circ> hex_char) (pad16 32 n) = pad16 32 n" for n
    by (rule map_hex_val_char) (rule pad16_less)
  ultimately have "pad16 32 (unat r) = pad16 32 (unat r')" by simp
  then have "unat r mod 16 ^ 32 = unat r' mod 16 ^ 32" using pad16_value by metis
  moreover have "unat r < 16 ^ 32" "unat r' < 16 ^ 32"
    using unsigned_less [of r] unsigned_less [of r'] by simp_all
  ultimately show "r = r'" by (simp add: word_unat_eq_iff)
qed simp

section \<open>Sessions and refresh tokens\<close>

text \<open>
  What one operation at \<open>now\<close> may do to these keys: a session's revocation mark is left or written
  anew; a whitelist entry outside \<open>M\<close>, the identifiers the operation mints, is left or dropped; a
  trail that is still live is left.
\<close>

definition session_ok :: "duration \<Rightarrow> time \<Rightarrow> string set \<Rightarrow> redis \<Rightarrow> redis \<Rightarrow> bool" where
  "session_ok ttl now M db db' \<longleftrightarrow>
     (\<forall>sid. db' (sidKey sid) = db (sidKey sid) \<or>
        (\<exists>v. db' (sidKey sid) = Some (v, if ttl \<le> 0 then None else Some (now + whole millisecond ttl)))) \<and>
     (\<forall>j. CHR '':'' \<notin> set j \<longrightarrow> j \<notin> M \<longrightarrow> db' (refreshKey j) = db (refreshKey j) \<or> db' (refreshKey j) = None) \<and>
     (\<forall>j. CHR '':'' \<notin> set j \<longrightarrow> db' (rotatedKey j) = db (rotatedKey j) \<or> live db now (rotatedKey j) = None)"

lemma live_cong: "db' k = db k \<Longrightarrow> live db' now k = live db now k"
  by (simp add: live_def live_entry_def)

lemma session_ok_refl [simp]: "session_ok ttl now M db db"
  by (simp add: session_ok_def)

lemma session_okD:
  assumes "session_ok ttl now M db db'"
  shows "db' (sidKey sid) = db (sidKey sid) \<or>
      (\<exists>v. db' (sidKey sid) = Some (v, if ttl \<le> 0 then None else Some (now + whole millisecond ttl)))"
    and "CHR '':'' \<notin> set j \<Longrightarrow> j \<notin> M \<Longrightarrow> db' (refreshKey j) = db (refreshKey j) \<or> db' (refreshKey j) = None"
    and "CHR '':'' \<notin> set j \<Longrightarrow> db' (rotatedKey j) = db (rotatedKey j) \<or> live db now (rotatedKey j) = None"
  using assms unfolding session_ok_def by simp_all

lemma session_ok_trans:
  assumes "session_ok ttl now M db db'" "session_ok ttl now M db' db''"
  shows "session_ok ttl now M db db''"
  unfolding session_ok_def
proof (intro conjI allI impI)
  show "db'' (sidKey sid) = db (sidKey sid) \<or>
      (\<exists>v. db'' (sidKey sid) = Some (v, if ttl \<le> 0 then None else Some (now + whole millisecond ttl)))" for sid
    using session_okD(1) [OF assms(1), of sid] session_okD(1) [OF assms(2), of sid]
    by (cases "db'' (sidKey sid) = db' (sidKey sid)") simp_all
next
  fix j :: string
  assume c: "CHR '':'' \<notin> set j"
  show "db'' (rotatedKey j) = db (rotatedKey j) \<or> live db now (rotatedKey j) = None"
    using session_okD(3) [OF assms(1) c] session_okD(3) [OF assms(2) c] live_cong [of db' "rotatedKey j" db now] by argo
  show "db'' (refreshKey j) = db (refreshKey j) \<or> db'' (refreshKey j) = None" if "j \<notin> M"
    using session_okD(2) [OF assms(1) c that] session_okD(2) [OF assms(2) c that] by argo
qed

text \<open>A call that touches no session key is fine.\<close>

lemma session_ok_only:
  assumes "only P db db'" "\<And>s. \<not> P (sidKey s)" "\<And>j. \<not> P (refreshKey j)" "\<And>j. \<not> P (rotatedKey j)"
  shows "session_ok ttl now M db db'"
  using assms by (simp add: session_ok_def only_def)

named_theorems session_steps \<open>the store operations respect the session keys\<close>

lemma session_ok_lockout [session_steps]:
  "session_ok ttl now M db (snd (RegisterFailure C L nets db t i))" "session_ok ttl now M db (snd (lockout_Reset C net db i))"
  by (rule session_ok_only [OF only_RegisterFailure] session_ok_only [OF only_Reset]; simp)+

lemma session_ok_limiter [session_steps]:
  "session_ok ttl now M db (snd (AllowIP R rand lost db t ip))" "session_ok ttl now M db (snd (AllowAccount C R rand lost db t i))"
  using limiter_key_families [of _ "''ip:'' @ ip"] limiter_key_families [of _ "''user:'' @ uuid_String C i"]
  unfolding AllowIP_def AllowAccount_def by (auto intro!: session_ok_only [OF only_rl_allow])

lemma session_ok_RevokeAll [session_steps]: "session_ok ttl now M db (snd (RevokeAllForUser C V net db t i))"
  by (rule session_ok_only [OF only_RevokeAll]) simp_all

lemma session_ok_RevokeSession [session_steps]:
  "session_ok (rvTtl V) now M db (snd (RevokeSession V net db now sid))"
proof -
  have "session_ok (rvTtl V) now M db (cmd_SET db now (sidKey sid) v (rvTtl V))" for v
    by (auto simp: session_ok_def cmd_SET_def)
  then show ?thesis by (auto simp: RevokeSession_def remote_def split: call_outcome.splits)
qed

lemma session_ok_Save [session_steps]:
  assumes "jti \<in> M" "CHR '':'' \<notin> set jti"
  shows "session_ok ttl now M db (snd (refresh_Save t net db now jti rec))"
proof -
  have "session_ok ttl now M db (cmd_SET db now (refreshKey jti) v t)" for v
    using assms refresh_trail_disjoint [OF assms(2)] by (auto simp: session_ok_def cmd_SET_def)
  then show ?thesis by (auto simp: refresh_Save_def remote_def split: call_outcome.splits)
qed

lemma session_ok_Delete [session_steps]:
  assumes "CHR '':'' \<notin> set jti"
  shows "session_ok ttl now M db (snd (refresh_Delete net db jti))"
proof -
  have "session_ok ttl now M db (db(refreshKey jti := None))"
    using refresh_trail_disjoint [OF assms] by (auto simp: session_ok_def)
  then show ?thesis by (auto simp: refresh_Delete_def remote_def split: call_outcome.splits)
qed

lemma snd_Rotate: "snd (refresh_Rotate t net db now old new rec) = snd (remote net db (rotateScript db now old new (t div second) rec))"
  by (simp add: refresh_Rotate_def split: prod.splits sum.splits)

lemma session_ok_Rotate [session_steps]:
  assumes "new \<in> M" "CHR '':'' \<notin> set new" "CHR '':'' \<notin> set old"
  shows "session_ok ttl now M db (snd (refresh_Rotate t net db now old new rec))"
proof -
  have "session_ok ttl now M db (snd (rotateScript db now old new secs rec))" for secs
    using assms(1) refresh_trail_disjoint [OF assms(2)] refresh_trail_disjoint [OF assms(3)]
    by (auto simp: session_ok_def rotateScript_def dest: refresh_trail_disjoint(1) split: option.splits rvalue.splits)
  then show ?thesis unfolding snd_Rotate by (auto simp: remote_def split: call_outcome.splits)
qed

end
