(* ===== verification/Auth_Runs.thy ===== *)
theory Auth_Runs
  imports Auth_Laws
begin

text \<open>
  Operations of the authentication module as one alphabet, their effect on the session keys, and
  the reachability relation \<open>auth_hist\<close> over which the module's properties are stated: any
  interleaving of the module's operations, any faults, time that never runs backwards, fresh random
  identifiers, and clients that present tokens the module has issued or tokens that never validate.
\<close>

section \<open>Effects of the authenticator's operations\<close>

text \<open>The identifiers of refresh tokens a call may mint.\<close>

definition minted :: "auth_env \<Rightarrow> string set" where
  "minted e = {hex32 r | r. avRand e RandRefresh = Some r \<or> avRand e RandNew = Some r}"

lemma minted_no_colon: "j \<in> minted e \<Longrightarrow> CHR '':'' \<notin> set j"
  using hex32_no_colon by (auto simp: minted_def)

lemma session_ok_pairs:
  "AllowIP R rand lost db t ip = (x, r) \<Longrightarrow> session_ok ttl now M db r"
  "AllowAccount C R rand lost db t i = (x, r) \<Longrightarrow> session_ok ttl now M db r"
  "lockout_Reset C net db i = (y, r) \<Longrightarrow> session_ok ttl now M db r"
  "RevokeSession V net db now sid = (y, r) \<Longrightarrow> session_ok (rvTtl V) now M db r"
  "refresh_Save t net db now jti rec = (y, r) \<Longrightarrow> jti \<in> M \<Longrightarrow> CHR '':'' \<notin> set jti \<Longrightarrow> session_ok ttl now M db r"
  "refresh_Delete net db jti = (y, r) \<Longrightarrow> CHR '':'' \<notin> set jti \<Longrightarrow> session_ok ttl now M db r"
  "refresh_Rotate t net db now old new rec = (y, r) \<Longrightarrow> new \<in> M \<Longrightarrow> CHR '':'' \<notin> set new \<Longrightarrow> CHR '':'' \<notin> set old
     \<Longrightarrow> session_ok ttl now M db r"
  using session_ok_limiter session_ok_lockout session_ok_RevokeSession session_ok_Save session_ok_Delete session_ok_Rotate
  by (metis snd_conv)+

lemma awRedis_audit [simp]:
  "awRedis (writeAuditAction A action inp w) = awRedis w" "awRedis (writeAuditPayload A action i p w) = awRedis w"
  by (simp_all add: writeAuditAction_def writeAuditPayload_def)

definition keeps_sessions :: "auth_cfg \<Rightarrow> auth_env \<Rightarrow> auth_world \<Rightarrow> auth_world \<Rightarrow> bool" where
  "keeps_sessions A e w w' \<longleftrightarrow> session_ok (rvTtl (acRevoker A)) (avNow e) (minted e) (awRedis w) (awRedis w')"

lemma keeps_refl [simp]: "keeps_sessions A e w w"
  by (simp add: keeps_sessions_def)

lemma keeps_trans: "keeps_sessions A e w w' \<Longrightarrow> keeps_sessions A e w' w'' \<Longrightarrow> keeps_sessions A e w w''"
  unfolding keeps_sessions_def by (rule session_ok_trans)

lemma keeps_same_redis: "awRedis w' = awRedis w \<Longrightarrow> keeps_sessions A e w w'"
  by (simp add: keeps_sessions_def)

lemma keeps_issue: "issueFullPairWithSession L A e w user sid d = (r, w') \<Longrightarrow> keeps_sessions A e w w'"
  by (auto simp: issueFullPairWithSession_def randomHex_def Let_def keeps_sessions_def minted_def hex32_no_colon
      split: option.splits sum.splits if_splits prod.splits dest!: session_ok_pairs(5) [where M = "minted e"] intro!: session_ok_refl)

lemma keeps_preflight: "loginPreflight L A e w inp = (r, w') \<Longrightarrow> keeps_sessions A e w w'"
  by (auto simp: loginPreflight_def failLoginInvalidCreds_def Let_def keeps_sessions_def
      split: option.splits sum.splits if_splits prod.splits bool.splits
      dest!: session_ok_pairs(1,2) [where ttl = "rvTtl (acRevoker A)" and now = "avNow e" and M = "minted e"] intro: session_ok_trans)

lemma keeps_verify: "verifyPassword L A e w tid user inp = (r, w') \<Longrightarrow> keeps_sessions A e w w'"
  by (auto simp: verifyPassword_def failLoginInvalidCreds_def Let_def keeps_sessions_def session_ok_lockout
      split: option.splits sum.splits if_splits prod.splits bool.splits
      dest!: session_ok_pairs(3) [where ttl = "rvTtl (acRevoker A)" and now = "avNow e" and M = "minted e"])

lemma keeps_audit: "keeps_sessions A e w w' \<Longrightarrow> keeps_sessions A e w (writeAuditAction A' action inp w')"
  by (simp add: keeps_sessions_def)

lemma keeps_Login: "Login L A e w inp = (r, w') \<Longrightarrow> keeps_sessions A e w w'"
  by (auto simp: Login_def issueFullPair_def keeps_audit
      split: sum.splits prod.splits if_splits dest!: keeps_preflight keeps_verify keeps_issue intro: keeps_trans intro!: keeps_audit)

lemma awRedis_totp_audit [simp]: "awRedis (totp_audit C action i w) = awRedis w"
  by (simp add: totp_audit_def)

lemma awRedis_Verify: "totp_Verify L e w i code = (r, w') \<Longrightarrow> awRedis w' = awRedis w"
  by (auto simp: totp_Verify_def totp_finish_def split: sum.splits option.splits if_splits prod.splits)

lemma keeps_LoginTOTP: "LoginTOTP L A e w tok code ip = (r, w') \<Longrightarrow> keeps_sessions A e w w'"
proof -
  have f: "keeps_sessions A e w (w\<lparr>awRedis := snd (RegisterFailure C K nets (awRedis w) t i)\<rparr>)" for w C K nets t i
    by (simp add: keeps_sessions_def session_ok_lockout)
  show "LoginTOTP L A e w tok code ip = (r, w') \<Longrightarrow> keeps_sessions A e w w'"
    by (auto simp: LoginTOTP_def Let_def split: sum.splits prod.splits if_splits bool.splits
        dest!: keeps_same_redis [where A = A and e = e, OF awRedis_Verify] keeps_issue intro!: keeps_audit intro: keeps_trans f)
qed

text \<open>A token whose identifier, once it validates, has no colon.\<close>

definition plain_jti :: "'tok auth_lib \<Rightarrow> auth_cfg \<Rightarrow> 'tok \<Rightarrow> bool" where
  "plain_jti L A tok \<longleftrightarrow>
     (\<forall>t typ c. jwt_Validate (alCodec L) (alJwt L) (acIssuer A) t tok typ = Inr c \<longrightarrow> CHR '':'' \<notin> set (clJTI c))"

lemma keeps_Refresh:
  assumes "plain_jti L A tok" "Refresh L A e w tok = (r, w')"
  shows "keeps_sessions A e w w'"
proof -
  have no: "CHR '':'' \<notin> set (clJTI c)" if "jwt_Validate (alCodec L) (alJwt L) (acIssuer A) t tok ty = Inr c" for c t ty
    using assms(1) that by (auto simp: plain_jti_def)
  have new: "hex32 x \<in> minted e" if "avRand e RandNew = Some x" for x
    using that by (auto simp: minted_def)
  have rot: "session_ok (rvTtl (acRevoker A)) (avNow e) (minted e) (awRedis w) db"
    if "refresh_Rotate t net (awRedis w) (avNow e) (clJTI c) (hex32 x) rec = (y, db)"
      "jwt_Validate (alCodec L) (alJwt L) (acIssuer A) (avNow e) tok ''refresh'' = Inr c" "avRand e RandNew = Some x" for t net x rec y db c
    by (rule session_ok_pairs(7) [OF that(1) new [OF that(3)] hex32_no_colon no [OF that(2)]])
  have rev: "session_ok (rvTtl (acRevoker A)) (avNow e) (minted e) (awRedis w) db'"
    if "RevokeSession (acRevoker A) net db (avNow e) sid = (y, db')" "session_ok (rvTtl (acRevoker A)) (avNow e) (minted e) (awRedis w) db"
    for net db sid y db'
    by (rule session_ok_trans [OF that(2) session_ok_pairs(4) [OF that(1)]])
  show ?thesis using assms(2) unfolding keeps_sessions_def
    by (auto simp: Refresh_def Let_def randomHex_def split: sum.splits option.splits if_splits prod.splits bool.splits
        dest: rot intro: rev)
qed

lemma keeps_Logout:
  assumes "plain_jti L A tok" "Logout L A e w tok = (r, w')"
  shows "keeps_sessions A e w w'"
proof -
  have no: "CHR '':'' \<notin> set (clJTI c)" if "jwt_Validate (alCodec L) (alJwt L) (acIssuer A) t tok ty = Inr c" for c t ty
    using assms(1) that by (auto simp: plain_jti_def)
  have rev: "session_ok (rvTtl (acRevoker A)) (avNow e) (minted e) (awRedis w) db'"
    if "refresh_Delete net (awRedis w) (clJTI c) = (x, db)" "CHR '':'' \<notin> set (clJTI c)"
      "RevokeSession (acRevoker A) net' db (avNow e) sid = (y, db')" for net c x net' db sid y db'
    by (rule session_ok_trans [OF session_ok_pairs(6) [OF that(1,2)] session_ok_pairs(4) [OF that(3)]])
  show ?thesis using assms(2) unfolding keeps_sessions_def
    by (auto simp: Logout_def Let_def split: sum.splits prod.splits dest: no intro: rev)
qed

section \<open>Histories\<close>

datatype 'tok auth_op =
    OpLogin LoginInput | OpLoginTOTP 'tok string string | OpRefresh 'tok | OpLogout 'tok | OpRevokeAll uuid
  | OpCreate CreateUserInput | OpUpdateRole uuid uuid "string list" | OpArchive uuid uuid | OpRestore uuid uuid
  | OpResetPassword uuid uuid | OpChangePassword uuid string string | OpEnroll uuid | OpConfirm uuid string | OpDisable uuid

datatype 'tok auth_reply = ReplyAuth "auth_error + 'tok AuthResult" | ReplyUnit "auth_error + unit" | ReplyOther

fun auth_do :: "'tok auth_lib \<Rightarrow> auth_cfg \<Rightarrow> auth_env \<Rightarrow> auth_world \<Rightarrow> 'tok auth_op \<Rightarrow> 'tok auth_reply \<times> auth_world" where
  "auth_do L A e w (OpLogin inp) = map_prod ReplyAuth id (Login L A e w inp)"
| "auth_do L A e w (OpLoginTOTP tok code ip) = map_prod ReplyAuth id (LoginTOTP L A e w tok code ip)"
| "auth_do L A e w (OpRefresh tok) = map_prod ReplyAuth id (Refresh L A e w tok)"
| "auth_do L A e w (OpLogout tok) = map_prod ReplyUnit id (Logout L A e w tok)"
| "auth_do L A e w (OpRevokeAll i) =
     (case RevokeAllForUser (alCodec L) (acRevoker A) (avNet e SiteRevoke) (awRedis w) (avNow e) i of
        (x, r) \<Rightarrow> (ReplyUnit x, w\<lparr>awRedis := r\<rparr>))"
| "auth_do L A e w (OpCreate inp) = map_prod (\<lambda>_. ReplyOther) id (user_Create L e w inp)"
| "auth_do L A e w (OpUpdateRole t i roles) = map_prod (\<lambda>_. ReplyOther) id (UpdateRole L e w t i roles)"
| "auth_do L A e w (OpArchive t i) = map_prod ReplyUnit id (user_Archive L e w t i)"
| "auth_do L A e w (OpRestore t i) = map_prod ReplyUnit id (user_Restore L e w t i)"
| "auth_do L A e w (OpResetPassword t i) = map_prod (\<lambda>_. ReplyOther) id (ResetPassword L e w t i)"
| "auth_do L A e w (OpChangePassword i old new) = map_prod ReplyUnit id (ChangePassword L e w i old new)"
| "auth_do L A e w (OpEnroll i) = map_prod (\<lambda>_. ReplyOther) id (Enroll L e w i)"
| "auth_do L A e w (OpConfirm i code) = map_prod ReplyUnit id (totp_Confirm L e w i code)"
| "auth_do L A e w (OpDisable i) = map_prod ReplyUnit id (totp_Disable L e w i)"

lemma awRedis_mutation: "user_mutation e w f row ev = (r, w') \<Longrightarrow> awRedis w' = awRedis w"
  by (auto simp: user_mutation_def Let_def split: prod.splits sum.splits if_splits call_outcome.splits)

lemma awRedis_user_ops:
  "user_Create L e w inp = (r1, w') \<Longrightarrow> awRedis w' = awRedis w"
  "UpdateRole L e w t i roles = (r2, w') \<Longrightarrow> awRedis w' = awRedis w"
  "user_Archive L e w t i = (r3, w') \<Longrightarrow> awRedis w' = awRedis w"
  "user_Restore L e w t i = (r3, w') \<Longrightarrow> awRedis w' = awRedis w"
  "ResetPassword L e w t i = (r4, w') \<Longrightarrow> awRedis w' = awRedis w"
  "ChangePassword L e w i old new = (r3, w') \<Longrightarrow> awRedis w' = awRedis w"
  "Enroll L e w i = (r5, w') \<Longrightarrow> awRedis w' = awRedis w"
  "totp_Confirm L e w i code = (r3, w') \<Longrightarrow> awRedis w' = awRedis w"
  "totp_Disable L e w i = (r3, w') \<Longrightarrow> awRedis w' = awRedis w"
  by (auto simp: user_Create_def UpdateRole_def user_Archive_def user_Restore_def ResetPassword_def ChangePassword_def
      Enroll_def totp_Confirm_def totp_Disable_def Let_def
      split: option.splits sum.splits prod.splits if_splits dest!: awRedis_mutation)

lemma keeps_auth_do:
  assumes "auth_do L A e w op = (r, w')" "\<And>tok. tok \<in> set_auth_op op \<Longrightarrow> plain_jti L A tok"
  shows "keeps_sessions A e w w'"
proof (cases op)
  case (OpRevokeAll i)
  with assms(1) show ?thesis
    using session_ok_RevokeAll [of "rvTtl (acRevoker A)" "avNow e" "minted e" "awRedis w" "alCodec L" "acRevoker A" "avNet e SiteRevoke" "avNow e" i]
    by (auto simp: keeps_sessions_def split: prod.splits)
qed (use assms in \<open>auto simp: map_prod_def split: prod.splits
      dest: keeps_Login keeps_LoginTOTP keeps_Refresh keeps_Logout intro: keeps_same_redis dest!: awRedis_user_ops\<close>)

text \<open>
  A token signed by the module: its identifier is random, and that of a refresh token is among those
  minted so far.
\<close>

definition signed_token :: "'tok auth_lib \<Rightarrow> auth_cfg \<Rightarrow> string set \<Rightarrow> 'tok \<Rightarrow> bool" where
  "signed_token L A used tok \<longleftrightarrow>
     (\<exists>c ty ttl t. clUserID c \<noteq> uuid_Nil \<and> clTenantID c \<noteq> uuid_Nil \<and>
        jwSign (alJwt L) (jcSecret (acIssuer A)) (claims_map (alCodec L) (acIssuer A) t c ty ttl) = Some tok \<and>
        (\<exists>r. clJTI c = hex32 r) \<and> (ty = ''refresh'' \<longrightarrow> clJTI c \<in> used))"

definition never_valid :: "'tok auth_lib \<Rightarrow> auth_cfg \<Rightarrow> 'tok \<Rightarrow> bool" where
  "never_valid L A tok \<longleftrightarrow> (\<forall>t ty c. jwt_Validate (alCodec L) (alJwt L) (acIssuer A) t tok ty \<noteq> Inr c)"

fun reply_tokens :: "'tok auth_reply \<Rightarrow> 'tok set" where
  "reply_tokens (ReplyAuth (Inr res)) = insert (arAccessToken res) (set_option (arRefreshToken res))"
| "reply_tokens _ = {}"

text \<open>What the module assumes of the packages and the wiring: module.go passes no partial issuer.\<close>

definition wired :: "'tok auth_lib \<Rightarrow> auth_cfg \<Rightarrow> bool" where
  "wired L A \<longleftrightarrow> jwt_library (alJwt L) \<and> hash_codec (alCodec L) \<and> acPartialIssuer A = None \<and> 0 \<le> jcLeeway (acIssuer A)"

lemma signed_mono: "signed_token L A used tok \<Longrightarrow> used \<subseteq> used' \<Longrightarrow> signed_token L A used' tok"
  unfolding signed_token_def by blast

lemma signed_validates:
  assumes "wired L A" "signed_token L A used tok" "jwt_Validate (alCodec L) (alJwt L) (acIssuer A) t tok ty = Inr c"
  shows "(\<exists>r. clJTI c = hex32 r) \<and> (ty = ''refresh'' \<longrightarrow> clJTI c \<in> used) \<and> clUserID c \<noteq> uuid_Nil"
proof -
  obtain c0 ty0 ttl t0 where s: "clUserID c0 \<noteq> uuid_Nil" "clTenantID c0 \<noteq> uuid_Nil"
      "jwSign (alJwt L) (jcSecret (acIssuer A)) (claims_map (alCodec L) (acIssuer A) t0 c0 ty0 ttl) = Some tok"
      "\<exists>r. clJTI c0 = hex32 r" "ty0 = ''refresh'' \<longrightarrow> clJTI c0 \<in> used"
    using assms(2) unfolding signed_token_def by blast
  have "ty = ty0 \<and> c = issued_claims t0 ttl c0"
    using Validate_signed_only [OF _ _ s(1-3) assms(3)] assms(1) by (auto simp: wired_def)
  with s show ?thesis by (auto simp: issued_claims_def)
qed

lemma signed_same_claims:
  assumes "wired L A" "signed_token L A used tok" "jwt_Validate (alCodec L) (alJwt L) (acIssuer A) t tok ty = Inr c"
    "jwt_Validate (alCodec L) (alJwt L) (acIssuer A) t' tok ty' = Inr c'"
  shows "c' = c \<and> ty' = ty"
proof -
  obtain c0 ty0 ttl t0 where s: "clUserID c0 \<noteq> uuid_Nil" "clTenantID c0 \<noteq> uuid_Nil"
      "jwSign (alJwt L) (jcSecret (acIssuer A)) (claims_map (alCodec L) (acIssuer A) t0 c0 ty0 ttl) = Some tok"
    using assms(2) unfolding signed_token_def by blast
  show ?thesis using Validate_signed_only [OF _ _ s assms(3)] Validate_signed_only [OF _ _ s assms(4)] assms(1)
    by (simp add: wired_def)
qed

lemma signed_plain: "wired L A \<Longrightarrow> signed_token L A used tok \<or> never_valid L A tok \<Longrightarrow> plain_jti L A tok"
  unfolding plain_jti_def using signed_validates hex32_no_colon by (metis never_valid_def)

lemma signed_sign:
  assumes "jwt_sign (alCodec L) (alJwt L) (acIssuer A) t r1 r2 c ty ttl = Inr (tok, x)"
    and "clJTI c = '''' \<or> (\<exists>r. clJTI c = hex32 r)" "ty = ''refresh'' \<longrightarrow> clJTI c \<in> used \<and> clJTI c \<noteq> ''''"
  shows "signed_token L A used tok"
  using assms(1)
proof (rule jwt_sign_cases)
  fix jti sid
  assume j: "if clJTI c = '''' then \<exists>r. r1 = Some r \<and> jti = hex32 r else jti = clJTI c"
    and s: "clUserID c \<noteq> uuid_Nil" "clTenantID c \<noteq> uuid_Nil"
      "jwSign (alJwt L) (jcSecret (acIssuer A)) (claims_map (alCodec L) (acIssuer A) t (c\<lparr>clJTI := jti, clSessionID := sid\<rparr>) ty ttl) = Some tok"
  let ?c = "c\<lparr>clJTI := jti, clSessionID := sid\<rparr>"
  have "(\<exists>r. clJTI ?c = hex32 r) \<and> (ty = ''refresh'' \<longrightarrow> clJTI ?c \<in> used)"
    using j assms(2,3) by (auto split: if_splits)
  moreover have "clUserID ?c \<noteq> uuid_Nil" "clTenantID ?c \<noteq> uuid_Nil" using s by simp_all
  ultimately show ?thesis unfolding signed_token_def using s(3) by blast
qed

lemma signed_issue:
  "issueFullPairWithSession L A e w user sid d = (Inr res, w') \<Longrightarrow> tok \<in> reply_tokens (ReplyAuth (Inr res))
   \<Longrightarrow> signed_token L A (used \<union> minted e) tok"
  by (auto simp: issueFullPairWithSession_def randomHex_def IssueAccess_def IssueRefresh_def Let_def minted_def
      split: option.splits sum.splits prod.splits if_splits dest!: signed_sign [where used = "used \<union> minted e"])

lemma signed_partial:
  "acPartialIssuer A = None \<Longrightarrow> issuePartial L A e user = Inr (tok, x) \<Longrightarrow> signed_token L A used tok"
  by (auto simp: issuePartial_def IssueAccess_def partialIssuer_def Let_def split: sum.splits prod.splits dest!: signed_sign [where used = used])

lemma signed_Login:
  "wired L A \<Longrightarrow> Login L A e w inp = (Inr res, w') \<Longrightarrow> tok \<in> reply_tokens (ReplyAuth (Inr res))
   \<Longrightarrow> signed_token L A (used \<union> minted e) tok"
  by (auto simp: Login_def issueFullPair_def wired_def simp del: reply_tokens.simps
      split: sum.splits prod.splits if_splits dest: signed_issue) (auto dest: signed_partial)

lemma signed_LoginTOTP:
  "LoginTOTP L A e w tk code ip = (Inr res, w') \<Longrightarrow> tok \<in> reply_tokens (ReplyAuth (Inr res))
   \<Longrightarrow> signed_token L A (used \<union> minted e) tok"
  by (auto simp: LoginTOTP_def Let_def simp del: reply_tokens.simps
      split: sum.splits prod.splits if_splits bool.splits dest: signed_issue)

lemma signed_Refresh:
  "Refresh L A e w tk = (Inr res, w') \<Longrightarrow> tok \<in> reply_tokens (ReplyAuth (Inr res))
   \<Longrightarrow> signed_token L A (used \<union> minted e) tok"
  by (auto simp: Refresh_def Let_def randomHex_def IssueAccess_def IssueRefresh_def minted_def
      split: sum.splits prod.splits if_splits bool.splits option.splits dest!: signed_sign [where used = "used \<union> minted e"])

lemma signed_reply:
  assumes "wired L A" "auth_do L A e w op = (rp, w')" "tok \<in> reply_tokens rp"
  shows "signed_token L A (used \<union> minted e) tok"
proof -
  obtain res where rp: "rp = ReplyAuth (Inr res)" using assms(3) by (cases rp rule: reply_tokens.cases) auto
  show ?thesis using assms(2,3) unfolding rp
    by (cases op) (auto simp: map_prod_def simp del: reply_tokens.simps split: prod.splits
        dest: signed_Login [OF assms(1)] signed_LoginTOTP signed_Refresh)
qed

type_synonym 'tok auth_event = "auth_env \<times> auth_world \<times> 'tok auth_op \<times> 'tok auth_reply"

inductive auth_hist ::
  "'tok auth_lib \<Rightarrow> auth_cfg \<Rightarrow> 'tok auth_event list \<Rightarrow> auth_world \<Rightarrow> 'tok set \<Rightarrow> string set \<Rightarrow> time \<Rightarrow> bool"
  for L :: "'tok auth_lib" and A :: auth_cfg where
  Start: "awRedis w = Map.empty \<Longrightarrow> auth_hist L A [] w {} {} t"
| Step: "auth_hist L A h w toks used t \<Longrightarrow> t \<le> avNow e \<Longrightarrow> minted e \<inter> used = {}
    \<Longrightarrow> (\<And>tok. tok \<in> set_auth_op op \<Longrightarrow> tok \<in> toks \<or> never_valid L A tok)
    \<Longrightarrow> auth_do L A e w op = (rp, w')
    \<Longrightarrow> auth_hist L A (h @ [(e, w, op, rp)]) w' (toks \<union> reply_tokens rp) (used \<union> minted e) (avNow e)"

lemma hist_tokens:
  assumes "auth_hist L A h w toks used t" "wired L A"
  shows "tok \<in> toks \<Longrightarrow> signed_token L A used tok" "j \<in> used \<Longrightarrow> CHR '':'' \<notin> set j"
  using assms(1)
proof (induction arbitrary: tok j rule: auth_hist.induct)
  case (Step h w toks used t e op rp w')
  { case 1
    then show ?case using Step.IH(1) [of tok] signed_reply [OF assms(2) Step.hyps(5), of tok used]
      by (auto intro: signed_mono)
  next
    case 2
    then show ?case using Step.IH(2) [of j] minted_no_colon [of j e] by auto }
qed simp_all

lemma hist_step_keeps:
  assumes "auth_hist L A h w toks used t" "wired L A" "auth_do L A e w op = (rp, w')"
    and "\<And>tok. tok \<in> set_auth_op op \<Longrightarrow> tok \<in> toks \<or> never_valid L A tok"
  shows "keeps_sessions A e w w'"
  using keeps_auth_do [OF assms(3)] assms(4) signed_plain [OF assms(2)] hist_tokens(1) [OF assms(1,2)] by blast

lemma hist_times:
  assumes "auth_hist L A h w toks used t" "(e, v, op, rp) \<in> set h"
  shows "avNow e \<le> t"
  using assms by (induction rule: auth_hist.induct) force+

section \<open>Redeeming refresh tokens\<close>

lemma Refresh_success:
  assumes "Refresh L A e w tok = (Inr res, w')"
  obtains c r rec where "jwt_Validate (alCodec L) (alJwt L) (acIssuer A) (avNow e) tok ''refresh'' = Inr c"
    "IsRevokedClaims (alCodec L) (revoked_nets e) (awRedis w) (avNow e) c = Inr False" "avRand e RandNew = Some r"
    "rotateScript (awRedis w) (avNow e) (clJTI c) (hex32 r) (acRefreshTTL A div second) rec = (Inr 1, awRedis w')"
proof -
  have rot: "rotateScript db now old new (ttl div second) rec = (Inr 1, db')"
    if "refresh_Rotate ttl net db now old new rec = (Inr u, db')" for ttl net db now old new rec u db'
    using that by (auto simp: refresh_Rotate_def remote_def rotateScript_def
        split: call_outcome.splits prod.splits sum.splits if_splits option.splits rvalue.splits)
  from assms show ?thesis
    by (auto simp: Refresh_def randomHex_def Let_def split: sum.splits option.splits prod.splits if_splits bool.splits
        dest!: rot intro: that)
qed

lemma rotate_success:
  assumes "rotateScript db now old new secs rec = (Inr 1, db')" "CHR '':'' \<notin> set old" "CHR '':'' \<notin> set new" "new \<noteq> old"
  shows "db' (refreshKey old) = None" "db' (rotatedKey old) = Some (RString new, Some (now + secs * second))"
  using assms refresh_trail_disjoint [OF assms(2), of old] refresh_trail_disjoint [OF assms(3), of old]
  by (auto simp: rotateScript_def split: option.splits rvalue.splits if_splits dest: refresh_trail_disjoint)

text \<open>
  The state a redeemed token leaves: its whitelist entry is gone, and its trail is there until the
  lifetime that started at the rotation is over.
\<close>

definition redeemed :: "auth_cfg \<Rightarrow> time \<Rightarrow> string \<Rightarrow> time \<Rightarrow> redis \<Rightarrow> bool" where
  "redeemed A t0 j now db \<longleftrightarrow> db (refreshKey j) = None \<and>
     (now < t0 + acRefreshTTL A div second * second \<longrightarrow>
        (\<exists>s. db (rotatedKey j) = Some (RString s, Some (t0 + acRefreshTTL A div second * second))))"

lemma redeemed_step:
  assumes "redeemed A t0 j now db" "session_ok ttl now' M db db'" "now \<le> now'" "CHR '':'' \<notin> set j" "j \<notin> M"
  shows "redeemed A t0 j now' db'"
proof -
  let ?d = "t0 + acRefreshTTL A div second * second"
  have "db' (refreshKey j) = None"
    using session_okD(2) [OF assms(2,4,5)] assms(1) by (auto simp: redeemed_def)
  moreover have "\<exists>s. db' (rotatedKey j) = Some (RString s, Some ?d)" if d: "now' < ?d"
  proof -
    obtain s where s: "db (rotatedKey j) = Some (RString s, Some ?d)" using assms(1,3) d by (auto simp: redeemed_def)
    then have "live db now' (rotatedKey j) \<noteq> None" using d by (simp add: live_def live_entry_def)
    then show ?thesis using session_okD(3) [OF assms(2,4)] s by auto
  qed
  ultimately show ?thesis by (simp add: redeemed_def)
qed

lemma hist_redeemed:
  assumes "auth_hist L A h w toks used t" "wired L A" "(e, v, OpRefresh tok, ReplyAuth (Inr res)) \<in> set h"
  shows "\<exists>j. j \<in> used \<and> redeemed A (avNow e) j t (awRedis w) \<and>
    (\<forall>t' c. jwt_Validate (alCodec L) (alJwt L) (acIssuer A) t' tok ''refresh'' = Inr c \<longrightarrow> clJTI c = j)"
  using assms(1,3)
proof (induction rule: auth_hist.induct)
  case (Step h w toks used t e' op rp w')
  note keeps = hist_step_keeps [OF Step.hyps(1) assms(2) Step.hyps(5) Step.hyps(4)]
  show ?case
  proof (cases "(e, v, OpRefresh tok, ReplyAuth (Inr res)) \<in> set h")
    case True
    then obtain j where j: "j \<in> used" "redeemed A (avNow e) j t (awRedis w)"
      "\<forall>t' c. jwt_Validate (alCodec L) (alJwt L) (acIssuer A) t' tok ''refresh'' = Inr c \<longrightarrow> clJTI c = j"
      using Step.IH by blast
    have "redeemed A (avNow e) j (avNow e') (awRedis w')"
      using redeemed_step [OF j(2) keeps [unfolded keeps_sessions_def] Step.hyps(2) hist_tokens(2) [OF Step.hyps(1) assms(2) j(1)]]
        j(1) Step.hyps(3) by blast
    with j show ?thesis by blast
  next
    case False
    with Step.prems have new: "e' = e" "op = OpRefresh tok" "rp = ReplyAuth (Inr res)" by auto
    with Step.hyps(5) have "Refresh L A e w tok = (Inr res, w')" by (auto simp: map_prod_def split: prod.splits)
    then obtain c r rec where r: "jwt_Validate (alCodec L) (alJwt L) (acIssuer A) (avNow e) tok ''refresh'' = Inr c" "avRand e RandNew = Some r"
      "rotateScript (awRedis w) (avNow e) (clJTI c) (hex32 r) (acRefreshTTL A div second) rec = (Inr 1, awRedis w')"
      by (rule Refresh_success)
    have tok: "tok \<in> toks" using Step.hyps(4) [of tok] new r(1) by (auto simp: never_valid_def)
    note signed = hist_tokens(1) [OF Step.hyps(1) assms(2) tok]
    have u: "clJTI c \<in> used" using signed_validates [OF assms(2) signed r(1)] by simp
    then have "hex32 r \<noteq> clJTI c" using Step.hyps(3) r(2) new by (auto simp: minted_def)
    then have "redeemed A (avNow e) (clJTI c) (avNow e') (awRedis w')"
      using rotate_success [OF r(3) hist_tokens(2) [OF Step.hyps(1) assms(2) u] hex32_no_colon] new by (simp add: redeemed_def)
    moreover have "clJTI c' = clJTI c" if "jwt_Validate (alCodec L) (alJwt L) (acIssuer A) t' tok ''refresh'' = Inr c'" for t' c'
      using signed_same_claims [OF assms(2) signed r(1) that] by simp
    ultimately show ?thesis using u by blast
  qed
qed simp

section \<open>The paths without faults\<close>

definition no_faults :: "auth_env \<Rightarrow> bool" where
  "no_faults e \<longleftrightarrow> (\<forall>s. avNet e s = CallOk) \<and> (\<forall>s. avLost e s = None) \<and> (\<forall>s. avRand e s \<noteq> None) \<and> (\<forall>s. avRand32 e s \<noteq> None)"

lemma no_faultsD:
  assumes "no_faults e"
  shows "avNet e s = CallOk" "avLost e q = None" "\<exists>r. avRand e q = Some r" "\<exists>r. avRand32 e q = Some r"
  using assms by (auto simp: no_faults_def)

text \<open>The part of a login before the second factor, when every check passes.\<close>

lemma Login_path:
  assumes "no_faults e"
    and "AllowIP (acRate A) (avRand32 e RandIP) None (awRedis w) (avNow e) (liIP inp) = (Inr True, r1)"
    and "awTenants w (liOrgID inp) = Some t" "GetByLogin L (awDb w) t (liLogin inp) = Inr u" "usArchivedAt u = None"
    and "IsLocked (alCodec L) CallOk r1 (avNow e) (usID u) = Inr False"
    and "AllowAccount (alCodec L) (acRate A) (avRand32 e RandAccount) None r1 (avNow e) (usID u) = (Inr True, r2)"
    and "GetPasswordHash (Some t) (awDb w) (usID u) = Inr hash" "alVerify L hash (liPassword inp) = Some True" "\<not> usMustChangePwd u"
  defines "w3 \<equiv> w\<lparr>awRedis := r2(lockoutFailsKey (alCodec L) (usID u) := None, lockoutUntilKey (alCodec L) (usID u) := None)\<rparr>"
  shows "Login L A e w inp =
    (if usTOTPEnabled u
     then (case issuePartial L A e u of
             Inl err \<Rightarrow> (Inl err, w3)
           | Inr (tok, x) \<Rightarrow>
             (Inr \<lparr>arAccessToken = tok, arAccessExpiresAt = x, arRefreshToken = None, arRefreshExpiresAt = zero_time, arUser = Some u, arTOTPRequired = True\<rparr>,
              writeAuditAction A ''auth.login.totp_required'' inp w3))
     else (case issueFullPair L A e w3 u True of
             (Inl err, w) \<Rightarrow> (Inl err, w)
           | (Inr res, w) \<Rightarrow> (Inr res, writeAuditAction A ''auth.login'' inp w)))"
  using assms(2-10) no_faultsD [OF assms(1)] unfolding w3_def
  by (simp add: Login_def loginPreflight_def verifyPassword_def lockout_Reset_def remote_def Let_def)

lemma signing_total:
  assumes "\<And>mc. jwSign J sec mc \<noteq> None"
  shows "\<exists>sg. \<forall>mc. jwSign J sec mc = Some (sg mc)"
  using assms by (intro exI [of _ "\<lambda>mc. the (jwSign J sec mc)"]) auto

lemma Refresh_path:
  assumes "no_faults e" "avRand e RandNew = Some r"
    and "jwt_Validate (alCodec L) (alJwt L) (acIssuer A) (avNow e) tok ''refresh'' = Inr c"
    and "IsRevokedClaims (alCodec L) (CallOk, CallOk) (awRedis w) (avNow e) c = Inr False"
    and "live (awRedis w) (avNow e) (rotatedKey (clJTI c)) = None" "live (awRedis w) (avNow e) (refreshKey (clJTI c)) \<noteq> None"
    and "second \<le> acRefreshTTL A" "clUserID c \<noteq> uuid_Nil" "clTenantID c \<noteq> uuid_Nil" "clSessionID c \<noteq> ''''"
    and "\<And>mc. jwSign (alJwt L) (jcSecret (acIssuer A)) mc \<noteq> None"
  shows "\<exists>res w'. Refresh L A e w tok = (Inr res, w')"
proof -
  have s: "1 \<le> acRefreshTTL A div second" using assms(7) zdiv_mono1 [of second "acRefreshTTL A" second] by simp
  obtain sg where sg: "\<And>mc. jwSign (alJwt L) (jcSecret (acIssuer A)) mc = Some (sg mc)" using signing_total assms(11) by blast

  show ?thesis
    using assms(2-6,8-10) s no_faultsD(1,2) [OF assms(1)] sg
    by (auto simp: Refresh_def revoked_nets_def refresh_Rotate_def remote_def rotateScript_def randomHex_def
        IssueAccess_def IssueRefresh_def jwt_sign_def Let_def split: option.splits)
qed

section \<open>A first login\<close>

lemma rl_allow_fresh:
  assumes "db k = None" "0 < limit"
  shows "rl_allow R (Some r) None db now k limit =
    (Inr True, db(k \<mapsto> (RZset [(rl_member now r, UnixMilli now)], Some (now + whole second (rlWindow R + minute)))))"
proof -
  have z: "zset_of db now k = Some []" using assms(1) by (simp add: zset_of_def live_def live_entry_def)
  have 1: "rl_prune R k now db = db"
    using z assms(1) by (simp add: rl_prune_def cmd_ZREMRANGE_def put_zset_def fun_upd_idem_iff)
  have 2: "rl_record R k now r db = db(k \<mapsto> (RZset [(rl_member now r, UnixMilli now)], None))"
    using z assms(1) by (simp add: rl_record_def cmd_ZADD_def put_zset_def live_entry_def)
  show ?thesis using z assms(2) by (simp add: rl_allow_def Let_def 1 2 cmd_EXPIRE_def live_def live_entry_def)
qed

text \<open>
  On an empty keyspace a login without faults that passes the checks on the user succeeds; it
  whitelists the refresh token and leaves no trail and no revocation.
\<close>

definition fresh_claims :: "User \<Rightarrow> string \<Rightarrow> string \<Rightarrow> Claims" where
  "fresh_claims u sid jti = \<lparr>clUserID = usID u, clTenantID = usTenantID u, clLogin = usLogin u, clRoles = usRoles u,
     clSessionID = sid, clJTI = jti, clIssuedAt = zero_time, clExpiresAt = zero_time, clTOTPDone = True\<rparr>"

lemma first_login:
  assumes "no_faults e" "awRedis w = Map.empty" "0 < rlPerIP (acRate A)" "0 < rlPerUser (acRate A)"
    and "awTenants w (liOrgID inp) = Some t" "GetByLogin L (awDb w) t (liLogin inp) = Inr u" "usArchivedAt u = None"
    and "GetPasswordHash (Some t) (awDb w) (usID u) = Inr hash" "alVerify L hash (liPassword inp) = Some True"
    and "\<not> usMustChangePwd u" "\<not> usTOTPEnabled u" "usID u \<noteq> uuid_Nil" "usTenantID u \<noteq> uuid_Nil"
    and sign: "\<And>mc. jwSign (alJwt L) (jcSecret (acIssuer A)) mc \<noteq> None"
  shows "\<exists>res w' tok ra r s. Login L A e w inp = (Inr res, w') \<and> arRefreshToken res = Some tok \<and>
    avRand e RandAccess = Some ra \<and> avRand e RandRefresh = Some r \<and> avRand e RandSid = Some s \<and>
    jwSign (alJwt L) (jcSecret (acIssuer A))
      (claims_map (alCodec L) (acIssuer A) (avNow e) (fresh_claims u (hex32 s) (hex32 ra)) ''access'' (jcAccessTTL (acIssuer A))) = Some (arAccessToken res) \<and>
    jwSign (alJwt L) (jcSecret (acIssuer A))
      (claims_map (alCodec L) (acIssuer A) (avNow e) (fresh_claims u (hex32 s) (hex32 r)) ''refresh'' (jcRefreshTTL (acIssuer A))) = Some tok \<and>
    (\<exists>rec. awRedis w' (refreshKey (hex32 r)) =
       Some (RRecord rec, if acRefreshTTL A \<le> 0 then None else Some (avNow e + whole millisecond (acRefreshTTL A)))) \<and>
    (\<forall>j. awRedis w' (rotatedKey j) = None) \<and> (\<forall>x. awRedis w' (sidKey x) = None) \<and>
    (\<forall>i. awRedis w' (userCutoffKey (alCodec L) i) = None)"
proof -
  let ?C = "alCodec L" and ?i = "usID u"
  obtain r1 r2 where rr: "avRand32 e RandIP = Some r1" "avRand32 e RandAccount = Some r2" using no_faultsD(4) [OF assms(1)] by metis
  obtain ra r s where rs: "avRand e RandAccess = Some ra" "avRand e RandRefresh = Some r" "avRand e RandSid = Some s"
    using no_faultsD(3) [OF assms(1)] by metis
  let ?k1 = "''auth:rl:ip:'' @ liIP inp" and ?k2 = "''auth:rl:user:'' @ uuid_String ?C ?i"
  obtain e1 where 1: "AllowIP (acRate A) (avRand32 e RandIP) None (awRedis w) (avNow e) (liIP inp) = (Inr True, [?k1 \<mapsto> e1])"
    using rl_allow_fresh [of "Map.empty" ?k1 "rlPerIP (acRate A)"] assms(2,3) rr(1) by (simp add: AllowIP_def)
  have 2: "IsLocked ?C CallOk [?k1 \<mapsto> e1] (avNow e) ?i = Inr False"
    by (simp add: IsLocked_def get_int_def live_def live_entry_def lockoutUntilKey_def)
  obtain e2 where 3: "AllowAccount ?C (acRate A) (avRand32 e RandAccount) None [?k1 \<mapsto> e1] (avNow e) ?i = (Inr True, [?k1 \<mapsto> e1, ?k2 \<mapsto> e2])"
    using rl_allow_fresh [of "[?k1 \<mapsto> e1]" ?k2 "rlPerUser (acRate A)"] assms(4) rr(2) by (simp add: AllowAccount_def)
  obtain sg where sg: "\<And>mc. jwSign (alJwt L) (jcSecret (acIssuer A)) mc = Some (sg mc)" using signing_total sign by blast
  have d: "''rotated:'' @ j \<noteq> hex32 r" for j
  proof
    assume eq: "''rotated:'' @ j = hex32 r"
    have "CHR '':'' \<in> set (hex32 r)" by (subst eq [symmetric]) simp
    with hex32_no_colon show False ..
  qed
  show ?thesis
    using Login_path [OF assms(1) 1 assms(5-7) 2 3 assms(8-10)] rs assms(11-13) no_faultsD(1) [OF assms(1)] d
    by (auto simp: issueFullPair_def issueFullPairWithSession_def randomHex_def IssueAccess_def IssueRefresh_def jwt_sign_def sg Let_def
        refresh_Save_def remote_def cmd_SET_def fresh_claims_def refreshKey_def sidKey_def userCutoffKey_def rotatedKey_def
        lockoutFailsKey_def lockoutUntilKey_def)
qed

end
