(* ===== verification/Auth_Properties.thy ===== *)
theory Auth_Properties
  imports Auth_Runs
begin

text \<open>
  What holds of refresh tokens and of ended sessions in every history of the authentication module,
  and the small deployment that the witnesses of the module run on.
\<close>

section \<open>A small deployment\<close>

text \<open>
  The instance on which the properties are exercised: symbolic tokens, canonical UUID text, a hasher
  that stores the password itself, one tenant with one operator.
\<close>

definition sample_lib :: "(string \<times> MapClaims) auth_lib" where
  "sample_lib = \<lparr>alCodec = canonical_codec, alJwt = symbolic_jwt, alHash = (\<lambda>salt p. Some p), alVerify = (\<lambda>h p. Some (h = p)),
     alLower = id, alTotp = (\<lambda>code secret t. Some (code = secret)), alBackupHash = (\<lambda>salt c. Some c),
     alBackupVerify = (\<lambda>h c. Some (h = c)), alEncrypt = (\<lambda>t i s. Some s), alDecrypt = (\<lambda>t i s. Some s)\<rparr>"

definition sample_jwt :: JWTConfig where
  "sample_jwt = \<lparr>jcIssuer = ''sociopulse'', jcSecret = ''0123456789abcdef0123456789abcdef'', jcAccessTTL = 15 * minute,
     jcRefreshTTL = 720 * hour, jcLeeway = 30 * second\<rparr>"

definition sample_auth :: auth_cfg where
  "sample_auth = \<lparr>acIssuer = sample_jwt, acPartialIssuer = None, acRefreshTTL = 720 * hour, acRevoker = NewSessionRevoker (720 * hour),
     acRate = NewRateLimiterRedis 0 0 0, acLockout = NewLockoutRedis 0 0, acPartialAccess = 0, acAudit = True\<rparr>"

definition sample_user :: "bool \<Rightarrow> User" where
  "sample_user totp = \<lparr>usID = 7, usTenantID = 3, usLogin = ''anna'', usFullName = ''Anna'', usEmail = '''', usRoles = [''operator''],
     usTOTPEnabled = totp, usMustChangePwd = False, usCreatedAt = 0, usUpdatedAt = 0, usArchivedAt = None\<rparr>"

definition sample_totp :: TOTPState where
  "sample_totp = \<lparr>tsUserID = 7, tsTenantID = 3, tsSecretEncrypted = ''123456'', tsEnrolled = True, tsEnrolledAt = Some 0,
     tsLastVerifiedAt = None, tsBackupCodeHashes = [''aa'', ''bb''], tsBackupUsedCount = 0\<rparr>"

definition sample_world :: "bool \<Rightarrow> auth_world" where
  "sample_world totp = \<lparr>awRedis = Map.empty, awDb = \<lparr>adUsers = [(sample_user totp, ''secret'')], adTotp = [sample_totp]\<rparr>,
     awTenants = [''ORG'' \<mapsto> 3], awAudit = [], awOutbox = []\<rparr>"

text \<open>A call without faults at an instant, with its random draws counted from \<open>n\<close>.\<close>

definition sample_env :: "time \<Rightarrow> nat \<Rightarrow> auth_env" where
  "sample_env now n = \<lparr>avNow = now, avNet = (\<lambda>_. CallOk), avLost = (\<lambda>_. None), avRand32 = (\<lambda>_. Some (of_nat n)),
     avRand = (\<lambda>s. Some (of_nat (case s of RandAccess \<Rightarrow> n | RandRefresh \<Rightarrow> n + 1 | RandSid \<Rightarrow> n + 2 | RandNew \<Rightarrow> n + 3
       | RandIssueJti \<Rightarrow> n + 4 | RandIssueSid \<Rightarrow> n + 5 | _ \<Rightarrow> n))),
     avBytes = (\<lambda>i. Some (of_nat i)), avKey = None, avSalt = 0, avFreshID = 8, avAuditOk = True, avActor = None\<rparr>"

definition sample_login :: LoginInput where
  "sample_login = \<lparr>liOrgID = ''ORG'', liLogin = ''anna'', liPassword = ''secret'', liIP = ''10.0.0.1''\<rparr>"

lemma sample_wired: "wired sample_lib sample_auth"
  by (simp add: wired_def sample_lib_def sample_auth_def sample_jwt_def symbolic.jwt_library_axioms canonical.hash_codec_axioms)

section \<open>Refresh tokens\<close>

lemma Refresh_redeemed:
  assumes "redeemed A t0 j t (awRedis w)" "t \<le> avNow e"
    and "\<And>c. jwt_Validate (alCodec L) (alJwt L) (acIssuer A) (avNow e) tok ''refresh'' = Inr c \<Longrightarrow> clJTI c = j"
  shows "\<exists>err. fst (Refresh L A e w tok) = Inl err"
proof (cases "fst (Refresh L A e w tok)")
  case (Inr res)
  then obtain w' where "Refresh L A e w tok = (Inr res, w')" by (metis prod.collapse)
  then obtain c r rec where "jwt_Validate (alCodec L) (alJwt L) (acIssuer A) (avNow e) tok ''refresh'' = Inr c"
    "rotateScript (awRedis w) (avNow e) (clJTI c) (hex32 r) (acRefreshTTL A div second) rec = (Inr 1, awRedis w')"
    by (rule Refresh_success)
  then show ?thesis using assms(1,3)
    by (auto simp: rotateScript_def redeemed_def live_def live_entry_def split: option.splits rvalue.splits if_splits)
qed simp

lemma Refresh_replay:
  assumes "redeemed A t0 j t (awRedis w)" "t \<le> avNow e" "avNow e < t0 + acRefreshTTL A div second * second" "no_faults e"
    and "jwt_Validate (alCodec L) (alJwt L) (acIssuer A) (avNow e) tok ''refresh'' = Inr c" "clJTI c = j"
    and "IsRevokedClaims (alCodec L) (CallOk, CallOk) (awRedis w) (avNow e) c = Inr False"
  shows "fst (Refresh L A e w tok) = Inl ErrRefreshReplay"
proof -
  obtain s where "awRedis w (rotatedKey j) = Some (RString s, Some (t0 + acRefreshTTL A div second * second))"
    using assms(1-3) by (auto simp: redeemed_def)
  then have l: "live (awRedis w) (avNow e) (rotatedKey j) = Some (RString s)" using assms(3) by (simp add: live_def live_entry_def)
  obtain r where "avRand e RandNew = Some r" using no_faultsD(3) [OF assms(4)] by blast
  then show ?thesis using assms(5-7) no_faultsD(1) [OF assms(4)] l
    by (simp add: Refresh_def revoked_nets_def randomHex_def refresh_Rotate_def remote_def rotateScript_def Let_def split: prod.splits)
qed

text \<open>
  C25: a refresh token is redeemed at most once. In every history of the module (any interleaving of
  logins, refreshes, logouts and administration, any lost requests and replies), once a refresh
  token has been exchanged, every later exchange of it is refused; and while the lifetime counted
  from the exchange lasts, a valid token of a session that is not revoked is answered with
  \<open>ErrRefreshReplay\<close>.
\<close>

theorem refresh_token_redeemed_once:
  assumes "wired L A" "auth_hist L A h w toks used t" "(e, v, OpRefresh tok, ReplyAuth (Inr res)) \<in> set h" "t \<le> avNow e'"
  shows "(\<exists>err. fst (Refresh L A e' w tok) = Inl err) \<and>
    (\<forall>c. no_faults e' \<longrightarrow> jwt_Validate (alCodec L) (alJwt L) (acIssuer A) (avNow e') tok ''refresh'' = Inr c
      \<longrightarrow> IsRevokedClaims (alCodec L) (CallOk, CallOk) (awRedis w) (avNow e') c = Inr False
      \<longrightarrow> avNow e' < avNow e + acRefreshTTL A div second * second \<longrightarrow> fst (Refresh L A e' w tok) = Inl ErrRefreshReplay)"
proof -
  obtain j where j: "redeemed A (avNow e) j t (awRedis w)"
    "\<And>t' c. jwt_Validate (alCodec L) (alJwt L) (acIssuer A) t' tok ''refresh'' = Inr c \<Longrightarrow> clJTI c = j"
    using hist_redeemed [OF assms(2,1,3)] by blast
  show ?thesis
  proof (intro conjI allI impI)
    show "\<exists>err. fst (Refresh L A e' w tok) = Inl err" by (rule Refresh_redeemed [OF j(1) assms(4)]) (rule j(2))
  next
    fix c
    assume "no_faults e'" "avNow e' < avNow e + acRefreshTTL A div second * second"
      and v: "jwt_Validate (alCodec L) (alJwt L) (acIssuer A) (avNow e') tok ''refresh'' = Inr c"
      and "IsRevokedClaims (alCodec L) (CallOk, CallOk) (awRedis w) (avNow e') c = Inr False"
    then show "fst (Refresh L A e' w tok) = Inl ErrRefreshReplay"
      using Refresh_replay [OF j(1) assms(4) _ _ v j(2) [OF v]] by blast
  qed
qed

section \<open>Ended sessions\<close>

definition revoke_deadline :: "auth_cfg \<Rightarrow> time \<Rightarrow> time \<Rightarrow> bool" where
  "revoke_deadline A t0 now \<longleftrightarrow> rvTtl (acRevoker A) \<le> 0 \<or> now < t0 + whole millisecond (rvTtl (acRevoker A))"

text \<open>
  An event that ends a session: a logout with a valid token, or an exchange that was recognised as a
  replay and whose revocation was written.
\<close>

definition ends_session :: "'tok auth_lib \<Rightarrow> auth_cfg \<Rightarrow> 'tok auth_event \<Rightarrow> string \<Rightarrow> bool" where
  "ends_session L A ev sid \<longleftrightarrow> sid \<noteq> '''' \<and>
     (case ev of
        (e, v, OpLogout tok, ReplyUnit (Inr _)) \<Rightarrow>
          (\<exists>c. jwt_Validate (alCodec L) (alJwt L) (acIssuer A) (avNow e) tok ''refresh'' = Inr c \<and> clSessionID c = sid)
      | (e, v, OpRefresh tok, ReplyAuth (Inl ErrRefreshReplay)) \<Rightarrow> avNet e SiteRevoke = CallOk \<and>
          (\<exists>c. jwt_Validate (alCodec L) (alJwt L) (acIssuer A) (avNow e) tok ''refresh'' = Inr c \<and> clSessionID c = sid)
      | _ \<Rightarrow> False)"

definition revoked_from :: "auth_cfg \<Rightarrow> time \<Rightarrow> string \<Rightarrow> redis \<Rightarrow> bool" where
  "revoked_from A t0 sid db \<longleftrightarrow> (\<exists>x t1. t0 \<le> t1 \<and>
     db (sidKey sid) = Some (x, if rvTtl (acRevoker A) \<le> 0 then None else Some (t1 + whole millisecond (rvTtl (acRevoker A)))))"

lemma revoked_from_live: "revoked_from A t0 sid db \<Longrightarrow> revoke_deadline A t0 now \<Longrightarrow> live db now (sidKey sid) \<noteq> None"
  by (auto simp: revoked_from_def revoke_deadline_def live_def live_entry_def)

lemma revoked_from_step:
  assumes "revoked_from A t0 sid db" "session_ok (rvTtl (acRevoker A)) now M db db'" "t0 \<le> now"
  shows "revoked_from A t0 sid db'"
  using session_okD(1) [OF assms(2), of sid] assms(1,3) unfolding revoked_from_def by metis

lemma RevokeSession_revokes:
  assumes "RevokeSession (acRevoker A) net db now sid = (Inr u, db') \<or> (net = CallOk \<and> sid \<noteq> '''' \<and> RevokeSession (acRevoker A) net db now sid = (y, db'))"
  shows "revoked_from A now sid db'"
proof -
  have "db' = cmd_SET db now (sidKey sid) (RString ''1'') (rvTtl (acRevoker A))"
    using assms by (auto simp: RevokeSession_def remote_def split: if_splits call_outcome.splits)
  then show ?thesis by (auto simp: revoked_from_def cmd_SET_def)
qed

text \<open>The errors of the parts of an exchange; none of them is the replay error.\<close>

lemma exchange_errors:
  "IsRevokedClaims C nets db now c = Inl err \<Longrightarrow> err = ErrStore"
  "refresh_Rotate ttl net db now old new rec = (Inl err, db') \<Longrightarrow> err \<in> {ErrRefreshAlreadyRotated, ErrRefreshNotFound, ErrStore}"
  "jwt_sign C J cfg now r1 r2 c ty ttl = Inl err \<Longrightarrow> err \<in> {ErrTokenInvalid, ErrStore}"
  by (auto simp: IsRevokedClaims_def get_int_def refresh_Rotate_def remote_def rotateScript_def jwt_sign_def bindE_def randomHex_def Let_def
      split: prod.splits if_splits sum.splits option.splits rvalue.splits call_outcome.splits)

lemma ends_session_revokes:
  assumes "auth_do L A e w op = (rp, w')" "ends_session L A (e, v, op, rp) sid"
  shows "revoked_from A (avNow e) sid (awRedis w')"
proof (cases op)
  case (OpLogout tok)
  with assms obtain c u where c: "jwt_Validate (alCodec L) (alJwt L) (acIssuer A) (avNow e) tok ''refresh'' = Inr c" "clSessionID c = sid"
    "Logout L A e w tok = (Inr u, w')"
    by (auto simp: ends_session_def map_prod_def split: auth_reply.splits sum.splits prod.splits)
  then show ?thesis by (auto simp: Logout_def Let_def split: prod.splits sum.splits intro: RevokeSession_revokes)
next
  case (OpRefresh tok)
  with assms obtain c where c: "jwt_Validate (alCodec L) (alJwt L) (acIssuer A) (avNow e) tok ''refresh'' = Inr c" "clSessionID c = sid"
    "Refresh L A e w tok = (Inl ErrRefreshReplay, w')" "avNet e SiteRevoke = CallOk" "sid \<noteq> ''''"
    by (auto simp: ends_session_def map_prod_def split: auth_reply.splits sum.splits prod.splits auth_error.splits)
  then show ?thesis
    by (auto simp: Refresh_def IssueAccess_def IssueRefresh_def Let_def randomHex_def dest: exchange_errors
        split: prod.splits sum.splits option.splits bool.splits if_splits intro: RevokeSession_revokes)
qed (use assms in \<open>auto simp: ends_session_def\<close>)

lemma hist_revoked:
  assumes "auth_hist L A h w toks used t" "wired L A" "(e, v, op, rp) \<in> set h" "ends_session L A (e, v, op, rp) sid"
  shows "revoked_from A (avNow e) sid (awRedis w)"
  using assms(1,3)
proof (induction rule: auth_hist.induct)
  case (Step h w toks used t e' op' rp' w')
  show ?case
  proof (cases "(e, v, op, rp) \<in> set h")
    case True
    have "keeps_sessions A e' w w'" using hist_step_keeps [OF Step.hyps(1) assms(2) Step.hyps(5) Step.hyps(4)] .
    then show ?thesis using revoked_from_step [OF Step.IH [OF True]] hist_times [OF Step.hyps(1) True] Step.hyps(2)
      unfolding keeps_sessions_def by (meson order_trans)
  next
    case False
    then show ?thesis using Step.prems Step.hyps(5) ends_session_revokes assms(4) by fastforce
  qed
qed simp

lemma IsRevokedClaims_session:
  "live db now (sidKey (clSessionID c)) \<noteq> None \<Longrightarrow> clSessionID c \<noteq> '''' \<Longrightarrow> IsRevokedClaims C nets db now c \<noteq> Inr False"
  by (simp add: IsRevokedClaims_def split: prod.splits)

text \<open>
  C26: an ended session stays ended. After a logout, or after the exchange of a refresh token was
  recognised as a replay, no token of that session is accepted while the revocation lasts: it
  neither validates as an access token nor can be exchanged, whatever happened in between.
\<close>

theorem ended_session_stays_refused:
  assumes "wired L A" "auth_hist L A h w toks used t" "(e, v, op, rp) \<in> set h" "ends_session L A (e, v, op, rp) sid"
    and "revoke_deadline A (avNow e) (avNow e')"
    and "\<And>ty c. jwt_Validate (alCodec L) (alJwt L) (acIssuer A) (avNow e') tok ty = Inr c \<Longrightarrow> clSessionID c = sid"
  shows "(\<exists>err. ValidateAccessToken L A e' w tok = Inl err) \<and> (\<exists>err. fst (Refresh L A e' w tok) = Inl err)"
proof -
  have l: "live (awRedis w) (avNow e') (sidKey sid) \<noteq> None"
    by (rule revoked_from_live [OF hist_revoked [OF assms(2,1,3,4)] assms(5)])
  have n: "IsRevokedClaims C nets (awRedis w) (avNow e') c \<noteq> Inr False"
    if "jwt_Validate (alCodec L) (alJwt L) (acIssuer A) (avNow e') tok ty = Inr c" for C nets c ty
    using IsRevokedClaims_session l assms(6) [OF that] assms(4) by (auto simp: ends_session_def)
  have "\<exists>err. ValidateAccessToken L A e' w tok = Inl err"
  proof (cases "jwt_Validate (alCodec L) (alJwt L) (acIssuer A) (avNow e') tok ''access''")
    case (Inr c)
    then show ?thesis using n [OF Inr, of "alCodec L" "revoked_nets e'"]
      by (auto simp: ValidateAccessToken_def split: sum.splits bool.splits)
  qed (simp add: ValidateAccessToken_def)
  moreover have "\<exists>err. fst (Refresh L A e' w tok) = Inl err"
  proof (cases "fst (Refresh L A e' w tok)")
    case (Inr res)
    then obtain w' where "Refresh L A e' w tok = (Inr res, w')" by (metis prod.collapse)
    then show ?thesis by (rule Refresh_success) (use n in blast)
  qed simp
  ultimately show ?thesis ..
qed

section \<open>A history of the small deployment\<close>

lemma sample_no_faults: "no_faults (sample_env t n)"
  by (simp add: no_faults_def sample_env_def)

lemma sample_sel [simp]:
  "alCodec sample_lib = canonical_codec" "alJwt sample_lib = symbolic_jwt" "jwSign symbolic_jwt sec mc = Some (sec, mc)"
  "acIssuer sample_auth = sample_jwt" "acRefreshTTL sample_auth = 720 * hour" "rvTtl (acRevoker sample_auth) = 720 * hour"
  "avNow (sample_env t n) = t" "avNet (sample_env t n) s = CallOk"
  "avRand (sample_env t n) RandAccess = Some (of_nat n)" "avRand (sample_env t n) RandRefresh = Some (of_nat (n + 1))"
  "avRand (sample_env t n) RandSid = Some (of_nat (n + 2))" "avRand (sample_env t n) RandNew = Some (of_nat (n + 3))"
  by (simp_all add: sample_lib_def symbolic_jwt_def sample_auth_def sample_env_def NewSessionRevoker_def)

lemma sample_sign: "jwSign (alJwt sample_lib) sec mc \<noteq> None"
  by simp

lemma sample_minted: "minted (sample_env t n) = {hex32 (of_nat (n + 1)), hex32 (of_nat (n + 3))}"
  by (auto simp: minted_def sample_env_def)

lemmas sample_defs = sample_auth_def sample_world_def sample_user_def sample_login_def NewRateLimiterRedis_def

lemma sample_user_found:
  "awTenants (sample_world b) (liOrgID sample_login) = Some 3"
  "GetByLogin sample_lib (awDb (sample_world b)) 3 (liLogin sample_login) = Inr (sample_user b)"
  "GetPasswordHash (Some 3) (awDb (sample_world b)) (usID (sample_user b)) = Inr ''secret''"
  "alVerify sample_lib ''secret'' (liPassword sample_login) = Some True"
  by (simp_all add: sample_world_def sample_login_def GetByLogin_def GetPasswordHash_def user_row_def visible_def sample_user_def sample_lib_def)

definition sample_claims :: "string \<Rightarrow> Claims" where
  "sample_claims jti = fresh_claims (sample_user False) (hex32 2) jti"

definition sample_refresh_token :: "string \<times> MapClaims" where
  "sample_refresh_token = (jcSecret sample_jwt, claims_map canonical_codec sample_jwt second (sample_claims (hex32 1)) ''refresh'' (jcRefreshTTL sample_jwt))"

lemma sample_first_login:
  "\<exists>res w'. Login sample_lib sample_auth (sample_env second 0) (sample_world False) sample_login = (Inr res, w') \<and>
     arRefreshToken res = Some sample_refresh_token \<and>
     live (awRedis w') (2 * second) (refreshKey (hex32 1)) \<noteq> None \<and> (\<forall>j. awRedis w' (rotatedKey j) = None) \<and>
     (\<forall>x. awRedis w' (sidKey x) = None) \<and> (\<forall>i. awRedis w' (userCutoffKey canonical_codec i) = None)"
proof -
  let ?e = "sample_env second 0" and ?w = "sample_world False"
  have "usArchivedAt (sample_user False) = None" "\<not> usMustChangePwd (sample_user False)" "\<not> usTOTPEnabled (sample_user False)"
    "usID (sample_user False) \<noteq> uuid_Nil" "usTenantID (sample_user False) \<noteq> uuid_Nil" "awRedis ?w = Map.empty"
    "0 < rlPerIP (acRate sample_auth)" "0 < rlPerUser (acRate sample_auth)" by (simp_all add: sample_defs)
  from first_login [OF sample_no_faults [of second 0] this(6-8) sample_user_found(1,2) this(1) sample_user_found(3,4) this(2-5) sample_sign]
  show ?thesis by (auto simp: sample_refresh_token_def sample_claims_def live_def live_entry_def whole_def)
qed

lemma sample_validates:
  assumes "second \<le> t" "t < hour"
  shows "jwt_Validate (alCodec sample_lib) (alJwt sample_lib) (acIssuer sample_auth) t sample_refresh_token ''refresh'' =
    Inr (issued_claims second (jcRefreshTTL sample_jwt) (sample_claims (hex32 1)))"
proof -
  have "jwSign (alJwt sample_lib) (jcSecret sample_jwt)
      (claims_map canonical_codec sample_jwt second (sample_claims (hex32 1)) ''refresh'' (jcRefreshTTL sample_jwt)) = Some sample_refresh_token"
    by (simp add: sample_lib_def symbolic_jwt_def sample_refresh_token_def)
  then show ?thesis using Validate_signed [of "alJwt sample_lib" canonical_codec "sample_claims (hex32 1)" sample_jwt second] assms sample_wired
    by (simp add: wired_def sample_lib_def sample_auth_def sample_claims_def fresh_claims_def sample_user_def sample_jwt_def UnixSec_def)
qed

abbreviation sample_issued :: Claims where
  "sample_issued \<equiv> issued_claims second (jcRefreshTTL sample_jwt) (sample_claims (hex32 1))"

lemma sample_issued_sel [simp]:
  "clJTI sample_issued = hex32 1" "clSessionID sample_issued = hex32 2" "clUserID sample_issued = 7" "clTenantID sample_issued = 3"
  by (simp_all add: issued_claims_def sample_claims_def fresh_claims_def sample_user_def)

lemma not_revoked:
  assumes "\<And>x. db (sidKey x) = None" "\<And>i. db (userCutoffKey C i) = None"
  shows "IsRevokedClaims C (CallOk, CallOk) db now c = Inr False"
  by (simp add: IsRevokedClaims_def get_int_def live_def live_entry_def assms)

text \<open>The login, then either the exchange of its refresh token or the logout.\<close>

lemma sample_hist_login:
  obtains h w toks where "auth_hist sample_lib sample_auth h w toks (minted (sample_env second 0)) second" "sample_refresh_token \<in> toks"
    "live (awRedis w) (2 * second) (refreshKey (hex32 1)) \<noteq> None" "\<forall>j. awRedis w (rotatedKey j) = None"
    "\<forall>x. awRedis w (sidKey x) = None" "\<forall>i. awRedis w (userCutoffKey canonical_codec i) = None"
proof -
  obtain res w where l: "Login sample_lib sample_auth (sample_env second 0) (sample_world False) sample_login = (Inr res, w)"
     "arRefreshToken res = Some sample_refresh_token"
     "live (awRedis w) (2 * second) (refreshKey (hex32 1)) \<noteq> None" "\<forall>j. awRedis w (rotatedKey j) = None"
     "\<forall>x. awRedis w (sidKey x) = None" "\<forall>i. awRedis w (userCutoffKey canonical_codec i) = None"
    using sample_first_login by blast
  have s: "auth_hist sample_lib sample_auth [] (sample_world False) {} {} 0" by (rule auth_hist.Start) (simp add: sample_world_def)
  have "auth_hist sample_lib sample_auth ([] @ [(sample_env second 0, sample_world False, OpLogin sample_login, ReplyAuth (Inr res))]) w
      ({} \<union> reply_tokens (ReplyAuth (Inr res))) ({} \<union> minted (sample_env second 0)) (avNow (sample_env second 0))"
    by (rule auth_hist.Step [OF s]) (simp_all add: l(1))
  then show thesis using that [OF _ _ l(3)] l(2,4-6) by simp
qed

lemma sample_exchange:
  obtains h w toks used e v res where "auth_hist sample_lib sample_auth h w toks used (2 * second)"
    "(e, v, OpRefresh sample_refresh_token, ReplyAuth (Inr res)) \<in> set h" "avNow e = 2 * second"
    "\<forall>now. IsRevokedClaims canonical_codec (CallOk, CallOk) (awRedis w) now sample_issued = Inr False"
proof -
  let ?e = "sample_env (2 * second) 10"
  obtain h w toks where l: "auth_hist sample_lib sample_auth h w toks (minted (sample_env second 0)) second" "sample_refresh_token \<in> toks"
    "live (awRedis w) (2 * second) (refreshKey (hex32 1)) \<noteq> None" "\<forall>j. awRedis w (rotatedKey j) = None"
    "\<forall>x. awRedis w (sidKey x) = None" "\<forall>i. awRedis w (userCutoffKey canonical_codec i) = None" by (rule sample_hist_login)
  note v = sample_validates [of "2 * second", simplified]
  have nr: "IsRevokedClaims canonical_codec (CallOk, CallOk) (awRedis w) now sample_issued = Inr False" for now using l(5,6) by (intro not_revoked) auto
  have "live (awRedis w) (2 * second) (rotatedKey (hex32 1)) = None" using l(4) by (simp add: live_def live_entry_def)
  then obtain res w' where r: "Refresh sample_lib sample_auth ?e w sample_refresh_token = (Inr res, w')"
    using Refresh_path [OF sample_no_faults [of "2 * second" 10] sample_sel(12), of sample_lib sample_auth sample_refresh_token sample_issued w] v nr l(3)
    by auto
  obtain c q rec where "jwt_Validate (alCodec sample_lib) (alJwt sample_lib) (acIssuer sample_auth) (avNow ?e) sample_refresh_token ''refresh'' = Inr c"
    "rotateScript (awRedis w) (avNow ?e) (clJTI c) (hex32 q) (acRefreshTTL sample_auth div second) rec = (Inr 1, awRedis w')"
    using r by (rule Refresh_success)
  then have "awRedis w' (sidKey x) = None" "awRedis w' (userCutoffKey canonical_codec i) = None" for x i
    using l(5,6) onlyD [OF only_rotateScript [of "clJTI c" "hex32 q" "awRedis w" "avNow ?e" "acRefreshTTL sample_auth div second" rec]]
    by simp_all
  then have nr': "IsRevokedClaims canonical_codec (CallOk, CallOk) (awRedis w') now sample_issued = Inr False" for now by (rule not_revoked)
  have "auth_hist sample_lib sample_auth (h @ [(?e, w, OpRefresh sample_refresh_token, ReplyAuth (Inr res))]) w'
      (toks \<union> reply_tokens (ReplyAuth (Inr res))) (minted (sample_env second 0) \<union> minted ?e) (avNow ?e)"
    by (rule auth_hist.Step [OF l(1)]) (simp_all add: l(2) r [simplified] sample_minted hex32_inject)
  then show thesis by (intro that) (auto simp: nr')
qed

theorem refresh_token_redeemed_once_witness:
  "\<exists>h w toks used e v res. auth_hist sample_lib sample_auth h w toks used (2 * second) \<and>
     (e, v, OpRefresh sample_refresh_token, ReplyAuth (Inr res)) \<in> set h \<and>
     fst (Refresh sample_lib sample_auth (sample_env (3 * second) 20) w sample_refresh_token) = Inl ErrRefreshReplay"
proof -
  obtain h w toks used e v res where x: "auth_hist sample_lib sample_auth h w toks used (2 * second)"
    "(e, v, OpRefresh sample_refresh_token, ReplyAuth (Inr res)) \<in> set h" "avNow e = 2 * second"
    "\<forall>now. IsRevokedClaims canonical_codec (CallOk, CallOk) (awRedis w) now sample_issued = Inr False" by (rule sample_exchange)
  have "fst (Refresh sample_lib sample_auth (sample_env (3 * second) 20) w sample_refresh_token) = Inl ErrRefreshReplay"
    using refresh_token_redeemed_once [OF sample_wired x(1,2), of "sample_env (3 * second) 20"] sample_no_faults x(3,4)
      sample_validates [of "3 * second"] by simp
  with x show ?thesis by blast
qed

theorem ended_session_stays_refused_witness:
  "\<exists>h w toks used e v. auth_hist sample_lib sample_auth h w toks used (2 * second) \<and>
     (e, v, OpLogout sample_refresh_token, ReplyUnit (Inr ())) \<in> set h \<and>
     (\<exists>err. fst (Refresh sample_lib sample_auth (sample_env (3 * second) 20) w sample_refresh_token) = Inl err)"
proof -
  let ?e = "sample_env (2 * second) 10"
  obtain h w toks where l: "auth_hist sample_lib sample_auth h w toks (minted (sample_env second 0)) second" "sample_refresh_token \<in> toks"
    by (rule sample_hist_login)
  note v = sample_validates [of "2 * second", simplified]
  obtain w' where o: "Logout sample_lib sample_auth ?e w sample_refresh_token = (Inr (), w')"
    using v by (auto simp: Logout_def refresh_Delete_def RevokeSession_def remote_def Let_def)
  have h: "auth_hist sample_lib sample_auth (h @ [(?e, w, OpLogout sample_refresh_token, ReplyUnit (Inr ()))]) w'
      (toks \<union> reply_tokens (ReplyUnit (Inr ()))) (minted (sample_env second 0) \<union> minted ?e) (avNow ?e)"
    by (rule auth_hist.Step [OF l(1)]) (simp_all add: l(2) o [simplified] sample_minted hex32_inject)
  have "ends_session sample_lib sample_auth (?e, w, OpLogout sample_refresh_token, ReplyUnit (Inr ())) (hex32 2)"
    using v by (simp add: ends_session_def)
  moreover have "revoke_deadline sample_auth (avNow ?e) (avNow (sample_env (3 * second) 20))" by (simp add: revoke_deadline_def whole_def)
  moreover have "clSessionID c = hex32 2"
    if "jwt_Validate (alCodec sample_lib) (alJwt sample_lib) (acIssuer sample_auth) (avNow (sample_env (3 * second) 20)) sample_refresh_token ty = Inr c" for ty c
    using signed_same_claims [OF sample_wired hist_tokens(1) [OF l(1) sample_wired l(2)] sample_validates [of second] that] by simp
  ultimately have "\<exists>err. fst (Refresh sample_lib sample_auth (sample_env (3 * second) 20) w' sample_refresh_token) = Inl err"
    using ended_session_stays_refused [OF sample_wired h, of ?e w "OpLogout sample_refresh_token" "ReplyUnit (Inr ())" "hex32 2" "sample_env (3 * second) 20" sample_refresh_token] by simp
  with h show ?thesis by fastforce
qed

end
