(* ===== verification/Auth_Frames.thy ===== *)
theory Auth_Frames
  imports Auth_Runs
begin

text \<open>
  Frames for the keys of the limiter and of the lockout: which operations of the module leave them
  alone. A \<open>private\<close> key is one that no session, refresh token or address limit uses; the account
  limiter's and the lockout's keys are private, and each is written for its own user only.
\<close>

section \<open>Private keys\<close>

definition private_key :: "string \<Rightarrow> bool" where
  "private_key k \<longleftrightarrow> (\<forall>s. k \<noteq> sidKey s \<and> k \<noteq> refreshKey s \<and> k \<noteq> rotatedKey s \<and> k \<noteq> ''auth:rl:ip:'' @ s) \<and> (\<forall>C i. k \<noteq> userCutoffKey C i)"

definition account_key :: "codec \<Rightarrow> uuid \<Rightarrow> string" where
  "account_key C i = ''auth:rl:user:'' @ uuid_String C i"

lemma private_account [simp]: "private_key (account_key C i)"
  by (simp add: private_key_def account_key_def sidKey_def userCutoffKey_def refreshKey_def rotatedKey_def)

lemma private_lockout [simp]: "private_key (lockoutFailsKey C i)" "private_key (lockoutUntilKey C i)"
  by (simp_all add: private_key_def lockoutFailsKey_def lockoutUntilKey_def sidKey_def userCutoffKey_def refreshKey_def rotatedKey_def)

lemma account_not_lockout [simp]:
  "\<not> lockout_key C j (account_key C' i)" "lockoutFailsKey C j \<noteq> account_key C' i" "lockoutUntilKey C j \<noteq> account_key C' i"
  by (simp_all add: account_key_def lockout_key_def lockoutFailsKey_def lockoutUntilKey_def)

lemma private_kept:
  assumes "private_key k"
  shows "AllowIP R x z db t ip = (a, r) \<Longrightarrow> r k = db k"
    "RevokeSession V net db t sid = (y, r) \<Longrightarrow> r k = db k"
    "RevokeAllForUser C V net db t j = (y, r) \<Longrightarrow> r k = db k"
    "refresh_Save ttl net db t jti rec = (y, r) \<Longrightarrow> r k = db k"
    "refresh_Delete net db jti = (y, r) \<Longrightarrow> r k = db k"
    "refresh_Rotate ttl net db t old new rec = (y, r) \<Longrightarrow> r k = db k"
proof -
  have k: "k \<noteq> ''auth:rl:ip:'' @ ip" "k \<noteq> sidKey sid" "k \<noteq> userCutoffKey C j" "k \<noteq> refreshKey s" "k \<noteq> rotatedKey s" for s
    using assms by (auto simp: private_key_def)
  show "AllowIP R x z db t ip = (a, r) \<Longrightarrow> r k = db k"
    unfolding AllowIP_def using onlyD [OF only_rl_allow k(1)] by (metis snd_conv)
  show "RevokeSession V net db t sid = (y, r) \<Longrightarrow> r k = db k" using onlyD [OF only_RevokeSession k(2)] by (metis snd_conv)
  show "RevokeAllForUser C V net db t j = (y, r) \<Longrightarrow> r k = db k" using onlyD [OF only_RevokeAll k(3)] by (metis snd_conv)
  show "refresh_Save ttl net db t jti rec = (y, r) \<Longrightarrow> r k = db k" using onlyD [OF only_Save k(4)] by (metis snd_conv)
  show "refresh_Delete net db jti = (y, r) \<Longrightarrow> r k = db k" using onlyD [OF only_Delete k(4)] by (metis snd_conv)
  show "refresh_Rotate ttl net db t old new rec = (y, r) \<Longrightarrow> r k = db k" using onlyD [OF only_Rotate, of k] k(4,5) by (metis snd_conv)
qed

lemma lockout_kept:
  assumes "\<not> lockout_key C j k"
  shows "snd (RegisterFailure C K nets db t j) k = db k" "lockout_Reset C net db j = (y, r) \<Longrightarrow> r k = db k"
  using onlyD [OF only_RegisterFailure assms] onlyD [OF only_Reset assms] by (metis snd_conv)+

lemma AllowAccount_kept: "k \<noteq> account_key C j \<Longrightarrow> AllowAccount C R x y db t j = (a, r) \<Longrightarrow> r k = db k"
  unfolding AllowAccount_def account_key_def using onlyD [OF only_rl_allow] by (metis snd_conv)

section \<open>Operations\<close>

lemma issue_kept:
  assumes "private_key k" "issueFullPairWithSession L A e w user sid d = (r, w')"
  shows "awRedis w' k = awRedis w k"
  using assms(2) by (auto simp: issueFullPairWithSession_def randomHex_def Let_def
      split: option.splits sum.splits if_splits prod.splits dest!: private_kept(4) [OF assms(1)])

lemma Refresh_kept:
  assumes "private_key k" "Refresh L A e w tok = (r, w')"
  shows "awRedis w' k = awRedis w k"
  using assms(2) by (auto simp: Refresh_def Let_def randomHex_def split: sum.splits option.splits if_splits prod.splits bool.splits
      dest!: private_kept(2,6) [OF assms(1)])

lemma Logout_kept:
  assumes "private_key k" "Logout L A e w tok = (r, w')"
  shows "awRedis w' k = awRedis w k"
  using assms(2) by (auto simp: Logout_def Let_def split: sum.splits prod.splits dest!: private_kept(2,5) [OF assms(1)])

lemma verify_kept:
  assumes "\<not> lockout_key (alCodec L) (usID user) k" "verifyPassword L A e w tid user inp = (r, w')"
  shows "awRedis w' k = awRedis w k"
  using assms(2) by (auto simp: verifyPassword_def failLoginInvalidCreds_def Let_def lockout_kept(1) [OF assms(1)]
      split: option.splits sum.splits if_splits prod.splits bool.splits dest!: lockout_kept(2) [OF assms(1)])

text \<open>A login after its checks, a second step, and the rest.\<close>

lemma Login_kept:
  assumes "private_key k" "Login L A e w inp = (r, w')" "loginPreflight L A e w inp = (x, w1)"
    and "\<And>u t. x = Inr (u, t) \<Longrightarrow> \<not> lockout_key (alCodec L) (usID u) k"
  shows "awRedis w' k = awRedis w1 k"
  using assms(2-4) by (auto simp: Login_def issueFullPair_def split: sum.splits prod.splits if_splits
      dest!: verify_kept [where k = k, rotated] issue_kept [OF assms(1)])

lemma LoginTOTP_kept:
  assumes "private_key k" "LoginTOTP L A e w tok code ip = (r, w')"
    and "\<And>c. jwt_Validate (alCodec L) (alJwt L) (acIssuer A) (avNow e) tok ''access'' = Inr c \<Longrightarrow> \<not> lockout_key (alCodec L) (clUserID c) k"
  shows "awRedis w' k = awRedis w k"
  using assms(2,3) by (auto simp: LoginTOTP_def Let_def lockout_kept(1) split: sum.splits prod.splits if_splits bool.splits
      dest!: awRedis_Verify issue_kept [OF assms(1)])

lemma other_kept:
  assumes "private_key k" "auth_do L A e w op = (rp, w')" "\<And>inp. op \<noteq> OpLogin inp" "\<And>tok code ip. op \<noteq> OpLoginTOTP tok code ip"
  shows "awRedis w' k = awRedis w k"
  using assms(2-4) by (cases op) (auto simp: map_prod_def split: prod.splits
      dest!: awRedis_user_ops Refresh_kept [OF assms(1)] Logout_kept [OF assms(1)] private_kept(3) [OF assms(1)])

end
