(* ===== verification/Auth_Guesses.thy ===== *)
theory Auth_Guesses
  imports Auth_Properties Auth_Frames
begin

text \<open>
  The bound on password guesses. A guess is a login whose password is compared with the account's
  hash; the per-account limiter admits it. In every history the guesses against one account that
  fall into one window are no more than the limit.
\<close>

section \<open>Members of the sliding window\<close>

lemma rl_member_inject: "rl_member t r = rl_member t' r' \<longleftrightarrow> t = t' \<and> r = r'"
proof
  assume eq: "rl_member t r = rl_member t' r'"
  let ?h = "\<lambda>r :: 32 word. map hex_char (pad16 8 (unat r))"
  have "length (?h r) = length (?h r')" by simp
  then have "FormatInt t @ ''-'' = FormatInt t' @ ''-''" and h: "?h r = ?h r'"
    using eq by (simp_all add: rl_member_def append_eq_append_conv)
  then have f: "FormatInt t = FormatInt t'" by simp
  have "map (hex_val \<circ> hex_char) (pad16 8 (unat r)) = map (hex_val \<circ> hex_char) (pad16 8 (unat r'))"
    using h by (metis map_map)
  moreover have "map (hex_val \<circ> hex_char) (pad16 8 n) = pad16 8 n" for n
    by (rule map_hex_val_char) (rule pad16_less)
  ultimately have "pad16 8 (unat r) = pad16 8 (unat r')" by simp
  then have "unat r mod 16 ^ 8 = unat r' mod 16 ^ 8" using pad16_value by metis
  moreover have "unat r < 16 ^ 8" "unat r' < 16 ^ 8" using unsigned_less [of r] unsigned_less [of r'] by simp_all
  ultimately have "r = r'" by (simp add: word_unat_eq_iff)
  with FormatInt_inject f show "t = t' \<and> r = r'" by blast
qed simp

text \<open>A pipeline reads and writes its own key only.\<close>

lemma entry_local:
  assumes "db k = db' k"
  shows "live_entry db now k = live_entry db' now k" "live db now k = live db' now k" "zset_of db now k = zset_of db' now k"
    "rl_prune R k now db k = rl_prune R k now db' k" "rl_record R k now r db k = rl_record R k now r db' k"
    "cmd_EXPIRE db now k ttl k = cmd_EXPIRE db' now k ttl k"
proof -
  show e: "live_entry db now k = live_entry db' now k" using assms by (simp add: live_entry_def)
  show l: "live db now k = live db' now k" using e by (simp add: live_def)
  show z: "zset_of db now k = zset_of db' now k" using l by (simp add: zset_of_def)
  show "rl_prune R k now db k = rl_prune R k now db' k"
    using assms e z by (simp add: rl_prune_def cmd_ZREMRANGE_def put_zset_def split: option.splits)
  show "rl_record R k now r db k = rl_record R k now r db' k"
    using assms e z by (simp add: rl_record_def cmd_ZADD_def put_zset_def split: option.splits)
  show "cmd_EXPIRE db now k ttl k = cmd_EXPIRE db' now k ttl k"
    using assms l by (simp add: cmd_EXPIRE_def split: option.splits)
qed

lemma rl_allow_local:
  assumes "db k = db' k"
  shows "fst (rl_allow R x y db now k l) = fst (rl_allow R x y db' now k l)"
    and "snd (rl_allow R x y db now k l) k = snd (rl_allow R x y db' now k l) k"
proof -
  let ?p = "rl_prune R k now"
  note p = entry_local(4) [of db k db', OF assms, of R now]
  note z = entry_local(3) [of "?p db" k "?p db'", OF p, of now]
  note a = entry_local(5) [of "?p db" k "?p db'", OF p, of R now]
  have x: "cmd_EXPIRE (rl_record R k now r (?p db)) now k ttl k = cmd_EXPIRE (rl_record R k now r (?p db')) now k ttl k" for r ttl
    by (rule entry_local(6)) (rule a)
  show "fst (rl_allow R x y db now k l) = fst (rl_allow R x y db' now k l)"
    using z by (simp add: rl_allow_def Let_def split: option.splits)
  show "snd (rl_allow R x y db now k l) k = snd (rl_allow R x y db' now k l) k"
    using assms p a x z by (auto simp: rl_allow_def Let_def split: option.splits)
qed

text \<open>An attempt is recorded while the key holds its member and outlives its window.\<close>

definition recorded :: "duration \<Rightarrow> (rvalue \<times> time option) option \<Rightarrow> time \<Rightarrow> 32 word \<Rightarrow> bool" where
  "recorded win entry t r \<longleftrightarrow> (\<exists>z x. entry = Some (RZset z, x) \<and> (rl_member t r, UnixMilli t) \<in> set z \<and>
     (case x of None \<Rightarrow> True | Some d \<Rightarrow> t + win < d))"

lemma recorded_zset:
  assumes "recorded win (db k) t r" "now - win \<le> t"
  obtains z x where "live_entry db now k = Some (RZset z, x)" "zset_of db now k = Some z" "(rl_member t r, UnixMilli t) \<in> set z"
    "case x of None \<Rightarrow> True | Some d \<Rightarrow> t + win < d" "db k = Some (RZset z, x)"
proof -
  obtain z x where z: "db k = Some (RZset z, x)" "(rl_member t r, UnixMilli t) \<in> set z" "case x of None \<Rightarrow> True | Some d \<Rightarrow> t + win < d"
    using assms(1) by (auto simp: recorded_def)
  then have "live_entry db now k = Some (RZset z, x)" using assms(2) by (auto simp: live_entry_def split: option.splits)
  then show thesis using that z by (simp add: zset_of_def live_def)
qed

lemma recorded_prune:
  assumes "recorded (rlWindow R) (db k) t r" "now - rlWindow R \<le> t"
  shows "recorded (rlWindow R) (rl_prune R k now db k) t r"
  using assms
proof (rule recorded_zset)
  fix z :: "(string \<times> int) list" and x
  let ?f = "filter (\<lambda>(m, s). \<not> (0 \<le> s \<and> s < UnixMilli (now - rlWindow R))) z"
  assume a: "live_entry db now k = Some (RZset z, x)" "zset_of db now k = Some z" "(rl_member t r, UnixMilli t) \<in> set z"
    "case x of None \<Rightarrow> True | Some d \<Rightarrow> t + rlWindow R < d"
  have m: "(rl_member t r, UnixMilli t) \<in> set ?f" using a(3) UnixMilli_mono [OF assms(2)] by simp
  have ne: "xs \<noteq> []" if "p \<in> set xs" for p :: "string \<times> int" and xs using that by auto
  have "?f \<noteq> []" using ne [OF m] .
  then show ?thesis using a m unfolding rl_prune_def cmd_ZREMRANGE_def put_zset_def recorded_def by (simp del: filter_empty_conv)
qed

lemma recorded_record:
  assumes "recorded (rlWindow R) (db k) t r" "now - rlWindow R \<le> t"
  shows "recorded (rlWindow R) (rl_record R k now q db k) t r"
  using assms
proof (rule recorded_zset)
  fix z :: "(string \<times> int) list" and x
  assume a: "live_entry db now k = Some (RZset z, x)" "zset_of db now k = Some z" "(rl_member t r, UnixMilli t) \<in> set z"
    "case x of None \<Rightarrow> True | Some d \<Rightarrow> t + rlWindow R < d"
  then show ?thesis
    by (auto simp: rl_record_def cmd_ZADD_def put_zset_def recorded_def rl_member_inject)
qed

lemma recorded_self:
  assumes "zset_of db now k \<noteq> None"
  shows "\<exists>z x. rl_record R k now q db k = Some (RZset z, x) \<and> (rl_member now q, UnixMilli now) \<in> set z \<and> live (rl_record R k now q db) now k \<noteq> None"
  using assms by (auto simp: rl_record_def cmd_ZADD_def put_zset_def live_def live_entry_def split: option.splits if_splits prod.splits)

lemma whole_second_gt: "0 < d \<Longrightarrow> d - second < whole second d"
  unfolding whole_def using pos_mod_bound [of second d] div_mult_mod_eq [of d second] by (auto simp: not_less)

lemma recorded_expire:
  assumes "db k = Some (RZset z, x)" "(rl_member t r, UnixMilli t) \<in> set z" "live db now k \<noteq> None" "t \<le> now" "0 < rlWindow R"
  shows "recorded (rlWindow R) (cmd_EXPIRE db now k (rlWindow R + minute) k) t r"
proof -
  have "live db now k = Some (RZset z)" using assms(1,3) by (auto simp: live_def live_entry_def split: option.splits if_splits)
  then show ?thesis using assms whole_second_gt [of "rlWindow R + minute"] by (simp add: cmd_EXPIRE_def recorded_def)
qed

lemma recorded_live: "recorded win (db k) t r \<Longrightarrow> now - win \<le> t \<Longrightarrow> \<exists>z x. db k = Some (RZset z, x) \<and> (rl_member t r, UnixMilli t) \<in> set z \<and> live db now k \<noteq> None"
  by (erule (1) recorded_zset) (auto simp: live_def)

text \<open>What a pipeline preserves, and what an admitted one adds.\<close>

lemma recorded_allow:
  assumes "recorded (rlWindow R) (db k) t r" "now - rlWindow R \<le> t" "t \<le> now" "0 < rlWindow R"
  shows "recorded (rlWindow R) (snd (rl_allow R x y db now k l) k) t r"
proof -
  note 1 = recorded_prune [of R db k t r now, OF assms(1,2)]
  have 2: "recorded (rlWindow R) (rl_record R k now q (rl_prune R k now db) k) t r" for q
    using 1 assms(2) by (rule recorded_record)
  have 3: "recorded (rlWindow R) (cmd_EXPIRE (rl_record R k now q (rl_prune R k now db)) now k (rlWindow R + minute) k) t r" for q
    using recorded_live [of "rlWindow R" "rl_record R k now q (rl_prune R k now db)" k t r now, OF 2 assms(2)] recorded_expire [OF _ _ _ assms(3,4)] by blast
  show ?thesis using assms(1) 1 2 3 by (auto simp: rl_allow_def Let_def split: option.splits)
qed

lemma allowed_records:
  assumes "fst (rl_allow R (Some q) y db now k l) = Inr True" "0 < rlWindow R"
  shows "recorded (rlWindow R) (snd (rl_allow R (Some q) y db now k l) k) now q"
    and "\<exists>z. zset_of (rl_prune R k now db) now k = Some z \<and> int (length z) < l"
proof -
  have y: "y = None" using assms(1) by (auto simp: rl_allow_def Let_def split: option.splits)
  show z: "\<exists>z. zset_of (rl_prune R k now db) now k = Some z \<and> int (length z) < l"
    using assms(1) by (auto simp: rl_allow_def Let_def y split: option.splits)
  then obtain v x where "rl_record R k now q (rl_prune R k now db) k = Some (RZset v, x)" "(rl_member now q, UnixMilli now) \<in> set v"
    "live (rl_record R k now q (rl_prune R k now db)) now k \<noteq> None"
    using recorded_self [of "rl_prune R k now db" now k R q] by auto
  from recorded_expire [OF this order_refl assms(2)]
  show "recorded (rlWindow R) (snd (rl_allow R (Some q) y db now k l) k) now q"
    using z by (auto simp: rl_allow_def Let_def y split: option.splits)
qed

text \<open>An admitted attempt finds fewer recorded attempts in its window than the limit.\<close>

lemma allowed_count:
  assumes "fst (rl_allow R (Some q) y db now k l) = Inr True" "0 < rlWindow R" "distinct G"
    and "\<And>t r. (t, r) \<in> set G \<Longrightarrow> recorded (rlWindow R) (db k) t r \<and> now - rlWindow R \<le> t"
  shows "int (length G) < l"
proof -
  obtain z where z: "zset_of (rl_prune R k now db) now k = Some z" "int (length z) < l" using allowed_records(2) [OF assms(1,2)] by blast
  let ?m = "\<lambda>(t, r). (rl_member t r, UnixMilli t)"
  have "?m g \<in> set z" if "g \<in> set G" for g
  proof -
    obtain t r where g: "g = (t, r)" by (cases g)
    note a = assms(4) [OF that [unfolded g]]
    have "recorded (rlWindow R) (rl_prune R k now db k) t r" using a by (intro recorded_prune) simp_all
    then obtain v x where "zset_of (rl_prune R k now db) now k = Some v" "(rl_member t r, UnixMilli t) \<in> set v"
      using a by (elim recorded_zset [of _ "rl_prune R k now db" k]) auto
    then show ?thesis using z(1) g by simp
  qed
  then have "?m ` set G \<subseteq> set z" by (rule image_subsetI)
  then have "card (?m ` set G) \<le> card (set z)" by (intro card_mono) simp_all
  moreover have "inj_on ?m (set G)" by (auto simp: inj_on_def rl_member_inject)
  ultimately have "card (set G) \<le> card (set z)" by (simp add: card_image)
  then have "length G \<le> length z" using distinct_card [OF assms(3)] card_length [of z] by linarith
  with z(2) show ?thesis by linarith
qed

section \<open>The limiter's key in a history\<close>

text \<open>What one call may do to the key: nothing, or one run of the pipeline.\<close>

definition limited :: "auth_cfg \<Rightarrow> auth_env \<Rightarrow> string \<Rightarrow> redis \<Rightarrow> redis \<Rightarrow> bool" where
  "limited A e k db db' \<longleftrightarrow> db' k = db k \<or>
     (\<exists>x y. db' k = snd (rl_allow (acRate A) x y db (avNow e) k (rlPerUser (acRate A))) k)"

lemma account_other:
  assumes "hash_codec C" "j \<noteq> i" "AllowAccount C R x y db t j = (a, r)"
  shows "r (account_key C i) = db (account_key C i)"
proof -
  have "account_key C i \<noteq> ''auth:rl:user:'' @ uuid_String C j"
    using hash_codec.uuid_String_inject [OF assms(1)] assms(2) by (simp add: account_key_def)
  with assms(3) show ?thesis unfolding AllowAccount_def using onlyD [OF only_rl_allow] by (metis snd_conv)
qed

lemma account_self:
  assumes "AllowAccount C R x y db t i = (a, r)" "db (account_key C i) = db' (account_key C i)"
  shows "fst (rl_allow R x y db' t (account_key C i) (rlPerUser R)) = a"
    "snd (rl_allow R x y db' t (account_key C i) (rlPerUser R)) (account_key C i) = r (account_key C i)"
  using rl_allow_local [of db "account_key C i" db' R x y t "rlPerUser R", OF assms(2)] assms(1)
  by (simp_all add: AllowAccount_def account_key_def)

lemma preflight_limited:
  assumes "hash_codec (alCodec L)" "loginPreflight L A e w inp = (r, w')"
  shows "limited A e (account_key (alCodec L) i) (awRedis w) (awRedis w')"
proof -
  let ?k = "account_key (alCodec L) i"
  have one: "limited A e ?k (awRedis w) r'"
    if "AllowAccount (alCodec L) (acRate A) x y d (avNow e) j = (a, r')" "d ?k = awRedis w ?k" for x y d j a r'
  proof (cases "j = i")
    case True
    then show ?thesis using account_self [of "alCodec L" "acRate A" x y d "avNow e" i a r' "awRedis w"] that
      unfolding limited_def by metis
  next
    case False
    then show ?thesis using account_other [OF assms(1) _ that(1), of i] that(2) by (simp add: limited_def)
  qed
  show ?thesis using assms(2)
    by (auto simp: loginPreflight_def failLoginInvalidCreds_def Let_def
        split: option.splits sum.splits if_splits prod.splits bool.splits
        dest!: private_kept(1) [OF private_account [of "alCodec L" i]] dest: one) (simp_all add: limited_def)
qed

lemma preflight_admits:
  assumes "loginPreflight L A e w inp = (Inr (u, t), w')"
  defines "k \<equiv> account_key (alCodec L) (usID u)"
  defines "run \<equiv> \<lambda>q. rl_allow (acRate A) (Some q) None (awRedis w) (avNow e) k (rlPerUser (acRate A))"
  shows "\<exists>q. avRand32 e RandAccount = Some q \<and> fst (run q) = Inr True \<and> awRedis w' k = snd (run q) k"
proof -
  obtain b d r where d: "AllowIP (acRate A) (avRand32 e RandIP) (avLost e RandIP) (awRedis w) (avNow e) (liIP inp) = (b, d)"
    "AllowAccount (alCodec L) (acRate A) (avRand32 e RandAccount) (avLost e RandAccount) d (avNow e) (usID u) = (Inr True, r)" "awRedis w' = r"
    using assms(1) by (auto simp: loginPreflight_def failLoginInvalidCreds_def Let_def
        split: option.splits sum.splits if_splits prod.splits bool.splits)
  then obtain q where q: "avRand32 e RandAccount = Some q" "avLost e RandAccount = None"
    by (auto simp: AllowAccount_def rl_allow_def Let_def split: option.splits)
  then show ?thesis using account_self [OF d(2), of "awRedis w"] private_kept(1) [OF private_account d(1), of "alCodec L" "usID u"] d(3)
    by (simp add: run_def k_def)
qed

text \<open>A guess at a user's password: a login that reaches the comparison with the stored hash.\<close>

definition guess :: "'tok auth_lib \<Rightarrow> auth_cfg \<Rightarrow> uuid \<Rightarrow> 'tok auth_event \<Rightarrow> bool" where
  "guess L A i ev =
     (case ev of
        (e, w, OpLogin inp, rp) \<Rightarrow> (case fst (loginPreflight L A e w inp) of Inl _ \<Rightarrow> False | Inr (u, t) \<Rightarrow> usID u = i)
      | _ \<Rightarrow> False)"

lemma step_limited:
  assumes "hash_codec (alCodec L)" "auth_do L A e w op = (rp, w')"
  shows "limited A e (account_key (alCodec L) i) (awRedis w) (awRedis w')"
proof (cases op)
  case (OpLogin inp)
  obtain x w1 where p: "loginPreflight L A e w inp = (x, w1)" by (cases "loginPreflight L A e w inp")
  have "\<exists>r. Login L A e w inp = (r, w')" using assms(2) OpLogin by (auto simp: map_prod_def split: prod.splits)
  then have "awRedis w' (account_key (alCodec L) i) = awRedis w1 (account_key (alCodec L) i)" using Login_kept [OF private_account _ p account_not_lockout(1)] by blast
  then show ?thesis using preflight_limited [OF assms(1) p, of i] unfolding limited_def by simp
next
  case (OpLoginTOTP tok code ip)
  then obtain r where "LoginTOTP L A e w tok code ip = (r, w')" using assms(2) by (auto simp: map_prod_def split: prod.splits)
  from LoginTOTP_kept [OF private_account this account_not_lockout(1)] show ?thesis by (simp add: limited_def)
qed (use other_kept [OF private_account assms(2)] in \<open>simp_all add: limited_def\<close>)

lemma guess_admitted:
  assumes "guess L A i (e, w, op, rp)" "auth_do L A e w op = (rp', w')"
  defines "k \<equiv> account_key (alCodec L) i"
  defines "run \<equiv> \<lambda>q. rl_allow (acRate A) (Some q) None (awRedis w) (avNow e) k (rlPerUser (acRate A))"
  shows "\<exists>q. avRand32 e RandAccount = Some q \<and> fst (run q) = Inr True \<and> awRedis w' k = snd (run q) k"
proof -
  obtain inp u t w1 where p: "op = OpLogin inp" "loginPreflight L A e w inp = (Inr (u, t), w1)" "usID u = i"
    using assms(1) by (cases op) (auto simp: guess_def split: sum.splits, metis prod.collapse)
  have "\<exists>r. Login L A e w inp = (r, w')" using assms(2) p(1) by (auto simp: map_prod_def split: prod.splits)
  then show ?thesis using preflight_admits [OF p(2)] Login_kept [OF private_account _ p(2) account_not_lockout(1), of _ w' "alCodec L" i] p(3) by (auto simp: k_def run_def)
qed

lemma hist_recorded:
  assumes "auth_hist L A h w toks used t" "wired L A" "0 < rlWindow (acRate A)" "ev \<in> set h" "guess L A i ev" "t - rlWindow (acRate A) \<le> avNow (fst ev)"
  shows "recorded (rlWindow (acRate A)) (awRedis w (account_key (alCodec L) i)) (avNow (fst ev)) (the (avRand32 (fst ev) RandAccount))"
  using assms(1,4,6)
proof (induction rule: auth_hist.induct)
  case (Step h w toks used t e op rp w')
  let ?k = "account_key (alCodec L) i" and ?R = "acRate A"
  show ?case
  proof (cases "ev \<in> set h")
    case True
    obtain f v o' r where ev: "ev = (f, v, o', r)" by (cases ev)
    have le: "avNow f \<le> avNow e" using hist_times [OF Step.hyps(1) True [unfolded ev]] Step.hyps(2) by simp
    have "recorded (rlWindow ?R) (awRedis w ?k) (avNow f) (the (avRand32 f RandAccount))"
      using Step.IH [OF True] Step.hyps(2) Step.prems(2) ev by simp
    moreover from this have "recorded (rlWindow ?R) (snd (rl_allow ?R x y (awRedis w) (avNow e) ?k (rlPerUser ?R)) ?k) (avNow f) (the (avRand32 f RandAccount))" for x y
      using recorded_allow Step.prems(2) le assms(3) ev by simp
    moreover have "limited A e ?k (awRedis w) (awRedis w')" using assms(2) by (intro step_limited [OF _ Step.hyps(5)]) (simp add: wired_def)
    ultimately show ?thesis using ev by (auto simp: limited_def)
  next
    case False
    with Step.prems have ev: "ev = (e, w, op, rp)" by simp
    obtain q where q: "avRand32 e RandAccount = Some q" and run: "fst (rl_allow ?R (Some q) None (awRedis w) (avNow e) ?k (rlPerUser ?R)) = Inr True"
        "awRedis w' ?k = snd (rl_allow ?R (Some q) None (awRedis w) (avNow e) ?k (rlPerUser ?R)) ?k"
      using guess_admitted [OF assms(5) [unfolded ev] Step.hyps(5)] by blast
    show ?thesis using allowed_records(1) [OF run(1) assms(3)] run(2) q ev by simp
  qed
qed simp

text \<open>
  C27: password guessing is bounded. In every history of the module, whatever else happens in it and
  whatever faults occur, the logins that get as far as comparing a password with the hash of one
  user number at most the account limit in any period as long as the window, provided that each
  limiter pipeline runs without another one in between and that no two of them draw the same
  random suffix in the same nanosecond.
\<close>

theorem password_guesses_bounded:
  assumes "wired L A" "auth_hist L A h w toks used t" "acRate A = NewRateLimiterRedis perIP perUser window"
    and "distinct (map (\<lambda>ev. (avNow (fst ev), the (avRand32 (fst ev) RandAccount))) (filter (guess L A i) h))"
  shows "int (length (filter (\<lambda>ev. guess L A i ev \<and> a \<le> avNow (fst ev) \<and> avNow (fst ev) \<le> a + rlWindow (acRate A)) h)) \<le> rlPerUser (acRate A)"
  using assms(2,4)
proof (induction rule: auth_hist.induct)
  case (Start w t)
  show ?case by (simp add: assms(3) NewRateLimiterRedis_def)
next
  case (Step h w toks used t e op rp w')
  let ?ok = "\<lambda>ev. guess L A i ev \<and> a \<le> avNow (fst ev) \<and> avNow (fst ev) \<le> a + rlWindow (acRate A)"
  let ?key = "\<lambda>ev :: 'a auth_event. (avNow (fst ev), the (avRand32 (fst ev) RandAccount))" and ?k = "account_key (alCodec L) i"
  have W: "0 < rlWindow (acRate A)" by (simp add: assms(3) NewRateLimiterRedis_def)
  show ?case
  proof (cases "?ok (e, w, op, rp)")
    case True
    then obtain q where run: "fst (rl_allow (acRate A) (Some q) None (awRedis w) (avNow e) ?k (rlPerUser (acRate A))) = Inr True"
      using guess_admitted [OF _ Step.hyps(5)] by blast
    have "filter ?ok h = filter (\<lambda>ev. a \<le> avNow (fst ev) \<and> avNow (fst ev) \<le> a + rlWindow (acRate A)) (filter (guess L A i) h)" by (simp add: conj_commute)
    moreover have "distinct (map ?key (filter (guess L A i) h))" using Step.prems by simp
    ultimately have dist: "distinct (map ?key (filter ?ok h))" by (simp only: distinct_map_filter)
    have "recorded (rlWindow (acRate A)) (awRedis w ?k) s r \<and> avNow e - rlWindow (acRate A) \<le> s" if sr: "(s, r) \<in> set (map ?key (filter ?ok h))" for s r
    proof -
      obtain ev where ev: "ev \<in> set h" "?ok ev" "s = avNow (fst ev)" "r = the (avRand32 (fst ev) RandAccount)" using sr by auto
      have "avNow e - rlWindow (acRate A) \<le> s" using True ev(2,3) by simp
      then show ?thesis using hist_recorded [OF Step.hyps(1) assms(1) W ev(1), of i] ev(2-4) Step.hyps(2) by simp
    qed
    from allowed_count [OF run W dist this] show ?thesis using True by simp
  next
    case False
    then show ?thesis using Step.IH Step.prems by auto
  qed
qed

lemma sample_preflight:
  assumes "liOrgID inp = liOrgID sample_login" "liLogin inp = liLogin sample_login" "acRate A = acRate sample_auth"
  shows "\<exists>r1 r2. loginPreflight sample_lib A (sample_env t n) (sample_world False) inp =
    (Inr (sample_user False, 3), (sample_world False)\<lparr>awRedis := [''auth:rl:ip:'' @ liIP inp \<mapsto> r1, account_key canonical_codec 7 \<mapsto> r2]\<rparr>)"
proof -
  let ?k = "''auth:rl:ip:'' @ liIP inp"
  have e: "awRedis (sample_world False) = Map.empty" "avRand32 (sample_env t n) s = Some (of_nat n)" "avLost (sample_env t n) s = None" for s
    by (simp_all add: sample_world_def sample_env_def)
  obtain r1 where 1: "AllowIP (acRate sample_auth) (Some (of_nat n)) None (awRedis (sample_world False)) t (liIP inp) = (Inr True, [?k \<mapsto> r1])"
    using rl_allow_fresh [of Map.empty ?k] e(1) by (simp add: AllowIP_def sample_defs)
  obtain r2 where 2: "AllowAccount canonical_codec (acRate sample_auth) (Some (of_nat n)) None [?k \<mapsto> r1] t 7 = (Inr True, [?k \<mapsto> r1, account_key canonical_codec 7 \<mapsto> r2])"
    using rl_allow_fresh [of "[?k \<mapsto> r1]" "''auth:rl:user:'' @ uuid_String canonical_codec 7"]
    by (simp add: AllowAccount_def account_key_def sample_auth_def NewRateLimiterRedis_def)
  have u: "usID (sample_user False) = 7" "usArchivedAt (sample_user False) = None" by (simp_all add: sample_user_def)
  have "loginPreflight sample_lib A (sample_env t n) (sample_world False) inp =
      (Inr (sample_user False, 3), (sample_world False)\<lparr>awRedis := [?k \<mapsto> r1, account_key canonical_codec 7 \<mapsto> r2]\<rparr>)"
    using 1 2 sample_user_found(1,2) [of False] e(2,3) u assms
    by (simp add: loginPreflight_def IsLocked_def get_int_def live_def live_entry_def lockoutUntilKey_def Let_def)
  then show ?thesis by blast
qed

lemma sample_guess:
  "guess sample_lib sample_auth 7 (sample_env second 0, sample_world False, OpLogin sample_login, rp)"
  using sample_preflight [of sample_login sample_auth second 0] by (auto simp: guess_def sample_user_def)

theorem password_guesses_bounded_witness:
  "\<exists>h w toks used. auth_hist sample_lib sample_auth h w toks used second \<and> length (filter (guess sample_lib sample_auth 7) h) = 1 \<and>
     int (length (filter (\<lambda>ev. guess sample_lib sample_auth 7 ev \<and> 0 \<le> avNow (fst ev) \<and> avNow (fst ev) \<le> 0 + rlWindow (acRate sample_auth)) h)) \<le> 10"
proof -
  obtain res w where l: "Login sample_lib sample_auth (sample_env second 0) (sample_world False) sample_login = (Inr res, w)"
    using sample_first_login by blast
  let ?h = "[] @ [(sample_env second 0, sample_world False, OpLogin sample_login, ReplyAuth (Inr res))]"
  have s: "auth_hist sample_lib sample_auth [] (sample_world False) {} {} 0" by (rule auth_hist.Start) (simp add: sample_world_def)
  have h: "auth_hist sample_lib sample_auth ?h w ({} \<union> reply_tokens (ReplyAuth (Inr res))) ({} \<union> minted (sample_env second 0)) (avNow (sample_env second 0))"
    by (rule auth_hist.Step [OF s]) (simp_all add: l)
  have f: "length (filter (guess sample_lib sample_auth 7) ?h) = 1"
    "distinct (map (\<lambda>ev. (avNow (fst ev), the (avRand32 (fst ev) RandAccount))) (filter (guess sample_lib sample_auth 7) ?h))"
    using sample_guess by simp_all
  have r: "acRate sample_auth = NewRateLimiterRedis 0 0 0" "rlPerUser (acRate sample_auth) = 10" by (simp_all add: sample_auth_def NewRateLimiterRedis_def)
  from password_guesses_bounded [OF sample_wired h r(1) f(2), of 0] h f(1) show ?thesis unfolding r(2) by fastforce
qed

end
