(* ===== verification/Auth_Lockout.thy ===== *)
theory Auth_Lockout
  imports Auth_Guesses
begin

text \<open>
  The lockout: a streak of wrong passwords against one user, interleaved with any calls that do not
  concern that user's counter, and what a login of that user gets during the streak.
\<close>

section \<open>The counter\<close>

lemma lockout_keys_differ [simp]: "lockoutFailsKey C i \<noteq> lockoutUntilKey C j" "lockoutUntilKey C j \<noteq> lockoutFailsKey C i"
  by (simp_all add: lockoutFailsKey_def lockoutUntilKey_def)

text \<open>What one registered failure leaves in the two keys when no command is lost.\<close>

definition counted :: "codec \<Rightarrow> LockoutRedis \<Rightarrow> uuid \<Rightarrow> time \<Rightarrow> int \<Rightarrow> time \<Rightarrow> redis \<Rightarrow> redis \<Rightarrow> bool" where
  "counted C K i deadline n now db db' \<longleftrightarrow>
     db' (lockoutFailsKey C i) = Some (RString (FormatInt n), Some deadline) \<and>
     db' (lockoutUntilKey C i) =
       (if n < lkThreshold K then db (lockoutUntilKey C i)
        else Some (RString (FormatInt (UnixSec (now + lkDuration K))), Some (now + whole millisecond (lkDuration K))))"

lemma RegisterFailure_first:
  assumes "live (db :: redis) now (lockoutFailsKey C i) = None" "0 < lkDuration K"
  shows "counted C K i (now + whole second (lkDuration K * 2)) 1 now db (snd (RegisterFailure C K (CallOk, CallOk, CallOk) db now i))"
proof -
  have "live_entry db now (lockoutFailsKey C i) = None" using assms(1) by (simp add: live_def)
  moreover have "FormatInt 1 = ''1''" by code_simp
  ultimately show ?thesis using assms(2)
    by (simp add: counted_def RegisterFailure_def Let_def remote_def cmd_INCR_def cmd_EXPIRE_def cmd_SET_def live_def live_entry_def)
qed

lemma RegisterFailure_next:
  assumes "db (lockoutFailsKey C i) = Some (RString (FormatInt n), Some x)" "now < x" "1 \<le> n" "n < int64_max" "0 < lkDuration K"
  shows "counted C K i x (n + 1) now db (snd (RegisterFailure C K (CallOk, CallOk, CallOk) db now i))"
proof -
  have "ParseInt64 (FormatInt n) = Some n" using assms(3,4) by (intro ParseInt64_FormatInt) (simp add: in_int64_def)
  then show ?thesis using assms
    by (simp add: counted_def RegisterFailure_def Let_def remote_def cmd_INCR_def cmd_SET_def live_entry_def)
qed

lemma unlocked_later:
  assumes "IsLocked C CallOk db now i = Inr False" "now \<le> now'"
  shows "IsLocked C CallOk db now' i = Inr False"
  using assms UnixSec_mono [OF assms(2)]
  by (auto simp: IsLocked_def get_int_def live_def live_entry_def split: option.splits rvalue.splits if_splits prod.splits)

lemma IsLocked_local: "db' (lockoutUntilKey C i) = db (lockoutUntilKey C i) \<Longrightarrow> IsLocked C net db' now i = IsLocked C net db now i"
  by (simp add: IsLocked_def get_int_def live_def live_entry_def)

section \<open>Streaks\<close>

text \<open>A wrong password: the login passes its checks and the hash does not match.\<close>

definition wrong_guess :: "'tok auth_lib \<Rightarrow> auth_cfg \<Rightarrow> uuid \<Rightarrow> auth_env \<Rightarrow> auth_world \<Rightarrow> LoginInput \<Rightarrow> bool" where
  "wrong_guess L A i e w inp \<longleftrightarrow>
     (\<exists>u t w1 hash. loginPreflight L A e w inp = (Inr (u, t), w1) \<and> usID u = i \<and> GetPasswordHash (Some t) (awDb w) i = Inr hash \<and>
        alVerify L hash (liPassword inp) = Some False)"

text \<open>The calls that may write the counter of user \<open>i\<close>.\<close>

fun concerns :: "'tok auth_lib \<Rightarrow> auth_cfg \<Rightarrow> uuid \<Rightarrow> auth_env \<Rightarrow> auth_world \<Rightarrow> 'tok auth_op \<Rightarrow> bool" where
  "concerns L A i e w (OpLogin inp) \<longleftrightarrow> (case fst (loginPreflight L A e w inp) of Inl _ \<Rightarrow> False | Inr (u, t) \<Rightarrow> usID u = i)"
| "concerns L A i e w (OpLoginTOTP tok code ip) \<longleftrightarrow>
     (case jwt_Validate (alCodec L) (alJwt L) (acIssuer A) (avNow e) tok ''access'' of Inl _ \<Rightarrow> False | Inr c \<Rightarrow> clUserID c = i)"
| "concerns L A i e w _ \<longleftrightarrow> False"

text \<open>
  \<open>streak L A i t0 n t1 t w\<close>: \<open>n\<close> wrong passwords in a row against \<open>i\<close>, the first at \<open>t0\<close> when no
  counter was live, the last at \<open>t1\<close>, each while the counter of the first lasts; \<open>t\<close> is the
  latest instant.
\<close>

inductive streak :: "'tok auth_lib \<Rightarrow> auth_cfg \<Rightarrow> uuid \<Rightarrow> time \<Rightarrow> int \<Rightarrow> time \<Rightarrow> time \<Rightarrow> auth_world \<Rightarrow> bool"
  for L :: "'tok auth_lib" and A :: auth_cfg and i :: uuid where
  First: "live (awRedis w) (avNow e) (lockoutFailsKey (alCodec L) i) = None \<Longrightarrow> no_faults e \<Longrightarrow> wrong_guess L A i e w inp
    \<Longrightarrow> streak L A i (avNow e) 1 (avNow e) (avNow e) (snd (Login L A e w inp))"
| Again: "streak L A i t0 n t1 t w \<Longrightarrow> t \<le> avNow e \<Longrightarrow> avNow e < t0 + whole second (lkDuration (acLockout A) * 2)
    \<Longrightarrow> no_faults e \<Longrightarrow> wrong_guess L A i e w inp
    \<Longrightarrow> streak L A i t0 (n + 1) (avNow e) (avNow e) (snd (Login L A e w inp))"
| Other: "streak L A i t0 n t1 t w \<Longrightarrow> t \<le> avNow e \<Longrightarrow> \<not> concerns L A i e w op \<Longrightarrow> auth_do L A e w op = (rp, w')
    \<Longrightarrow> streak L A i t0 n t1 (avNow e) w'"

lemma lockout_key_other:
  assumes "hash_codec C" "j \<noteq> i" "lockout_key C i k"
  shows "\<not> lockout_key C j k"
  using assms hash_codec.uuid_String_inject [OF assms(1)] by (auto simp: lockout_key_def lockoutFailsKey_def lockoutUntilKey_def)

lemma private_lockout_key: "lockout_key C i k \<Longrightarrow> private_key k"
  by (auto simp: lockout_key_def)

lemma preflight_lockout_kept:
  assumes "lockout_key (alCodec L) i k" "loginPreflight L A e w inp = (r, w')"
  shows "awRedis w' k = awRedis w k"
proof -
  have "k \<noteq> account_key (alCodec L) j" for j using assms(1) account_not_lockout(1) by blast
  then have kept: "r' k = d k" if "AllowAccount (alCodec L) R x y d t j = (a, r')" for R x y d t j a r' using AllowAccount_kept that by blast
  show ?thesis using assms(2) by (auto simp: loginPreflight_def failLoginInvalidCreds_def Let_def
        split: option.splits sum.splits if_splits prod.splits bool.splits
        dest!: private_kept(1) [OF private_lockout_key [OF assms(1)]] kept)
qed

lemma unconcerned_kept:
  assumes "hash_codec (alCodec L)" "\<not> concerns L A i e w op" "auth_do L A e w op = (rp, w')" "lockout_key (alCodec L) i k"
  shows "awRedis w' k = awRedis w k"
proof (cases op)
  case (OpLogin inp)
  obtain x w1 where p: "loginPreflight L A e w inp = (x, w1)" by (cases "loginPreflight L A e w inp")
  obtain r where l: "Login L A e w inp = (r, w')" using assms(3) OpLogin by (auto simp: map_prod_def split: prod.splits)
  have "\<not> lockout_key (alCodec L) (usID u) k" if "x = Inr (u, t)" for u t
    using lockout_key_other [OF assms(1) _ assms(4), of "usID u"] assms(2) OpLogin p that by auto
  then have "awRedis w' k = awRedis w1 k" by (intro Login_kept [OF private_lockout_key [OF assms(4)] l p])
  with preflight_lockout_kept [OF assms(4) p] show ?thesis by simp
next
  case (OpLoginTOTP tok code ip)
  then obtain r where l: "LoginTOTP L A e w tok code ip = (r, w')" using assms(3) by (auto simp: map_prod_def split: prod.splits)
  show ?thesis by (rule LoginTOTP_kept [OF private_lockout_key [OF assms(4)] l])
      (use lockout_key_other [OF assms(1) _ assms(4)] assms(2) OpLoginTOTP in auto)
qed (use other_kept [OF private_lockout_key [OF assms(4)] assms(3)] in simp_all)

lemma awDb_preflight: "loginPreflight L A e w inp = (r, w') \<Longrightarrow> awDb w' = awDb w"
  by (auto simp: loginPreflight_def failLoginInvalidCreds_def writeAuditAction_def Let_def
      split: option.splits sum.splits if_splits prod.splits bool.splits)

lemma preflight_unlocked:
  assumes "loginPreflight L A e w inp = (Inr (u, t), w')"
  shows "\<exists>d. IsLocked (alCodec L) (avNet e SiteLocked) d (avNow e) (usID u) = Inr False \<and>
    d (lockoutUntilKey (alCodec L) (usID u)) = awRedis w (lockoutUntilKey (alCodec L) (usID u))"
proof -
  obtain x d where d: "AllowIP (acRate A) (avRand32 e RandIP) (avLost e RandIP) (awRedis w) (avNow e) (liIP inp) = (x, d)"
    "IsLocked (alCodec L) (avNet e SiteLocked) d (avNow e) (usID u) = Inr False"
    using assms by (auto simp: loginPreflight_def failLoginInvalidCreds_def Let_def
        split: option.splits sum.splits if_splits prod.splits bool.splits)
  then show ?thesis using private_kept(1) [OF private_lockout(2) d(1)] by blast
qed

text \<open>A wrong password changes the two keys as one registered failure does.\<close>

lemma wrong_guess_counts:
  assumes "wrong_guess L A i e w inp" "no_faults e"
  obtains db where "db (lockoutFailsKey (alCodec L) i) = awRedis w (lockoutFailsKey (alCodec L) i)"
    "db (lockoutUntilKey (alCodec L) i) = awRedis w (lockoutUntilKey (alCodec L) i)"
    "awRedis (snd (Login L A e w inp)) = snd (RegisterFailure (alCodec L) (acLockout A) (CallOk, CallOk, CallOk) db (avNow e) i)"
    "IsLocked (alCodec L) CallOk db (avNow e) i = Inr False"
proof -
  let ?C = "alCodec L"
  obtain u t w1 hash where g: "loginPreflight L A e w inp = (Inr (u, t), w1)" "usID u = i" "GetPasswordHash (Some t) (awDb w) i = Inr hash"
      "alVerify L hash (liPassword inp) = Some False"
    using assms(1) by (auto simp: wrong_guess_def)
  have k: "awRedis w1 (lockoutFailsKey ?C i) = awRedis w (lockoutFailsKey ?C i)" "awRedis w1 (lockoutUntilKey ?C i) = awRedis w (lockoutUntilKey ?C i)"
    using preflight_lockout_kept [OF _ g(1), of i] by (simp_all add: lockout_key_def)
  obtain d where d: "IsLocked ?C (avNet e SiteLocked) d (avNow e) i = Inr False" "d (lockoutUntilKey ?C i) = awRedis w (lockoutUntilKey ?C i)"
    using preflight_unlocked [OF g(1)] g(2) by blast
  show thesis
  proof (rule that [OF k])
    show "IsLocked ?C CallOk (awRedis w1) (avNow e) i = Inr False"
      using d k(2) IsLocked_local [of "awRedis w1" ?C i d] no_faultsD(1) [OF assms(2)] by simp
    show "awRedis (snd (Login L A e w inp)) = snd (RegisterFailure ?C (acLockout A) (CallOk, CallOk, CallOk) (awRedis w1) (avNow e) i)"
      using g awDb_preflight [OF g(1)] no_faultsD(1) [OF assms(2)]
      by (simp add: Login_def verifyPassword_def lockout_nets_def Let_def)
  qed
qed

definition in_streak :: "codec \<Rightarrow> LockoutRedis \<Rightarrow> uuid \<Rightarrow> time \<Rightarrow> int \<Rightarrow> time \<Rightarrow> time \<Rightarrow> redis \<Rightarrow> bool" where
  "in_streak C K i t0 n t1 t db \<longleftrightarrow>
     db (lockoutFailsKey C i) = Some (RString (FormatInt n), Some (t0 + whole second (lkDuration K * 2))) \<and>
     (if n < lkThreshold K then IsLocked C CallOk db t i = Inr False
      else db (lockoutUntilKey C i) = Some (RString (FormatInt (UnixSec (t1 + lkDuration K))), Some (t1 + whole millisecond (lkDuration K))))"

lemma counted_in_streak:
  assumes "counted C K i (t0 + whole second (lkDuration K * 2)) n now db db'" "IsLocked C CallOk db now i = Inr False"
  shows "in_streak C K i t0 n now now db'"
  using assms IsLocked_local [of db' C i db CallOk now] by (simp add: counted_def in_streak_def)

lemma streak_pos: "streak L A i t0 n t1 t w \<Longrightarrow> 1 \<le> n"
  by (induction rule: streak.induct) simp_all

lemma streak_keys:
  assumes "streak L A i t0 n t1 t w" "hash_codec (alCodec L)" "0 < lkDuration (acLockout A)" "n \<le> int64_max"
  shows "in_streak (alCodec L) (acLockout A) i t0 n t1 t (awRedis w)"
  using assms(1,4)
proof (induction rule: streak.induct)
  case (First w e inp)
  obtain db where db: "db (lockoutFailsKey (alCodec L) i) = awRedis w (lockoutFailsKey (alCodec L) i)"
    "awRedis (snd (Login L A e w inp)) = snd (RegisterFailure (alCodec L) (acLockout A) (CallOk, CallOk, CallOk) db (avNow e) i)"
    "IsLocked (alCodec L) CallOk db (avNow e) i = Inr False"
    by (rule wrong_guess_counts [OF First.hyps(3,2)])
  have "live db (avNow e) (lockoutFailsKey (alCodec L) i) = None" using First.hyps(1) db(1) live_cong by metis
  from counted_in_streak [OF RegisterFailure_first [OF this assms(3)] db(3)] show ?case using db(2) by simp
next
  case (Again t0 n t1 t w e inp)
  obtain db where db: "db (lockoutFailsKey (alCodec L) i) = awRedis w (lockoutFailsKey (alCodec L) i)"
    "awRedis (snd (Login L A e w inp)) = snd (RegisterFailure (alCodec L) (acLockout A) (CallOk, CallOk, CallOk) db (avNow e) i)"
    "IsLocked (alCodec L) CallOk db (avNow e) i = Inr False"
    by (rule wrong_guess_counts [OF Again.hyps(5,4)])
  have "db (lockoutFailsKey (alCodec L) i) = Some (RString (FormatInt n), Some (t0 + whole second (lkDuration (acLockout A) * 2)))"
    using Again.IH Again.prems db(1) by (simp add: in_streak_def)
  from counted_in_streak [OF RegisterFailure_next [where db = db, OF this Again.hyps(3) streak_pos [OF Again.hyps(1)] _ assms(3)] db(3)]
  show ?case using db(2) Again.prems by simp
next
  case (Other t0 n t1 t w e op rp w')
  have "awRedis w' k = awRedis w k" if "lockout_key (alCodec L) i k" for k
    by (rule unconcerned_kept [OF assms(2) Other.hyps(3,4) that])
  then have k: "awRedis w' (lockoutFailsKey (alCodec L) i) = awRedis w (lockoutFailsKey (alCodec L) i)"
    "awRedis w' (lockoutUntilKey (alCodec L) i) = awRedis w (lockoutUntilKey (alCodec L) i)" by (simp_all add: lockout_key_def)
  show ?case using Other.IH Other.prems unlocked_later [OF _ Other.hyps(2)] IsLocked_local [where db = "awRedis w" and db' = "awRedis w'", OF k(2)]
    by (auto simp: in_streak_def k)
qed

section \<open>Locked out\<close>

lemma streak_IsLocked:
  assumes "streak L A i t0 n t1 t w" "hash_codec (alCodec L)" "0 < lkDuration (acLockout A)" "n \<le> int64_max" "t \<le> now"
    and "in_int64 (UnixSec (t1 + lkDuration (acLockout A)))" "now < t1 + whole millisecond (lkDuration (acLockout A))"
    and "UnixSec now < UnixSec (t1 + lkDuration (acLockout A))"
  shows "IsLocked (alCodec L) CallOk (awRedis w) now i = Inr (lkThreshold (acLockout A) \<le> n)"
proof (cases "n < lkThreshold (acLockout A)")
  case True
  then have "IsLocked (alCodec L) CallOk (awRedis w) t i = Inr False" using streak_keys [OF assms(1-4)] by (simp add: in_streak_def)
  from unlocked_later [OF this assms(5)] True show ?thesis by simp
next
  case False
  then show ?thesis using streak_keys [OF assms(1-4)] assms(6-8)
    by (simp add: in_streak_def IsLocked_def get_int_def live_def live_entry_def ParseInt64_FormatInt)
qed

text \<open>No other step of a login answers so.\<close>

lemma other_errors:
  "AllowAccount C R x y db t i = (Inl err, r) \<Longrightarrow> err = ErrStore"
  "jwt_sign C J cfg t r1 r2 c ty ttl = Inl err \<Longrightarrow> err \<noteq> ErrAccountLocked"
  "verifyPassword L A e w tid u inp = (Inl err, w') \<Longrightarrow> err \<noteq> ErrAccountLocked"
  "refresh_Save ttl net db t jti rec = (Inl err, r) \<Longrightarrow> err = ErrStore"
  by (auto simp: AllowAccount_def rl_allow_def jwt_sign_def verifyPassword_def failLoginInvalidCreds_def refresh_Save_def remote_def
      bindE_def randomHex_def Let_def split: option.splits if_splits sum.splits prod.splits call_outcome.splits bool.splits)

lemma issue_errors:
  "issueFullPairWithSession L A e w u sid d = (Inl err, w') \<Longrightarrow> err \<noteq> ErrAccountLocked"
  "issuePartial L A e u = Inl err \<Longrightarrow> err \<noteq> ErrAccountLocked"
  by (auto simp: issueFullPairWithSession_def issuePartial_def randomHex_def IssueAccess_def IssueRefresh_def Let_def
      split: option.splits sum.splits if_splits prod.splits dest: other_errors)

text \<open>
  C28: the lockout engages exactly at its threshold. After a streak of \<open>n\<close> wrong passwords against
  one user, interleaved with any calls that do not concern that user's counter (other users'
  logins, refreshes, logouts, administration), and while the lock period counted from the last of
  them lasts, a login of that user is answered with \<open>ErrAccountLocked\<close> if \<open>n\<close> has reached the
  threshold, whatever password it carries, and is not answered so if it has not.
\<close>

theorem lockout_exactly_at_threshold:
  assumes "wired L A" "acLockout A = NewLockoutRedis threshold dur" "streak L A i t0 n t1 t w" "n \<le> int64_max"
    and "no_faults e" "t \<le> avNow e" "in_int64 (UnixSec (t1 + lkDuration (acLockout A)))"
    and "avNow e < t1 + whole millisecond (lkDuration (acLockout A))" "UnixSec (avNow e) < UnixSec (t1 + lkDuration (acLockout A))"
    and "fst (AllowIP (acRate A) (avRand32 e RandIP) None (awRedis w) (avNow e) (liIP inp)) = Inr True"
    and "awTenants w (liOrgID inp) = Some tid" "GetByLogin L (awDb w) tid (liLogin inp) = Inr u" "usID u = i" "usArchivedAt u = None"
  shows "fst (Login L A e w inp) = Inl ErrAccountLocked \<longleftrightarrow> lkThreshold (acLockout A) \<le> n"
proof -
  let ?C = "alCodec L"
  have C: "hash_codec ?C" and d: "0 < lkDuration (acLockout A)" using assms(1,2) by (simp_all add: wired_def NewLockoutRedis_def)
  obtain r where r: "AllowIP (acRate A) (avRand32 e RandIP) None (awRedis w) (avNow e) (liIP inp) = (Inr True, r)" using assms(10) by (metis prod.collapse)
  have "IsLocked ?C CallOk r (avNow e) i = Inr (lkThreshold (acLockout A) \<le> n)"
    using streak_IsLocked [OF assms(3) C d assms(4,6-9)] IsLocked_local [where db = "awRedis w" and db' = r, OF private_kept(1) [OF private_lockout(2) r]] by metis
  then show ?thesis using r assms(11-14) no_faultsD(1,2) [OF assms(5)]
    by (cases "lkThreshold (acLockout A) \<le> n") (auto simp: Login_def loginPreflight_def issueFullPair_def Let_def split: sum.splits prod.splits if_splits
        dest: other_errors issue_errors)
qed

text \<open>The small deployment with a threshold of one, and a wrong password.\<close>

definition strict_auth :: auth_cfg where
  "strict_auth = sample_auth\<lparr>acLockout := NewLockoutRedis 1 0\<rparr>"

definition wrong_login :: LoginInput where
  "wrong_login = sample_login\<lparr>liPassword := ''guess'', liIP := ''10.0.0.2''\<rparr>"

lemma strict_sel [simp]:
  "acRate strict_auth = acRate sample_auth" "acLockout strict_auth = NewLockoutRedis 1 0" "lkDuration (NewLockoutRedis 1 0) = 15 * minute"
  "lkThreshold (NewLockoutRedis 1 0) = 1"
  by (simp_all add: strict_auth_def NewLockoutRedis_def)

theorem lockout_exactly_at_threshold_witness:
  "\<exists>w. streak sample_lib strict_auth 7 second 1 second second w \<and>
     fst (Login sample_lib strict_auth (sample_env (2 * second) 10) w sample_login) = Inl ErrAccountLocked"
proof -
  let ?e = "sample_env second 0" and ?e' = "sample_env (2 * second) 10" and ?w = "sample_world False"
  obtain r1 r2 where p: "loginPreflight sample_lib strict_auth ?e ?w wrong_login =
      (Inr (sample_user False, 3), ?w\<lparr>awRedis := [''auth:rl:ip:10.0.0.2'' \<mapsto> r1, account_key canonical_codec 7 \<mapsto> r2]\<rparr>)"
    using sample_preflight [of wrong_login strict_auth second 0] by (auto simp: wrong_login_def)
  have "live (awRedis ?w) (avNow ?e) (lockoutFailsKey (alCodec sample_lib) 7) = None" by (simp add: sample_world_def live_def live_entry_def)
  moreover have g: "wrong_guess sample_lib strict_auth 7 ?e ?w wrong_login" unfolding wrong_guess_def using p sample_user_found(3) [of False]
    by (simp add: sample_user_def sample_lib_def wrong_login_def sample_login_def)
  ultimately have s: "streak sample_lib strict_auth 7 second 1 second second (snd (Login sample_lib strict_auth ?e ?w wrong_login))" (is "streak _ _ _ _ _ _ _ ?w'")
    using streak.First [OF _ sample_no_faults, of ?w second 0 sample_lib 7 strict_auth wrong_login] by simp
  have db: "awDb ?w' = awDb ?w" "awTenants ?w' = awTenants ?w" "awRedis ?w' (''auth:rl:ip:'' @ liIP sample_login) = None"
    using p sample_user_found(3) [of False] lockout_kept(1) [of canonical_codec 7 "''auth:rl:ip:'' @ liIP sample_login"] lockout_key_families(5) [of canonical_codec 7 "''ip:'' @ liIP sample_login"]
    by (simp_all add: Login_def verifyPassword_def sample_lib_def wrong_login_def sample_login_def sample_user_def writeAuditAction_def Let_def account_key_def)
  have w: "wired sample_lib strict_auth" using sample_wired by (simp add: wired_def strict_auth_def)
  have "rlPerIP (acRate sample_auth) = 30" "avRand32 ?e' RandIP = Some 10" by (simp_all add: sample_auth_def NewRateLimiterRedis_def sample_env_def)
  then have al: "fst (AllowIP (acRate strict_auth) (avRand32 ?e' RandIP) None (awRedis ?w') (avNow ?e') (liIP sample_login)) = Inr True"
    using rl_allow_fresh [of "awRedis ?w'" "''auth:rl:ip:'' @ liIP sample_login" 30] db(3) by (simp add: AllowIP_def)
  have n: "in_int64 (UnixSec (second + lkDuration (acLockout strict_auth)))" "2 * second < second + whole millisecond (lkDuration (acLockout strict_auth))"
    "UnixSec (2 * second) < UnixSec (second + lkDuration (acLockout strict_auth))" "usID (sample_user False) = 7" "usArchivedAt (sample_user False) = None"
    by (simp_all add: in_int64_def UnixSec_def whole_def sample_user_def)
  have "fst (Login sample_lib strict_auth ?e' ?w' sample_login) = Inl ErrAccountLocked \<longleftrightarrow> lkThreshold (acLockout strict_auth) \<le> 1"
    using al n sample_user_found(1,2) [of False] db(1,2) sample_no_faults
    by (intro lockout_exactly_at_threshold [OF w strict_sel(2) s, where tid = 3 and u = "sample_user False"]) simp_all
  with s show ?thesis by (auto simp del: sample_sel)
qed

end
