(* ===== verification/Auth_Factors.thy ===== *)
theory Auth_Factors
  imports Auth_Lockout
begin

text \<open>
  The second factor and the administration of users: backup codes are spent once, and three
  behaviours of the code that an operator of the system has to know: a password alone yields a
  token that validates, the second step ignores the lockout, and administration leaves tokens
  alone.
\<close>

section \<open>Backup codes\<close>

lemma find_map_update:
  assumes "\<And>x. P (f x) \<longleftrightarrow> P x"
  shows "find P (map (\<lambda>x. if P x then f x else x) xs) = map_option f (find P xs)"
  by (induction xs) (auto simp: assms)

lemma totp_row_update:
  assumes "\<And>t. tsUserID (f t) = tsUserID t" "\<And>t. tsTenantID (f t) = tsTenantID t"
  shows "totp_row scope (update_totp scope i f db) i = map_option f (totp_row scope db i)"
  unfolding totp_row_def update_totp_def using assms by (simp add: find_map_update)

text \<open>A code is spent when its hash is not in the user's row.\<close>

definition spent :: "uuid \<Rightarrow> uuid \<Rightarrow> string \<Rightarrow> auth_db \<Rightarrow> bool" where
  "spent tid i h db \<longleftrightarrow> (\<forall>t. totp_row (Some tid) db i = Some t \<longrightarrow> h \<notin> set (tsBackupCodeHashes t))"

lemma tx_cases: "tx net db f = (x, db') \<Longrightarrow> db' = db \<or> (\<exists>y. f db = (Inr y, db'))"
  by (auto simp: tx_def split: call_outcome.splits prod.splits sum.splits)

lemma tx_Inr: "tx net db f = (Inr x, db') \<Longrightarrow> f db = (Inr x, db')"
  by (auto simp: tx_def split: call_outcome.splits prod.splits sum.splits if_splits)

lemma spent_finish:
  assumes "totp_finish L e w i code s = (r, w')" "spent tid i h (awDb w)" "tsTenantID s = tid"
  shows "spent tid i h (awDb w')"
proof -
  have u: "spent tid i h db'" if "tx net (awDb w) (UpdateLastVerified n (Some tid) i) = (x, db')" for net n x db'
    using tx_cases [OF that] assms(2) by (auto simp: UpdateLastVerified_def spent_def totp_row_update split: option.splits)
  have m: "spent tid i h db'" if "tx net (awDb w) (MarkBackupUsed (Some tid) i g) = (x, db')" for net g x db'
    using tx_cases [OF that] assms(2) by (auto simp: MarkBackupUsed_def spent_def totp_row_update split: option.splits if_splits)
  show ?thesis using assms by (auto simp: totp_finish_def totp_audit_def split: option.splits sum.splits prod.splits if_splits dest: u [folded assms(3)] m [folded assms(3)])
qed

text \<open>In a state of the row, the code is no TOTP code and matches at most one hash.\<close>

definition backup_only :: "'tok auth_lib \<Rightarrow> uuid \<Rightarrow> string \<Rightarrow> string \<Rightarrow> auth_env \<Rightarrow> TOTPState \<Rightarrow> bool" where
  "backup_only L i code h e s \<longleftrightarrow>
     (\<forall>secret. alDecrypt L (tsTenantID s) (uuid_String (alCodec L) i) (tsSecretEncrypted s) = Some secret
        \<longrightarrow> alTotp L code secret (avNow e) \<noteq> Some True) \<and>
     (\<forall>g \<in> set (tsBackupCodeHashes s). alBackupVerify L g code = Some True \<longrightarrow> g = h)"

text \<open>Without a TOTP code, a verification succeeds only by spending the matching code.\<close>

lemma finish_by_code:
  assumes "totp_finish L e w i code s = (Inr True, w')" "tsTenantID s = tid" "backup_only L i code h e s"
  shows "\<not> spent tid i h (awDb w)" "spent tid i h (awDb w')"
proof -
  have match: "g = h" if "backup_match (alBackupVerify L) (tsBackupCodeHashes s) code = Inr (Some g)" for g
  proof -
    have "backup_match vf gs c = Inr (Some g) \<Longrightarrow> g \<in> set gs \<and> vf g c = Some True" for vf :: "string \<Rightarrow> string \<Rightarrow> bool option" and gs c
      by (induction gs) (auto split: option.splits if_splits)
    with that assms(3) show ?thesis unfolding backup_only_def by blast
  qed
  obtain y where m: "tx (avNet e SiteWrite) (awDb w) (MarkBackupUsed (Some tid) i h) = (Inr y, awDb w')"
    using assms by (auto simp: totp_finish_def totp_audit_def backup_only_def split: option.splits sum.splits prod.splits if_splits dest!: match)
  from tx_Inr [OF m] obtain t where t: "totp_row (Some tid) (awDb w) i = Some t" "h \<in> set (tsBackupCodeHashes t)"
    "awDb w' = update_totp (Some tid) i (\<lambda>t. t\<lparr>tsBackupCodeHashes := removeAll h (tsBackupCodeHashes t), tsBackupUsedCount := tsBackupUsedCount t + 1\<rparr>) (awDb w)"
    by (auto simp: MarkBackupUsed_def split: option.splits if_splits)
  then show "\<not> spent tid i h (awDb w)" "spent tid i h (awDb w')" by (auto simp: spent_def totp_row_update)
qed

text \<open>Concurrent verifications: each has read some state of the row before any of them finishes.\<close>

fun finish_all :: "'tok auth_lib \<Rightarrow> auth_world \<Rightarrow> uuid \<Rightarrow> string \<Rightarrow> (auth_env \<times> TOTPState) list \<Rightarrow> (auth_error + bool) list" where
  "finish_all L w i code [] = []"
| "finish_all L w i code ((e, s) # xs) = (case totp_finish L e w i code s of (r, w') \<Rightarrow> r # finish_all L w' i code xs)"

lemma finish_all_spent:
  assumes "spent tid i h (awDb w)"
    and "\<And>e s. (e, s) \<in> set xs \<Longrightarrow> tsTenantID s = tid \<and> backup_only L i code h e s"
  shows "filter (\<lambda>r. r = Inr True) (finish_all L w i code xs) = []"
  using assms
proof (induction xs arbitrary: w)
  case (Cons x xs)
  obtain e s r w' where x: "x = (e, s)" "totp_finish L e w i code s = (r, w')" by (cases x, cases "totp_finish L (fst x) w i code (snd x)") auto
  have ok: "tsTenantID s = tid" "backup_only L i code h e s" using Cons.prems(2) [of e s] x by auto
  have "r \<noteq> Inr True" using finish_by_code(1) [OF _ ok] x Cons.prems(1) by blast
  moreover have "spent tid i h (awDb w')" using spent_finish [OF x(2) Cons.prems(1) ok(1)] .
  ultimately show ?case using Cons.IH [of w'] Cons.prems(2) x by auto
qed simp

text \<open>
  C29: a backup code is spent once. However many verifications of the same code run concurrently,
  each having read its own earlier state of the row, and whatever transactions are lost, at most
  one of them succeeds (when the code is no current TOTP code and matches one stored hash only).
\<close>

theorem backup_code_spent_once:
  assumes "\<And>e s. (e, s) \<in> set xs \<Longrightarrow> tsTenantID s = tid \<and> backup_only L i code h e s"
  shows "length (filter (\<lambda>r. r = Inr True) (finish_all L w i code xs)) \<le> 1"
  using assms
proof (induction xs arbitrary: w)
  case (Cons x xs)
  obtain e s r w' where x: "x = (e, s)" "totp_finish L e w i code s = (r, w')" by (cases x, cases "totp_finish L (fst x) w i code (snd x)") auto
  have ok: "tsTenantID s = tid" "backup_only L i code h e s" using Cons.prems [of e s] x by auto
  show ?case
  proof (cases "r = Inr True")
    case True
    then have "spent tid i h (awDb w')" using finish_by_code(2) [OF _ ok] x by blast
    then have "filter (\<lambda>r. r = Inr True) (finish_all L w' i code xs) = []" using Cons.prems by (intro finish_all_spent) auto
    then show ?thesis using x True by simp
  next
    case False
    moreover have "length (filter (\<lambda>r. r = Inr True) (finish_all L w' i code xs)) \<le> 1" by (rule Cons.IH) (rule Cons.prems, simp)
    ultimately show ?thesis using x by simp
  qed
qed simp

theorem backup_code_spent_once_witness:
  "finish_all sample_lib (sample_world True) 7 ''aa'' [(sample_env second 0, sample_totp), (sample_env second 0, sample_totp)] = [Inr True, Inr False] \<and>
   length (filter (\<lambda>r. r = Inr True) (finish_all sample_lib (sample_world True) 7 ''aa''
     [(sample_env second 0, sample_totp), (sample_env second 0, sample_totp)])) \<le> 1"
proof
  let ?xs = "[(sample_env second 0, sample_totp), (sample_env second 0, sample_totp)]"
  show "length (filter (\<lambda>r. r = Inr True) (finish_all sample_lib (sample_world True) 7 ''aa'' ?xs)) \<le> 1"
    by (rule backup_code_spent_once [where tid = 3 and h = "''aa''"]) (auto simp: backup_only_def sample_lib_def sample_totp_def)
  show "finish_all sample_lib (sample_world True) 7 ''aa'' ?xs = [Inr True, Inr False]"
    by (simp add: totp_finish_def sample_lib_def sample_totp_def sample_world_def tx_def MarkBackupUsed_def totp_row_def update_totp_def visible_def totp_audit_def)
qed

section \<open>A password alone\<close>

lemma Login_partial:
  assumes "Login L A e w inp = (Inr res, w')" "arTOTPRequired res"
  obtains u x where "arUser res = Some u" "issuePartial L A e u = Inr (arAccessToken res, x)" "usTOTPEnabled u" "arRefreshToken res = None"
  using assms by (auto simp: Login_def issueFullPair_def issueFullPairWithSession_def Let_def
      split: sum.splits prod.splits if_splits option.splits)

text \<open>
  C30: the password alone passes validation. For a user with a second factor a login answers with a
  partial token; as the module is wired, that token validates as an access token until the regular
  access lifetime is over, with all of the user's roles, so every role check grants it what it
  grants the user, although the second factor was never shown.
\<close>

theorem password_alone_passes_validation:
  assumes "wired L A" "Login L A e w inp = (Inr res, w')" "arTOTPRequired res"
    and "no_faults e'" "avNow e \<le> avNow e'" "avNow e' < UnixSec (avNow e + jcAccessTTL (acIssuer A)) * second + jcLeeway (acIssuer A)"
  shows "\<exists>u c. arUser res = Some u \<and> usTOTPEnabled u \<and> clUserID c = usID u \<and> \<not> clTOTPDone c \<and>
    (IsRevokedClaims (alCodec L) (CallOk, CallOk) (awRedis v) (avNow e') c = Inr False \<longrightarrow> ValidateAccessToken L A e' v (arAccessToken res) = Inr c) \<and>
    (\<forall>action. rbac_Check c action = rbac_walk (usRoles u) action)"
proof -
  obtain u x where u: "arUser res = Some u" "issuePartial L A e u = Inr (arAccessToken res, x)" "usTOTPEnabled u"
    by (rule Login_partial [OF assms(2,3)])
  define c0 where "c0 = \<lparr>clUserID = usID u, clTenantID = usTenantID u, clLogin = usLogin u, clRoles = usRoles u,
    clSessionID = '''', clJTI = '''', clIssuedAt = zero_time, clExpiresAt = zero_time, clTOTPDone = False\<rparr>"
  have "\<exists>y. jwt_sign (alCodec L) (alJwt L) (acIssuer A) (avNow e) (avRand e RandIssueJti) (avRand e RandIssueSid) c0 ''access''
      (jcAccessTTL (acIssuer A)) = Inr (arAccessToken res, y)"
    using u(2) assms(1) by (auto simp: issuePartial_def IssueAccess_def partialIssuer_def wired_def c0_def Let_def split: sum.splits prod.splits)
  then obtain jti sid where s: "clUserID c0 \<noteq> uuid_Nil" "clTenantID c0 \<noteq> uuid_Nil"
      "jwSign (alJwt L) (jcSecret (acIssuer A)) (claims_map (alCodec L) (acIssuer A) (avNow e) (c0\<lparr>clJTI := jti, clSessionID := sid\<rparr>) ''access''
        (jcAccessTTL (acIssuer A))) = Some (arAccessToken res)"
    by (auto elim: jwt_sign_cases)
  let ?c = "issued_claims (avNow e) (jcAccessTTL (acIssuer A)) (c0\<lparr>clJTI := jti, clSessionID := sid\<rparr>)"
  have v: "jwt_Validate (alCodec L) (alJwt L) (acIssuer A) (avNow e') (arAccessToken res) ''access'' = Inr ?c"
    using assms(1,5,6) s by (intro Validate_signed) (simp_all add: wired_def)
  have "ValidateAccessToken L A e' v (arAccessToken res) = Inr ?c"
    if "IsRevokedClaims (alCodec L) (CallOk, CallOk) (awRedis v) (avNow e') ?c = Inr False"
    using that v no_faultsD(1) [OF assms(4)] by (simp add: ValidateAccessToken_def revoked_nets_def)
  moreover have "clUserID ?c = usID u" "\<not> clTOTPDone ?c" "\<forall>action. rbac_Check ?c action = rbac_walk (usRoles u) action"
    by (simp_all add: issued_claims_def c0_def rbac_Check_def)
  ultimately show ?thesis using u(1,3) by blast
qed

section \<open>The second step and the lockout\<close>

text \<open>
  The second step ignores the lockout. Whatever the keyspace holds (a lock on the account, any
  number of registered failures, exhausted limits, a revoked session), a partial token that still
  validates together with the right code yields a full pair of tokens, so no number of wrong codes
  ever stops the next guess.
\<close>

theorem second_step_ignores_lockout:
  assumes "wired L A" "no_faults e" "jwt_Validate (alCodec L) (alJwt L) (acIssuer A) (avNow e) tok ''access'' = Inr c" "\<not> clTOTPDone c"
    and "GetByID None (awDb w) (clUserID c) = Inr u" "usID u \<noteq> uuid_Nil" "usTenantID u \<noteq> uuid_Nil"
    and "totp_Get (Some (usTenantID u)) (awDb w) (clUserID c) = Inr s"
    and "alDecrypt L (tsTenantID s) (uuid_String (alCodec L) (clUserID c)) (tsSecretEncrypted s) = Some secret"
    and "alTotp L code secret (avNow e) = Some True" "tsTenantID s = usTenantID u" "\<And>mc. jwSign (alJwt L) (jcSecret (acIssuer A)) mc \<noteq> None"
  shows "\<forall>r. \<exists>res. fst (LoginTOTP L A e (w\<lparr>awRedis := r\<rparr>) tok code ip) = Inr res \<and> arRefreshToken res \<noteq> None"
proof
  fix r
  let ?w = "w\<lparr>awRedis := r\<rparr>"
  note ok = no_faultsD(1) [OF assms(2)]
  obtain t where row: "totp_row (Some (usTenantID u)) (awDb w) (clUserID c) = Some t"
    using assms(8) by (auto simp: totp_Get_def totp_GetAny_def split: option.splits)
  obtain w1 where v: "totp_Verify L e ?w (clUserID c) code = (Inr True, w1)"
    and db: "adUsers (awDb w1) = adUsers (awDb w)"
    using ok assms(5,8-11) row
    by (auto simp: totp_Verify_def loadEnrolledState_def resolveUser_def totp_finish_def tx_def UpdateLastVerified_def totp_audit_def update_totp_def)
  have g: "GetByID None (awDb w1) (clUserID c) = Inr u" using assms(5) db by (simp add: GetByID_def user_row_def)
  obtain ra rr where rs: "avRand e RandAccess = Some ra" "avRand e RandRefresh = Some rr" using no_faultsD(3) [OF assms(2)] by metis
  obtain rsid where rsid: "avRand e RandSid = Some rsid" "\<exists>x. avRand e RandIssueSid = Some x" using no_faultsD(3) [OF assms(2)] by metis
  obtain sg where sg: "\<And>mc. jwSign (alJwt L) (jcSecret (acIssuer A)) mc = Some (sg mc)" using signing_total assms(12) by blast
  have "\<exists>res w2. issueFullPairWithSession L A e w1 u (clSessionID c) True = (Inr res, w2) \<and> arRefreshToken res \<noteq> None"
    using rs rsid ok assms(6,7) sg
    by (auto simp: issueFullPairWithSession_def randomHex_def IssueAccess_def IssueRefresh_def jwt_sign_def refresh_Save_def remote_def Let_def split: option.splits)
  then show "\<exists>res. fst (LoginTOTP L A e ?w tok code ip) = Inr res \<and> arRefreshToken res \<noteq> None"
    using assms(3,4) v g ok by (auto simp: LoginTOTP_def)
qed

section \<open>Administration\<close>

text \<open>Validation and refreshing read the keyspace only.\<close>

lemma tokens_read_redis_only:
  assumes "awRedis w' = awRedis w"
  shows "ValidateAccessToken L A e w' tok = ValidateAccessToken L A e w tok" "fst (Refresh L A e w' tok) = fst (Refresh L A e w tok)"
  using assms by (auto simp: ValidateAccessToken_def Refresh_def Let_def split: sum.splits option.splits prod.splits bool.splits)

fun administers :: "'tok auth_op \<Rightarrow> bool" where
  "administers (OpUpdateRole t i roles) = True"
| "administers (OpArchive t i) = True"
| "administers (OpResetPassword t i) = True"
| "administers (OpChangePassword i old new) = True"
| "administers (OpEnroll i) = True"
| "administers (OpConfirm i code) = True"
| "administers (OpDisable i) = True"
| "administers _ = False"

text \<open>
  Administration leaves sessions alone. Archiving a user, changing the roles, resetting or
  changing the password, or changing the second factor makes no difference to any token: every
  access token validates to the same claims and every refresh token gets the same answer as
  before.
\<close>

theorem administration_keeps_sessions:
  assumes "administers op" "auth_do L A e w op = (rp, w')"
  shows "ValidateAccessToken L A e' w' tok = ValidateAccessToken L A e' w tok \<and> fst (Refresh L A e' w' tok) = fst (Refresh L A e' w tok)"
proof -
  have "awRedis w' = awRedis w" using assms
    by (cases op) (auto simp: map_prod_def split: prod.splits dest!: awRedis_user_ops)
  then show ?thesis by (intro conjI tokens_read_redis_only)
qed

section \<open>The small deployment with a second factor\<close>

lemma sample_partial_login:
  "\<exists>res w'. Login sample_lib sample_auth (sample_env second 0) (sample_world True) sample_login = (Inr res, w') \<and> arTOTPRequired res"
proof -
  let ?e = "sample_env second 0" and ?w = "sample_world True" and ?k = "''auth:rl:ip:'' @ liIP sample_login"
  have e: "awRedis ?w = Map.empty" "avRand32 ?e s = Some 0" for s by (simp_all add: sample_world_def sample_env_def)
  obtain r1 where 1: "AllowIP (acRate sample_auth) (avRand32 ?e RandIP) None (awRedis ?w) (avNow ?e) (liIP sample_login) = (Inr True, [?k \<mapsto> r1])"
    using rl_allow_fresh [of Map.empty ?k] e by (simp add: AllowIP_def sample_defs)
  obtain r2 where 2: "AllowAccount (alCodec sample_lib) (acRate sample_auth) (avRand32 ?e RandAccount) None [?k \<mapsto> r1] (avNow ?e) (usID (sample_user True)) = (Inr True, r2)"
    using rl_allow_fresh [of "[?k \<mapsto> r1]" "''auth:rl:user:'' @ uuid_String canonical_codec 7"] e(2)
    by (simp add: AllowAccount_def sample_auth_def NewRateLimiterRedis_def sample_user_def)
  have 3: "IsLocked (alCodec sample_lib) CallOk [?k \<mapsto> r1] (avNow ?e) (usID (sample_user True)) = Inr False"
    by (simp add: IsLocked_def get_int_def live_def live_entry_def lockoutUntilKey_def)
  have u: "usArchivedAt (sample_user True) = None" "\<not> usMustChangePwd (sample_user True)" "usTOTPEnabled (sample_user True)" by (simp_all add: sample_user_def)
  have p: "\<exists>tok x. issuePartial sample_lib sample_auth ?e (sample_user True) = Inr (tok, x)"
    by (simp add: issuePartial_def IssueAccess_def jwt_sign_def randomHex_def partialIssuer_def sample_auth_def sample_env_def sample_user_def Let_def)
  show ?thesis
    using Login_path [OF sample_no_faults 1 sample_user_found(1,2) [of True] u(1) 3 2 sample_user_found(3) [of True] sample_user_found(4) u(2)] u(3) p by auto
qed

theorem password_alone_passes_validation_witness:
  "\<exists>res w'. Login sample_lib sample_auth (sample_env second 0) (sample_world True) sample_login = (Inr res, w') \<and>
     (\<exists>c. ValidateAccessToken sample_lib sample_auth (sample_env minute 10) (sample_world True) (arAccessToken res) = Inr c \<and>
        \<not> clTOTPDone c \<and> rbac_Check c ''call.start'' = Inr ())"
proof -
  let ?e = "sample_env second 0" and ?e' = "sample_env minute 10" and ?v = "sample_world True"
  obtain res w' where l: "Login sample_lib sample_auth ?e ?v sample_login = (Inr res, w')" "arTOTPRequired res" using sample_partial_login by blast
  have n: "avNow ?e' < UnixSec (avNow ?e + jcAccessTTL (acIssuer sample_auth)) * second + jcLeeway (acIssuer sample_auth)"
    by (simp add: sample_jwt_def UnixSec_def)
  have r: "IsRevokedClaims (alCodec sample_lib) (CallOk, CallOk) (awRedis ?v) (avNow ?e') c = Inr False" for c
    by (rule not_revoked) (simp_all add: sample_world_def)
  obtain u c where c: "arUser res = Some u" "\<not> clTOTPDone c" "ValidateAccessToken sample_lib sample_auth ?e' ?v (arAccessToken res) = Inr c"
      "\<forall>action. rbac_Check c action = rbac_walk (usRoles u) action"
    using password_alone_passes_validation [OF sample_wired l sample_no_faults _ n, of ?v] r by auto
  have "usRoles u = [''operator'']" using l(1) c(1) sample_user_found(1,2) [of True]
    by (auto simp: Login_def loginPreflight_def failLoginInvalidCreds_def issueFullPair_def issueFullPairWithSession_def Let_def sample_user_def
        split: sum.splits prod.splits if_splits option.splits bool.splits)
  then have "rbac_Check c ''call.start'' = Inr ()" using c(4) by (simp add: rbacMatrix_def)
  with l(1) c(2,3) show ?thesis by blast
qed

definition sample_partial :: Claims where
  "sample_partial = (fresh_claims (sample_user True) (hex32 5) (hex32 4))\<lparr>clTOTPDone := False\<rparr>"

definition sample_partial_token :: "string \<times> MapClaims" where
  "sample_partial_token = (jcSecret sample_jwt, claims_map canonical_codec sample_jwt second sample_partial ''access'' (jcAccessTTL sample_jwt))"

lemma sample_partial_validates:
  "jwt_Validate (alCodec sample_lib) (alJwt sample_lib) (acIssuer sample_auth) second sample_partial_token ''access'' =
     Inr (issued_claims second (jcAccessTTL sample_jwt) sample_partial)"
proof -
  have "jwSign (alJwt sample_lib) (jcSecret sample_jwt)
      (claims_map canonical_codec sample_jwt second sample_partial ''access'' (jcAccessTTL sample_jwt)) = Some sample_partial_token"
    by (simp add: sample_partial_token_def)
  then show ?thesis using Validate_signed [of "alJwt sample_lib" canonical_codec sample_partial sample_jwt second] sample_wired
    by (simp add: wired_def sample_partial_def fresh_claims_def sample_user_def sample_jwt_def UnixSec_def)
qed

definition sample_lock :: redis where
  "sample_lock = [lockoutUntilKey canonical_codec 7 \<mapsto> (RString (FormatInt 900), None)]"

theorem second_step_ignores_lockout_witness:
  "IsLocked canonical_codec CallOk sample_lock second 7 = Inr True \<and>
   (\<exists>res. fst (LoginTOTP sample_lib sample_auth (sample_env second 0) ((sample_world True)\<lparr>awRedis := sample_lock\<rparr>)
      sample_partial_token ''123456'' ''10.0.0.1'') = Inr res)"
proof
  show "IsLocked canonical_codec CallOk sample_lock second 7 = Inr True"
    using ParseInt64_FormatInt [of 900] by (simp add: IsLocked_def sample_lock_def get_int_def live_def live_entry_def UnixSec_def in_int64_def)
  have "\<forall>r. \<exists>res. fst (LoginTOTP sample_lib sample_auth (sample_env second 0) ((sample_world True)\<lparr>awRedis := r\<rparr>)
      sample_partial_token ''123456'' ''10.0.0.1'') = Inr res \<and> arRefreshToken res \<noteq> None"
    by (rule second_step_ignores_lockout [OF sample_wired sample_no_faults, where c = "issued_claims second (jcAccessTTL sample_jwt) sample_partial"
          and u = "sample_user True" and s = sample_totp and secret = "''123456''"])
      (use sample_partial_validates in \<open>simp_all add: issued_claims_def sample_partial_def fresh_claims_def GetByID_def totp_Get_def totp_GetAny_def
         totp_row_def user_row_def visible_def sample_world_def sample_user_def sample_totp_def sample_lib_def symbolic_jwt_def\<close>)
  then show "\<exists>res. fst (LoginTOTP sample_lib sample_auth (sample_env second 0) ((sample_world True)\<lparr>awRedis := sample_lock\<rparr>)
      sample_partial_token ''123456'' ''10.0.0.1'') = Inr res" by blast
qed

theorem administration_keeps_sessions_witness:
  "\<exists>w'. auth_do sample_lib sample_auth (sample_env (2 * second) 10) (sample_world False) (OpArchive 3 7) = (ReplyUnit (Inr ()), w') \<and>
     (\<exists>u. GetByID None (awDb w') 7 = Inr u \<and> usArchivedAt u \<noteq> None) \<and>
     ValidateAccessToken sample_lib sample_auth (sample_env second 0) w' sample_partial_token =
     ValidateAccessToken sample_lib sample_auth (sample_env second 0) (sample_world False) sample_partial_token"
proof -
  let ?e = "sample_env (2 * second) 10" and ?w = "sample_world False"
  have n: "(3 :: uuid) \<noteq> uuid_Nil" "(7 :: uuid) \<noteq> uuid_Nil" by simp_all
  obtain w' where a: "user_Archive sample_lib ?e ?w 3 7 = (Inr (), w')" and u: "\<exists>u. GetByID None (awDb w') 7 = Inr u \<and> usArchivedAt u \<noteq> None"
    using n by (auto simp: user_Archive_def user_mutation_def store_Archive_def user_row_def update_users_def visible_def GetByID_def
        sample_world_def sample_user_def sample_env_def Let_def)
  then have d: "auth_do sample_lib sample_auth ?e ?w (OpArchive 3 7) = (ReplyUnit (Inr ()), w')" by simp
  from administration_keeps_sessions [OF _ d] have "ValidateAccessToken sample_lib sample_auth (sample_env second 0) w' sample_partial_token =
     ValidateAccessToken sample_lib sample_auth (sample_env second 0) ?w sample_partial_token" by simp
  with d u show ?thesis by blast
qed

end
