(* ===== verification/Working_Hours.thy ===== *)
theory Working_Hours
  imports Prelude
begin

text \<open>
  The calling calendar: the table of regions (\<open>pkg/regions/regions.go\<close>) and the working-hours
  checker of the dialer (\<open>internal/dialer/hours\<close>). The properties say that the next permitted
  instant is the earliest one, under the condition on the windows that makes it so.

  A zone is its offset from UTC: the Russian zones have had no transitions since October 2014. A
  calendar date is its day number, counted from 1 January 1970; reading the date of a local
  instant and building an instant from a date are then division and multiplication by the length of
  a day. The zone database is a parameter that maps a name to an offset; decoding YAML and JSON is
  the packages' work, and the model starts from the decoded rows.
\<close>

section \<open>Regions\<close>

record Region =
  rgCode :: string
  rgNameRU :: string
  rgNameEN :: string
  rgTimezone :: string
  rgABCFlag :: bool
  rgDEFPrefixes :: "string list"

type_synonym zones = "string \<rightharpoonup> duration"

type_synonym region_set = "Region list"

text \<open>Codes are unique in a loaded set, so the map \<open>byCode\<close> is a search for the code.\<close>

definition RegionForCode :: "region_set \<Rightarrow> string \<Rightarrow> Region option" where
  "RegionForCode s code = find (\<lambda>r. rgCode r = code) s"

fun load_rows :: "zones \<Rightarrow> Region list \<Rightarrow> region_set \<Rightarrow> region_set option" where
  "load_rows z [] acc = Some acc"
| "load_rows z (row # rows) acc =
     (if rgCode row = '''' then None
      else if rgTimezone row = '''' then None
      else if RegionForCode acc (rgCode row) \<noteq> None then None
      else if z (rgTimezone row) = None then None
      else load_rows z rows (acc @ [row]))"

definition loadFromBytes :: "zones \<Rightarrow> Region list option \<Rightarrow> region_set option" where
  "loadFromBytes z raw =
     (case raw of
        None \<Rightarrow> None
      | Some rows \<Rightarrow> if rows = [] then None else load_rows z rows [])"

datatype hours_error = ErrUnknownRegion | ErrZone | ErrSettings | ErrPolicy | ErrOutsideWorkingHours

text \<open>The memo of loaded zones holds what the zone database answers, and is left out.\<close>

definition TimezoneForRegion :: "zones \<Rightarrow> region_set \<Rightarrow> string \<Rightarrow> hours_error + duration" where
  "TimezoneForRegion z s code =
     (case RegionForCode s code of
        None \<Rightarrow> Inl ErrUnknownRegion
      | Some r \<Rightarrow> (case z (rgTimezone r) of None \<Rightarrow> Inl ErrZone | Some loc \<Rightarrow> Inr loc))"

section \<open>Dates\<close>

abbreviation day_length :: duration where "day_length \<equiv> 24 * hour"

definition leap :: "int \<Rightarrow> bool" where
  "leap y \<longleftrightarrow> y mod 4 = 0 \<and> (y mod 100 \<noteq> 0 \<or> y mod 400 = 0)"

definition days_in :: "int \<Rightarrow> int \<Rightarrow> int" where
  "days_in y m = (if m = 2 then (if leap y then 29 else 28) else if m \<in> {4, 6, 9, 11} then 30 else 31)"

definition leaps_before :: "int \<Rightarrow> int" where
  "leaps_before y = (y - 1) div 4 - (y - 1) div 100 + (y - 1) div 400"

definition date :: "int \<Rightarrow> int \<Rightarrow> int \<Rightarrow> int" where
  "date y m d = 365 * (y - 1970) + leaps_before y - leaps_before 1970 + sum_list (map (days_in y) [1..m - 1]) + d - 1"

definition local_day :: "duration \<Rightarrow> time \<Rightarrow> int" where
  "local_day loc t = (t + loc) div day_length"

text \<open>\<open>Weekday\<close> counts from Sunday; 1 January 1970 was a Thursday.\<close>

definition weekday :: "int \<Rightarrow> int" where
  "weekday d = (d + 4) mod 7"

datatype dayKind = KindWeekday | KindWeekend

definition kindFor :: "int \<Rightarrow> dayKind" where
  "kindFor d = (if weekday d \<in> {6, 0} then KindWeekend else KindWeekday)"

section \<open>Times of day and windows\<close>

record timeOfDay =
  tdHour :: int
  tdMinute :: int

definition two_digits :: "char \<Rightarrow> char \<Rightarrow> int option" where
  "two_digits a b = (if is_digit a \<and> is_digit b then Some (int (10 * digit_val a + digit_val b)) else None)"

text \<open>\<open>time.Parse\<close> with the layout \<open>15:04\<close>, on five bytes with a colon in the middle.\<close>

definition parseTimeOfDay :: "string \<Rightarrow> timeOfDay option" where
  "parseTimeOfDay s =
     (case s of
        [a, b, c, d, e] \<Rightarrow>
          if c \<noteq> CHR '':'' then None
          else (case (two_digits a b, two_digits d e) of
             (Some h, Some mi) \<Rightarrow>
               if h < 24 \<and> mi < 60 then Some \<lparr>tdHour = h, tdMinute = mi\<rparr>
               else if s = ''24:00'' then Some \<lparr>tdHour = 24, tdMinute = 0\<rparr> else None
           | _ \<Rightarrow> None)
      | _ \<Rightarrow> None)"

definition tod_text :: "timeOfDay \<Rightarrow> string" where
  "tod_text t =
     (let two = (\<lambda>n. [digit_char (nat n div 10), digit_char (nat n mod 10)]) in two (tdHour t) @ '':'' @ two (tdMinute t))"

definition zero_tod :: timeOfDay where
  "zero_tod = \<lparr>tdHour = 0, tdMinute = 0\<rparr>"

record window =
  wnStart :: timeOfDay
  wnEnd :: timeOfDay

definition zero_window :: window where
  "zero_window = \<lparr>wnStart = zero_tod, wnEnd = zero_tod\<rparr>"

definition combineDate :: "time \<Rightarrow> duration \<Rightarrow> timeOfDay \<Rightarrow> time" where
  "combineDate base loc t = local_day loc base * day_length + tdHour t * hour + tdMinute t * minute - loc"

definition window_contains :: "window \<Rightarrow> time \<Rightarrow> duration \<Rightarrow> bool" where
  "window_contains w t loc =
     (if t < combineDate t loc (wnStart w) then False
      else if \<not> t < combineDate t loc (wnEnd w) then False
      else True)"

section \<open>Policies\<close>

text \<open>The date of an exception is its day number; the reason only appears in logs.\<close>

record Exception =
  exDate :: int
  exOpen :: bool
  exStart :: timeOfDay
  exEnd :: timeOfDay

record WorkingHoursPolicy =
  whWeekday :: window
  whWeekend :: window
  whExceptions :: "Exception list"

record jsonWindow =
  jwStart :: string
  jwEnd :: string

record jsonException =
  jeDate :: string
  jeOpen :: "bool option"
  jeStart :: string
  jeEnd :: string

record jsonPolicy =
  jpWeekday :: "jsonWindow option"
  jpWeekend :: "jsonWindow option"
  jpExceptions :: "jsonException list"

definition parseJSONWindow :: "jsonWindow \<Rightarrow> window option" where
  "parseJSONWindow jw =
     (if jwStart jw = '''' \<or> jwEnd jw = '''' then None
      else case parseTimeOfDay (jwStart jw) of
        None \<Rightarrow> None
      | Some s \<Rightarrow> (case parseTimeOfDay (jwEnd jw) of None \<Rightarrow> None | Some e \<Rightarrow> Some \<lparr>wnStart = s, wnEnd = e\<rparr>))"

text \<open>\<open>time.Parse\<close> with the layout \<open>2006-01-02\<close>: four, two and two digits, and a day the month has.\<close>

definition parse_date :: "string \<Rightarrow> int option" where
  "parse_date s =
     (case s of
        [a, b, c, d, h1, e, f, h2, g, h] \<Rightarrow>
          if h1 \<noteq> CHR ''-'' \<or> h2 \<noteq> CHR ''-'' then None
          else (case (two_digits a b, two_digits c d, two_digits e f, two_digits g h) of
             (Some y1, Some y2, Some m, Some dd) \<Rightarrow>
               let y = 100 * y1 + y2 in
               if 1 \<le> m \<and> m \<le> 12 \<and> 1 \<le> dd \<and> dd \<le> days_in y m then Some (date y m dd) else None
           | _ \<Rightarrow> None)
      | _ \<Rightarrow> None)"

definition parseJSONException :: "jsonException \<Rightarrow> Exception option" where
  "parseJSONException je =
     (if jeDate je = '''' then None
      else case parse_date (jeDate je) of
        None \<Rightarrow> None
      | Some d \<Rightarrow>
        let ex = \<lparr>exDate = d, exOpen = (case jeOpen je of Some b \<Rightarrow> b | None \<Rightarrow> True), exStart = zero_tod, exEnd = zero_tod\<rparr>
        in if jeStart je \<noteq> '''' \<or> jeEnd je \<noteq> ''''
           then (case parseTimeOfDay (jeStart je) of
                   None \<Rightarrow> None
                 | Some s \<Rightarrow> (case parseTimeOfDay (jeEnd je) of None \<Rightarrow> None | Some e \<Rightarrow> Some (ex\<lparr>exStart := s, exEnd := e\<rparr>)))
           else Some ex)"

fun parse_exceptions :: "jsonException list \<Rightarrow> Exception list option" where
  "parse_exceptions [] = Some []"
| "parse_exceptions (je # jes) =
     (case parseJSONException je of
        None \<Rightarrow> None
      | Some ex \<Rightarrow> (case parse_exceptions jes of None \<Rightarrow> None | Some exs \<Rightarrow> Some (ex # exs)))"

datatype raw_policy = RawEmpty | RawMalformed | RawPolicy jsonPolicy

definition parse_window :: "jsonWindow option \<Rightarrow> window option" where
  "parse_window jw = (case jw of None \<Rightarrow> Some zero_window | Some jw \<Rightarrow> parseJSONWindow jw)"

definition parsePolicy :: "raw_policy \<Rightarrow> WorkingHoursPolicy option" where
  "parsePolicy raw =
     (case raw of
        RawEmpty \<Rightarrow> Some \<lparr>whWeekday = zero_window, whWeekend = zero_window, whExceptions = []\<rparr>
      | RawMalformed \<Rightarrow> None
      | RawPolicy jp \<Rightarrow>
        (case parse_window (jpWeekday jp) of
           None \<Rightarrow> None
         | Some wd \<Rightarrow>
        (case parse_window (jpWeekend jp) of
           None \<Rightarrow> None
         | Some we \<Rightarrow>
        (case parse_exceptions (jpExceptions jp) of
           None \<Rightarrow> None
         | Some exs \<Rightarrow> Some \<lparr>whWeekday = wd, whWeekend = we, whExceptions = exs\<rparr>))))"

definition mergeWithDefault :: "WorkingHoursPolicy \<Rightarrow> WorkingHoursPolicy \<Rightarrow> WorkingHoursPolicy" where
  "mergeWithDefault p def =
     (let p = (if whWeekday p = zero_window then p\<lparr>whWeekday := whWeekday def\<rparr> else p)
      in if whWeekend p = zero_window then p\<lparr>whWeekend := whWeekend def\<rparr> else p)"

definition findException :: "WorkingHoursPolicy \<Rightarrow> time \<Rightarrow> duration \<Rightarrow> Exception option" where
  "findException p t loc = find (\<lambda>e. exDate e = local_day loc t) (whExceptions p)"

section \<open>The checker\<close>

text \<open>The holiday set is the list of its dates.\<close>

record Checker =
  ckSettings :: "uuid \<Rightarrow> hours_error + raw_policy option"
  ckRegions :: region_set
  ckDef :: WorkingHoursPolicy
  ckHolidays :: "int list"

definition hm :: "int \<Rightarrow> int \<Rightarrow> timeOfDay" where
  "hm h mi = \<lparr>tdHour = h, tdMinute = mi\<rparr>"

definition DefaultPolicy :: WorkingHoursPolicy where
  "DefaultPolicy = \<lparr>whWeekday = \<lparr>wnStart = hm 9 0, wnEnd = hm 21 0\<rparr>, whWeekend = \<lparr>wnStart = hm 10 0, wnEnd = hm 18 0\<rparr>, whExceptions = []\<rparr>"

definition NewRUHolidays2026 :: "int list" where
  "NewRUHolidays2026 = map (\<lambda>(m, d). date 2026 m d)
     [(1, 1), (1, 2), (1, 3), (1, 4), (1, 5), (1, 6), (1, 7), (1, 8), (2, 23), (3, 8), (5, 1), (5, 9), (6, 12), (11, 4)]"

definition NewChecker :: "(uuid \<Rightarrow> hours_error + raw_policy option) \<Rightarrow> region_set \<Rightarrow> WorkingHoursPolicy \<Rightarrow> int list option \<Rightarrow> Checker" where
  "NewChecker settings rs def holidays =
     \<lparr>ckSettings = settings, ckRegions = rs,
      ckDef = (let def = (if whWeekday def = zero_window then def\<lparr>whWeekday := whWeekday DefaultPolicy\<rparr> else def)
               in if whWeekend def = zero_window then def\<lparr>whWeekend := whWeekend DefaultPolicy\<rparr> else def),
      ckHolidays = (case holidays of None \<Rightarrow> NewRUHolidays2026 | Some hs \<Rightarrow> hs)\<rparr>"

definition IsHoliday :: "int list \<Rightarrow> time \<Rightarrow> duration \<Rightarrow> bool" where
  "IsHoliday hs t loc \<longleftrightarrow> local_day loc t \<in> set hs"

definition policyFor :: "Checker \<Rightarrow> uuid \<Rightarrow> hours_error + WorkingHoursPolicy" where
  "policyFor c tenantID =
     (case ckSettings c tenantID of
        Inl e \<Rightarrow> Inl e
      | Inr None \<Rightarrow> Inr (ckDef c)
      | Inr (Some raw) \<Rightarrow>
        (case parsePolicy raw of None \<Rightarrow> Inl ErrPolicy | Some p \<Rightarrow> Inr (mergeWithDefault p (ckDef c))))"

definition day_window :: "WorkingHoursPolicy \<Rightarrow> time \<Rightarrow> duration \<Rightarrow> window" where
  "day_window p t loc = (case kindFor (local_day loc t) of KindWeekday \<Rightarrow> whWeekday p | KindWeekend \<Rightarrow> whWeekend p)"

definition IsAllowed :: "zones \<Rightarrow> Checker \<Rightarrow> uuid \<Rightarrow> string \<Rightarrow> time \<Rightarrow> hours_error + bool" where
  "IsAllowed z c tenantID region t =
     (case TimezoneForRegion z (ckRegions c) region of
        Inl e \<Rightarrow> Inl e
      | Inr loc \<Rightarrow>
      if IsHoliday (ckHolidays c) t loc then Inr False
      else case policyFor c tenantID of
        Inl e \<Rightarrow> Inl e
      | Inr policy \<Rightarrow>
     (case findException policy t loc of
        Some ex \<Rightarrow>
          if \<not> exOpen ex then Inr False
          else let exWin = \<lparr>wnStart = exStart ex, wnEnd = exEnd ex\<rparr> in
          if exWin \<noteq> zero_window then Inr (window_contains exWin t loc)
          else Inr (window_contains (day_window policy t loc) t loc)
      | None \<Rightarrow> Inr (window_contains (day_window policy t loc) t loc)))"

definition activeWindow :: "Checker \<Rightarrow> WorkingHoursPolicy \<Rightarrow> time \<Rightarrow> duration \<Rightarrow> window option" where
  "activeWindow c p t loc =
     (if IsHoliday (ckHolidays c) t loc then None
      else case findException p t loc of
        Some ex \<Rightarrow>
          if \<not> exOpen ex then None
          else let exWin = \<lparr>wnStart = exStart ex, wnEnd = exEnd ex\<rparr> in
          if exWin \<noteq> zero_window then Some exWin else Some (day_window p t loc)
      | None \<Rightarrow> Some (day_window p t loc))"

definition next_day :: "duration \<Rightarrow> time \<Rightarrow> time" where
  "next_day loc t = (local_day loc t + 1) * day_length - loc"

fun next_loop :: "Checker \<Rightarrow> WorkingHoursPolicy \<Rightarrow> duration \<Rightarrow> nat \<Rightarrow> time \<Rightarrow> hours_error + time" where
  "next_loop c p loc 0 cursor = Inl ErrOutsideWorkingHours"
| "next_loop c p loc (Suc n) cursor =
     (case activeWindow c p cursor loc of
        None \<Rightarrow> next_loop c p loc n (next_day loc cursor)
      | Some win \<Rightarrow>
        if cursor < combineDate cursor loc (wnStart win) then Inr (combineDate cursor loc (wnStart win))
        else if cursor < combineDate cursor loc (wnEnd win) then Inr cursor
        else next_loop c p loc n (next_day loc cursor))"

definition nextAllowedHorizon :: nat where
  "nextAllowedHorizon = 14"

definition NextAllowed :: "zones \<Rightarrow> Checker \<Rightarrow> uuid \<Rightarrow> string \<Rightarrow> time \<Rightarrow> hours_error + time" where
  "NextAllowed z c tenantID region t =
     (case TimezoneForRegion z (ckRegions c) region of
        Inl e \<Rightarrow> Inl e
      | Inr loc \<Rightarrow>
     (case policyFor c tenantID of
        Inl e \<Rightarrow> Inl e
      | Inr policy \<Rightarrow> next_loop c policy loc (nextAllowedHorizon + 1) t))"

section \<open>Days\<close>

lemma day_bounds: "local_day loc t * day_length \<le> t + loc" "t + loc < (local_day loc t + 1) * day_length"
  unfolding local_day_def by (simp_all add: minus_mod_eq_div_mult [symmetric] algebra_simps)

lemma local_day_unique:
  assumes "d * day_length \<le> t + loc" "t + loc < (d + 1) * day_length"
  shows "local_day loc t = d"
proof -
  have "d \<le> local_day loc t" "local_day loc t \<le> d" using assms day_bounds [where loc = loc and t = t] by (simp_all add: algebra_simps)
  then show ?thesis by simp
qed

lemma next_day_after: "t < next_day loc t"
  using day_bounds(2) [of t loc] by (simp add: next_day_def algebra_simps)

lemma local_day_next [simp]: "local_day loc (next_day loc t) = local_day loc t + 1"
  by (rule local_day_unique) (simp_all add: next_day_def algebra_simps)

lemma same_day: "t \<le> s \<Longrightarrow> s < next_day loc t \<Longrightarrow> local_day loc s = local_day loc t"
  using day_bounds(1) [of loc t] by (intro local_day_unique) (simp_all add: next_day_def algebra_simps)

text \<open>Texts of times of day are read back.\<close>

lemma parseTimeOfDay_text:
  assumes "0 \<le> tdHour t" "tdHour t < 24" "0 \<le> tdMinute t" "tdMinute t < 60"
  shows "parseTimeOfDay (tod_text t) = Some t"
proof -
  have v: "two_digits (digit_char (nat n div 10)) (digit_char (nat n mod 10)) = Some n" if "0 \<le> n" "n < 60" for n
  proof -
    have "nat n div 10 < 10" "nat n mod 10 < 10" using that by auto
    then show ?thesis using that by (simp add: two_digits_def is_digit_def of_char_digit_char)
  qed
  show ?thesis using v [of "tdHour t"] v [of "tdMinute t"] assms by (simp add: parseTimeOfDay_def tod_text_def Let_def)
qed

section \<open>The decision\<close>

definition allowed :: "Checker \<Rightarrow> WorkingHoursPolicy \<Rightarrow> duration \<Rightarrow> time \<Rightarrow> bool" where
  "allowed c p loc t = (case activeWindow c p t loc of None \<Rightarrow> False | Some w \<Rightarrow> window_contains w t loc)"

lemma IsAllowed_allowed:
  assumes "TimezoneForRegion z (ckRegions c) region = Inr loc" "policyFor c tenantID = Inr p"
  shows "IsAllowed z c tenantID region t = Inr (allowed c p loc t)"
  using assms by (simp add: IsAllowed_def allowed_def activeWindow_def Let_def split: option.splits)

text \<open>What is active, and the instants of a window, depend on the local day only.\<close>

lemma active_same_day:
  assumes "local_day loc s = local_day loc t"
  shows "activeWindow c p s loc = activeWindow c p t loc"
proof -
  have "IsHoliday hs s loc = IsHoliday hs t loc" "findException p s loc = findException p t loc" "day_window p s loc = day_window p t loc" for hs
    using assms by (simp_all add: IsHoliday_def findException_def day_window_def)
  then show ?thesis by (simp add: activeWindow_def Let_def split: option.split)
qed

lemma combine_same_day: "local_day loc s = local_day loc t \<Longrightarrow> combineDate s loc x = combineDate t loc x"
  by (simp add: combineDate_def)

text \<open>A window is proper when it starts before it ends and ends within the day.\<close>

definition minutes :: "timeOfDay \<Rightarrow> int" where
  "minutes t = tdHour t * 60 + tdMinute t"

definition proper_window :: "window \<Rightarrow> bool" where
  "proper_window w \<longleftrightarrow> 0 \<le> minutes (wnStart w) \<and> minutes (wnStart w) < minutes (wnEnd w) \<and> minutes (wnEnd w) \<le> 1440"

definition proper_policy :: "WorkingHoursPolicy \<Rightarrow> bool" where
  "proper_policy p \<longleftrightarrow> proper_window (whWeekday p) \<and> proper_window (whWeekend p) \<and>
     list_all (\<lambda>ex. \<not> exOpen ex \<or> exStart ex = zero_tod \<and> exEnd ex = zero_tod \<or> proper_window \<lparr>wnStart = exStart ex, wnEnd = exEnd ex\<rparr>) (whExceptions p)"

lemma active_proper:
  assumes "proper_policy p" "activeWindow c p t loc = Some w"
  shows "proper_window w"
proof -
  have "proper_window (day_window p t loc)" using assms(1) by (simp add: proper_policy_def day_window_def split: dayKind.splits)
  moreover have "proper_window \<lparr>wnStart = exStart ex, wnEnd = exEnd ex\<rparr>"
    if "findException p t loc = Some ex" "exOpen ex" "\<lparr>wnStart = exStart ex, wnEnd = exEnd ex\<rparr> \<noteq> zero_window" for ex
    using that assms(1) by (auto simp: proper_policy_def findException_def find_Some_iff list_all_length zero_window_def)
  ultimately show ?thesis using assms(2) by (auto simp: activeWindow_def Let_def split: option.splits if_splits)
qed

lemma combine_minutes: "combineDate t loc x = local_day loc t * day_length + minutes x * minute - loc"
  by (simp add: combineDate_def minutes_def algebra_simps)

lemma combine_in_day:
  assumes "0 \<le> minutes x" "minutes x < 1440"
  shows "local_day loc (combineDate t loc x) = local_day loc t"
  using assms by (intro local_day_unique) (simp_all add: combine_minutes algebra_simps)

section \<open>The next permitted instant\<close>

text \<open>Within the rest of its day, the window decides.\<close>

lemma allowed_today:
  assumes "t \<le> s" "s < next_day loc t"
  shows "allowed c p loc s \<longleftrightarrow>
    (\<exists>w. activeWindow c p t loc = Some w \<and> combineDate t loc (wnStart w) \<le> s \<and> s < combineDate t loc (wnEnd w))"
  using same_day [OF assms] active_same_day [of loc s t c p] combine_same_day [of loc s t]
  by (auto simp: allowed_def window_contains_def not_less split: option.splits)

lemma next_loop_spec:
  assumes "proper_policy p"
  shows "case next_loop c p loc n t of
      Inr u \<Rightarrow> t \<le> u \<and> allowed c p loc u \<and> (\<forall>s. t \<le> s \<and> s < u \<longrightarrow> \<not> allowed c p loc s)
    | Inl e \<Rightarrow> e = ErrOutsideWorkingHours \<and> (\<forall>s. t \<le> s \<and> s < (local_day loc t + int n) * day_length - loc \<longrightarrow> \<not> allowed c p loc s)"
proof (induction n arbitrary: t)
  case 0
  then show ?case using day_bounds(1) [of loc t] by auto
next
  case (Suc n)
  have later: ?case
    if e: "next_loop c p loc (Suc n) t = next_loop c p loc n (next_day loc t)" and today: "\<And>s. t \<le> s \<Longrightarrow> s < next_day loc t \<Longrightarrow> \<not> allowed c p loc s"
    using Suc.IH [of "next_day loc t"] next_day_after [of t loc] today unfolding e
    by (cases "next_loop c p loc n (next_day loc t)") (force simp: algebra_simps not_less)+
  show ?case
  proof (cases "activeWindow c p t loc")
    case None
    then show ?thesis using allowed_today [where t = t and loc = loc and c = c and p = p] by (intro later) auto
  next
    case (Some w)
    note w = active_proper [OF assms Some, unfolded proper_window_def]
    let ?s = "combineDate t loc (wnStart w)" and ?e = "combineDate t loc (wnEnd w)"
    have lt: "?s < ?e" "?s < next_day loc t" "?e \<le> next_day loc t" using w by (simp_all add: combine_minutes next_day_def algebra_simps)
    consider (before) "t < ?s" | (inside) "?s \<le> t" "t < ?e" | (after) "?e \<le> t" using lt by fastforce
    then show ?thesis
    proof cases
      case before
      then show ?thesis using Some lt allowed_today [where t = t and loc = loc and c = c and p = p] by auto
    next
      case inside
      then show ?thesis using Some lt allowed_today [where t = t and s = t and loc = loc and c = c and p = p] by auto
    next
      case after
      then show ?thesis using Some lt allowed_today [where t = t and loc = loc and c = c and p = p] by (intro later) auto
    qed
  qed
qed

text \<open>
  C31: the next permitted instant is the earliest. When every window of the tenant's policy starts
  before it ends, \<open>NextAllowed\<close> answers with an instant not before the given one at which
  \<open>IsAllowed\<close> holds while it holds at no instant in between; it gives up with
  \<open>ErrOutsideWorkingHours\<close> only if calling is forbidden throughout the fifteen local days from
  the given one on.
\<close>

theorem next_allowed_is_earliest:
  assumes "TimezoneForRegion z (ckRegions c) region = Inr loc" "policyFor c tenantID = Inr p" "proper_policy p"
  shows "case NextAllowed z c tenantID region t of
      Inr u \<Rightarrow> t \<le> u \<and> IsAllowed z c tenantID region u = Inr True \<and> (\<forall>s. t \<le> s \<and> s < u \<longrightarrow> IsAllowed z c tenantID region s = Inr False)
    | Inl e \<Rightarrow> e = ErrOutsideWorkingHours \<and>
        (\<forall>s. t \<le> s \<and> s < (local_day loc t + 15) * day_length - loc \<longrightarrow> IsAllowed z c tenantID region s = Inr False)"
  using next_loop_spec [OF assms(3), where c = c and loc = loc and n = 15 and t = t] assms(1,2)
  by (simp add: NextAllowed_def nextAllowedHorizon_def IsAllowed_allowed [OF assms(1,2)] numeral_eq_Suc split: sum.splits)

text \<open>
  An overnight window never opens. The parser accepts a window that ends before it starts;
  \<open>IsAllowed\<close> then refuses the whole day, but \<open>NextAllowed\<close>, asked before the start, answers with
  the start, an instant at which calling is forbidden.
\<close>

theorem overnight_window_is_promised_but_refused:
  assumes "TimezoneForRegion z (ckRegions c) region = Inr loc" "policyFor c tenantID = Inr p" "activeWindow c p t loc = Some w"
    and "minutes (wnEnd w) \<le> minutes (wnStart w)" "0 \<le> minutes (wnStart w)" "minutes (wnStart w) < 1440" "t < combineDate t loc (wnStart w)"
  shows "NextAllowed z c tenantID region t = Inr (combineDate t loc (wnStart w)) \<and>
    IsAllowed z c tenantID region (combineDate t loc (wnStart w)) = Inr False"
proof -
  let ?u = "combineDate t loc (wnStart w)"
  have d: "local_day loc ?u = local_day loc t" by (rule combine_in_day [OF assms(5,6)])
  have "activeWindow c p ?u loc = Some w" using active_same_day [OF d] assms(3) by simp
  moreover have "\<not> window_contains w ?u loc"
    using assms(4) combine_same_day [OF d, of "wnEnd w"] by (simp add: window_contains_def combine_minutes)
  ultimately have "IsAllowed z c tenantID region ?u = Inr False" by (simp add: IsAllowed_allowed [OF assms(1,2)] allowed_def)
  then show ?thesis using assms(1-3,7) by (simp add: NextAllowed_def nextAllowedHorizon_def eval_nat_numeral)
qed

section \<open>A tenant in Moscow\<close>

definition moscow_set :: region_set where
  "moscow_set = [\<lparr>rgCode = ''RU-MOW'', rgNameRU = ''Moskva'', rgNameEN = ''Moscow'', rgTimezone = ''Europe/Moscow'', rgABCFlag = False,
     rgDEFPrefixes = [''903'', ''916'']\<rparr>]"

definition moscow_zone :: zones where
  "moscow_zone = [''Europe/Moscow'' \<mapsto> 3 * hour]"

definition moscow :: "raw_policy option \<Rightarrow> Checker" where
  "moscow raw = NewChecker (\<lambda>_. Inr raw) moscow_set \<lparr>whWeekday = zero_window, whWeekend = zero_window, whExceptions = []\<rparr> None"

text \<open>8 March 2026, a holiday and a Sunday, at noon; the Monday after it at noon.\<close>

definition sunday_noon :: time where
  "sunday_noon = date 2026 3 8 * day_length + 9 * hour"

definition monday_noon :: time where
  "monday_noon = date 2026 3 9 * day_length + 9 * hour"

lemma moscow_ok: "TimezoneForRegion moscow_zone (ckRegions (moscow raw)) ''RU-MOW'' = Inr (3 * hour)"
  by (simp add: TimezoneForRegion_def RegionForCode_def moscow_def moscow_set_def moscow_zone_def NewChecker_def)

theorem next_allowed_is_earliest_witness:
  "NextAllowed moscow_zone (moscow None) 1 ''RU-MOW'' sunday_noon = Inr (date 2026 3 9 * day_length + 6 * hour) \<and>
   IsAllowed moscow_zone (moscow None) 1 ''RU-MOW'' (date 2026 3 9 * day_length + 6 * hour) = Inr True"
proof -
  have n: "NextAllowed moscow_zone (moscow None) 1 ''RU-MOW'' sunday_noon = Inr (date 2026 3 9 * day_length + 6 * hour)" by code_simp
  have p: "policyFor (moscow None) 1 = Inr DefaultPolicy" "proper_policy DefaultPolicy" by code_simp+
  from next_allowed_is_earliest [OF moscow_ok p(1) p(2), of sunday_noon] n show ?thesis by simp
qed

definition overnight :: raw_policy where
  "overnight = RawPolicy \<lparr>jpWeekday = Some \<lparr>jwStart = ''22:00'', jwEnd = ''06:00''\<rparr>, jpWeekend = None, jpExceptions = []\<rparr>"

theorem overnight_window_is_promised_but_refused_witness:
  "NextAllowed moscow_zone (moscow (Some overnight)) 1 ''RU-MOW'' monday_noon = Inr (date 2026 3 9 * day_length + 19 * hour) \<and>
   IsAllowed moscow_zone (moscow (Some overnight)) 1 ''RU-MOW'' (date 2026 3 9 * day_length + 19 * hour) = Inr False"
proof -
  let ?p = "\<lparr>whWeekday = \<lparr>wnStart = hm 22 0, wnEnd = hm 6 0\<rparr>, whWeekend = whWeekend DefaultPolicy, whExceptions = []\<rparr>"
  have p: "policyFor (moscow (Some overnight)) 1 = Inr ?p" by code_simp
  have a: "activeWindow (moscow (Some overnight)) ?p monday_noon (3 * hour) = Some (whWeekday ?p)" by code_simp
  have m: "minutes (wnEnd (whWeekday ?p)) \<le> minutes (wnStart (whWeekday ?p))" "0 \<le> minutes (wnStart (whWeekday ?p))" "minutes (wnStart (whWeekday ?p)) < 1440"
    by code_simp+
  have c: "combineDate monday_noon (3 * hour) (wnStart (whWeekday ?p)) = date 2026 3 9 * day_length + 19 * hour" by code_simp
  have "monday_noon < combineDate monday_noon (3 * hour) (wnStart (whWeekday ?p))" by code_simp
  from overnight_window_is_promised_but_refused [OF moscow_ok p a m this] show ?thesis unfolding c .
qed

end
