(* ===== verification/Rdd_Generator.thy ===== *)
theory Rdd_Generator
  imports Working_Hours Call_Queue "HOL-Library.List_Lexorder" "HOL-Library.Char_ord"
begin

text \<open>
  The random-digit generator (\<open>internal/dialer/rdd\<close>): the weighted choice of a region, the phone
  numbers, the token bucket per tenant, the two tiers of deduplication, and the generation run,
  which creates respondents in the CRM and puts them into the call queue of \<open>Call_Queue\<close>.

  The random source is given by its draws. The Bloom filter is a third-party package: a parameter
  with the laws the code relies on. The CRM is another module behind a one-method interface; its
  answer is an input of an attempt and the calls made to it are recorded. Token counts are kept in
  thousandths, in which the script's arithmetic is exact. A key that has expired on the server's
  clock (\<open>srv\<close>) is absent; \<open>now_ms\<close> is the caller's clock.
\<close>

section \<open>Regions by quota\<close>

record regionPicker =
  rpCodes :: "string list"
  rpCumulative :: "int list"
  rpTotal :: int

definition picker_step :: "(string \<rightharpoonup> int) \<Rightarrow> string \<Rightarrow> regionPicker \<Rightarrow> regionPicker" where
  "picker_step quotas c p =
     (let w = the (quotas c) in
      if w \<le> 0 then p
      else \<lparr>rpCodes = rpCodes p @ [c], rpCumulative = rpCumulative p @ [rpTotal p + w], rpTotal = rpTotal p + w\<rparr>)"

text \<open>The quota map is the association list of its entries.\<close>

definition buildRegionPicker :: "(string \<times> int) list \<Rightarrow> regionPicker" where
  "buildRegionPicker quotas = fold (picker_step (map_of quotas)) (sort (map fst quotas)) \<lparr>rpCodes = [], rpCumulative = [], rpTotal = 0\<rparr>"

text \<open>\<open>sort.SearchInts\<close>: the first index whose entry is not below the value.\<close>

definition SearchInts :: "int list \<Rightarrow> int \<Rightarrow> nat" where
  "SearchInts xs v = length (takeWhile (\<lambda>x. x < v) xs)"

text \<open>\<open>intn n\<close> is the draw \<open>rng.IntN(n)\<close>.\<close>

definition region_pick :: "regionPicker \<Rightarrow> (int \<Rightarrow> int) \<Rightarrow> string" where
  "region_pick p intn =
     (let r = intn (rpTotal p); idx = SearchInts (rpCumulative p) (r + 1);
          idx = (if idx \<ge> length (rpCodes p) then length (rpCodes p) - 1 else idx)
      in rpCodes p ! idx)"

section \<open>Phone numbers\<close>

record draws =
  drRegion :: "int \<Rightarrow> int"
  drPrefix :: "int \<Rightarrow> int"
  drDigits :: "int list"

definition pickPrefixForRegion :: "Region \<Rightarrow> (int \<Rightarrow> int) \<Rightarrow> string option" where
  "pickPrefixForRegion r intn =
     (if rgDEFPrefixes r = [] then None else Some (rgDEFPrefixes r ! nat (intn (int (length (rgDEFPrefixes r))))))"

text \<open>Seven draws below ten.\<close>

definition rollSubscriber :: "int list \<Rightarrow> string" where
  "rollSubscriber ds = map (\<lambda>d. digit_char (nat d)) ds"

definition composePhone :: "string \<Rightarrow> string \<Rightarrow> string" where
  "composePhone prefix subscriber = ''+7'' @ prefix @ subscriber"

definition validE164RU :: "string \<Rightarrow> bool" where
  "validE164RU phone =
     (if length phone \<noteq> 12 then False
      else if phone ! 0 \<noteq> CHR ''+'' \<or> phone ! 1 \<noteq> CHR ''7'' then False
      else list_all is_digit (drop 2 phone))"

definition rollAttempt :: "region_set \<Rightarrow> regionPicker \<Rightarrow> draws \<Rightarrow> string \<times> (string \<times> string) option" where
  "rollAttempt rs p d =
     (let code = region_pick p (drRegion d) in
      case RegionForCode rs code of
        None \<Rightarrow> (code, None)
      | Some r \<Rightarrow>
        (case pickPrefixForRegion r (drPrefix d) of
           None \<Rightarrow> (code, None)
         | Some prefix \<Rightarrow> (code, Some (prefix, rollSubscriber (drDigits d)))))"

section \<open>The token bucket\<close>

datatype rdd_error = ErrThrottled | ErrInvalidArgument | ErrTransport

record bucket =
  bkTokens :: int
  bkUpdated :: int

type_synonym 'v keyed = "('v \<times> time) option"

definition present :: "time \<Rightarrow> 'v keyed \<Rightarrow> 'v option" where
  "present srv k = (case k of None \<Rightarrow> None | Some (v, x) \<Rightarrow> if srv < x then Some v else None)"

definition leak_bucket_lua :: "int \<Rightarrow> int \<Rightarrow> int \<Rightarrow> int \<Rightarrow> time \<Rightarrow> bucket keyed \<Rightarrow> int \<times> bucket keyed" where
  "leak_bucket_lua capacity rate now_ms ttl srv k =
     (let (tokens, updated_ms) = (case present srv k of None \<Rightarrow> (capacity * 1000, now_ms) | Some b \<Rightarrow> (bkTokens b, bkUpdated b));
          elapsed = now_ms - updated_ms;
          elapsed = (if elapsed < 0 then 0 else elapsed);
          tokens = min (capacity * 1000) (tokens + elapsed * rate);
          (tokens, allowed) = (if tokens \<ge> 1000 then (tokens - 1000, 1) else (tokens, 0))
      in (allowed, Some (\<lparr>bkTokens = tokens, bkUpdated = now_ms\<rparr>, srv + ttl * second)))"

record LeakBucket =
  lbRate :: int
  lbTtl :: duration

definition newLeakBucket :: "int \<Rightarrow> duration \<Rightarrow> LeakBucket" where
  "newLeakBucket rate ttl = \<lparr>lbRate = rate, lbTtl = (if ttl \<le> 0 then hour else ttl)\<rparr>"

definition bucket_Allow :: "LeakBucket \<Rightarrow> call_outcome \<Rightarrow> time \<Rightarrow> time \<Rightarrow> bucket keyed \<Rightarrow> (rdd_error + bool) \<times> bucket keyed" where
  "bucket_Allow b net now srv k =
     (let (res, k') = leak_bucket_lua (lbRate b) (lbRate b) (UnixMilli now) (lbTtl b div second) srv k
      in case net of
           CallOk \<Rightarrow> (Inr (res = 1), k')
         | CallLost \<Rightarrow> (Inl ErrTransport, k)
         | ReplyLost \<Rightarrow> (Inl ErrTransport, k'))"

section \<open>Deduplication\<close>

record 'b bloom_lib =
  bfNew :: 'b
  bfAdd :: "'b \<Rightarrow> string \<Rightarrow> 'b"
  bfTest :: "'b \<Rightarrow> string \<Rightarrow> bool"

text \<open>What the code relies on: no false negatives.\<close>

locale bloom_filter =
  fixes B :: "'b bloom_lib"
  assumes test_added: "bfTest B (bfAdd B f x) x"
    and test_kept: "bfTest B f y \<Longrightarrow> bfTest B (bfAdd B f x) y"
begin

lemma test_fold: "x \<in> set xs \<or> bfTest B f x \<Longrightarrow> bfTest B (fold (\<lambda>x f. bfAdd B f x) xs f) x"
  by (induction xs arbitrary: f) (auto simp: test_added test_kept)

end

text \<open>The filter without false positives either.\<close>

definition exact_bloom :: "string list bloom_lib" where
  "exact_bloom = \<lparr>bfNew = [], bfAdd = (\<lambda>f x. x # f), bfTest = (\<lambda>f x. x \<in> set f)\<rparr>"

interpretation exact: bloom_filter exact_bloom
  by unfold_locales (simp_all add: exact_bloom_def)

text \<open>
  The scan that fills a new filter completes, fails after some members, or is stopped by the
  context.
\<close>

datatype scan = ScanOk | ScanError nat | ScanCancelled

definition dedup_mark_lua :: "string \<Rightarrow> int \<Rightarrow> time \<Rightarrow> string list keyed \<Rightarrow> (rdd_error + int) \<times> string list keyed" where
  "dedup_mark_lua phone ttl srv k =
     (if ttl \<le> 0 then (Inl ErrTransport, k) else
      let members = (case present srv k of None \<Rightarrow> [] | Some xs \<Rightarrow> xs);
          added = (if phone \<in> set members then 0 else 1);
          members = (if phone \<in> set members then members else members @ [phone])
      in (Inr added, Some (members, srv + ttl * second)))"

definition filterFor :: "'b bloom_lib \<Rightarrow> scan \<Rightarrow> time \<Rightarrow> string list keyed \<Rightarrow> 'b option \<Rightarrow> (rdd_error + 'b) \<times> 'b option" where
  "filterFor B sc srv k f =
     (case f of
        Some lf \<Rightarrow> (Inr lf, f)
      | None \<Rightarrow>
        let members = (case present srv k of None \<Rightarrow> [] | Some xs \<Rightarrow> xs);
            load = (\<lambda>xs. fold (\<lambda>x f. bfAdd B f x) xs (bfNew B))
        in case sc of
             ScanOk \<Rightarrow> (Inr (load members), Some (load members))
           | ScanError n \<Rightarrow> (Inl ErrTransport, Some (load (take n members)))
           | ScanCancelled \<Rightarrow> (Inl ErrTransport, None))"

definition Seen :: "'b bloom_lib \<Rightarrow> scan \<Rightarrow> call_outcome \<Rightarrow> time \<Rightarrow> string list keyed \<Rightarrow> 'b option \<Rightarrow> string \<Rightarrow> (rdd_error + bool) \<times> 'b option" where
  "Seen B sc net srv k f phone =
     (case filterFor B sc srv k f of
        (Inl e, f') \<Rightarrow> (Inl e, f')
      | (Inr lf, f') \<Rightarrow>
        if \<not> bfTest B lf phone then (Inr False, f')
        else if net \<noteq> CallOk then (Inl ErrTransport, f')
        else (Inr (case present srv k of None \<Rightarrow> False | Some xs \<Rightarrow> phone \<in> set xs), f'))"

definition MarkN ::
  "'b bloom_lib \<Rightarrow> duration \<Rightarrow> scan \<Rightarrow> call_outcome \<Rightarrow> time \<Rightarrow> string list keyed \<Rightarrow> 'b option \<Rightarrow> string
   \<Rightarrow> (rdd_error + int) \<times> string list keyed \<times> 'b option" where
  "MarkN B ttl sc net srv k f phone =
     (let f' = (case filterFor B sc srv k f of
                  (Inl _, f') \<Rightarrow> f'
                | (Inr lf, _) \<Rightarrow> Some (bfAdd B lf phone));
          (added, k') = dedup_mark_lua phone (ttl div second) srv k
      in case net of
           CallOk \<Rightarrow> (added, k', f')
         | CallLost \<Rightarrow> (Inl ErrTransport, k, f')
         | ReplyLost \<Rightarrow> (Inl ErrTransport, k', f'))"

section \<open>A run\<close>

text \<open>State: the filters of one process, the keys in Redis, the queue, and the calls made to the CRM.\<close>

record 'b rdd_world =
  rwFilters :: "uuid \<Rightarrow> 'b option"
  rwSeen :: "uuid \<Rightarrow> string list keyed"
  rwBuckets :: "uuid \<Rightarrow> bucket keyed"
  rwQueue :: qstore
  rwCreates :: "(uuid \<times> uuid \<times> string) list"

datatype crm_reply = CrmOk uuid | CrmPhoneInDNC | CrmInvalidPhone | CrmDuplicateRespondent | CrmFailed

record rdd_env =
  reNow :: time
  reSrv :: time
  reCancelled :: bool
  reDraws :: draws
  reBucketNet :: call_outcome
  reScan :: scan
  reSeenNet :: call_outcome
  reMarkNet :: call_outcome
  reCrm :: crm_reply
  reFreshID :: uuid
  reQueueNet :: call_outcome

record rdd_cfg =
  rcCodec :: codec
  rcRegions :: region_set
  rcBucket :: LeakBucket
  rcSetTTL :: duration

text \<open>\<open>ABCRatio\<close> is left out: its draw selects an argument that \<open>pickPrefixForRegion\<close> ignores.\<close>

record GenerateRequest =
  gqTenantID :: uuid
  gqProjectID :: uuid
  gqN :: int
  gqQuotas :: "(string \<times> int) list"

record GenerateResult =
  grGenerated :: int
  grByRegion :: "string \<Rightarrow> int"
  grDuplicatesHit :: int
  grDNCHit :: int
  grInvalidHit :: int
  grThrottled :: bool

definition empty_result :: GenerateResult where
  "empty_result = \<lparr>grGenerated = 0, grByRegion = (\<lambda>_. 0), grDuplicatesHit = 0, grDNCHit = 0, grInvalidHit = 0, grThrottled = False\<rparr>"

definition enqueue_request :: "GenerateRequest \<Rightarrow> uuid \<Rightarrow> string \<Rightarrow> string \<Rightarrow> EnqueueRequest" where
  "enqueue_request req rid phone region = \<lparr>erTenantID = gqTenantID req, erProjectID = gqProjectID req, erRespondentID = rid,
     erPriority = 0, erAttemptN = 0, erPhone = phone, erRegion = region\<rparr>"

definition attempt ::
  "'b bloom_lib \<Rightarrow> rdd_cfg \<Rightarrow> rdd_env \<Rightarrow> 'b rdd_world \<Rightarrow> GenerateRequest \<Rightarrow> regionPicker \<Rightarrow> GenerateResult
   \<Rightarrow> (rdd_error + unit) \<times> GenerateResult \<times> 'b rdd_world" where
  "attempt B cfg e w req picker out =
     (let t = gqTenantID req; invalid = (Inr (), out\<lparr>grInvalidHit := grInvalidHit out + 1\<rparr>, w) in
      case rollAttempt (rcRegions cfg) picker (reDraws e) of
        (region, None) \<Rightarrow> invalid
      | (region, Some (prefix, subscriber)) \<Rightarrow>
      let phone = composePhone prefix subscriber in
      if \<not> validE164RU phone then invalid
      else case Seen B (reScan e) (reSeenNet e) (reSrv e) (rwSeen w t) (rwFilters w t) phone of
        (Inl err, f) \<Rightarrow> (Inl err, out, w\<lparr>rwFilters := (rwFilters w)(t := f)\<rparr>)
      | (Inr True, f) \<Rightarrow> (Inr (), out\<lparr>grDuplicatesHit := grDuplicatesHit out + 1\<rparr>, w\<lparr>rwFilters := (rwFilters w)(t := f)\<rparr>)
      | (Inr False, f) \<Rightarrow>
     (case MarkN B (rcSetTTL cfg) (reScan e) (reMarkNet e) (reSrv e) (rwSeen w t) f phone of
        (_, k, f) \<Rightarrow>
        let w = w\<lparr>rwFilters := (rwFilters w)(t := f), rwSeen := (rwSeen w)(t := k), rwCreates := rwCreates w @ [(t, gqProjectID req, phone)]\<rparr>
        in case reCrm e of
             CrmPhoneInDNC \<Rightarrow> (Inr (), out\<lparr>grDNCHit := grDNCHit out + 1\<rparr>, w)
           | CrmInvalidPhone \<Rightarrow> (Inr (), out\<lparr>grInvalidHit := grInvalidHit out + 1\<rparr>, w)
           | CrmDuplicateRespondent \<Rightarrow> (Inr (), out\<lparr>grDuplicatesHit := grDuplicatesHit out + 1\<rparr>, w)
           | CrmFailed \<Rightarrow> (Inl ErrTransport, out, w)
           | CrmOk i \<Rightarrow>
             let rid = (if i = uuid_Nil then reFreshID e else i) in
             case EnqueueRespondent (rcCodec cfg) (reNow e) (reQueueNet e) (rwQueue w) (enqueue_request req rid phone region) of
               (Inl err, q) \<Rightarrow> (Inl ErrTransport, out, w\<lparr>rwQueue := q\<rparr>)
             | (Inr _, q) \<Rightarrow>
                 (Inr (), out\<lparr>grGenerated := grGenerated out + 1, grByRegion := (grByRegion out)(region := grByRegion out region + 1)\<rparr>,
                  w\<lparr>rwQueue := q\<rparr>)))"

text \<open>One environment per iteration; a run has as many as the request asks for.\<close>

fun generate_loop ::
  "'b bloom_lib \<Rightarrow> rdd_cfg \<Rightarrow> rdd_env list \<Rightarrow> 'b rdd_world \<Rightarrow> GenerateRequest \<Rightarrow> regionPicker \<Rightarrow> GenerateResult
   \<Rightarrow> rdd_error option \<times> GenerateResult \<times> 'b rdd_world" where
  "generate_loop B cfg [] w req picker out = (None, out, w)"
| "generate_loop B cfg (e # es) w req picker out =
     (if reCancelled e then (Some ErrTransport, out, w)
      else case bucket_Allow (rcBucket cfg) (reBucketNet e) (reNow e) (reSrv e) (rwBuckets w (gqTenantID req)) of
        (res, k) \<Rightarrow>
        let w = w\<lparr>rwBuckets := (rwBuckets w)(gqTenantID req := k)\<rparr>
        in case res of
             Inl err \<Rightarrow> (Some err, out, w)
           | Inr ok \<Rightarrow>
             if \<not> ok then (None, out\<lparr>grThrottled := True\<rparr>, w)
             else case attempt B cfg e w req picker out of
               (Inl err, out, w) \<Rightarrow> (Some err, out, w)
             | (Inr _, out, w) \<Rightarrow> generate_loop B cfg es w req picker out)"

definition Generate ::
  "'b bloom_lib \<Rightarrow> rdd_cfg \<Rightarrow> (nat \<Rightarrow> rdd_env) \<Rightarrow> 'b rdd_world \<Rightarrow> GenerateRequest \<Rightarrow> rdd_error option \<times> GenerateResult \<times> 'b rdd_world" where
  "Generate B cfg envs w req =
     (if gqN req \<le> 0 then (None, empty_result, w)
      else if gqTenantID req = uuid_Nil \<or> gqProjectID req = uuid_Nil then (Some ErrInvalidArgument, empty_result, w)
      else if gqQuotas req = [] then (Some ErrInvalidArgument, empty_result, w)
      else let picker = buildRegionPicker (gqQuotas req) in
      if rpCodes picker = [] then (Some ErrInvalidArgument, empty_result, w)
      else case generate_loop B cfg (map envs [0..<nat (gqN req)]) w req picker empty_result of
        (Some err, out, w) \<Rightarrow> (Some err, out, w)
      | (None, out, w) \<Rightarrow>
          (if grGenerated out = 0 \<and> grThrottled out then Some ErrThrottled else None, out, w))"

end
