(* ===== verification/Rdd_Properties.thy ===== *)
theory Rdd_Properties
  imports Rdd_Generator
begin

text \<open>
  Properties of the generator: the rate a token bucket admits and what clock skew does to it,
  regions drawn in proportion to their quotas, and which phones are generated twice.
\<close>

section \<open>The rate\<close>

text \<open>Calls of a bucket: the caller's clock, the server's clock, and the fate of the call.\<close>

fun allow_run :: "LeakBucket \<Rightarrow> (time \<times> time \<times> call_outcome) list \<Rightarrow> bucket keyed \<Rightarrow> (rdd_error + bool) list" where
  "allow_run b [] k = []"
| "allow_run b ((now, srv, net) # xs) k = (case bucket_Allow b net now srv k of (r, k') \<Rightarrow> r # allow_run b xs k')"

abbreviation admitted :: "(rdd_error + bool) list \<Rightarrow> nat" where
  "admitted rs \<equiv> length (filter (\<lambda>r. r = Inr True) rs)"

text \<open>A key the bucket has written at some instant \<open>t\<close>.\<close>

definition bucket_ok :: "LeakBucket \<Rightarrow> time \<Rightarrow> bucket keyed \<Rightarrow> bool" where
  "bucket_ok b t k \<longleftrightarrow> (case k of None \<Rightarrow> True | Some (v, x) \<Rightarrow>
     0 \<le> bkTokens v \<and> (\<exists>t0 \<le> t. bkUpdated v = UnixMilli t0 \<and> x = t0 + lbTtl b div second * second))"

text \<open>What the bucket holds at an instant, in thousandths.\<close>

definition level :: "LeakBucket \<Rightarrow> time \<Rightarrow> bucket keyed \<Rightarrow> int" where
  "level b t k = (case k of None \<Rightarrow> lbRate b * 1000
     | Some (v, x) \<Rightarrow> min (lbRate b * 1000) (bkTokens v + (UnixMilli t - bkUpdated v) * lbRate b))"

lemma UnixMilli_seconds: "UnixMilli (t + n * second) = UnixMilli t + n * 1000"
proof -
  have "t + n * second = t + n * 1000 * millisecond" by simp
  then show ?thesis unfolding UnixMilli_def by simp
qed

lemma level_mono: "s \<le> t \<Longrightarrow> 0 \<le> lbRate b \<Longrightarrow> level b t k \<le> level b s k + (UnixMilli t - UnixMilli s) * lbRate b"
  using mult_right_mono [OF UnixMilli_mono [of s t], of "lbRate b"] by (auto simp: level_def algebra_simps split: option.splits)

text \<open>An expired key is a full bucket: the time to live is enough to refill it.\<close>

lemma expired_full:
  assumes "bucket_ok b t k" "k = Some (v, x)" "x \<le> t" "second \<le> lbTtl b" "0 \<le> lbRate b"
  shows "level b t k = lbRate b * 1000"
proof -
  let ?n = "lbTtl b div second"
  obtain t0 where t0: "bkUpdated v = UnixMilli t0" "x = t0 + ?n * second" "0 \<le> bkTokens v" using assms(1,2) by (auto simp: bucket_ok_def)
  have "1 \<le> ?n" using assms(4) zdiv_mono1 [of second "lbTtl b" second] by simp
  then have "1000 \<le> UnixMilli t - bkUpdated v" using UnixMilli_mono [OF assms(3)] t0 by (simp add: UnixMilli_seconds)
  then have "1000 * lbRate b \<le> (UnixMilli t - bkUpdated v) * lbRate b" using assms(5) by (rule mult_right_mono)
  then show ?thesis using assms(2) t0(3) by (simp add: level_def)
qed

lemma script_level:
  assumes "bucket_ok b t k" "second \<le> lbTtl b" "0 < lbRate b"
    and "leak_bucket_lua (lbRate b) (lbRate b) (UnixMilli t) (lbTtl b div second) t k = (r, k')"
  shows "level b t k' = level b t k - (if r = 1 then 1000 else 0)" "bucket_ok b t k'" "r = 1 \<longrightarrow> 1000 \<le> level b t k"
proof -
  define tk where "tk = level b t k"
  have nn: "0 \<le> tk" using assms(1,3) UnixMilli_mono [of _ t] by (auto simp: tk_def level_def bucket_ok_def split: option.splits)
  have le: "bkUpdated v \<le> UnixMilli t" if "k = Some (v, x)" for v x using assms(1) that UnixMilli_mono by (auto simp: bucket_ok_def)
  have "(case present t k of None \<Rightarrow> (lbRate b * 1000, UnixMilli t) | Some v \<Rightarrow> (bkTokens v, bkUpdated v)) = (p, q)
      \<Longrightarrow> min (lbRate b * 1000) (p + (if UnixMilli t - q < 0 then 0 else UnixMilli t - q) * lbRate b) = tk" for p q
    using expired_full [OF assms(1) _ _ assms(2)] assms(3) le
    by (cases k) (force simp: present_def level_def tk_def not_less split: if_splits)+
  then have "r = (if 1000 \<le> tk then 1 else 0)"
    "k' = Some (\<lparr>bkTokens = (if 1000 \<le> tk then tk - 1000 else tk), bkUpdated = UnixMilli t\<rparr>, t + lbTtl b div second * second)"
    using assms(4) unfolding leak_bucket_lua_def Let_def by (auto split: prod.splits if_splits)
  then show "level b t k' = level b t k - (if r = 1 then 1000 else 0)" "bucket_ok b t k'" "r = 1 \<longrightarrow> 1000 \<le> level b t k"
    using nn by (auto simp: level_def bucket_ok_def tk_def split: option.splits)
qed

lemma allow_run_bound:
  assumes "bucket_ok b t k" "second \<le> lbTtl b" "0 < lbRate b" "sorted (t # ts)"
  shows "1000 * int (admitted (allow_run b (map (\<lambda>(t, net). (t, t, net)) (zip ts nets)) k)) \<le> level b t k + (UnixMilli (last (t # ts)) - UnixMilli t) * lbRate b"
  using assms(1,4)
proof (induction ts arbitrary: t k nets)
  case Nil
  then show ?case using assms(3) UnixMilli_mono [of _ t] by (auto simp: level_def bucket_ok_def split: option.splits)
next
  case (Cons s ts)
  have nn: "0 \<le> level b t k + (UnixMilli (last (t # s # ts)) - UnixMilli t) * lbRate b"
  proof -
    have "t \<le> last (t # s # ts)" using Cons.prems(2) by (metis last_in_set list.distinct(1) list.set_intros(1) sorted_simps(2) order_refl set_ConsD)
    then have "0 \<le> (UnixMilli (last (t # s # ts)) - UnixMilli t) * lbRate b" using assms(3) UnixMilli_mono by simp
    moreover have "0 \<le> level b t k" using Cons.prems(1) assms(3) UnixMilli_mono [of _ t] by (auto simp: level_def bucket_ok_def split: option.splits)
    ultimately show ?thesis by simp
  qed
  show ?case
  proof (cases nets)
    case Nil
    then show ?thesis using nn by simp
  next
    case n: (Cons net nets')
    have st: "t \<le> s" "sorted (s # ts)" using Cons.prems(2) by simp_all
    have ok: "bucket_ok b s k" using Cons.prems(1) st(1) by (force simp: bucket_ok_def split: option.splits)
    obtain r k' where sc: "leak_bucket_lua (lbRate b) (lbRate b) (UnixMilli s) (lbTtl b div second) s k = (r, k')" by force
    note spec = script_level [OF ok assms(2,3) sc]
    define ans key where "ans = fst (bucket_Allow b net s s k)" and "key = snd (bucket_Allow b net s s k)"
    have e: "bucket_Allow b net s s k = (ans, key)" by (simp add: ans_def key_def)
    have step: "bucket_ok b s key" "1000 * (if ans = Inr True then 1 else 0) + level b s key \<le> level b s k"
      using spec ok sc e by (auto simp: bucket_Allow_def split: call_outcome.splits if_splits)
    show ?thesis using Cons.IH [OF step(1) st(2), of nets'] step(2) level_mono [OF st(1), of b k] assms(3) n e
      by (simp add: algebra_simps split: if_splits)
  qed
qed



text \<open>
  Clock skew defeats the rate. The script stores the caller's clock even when it lies behind the
  stored one, so two callers whose clocks differ by the time in which two tokens are refilled are
  admitted without end, however fast they call in turn.
\<close>

theorem clock_skew_defeats_rate:
  assumes "2 \<le> lbRate b" "second \<le> lbTtl b" "2000 \<le> (UnixMilli hi - UnixMilli lo) * lbRate b"
  shows "allow_run b (concat (replicate n [(hi, srv, CallOk), (lo, srv, CallOk)])) None = replicate (2 * n) (Inr True)"
proof -
  let ?r = "lbRate b" and ?x = "srv + lbTtl b div second * second"
  have d: "1 \<le> lbTtl b div second" using assms(2) zdiv_mono1 [of second "lbTtl b" second] by simp
  have lt: "UnixMilli lo < UnixMilli hi"
    using assms(1,3) mult_nonpos_nonneg [of "UnixMilli hi - UnixMilli lo" ?r] by (auto simp: not_less intro: ccontr)
  have step: "\<exists>k'. allow_run b ((hi, srv, CallOk) # (lo, srv, CallOk) # xs) k = Inr True # Inr True # allow_run b xs k' \<and>
      (\<exists>n. 0 \<le> n \<and> k' = Some (\<lparr>bkTokens = n, bkUpdated = UnixMilli lo\<rparr>, ?x))"
    if k: "k = None \<or> (\<exists>n. 0 \<le> n \<and> k = Some (\<lparr>bkTokens = n, bkUpdated = UnixMilli lo\<rparr>, ?x))" for k xs
  proof -
    define m where "m = min (?r * 1000) (case k of None \<Rightarrow> ?r * 1000 | Some (v, x) \<Rightarrow> bkTokens v + (UnixMilli hi - UnixMilli lo) * ?r)"
    have m: "2000 \<le> m" "m \<le> ?r * 1000" using k assms(1,3) by (auto simp: m_def split: option.splits)
    have hi: "bucket_Allow b CallOk hi srv k = (Inr True, Some (\<lparr>bkTokens = m - 1000, bkUpdated = UnixMilli hi\<rparr>, ?x))"
      using k m lt d by (auto simp: bucket_Allow_def leak_bucket_lua_def Let_def present_def m_def)
    have lo: "bucket_Allow b CallOk lo srv (Some (\<lparr>bkTokens = m - 1000, bkUpdated = UnixMilli hi\<rparr>, ?x)) =
        (Inr True, Some (\<lparr>bkTokens = m - 2000, bkUpdated = UnixMilli lo\<rparr>, ?x))"
      using m lt d by (simp add: bucket_Allow_def leak_bucket_lua_def Let_def present_def)
    have "0 \<le> m - 2000" using m by simp
    then show ?thesis by (auto simp: hi lo)
  qed
  have "allow_run b (concat (replicate n [(hi, srv, CallOk), (lo, srv, CallOk)])) k = replicate (2 * n) (Inr True)"
    if "k = None \<or> (\<exists>n. 0 \<le> n \<and> k = Some (\<lparr>bkTokens = n, bkUpdated = UnixMilli lo\<rparr>, ?x))" for k
    using that
  proof (induction n arbitrary: k)
    case (Suc n)
    obtain k' where "allow_run b ((hi, srv, CallOk) # (lo, srv, CallOk) # concat (replicate n [(hi, srv, CallOk), (lo, srv, CallOk)])) k =
        Inr True # Inr True # allow_run b (concat (replicate n [(hi, srv, CallOk), (lo, srv, CallOk)])) k'"
      "\<exists>n. 0 \<le> n \<and> k' = Some (\<lparr>bkTokens = n, bkUpdated = UnixMilli lo\<rparr>, ?x)" using step [OF Suc.prems] by blast
    then show ?case using Suc.IH [of k'] by simp
  qed simp
  then show ?thesis by blast
qed

theorem clock_skew_defeats_rate_witness:
  "allow_run (newLeakBucket 10 hour) (concat (replicate 1000 [(second, 0, CallOk), (0, 0, CallOk)])) None = replicate 2000 (Inr True)"
proof -
  have "2 \<le> lbRate (newLeakBucket 10 hour)" "second \<le> lbTtl (newLeakBucket 10 hour)"
    "2000 \<le> (UnixMilli second - UnixMilli 0) * lbRate (newLeakBucket 10 hour)" by code_simp+
  from clock_skew_defeats_rate [OF this, of 1000 0] show ?thesis by simp
qed

section \<open>Regions\<close>

fun cums :: "int \<Rightarrow> int list \<Rightarrow> int list" where
  "cums a [] = []"
| "cums a (w # ws) = (a + w) # cums (a + w) ws"

lemma length_cums [simp]: "length (cums a ws) = length ws"
  by (induction ws arbitrary: a) simp_all

lemma picker_fold:
  "fold (picker_step q) xs p =
     \<lparr>rpCodes = rpCodes p @ filter (\<lambda>c. 0 < the (q c)) xs,
      rpCumulative = rpCumulative p @ cums (rpTotal p) (map (\<lambda>c. the (q c)) (filter (\<lambda>c. 0 < the (q c)) xs)),
      rpTotal = rpTotal p + sum_list (map (\<lambda>c. the (q c)) (filter (\<lambda>c. 0 < the (q c)) xs))\<rparr>"
  by (induction xs arbitrary: p) (auto simp: picker_step_def Let_def)

text \<open>The search lands in the band of the weight that covers the draw.\<close>

lemma SearchInts_Cons: "SearchInts (x # xs) v = (if x < v then Suc (SearchInts xs v) else 0)"
  by (simp add: SearchInts_def)

lemma search_band:
  assumes "\<And>w. w \<in> set ws \<Longrightarrow> 0 < w" "a \<le> r" "i < length ws"
  shows "SearchInts (cums a ws) (r + 1) = i \<longleftrightarrow> a + sum_list (take i ws) \<le> r \<and> r < a + sum_list (take (Suc i) ws)"
  using assms
proof (induction ws arbitrary: a i)
  case (Cons w ws)
  have nn: "0 \<le> sum_list (take j ws)" for j using Cons.prems(1) by (intro sum_list_nonneg) (auto dest!: in_set_takeD intro: less_imp_le)
  show ?case
  proof (cases i)
    case 0
    then show ?thesis using Cons.prems(2) by (auto simp: SearchInts_Cons)
  next
    case (Suc j)
    have "SearchInts (cums (a + w) ws) (r + 1) = j \<longleftrightarrow> a + w + sum_list (take j ws) \<le> r \<and> r < a + w + sum_list (take (Suc j) ws)" if "a + w \<le> r"
      using Cons.IH [of "a + w" j] Cons.prems that Suc by simp
    then show ?thesis using Suc nn [of j] by (auto simp: SearchInts_Cons add.assoc)
  qed
qed simp

lemma search_total:
  assumes "r < a + sum_list ws" "\<And>w. w \<in> set ws \<Longrightarrow> 0 < w"
  shows "ws \<noteq> [] \<longrightarrow> SearchInts (cums a ws) (r + 1) < length ws"
  using assms
proof (induction ws arbitrary: a)
  case (Cons w ws)
  then show ?case by (cases "ws = []") (auto simp: SearchInts_Cons add.assoc)
qed simp

text \<open>The draws that select the region at a position of the picker.\<close>

lemma pick_band:
  assumes "p = \<lparr>rpCodes = cs, rpCumulative = cums 0 ws, rpTotal = sum_list ws\<rparr>" "length ws = length cs" "distinct cs"
    and "\<And>w. w \<in> set ws \<Longrightarrow> 0 < w" "i < length cs"
  shows "{r \<in> {0..<rpTotal p}. region_pick p (\<lambda>_. r) = cs ! i} = {sum_list (take i ws)..<sum_list (take (Suc i) ws)}"
proof -
  have nn: "0 \<le> sum_list xs" if "set xs \<subseteq> set ws" for xs using that assms(4) by (intro sum_list_nonneg) (auto intro: less_imp_le)
  have "region_pick p (\<lambda>_. r) = cs ! i \<longleftrightarrow> sum_list (take i ws) \<le> r \<and> r < sum_list (take (Suc i) ws)" if r: "r \<in> {0..<rpTotal p}" for r
  proof -
    let ?j = "SearchInts (cums 0 ws) (r + 1)"
    have "?j < length cs" using search_total [of r 0 ws] assms(1,2,4) r by (cases "ws = []") auto
    then have "region_pick p (\<lambda>_. r) = cs ! i \<longleftrightarrow> ?j = i" using assms(3,5) by (simp add: assms(1) region_pick_def Let_def nth_eq_iff_index_eq)
    moreover have "?j = i \<longleftrightarrow> 0 + sum_list (take i ws) \<le> r \<and> r < 0 + sum_list (take (Suc i) ws)"
      by (rule search_band) (use assms r in auto)
    ultimately show ?thesis by simp
  qed
  moreover have "0 \<le> sum_list (take i ws)" "sum_list (take (Suc i) ws) \<le> rpTotal p"
    using nn [OF set_take_subset] nn [OF set_drop_subset [of "Suc i"]] sum_list_append [of "take (Suc i) ws" "drop (Suc i) ws"] by (simp_all add: assms(1))
  ultimately show ?thesis by (intro Collect_cong set_eqI) auto
qed

lemma pick_drawn:
  assumes "p = \<lparr>rpCodes = cs, rpCumulative = cums 0 ws, rpTotal = sum_list ws\<rparr>" "length ws = length cs"
    and "\<And>w. w \<in> set ws \<Longrightarrow> 0 < w" "r \<in> {0..<rpTotal p}"
  shows "region_pick p (\<lambda>_. r) \<in> set cs"
  using search_total [of r 0 ws] assms by (cases "ws = []") (auto simp: region_pick_def Let_def)

text \<open>
  Regions are drawn in proportion to their quotas. Among the equally likely draws below the total
  of the positive quotas, exactly as many select a region as its quota says, and a region without
  a positive quota is never selected.
\<close>

theorem regions_drawn_in_proportion:
  assumes "distinct (map fst quotas)" "(code, q) \<in> set quotas"
  defines "p \<equiv> buildRegionPicker quotas"
  shows "card {r \<in> {0..<rpTotal p}. region_pick p (\<lambda>_. r) = code} = nat q"
proof -
  let ?q = "\<lambda>c. the (map_of quotas c)"
  define cs where "cs = filter (\<lambda>c. 0 < ?q c) (sort (map fst quotas))"
  define ws where "ws = map ?q cs"
  have p: "p = \<lparr>rpCodes = cs, rpCumulative = cums 0 ws, rpTotal = sum_list ws\<rparr>"
    by (simp add: p_def buildRegionPicker_def picker_fold cs_def ws_def)
  have pos: "\<And>w. w \<in> set ws \<Longrightarrow> 0 < w" and len: "length ws = length cs" and dist: "distinct cs"
    using assms(1) by (auto simp: ws_def cs_def)
  have q: "?q code = q" using assms(1,2) by (simp add: map_of_is_SomeI)
  show ?thesis
  proof (cases "0 < q")
    case False
    have "code \<notin> set cs" using False q by (simp add: cs_def)
    then have "{r \<in> {0..<rpTotal p}. region_pick p (\<lambda>_. r) = code} = {}" using pick_drawn [OF p len pos] by blast
    then show ?thesis using False by (simp only: card.empty)
  next
    case True
    have "code \<in> set cs" using True q assms(2) by (force simp: cs_def)
    then obtain i where i: "i < length cs" "cs ! i = code" by (auto simp: in_set_conv_nth)
    then have "sum_list (take (Suc i) ws) = sum_list (take i ws) + q" using q by (simp add: take_Suc_conv_app_nth ws_def)
    then show ?thesis using pick_band [OF p len dist pos i(1)] i(2) by simp
  qed
qed

theorem regions_drawn_in_proportion_witness:
  "card {r \<in> {0..<rpTotal (buildRegionPicker [(''RU-SPE'', 2), (''RU-MOW'', 3), (''RU-KAM'', 0)])}.
     region_pick (buildRegionPicker [(''RU-SPE'', 2), (''RU-MOW'', 3), (''RU-KAM'', 0)]) (\<lambda>_. r) = ''RU-MOW''} = 3"
  using regions_drawn_in_proportion [of "[(''RU-SPE'', 2), (''RU-MOW'', 3), (''RU-KAM'', 0)]" "''RU-MOW''" 3] by simp

section \<open>Deduplication\<close>

text \<open>The phones of a tenant handed to the CRM.\<close>

definition phones :: "uuid \<Rightarrow> 'b rdd_world \<Rightarrow> string list" where
  "phones t w = map (\<lambda>(_, _, p). p) (filter (\<lambda>(t', _, _). t' = t) (rwCreates w))"

text \<open>Every such phone is in the filter and in the set, which lasts until \<open>deadline\<close>.\<close>

definition remembered :: "'b bloom_lib \<Rightarrow> time \<Rightarrow> uuid \<Rightarrow> 'b rdd_world \<Rightarrow> bool" where
  "remembered B deadline t w \<longleftrightarrow> distinct (phones t w) \<and>
     (\<forall>p \<in> set (phones t w). (\<exists>f. rwFilters w t = Some f \<and> bfTest B f p) \<and> (\<exists>ms x. rwSeen w t = Some (ms, x) \<and> p \<in> set ms \<and> deadline \<le> x))"

definition env_ok :: "duration \<Rightarrow> time \<Rightarrow> rdd_env \<Rightarrow> bool" where
  "env_ok ttl deadline e \<longleftrightarrow> reMarkNet e \<noteq> CallLost \<and> reSrv e < deadline \<and> deadline \<le> reSrv e + ttl div second * second"

lemma Seen_False:
  assumes "Seen B sc net srv k f phone = (Inr False, f')"
  shows "(\<exists>lf. f' = Some lf \<and> (bfTest B lf phone \<longrightarrow> (\<forall>ms x. k = Some (ms, x) \<longrightarrow> srv < x \<longrightarrow> phone \<notin> set ms))) \<and> (\<forall>lf. f = Some lf \<longrightarrow> f' = Some lf)"
  using assms by (auto simp: Seen_def filterFor_def present_def Let_def split: option.splits scan.splits if_splits prod.splits sum.splits)

lemma Seen_filter:
  "Seen B sc net srv k f phone = (r, f') \<Longrightarrow> f = Some lf \<Longrightarrow> f' = Some lf"
  by (auto simp: Seen_def filterFor_def split: if_splits option.splits)

lemma remembered_other:
  assumes "remembered B d t w" "\<And>lf. rwFilters w t = Some lf \<Longrightarrow> rwFilters w' t = Some lf" "rwSeen w' t = rwSeen w t" "phones t w' = phones t w"
  shows "remembered B d t w'"
  using assms by (fastforce simp: remembered_def)

lemma remembered_mark:
  assumes "bloom_filter B" "remembered B d t w" "Seen B sc net srv (rwSeen w t) (rwFilters w t) phone = (Inr False, f)"
    and "MarkN B ttl sc' mnet srv (rwSeen w t) f phone = (r, k', f')" "mnet \<noteq> CallLost" "srv < d" "d \<le> srv + ttl div second * second"
    and "rwFilters w' t = f'" "rwSeen w' t = k'" "phones t w' = phones t w @ [phone]"
  shows "remembered B d t w'"
proof -
  obtain lf where lf: "f = Some lf" "bfTest B lf phone \<longrightarrow> (\<forall>ms x. rwSeen w t = Some (ms, x) \<longrightarrow> srv < x \<longrightarrow> phone \<notin> set ms)"
      "\<forall>g. rwFilters w t = Some g \<longrightarrow> lf = g"
    using Seen_False [OF assms(3)] by auto
  have ttl: "0 < ttl div second" using assms(6,7) by (smt (verit) mult_nonpos_nonneg)
  have new: "phone \<notin> set (phones t w)" using assms(2,6) lf by (force simp: remembered_def)
  have f': "f' = Some (bfAdd B lf phone)" using assms(4) lf(1) by (auto simp: MarkN_def filterFor_def Let_def split: call_outcome.splits prod.splits)
  obtain ms where k': "k' = Some (ms, srv + ttl div second * second)" "phone \<in> set ms"
    "\<And>xs x p. rwSeen w t = Some (xs, x) \<Longrightarrow> srv < x \<Longrightarrow> p \<in> set xs \<Longrightarrow> p \<in> set ms"
    using assms(4,5) ttl by (cases mnet) (auto simp: MarkN_def dedup_mark_lua_def present_def Let_def split: option.splits if_splits prod.splits)
  have old: "bfTest B (bfAdd B lf phone) p \<and> p \<in> set ms" if "p \<in> set (phones t w)" for p
    using assms(2,6) that lf(3) k'(3) bloom_filter.test_kept [OF assms(1)] by (fastforce simp: remembered_def)
  show ?thesis using assms(2,7-10) new old f' k'(1,2) bloom_filter.test_added [OF assms(1)]
    by (auto simp: remembered_def)
qed

text \<open>What an attempt leaves, by how far it came: nothing, a loaded filter, or a marked phone handed to the CRM.\<close>

lemma attempt_cases:
  assumes "attempt B cfg e w req picker out = (r, out', w')"
  obtains (same) "w' = w"
    | (seen) ph f x where "Seen B (reScan e) (reSeenNet e) (reSrv e) (rwSeen w (gqTenantID req)) (rwFilters w (gqTenantID req)) ph = (x, f)"
      "w' = w\<lparr>rwFilters := (rwFilters w)(gqTenantID req := f)\<rparr>"
    | (mark) ph f y k g where "Seen B (reScan e) (reSeenNet e) (reSrv e) (rwSeen w (gqTenantID req)) (rwFilters w (gqTenantID req)) ph = (Inr False, f)"
      "MarkN B (rcSetTTL cfg) (reScan e) (reMarkNet e) (reSrv e) (rwSeen w (gqTenantID req)) f ph = (y, k, g)"
      "rwFilters w' = (rwFilters w)(gqTenantID req := g)" "rwSeen w' = (rwSeen w)(gqTenantID req := k)"
      "rwCreates w' = rwCreates w @ [(gqTenantID req, gqProjectID req, ph)]"
proof -
  obtain region ro where roll: "rollAttempt (rcRegions cfg) picker (reDraws e) = (region, ro)" by force
  show ?thesis
  proof (cases ro)
    case None
    then show ?thesis using assms roll same by (simp add: attempt_def)
  next
    case (Some ps)
    obtain prefix sub where ps: "ps = (prefix, sub)" by force
    let ?ph = "composePhone prefix sub"
    obtain x f where sn: "Seen B (reScan e) (reSeenNet e) (reSrv e) (rwSeen w (gqTenantID req)) (rwFilters w (gqTenantID req)) ?ph = (x, f)" by force
    obtain y k g where mk: "MarkN B (rcSetTTL cfg) (reScan e) (reMarkNet e) (reSrv e) (rwSeen w (gqTenantID req)) f ?ph = (y, k, g)" by (metis prod_cases3)
    note known = assms roll Some ps sn mk
    consider "\<not> validE164RU ?ph" | "validE164RU ?ph" "x \<noteq> Inr False" | "validE164RU ?ph" "x = Inr False" by blast
    then show ?thesis
    proof cases
      case 1
      then show ?thesis using known same by (simp add: attempt_def Let_def)
    next
      case 2
      then show ?thesis using known seen [OF sn] by (auto simp: attempt_def Let_def split: sum.splits bool.splits)
    next
      case 3
      then show ?thesis using known by (intro mark [OF sn [unfolded 3] mk]) (auto simp: attempt_def Let_def split: sum.splits prod.splits crm_reply.splits)
    qed
  qed
qed

lemma remembered_attempt:
  assumes "bloom_filter B" "remembered B d t w" "env_ok (rcSetTTL cfg) d e" "attempt B cfg e w req picker out = (r, out', w')"
  shows "remembered B d t w'"
  using assms(4)
proof (cases rule: attempt_cases)
  case same
  then show ?thesis using assms(2) by simp
next
  case seen
  then show ?thesis using Seen_filter [OF seen(1)] by (intro remembered_other [OF assms(2)]) (auto simp: phones_def)
next
  case mark
  show ?thesis
  proof (cases "gqTenantID req = t")
    case True
    then show ?thesis using assms(3) mark by (intro remembered_mark [OF assms(1,2)]) (auto simp: env_ok_def phones_def)
  next
    case False
    then show ?thesis using mark(3-5) by (intro remembered_other [OF assms(2)]) (auto simp: phones_def)
  qed
qed

lemma remembered_loop:
  assumes "bloom_filter B" "remembered B d t w" "\<And>e. e \<in> set es \<Longrightarrow> env_ok (rcSetTTL cfg) d e" "generate_loop B cfg es w req picker out = (res, out', w')"
  shows "remembered B d t w'"
  using assms(2-4)
proof (induction es arbitrary: w out)
  case (Cons e es)
  have b: "remembered B d t (w\<lparr>rwBuckets := x\<rparr>)" for x using Cons.prems(1) by (simp add: remembered_def phones_def)
  define r k where "r = fst (bucket_Allow (rcBucket cfg) (reBucketNet e) (reNow e) (reSrv e) (rwBuckets w (gqTenantID req)))"
    and "k = snd (bucket_Allow (rcBucket cfg) (reBucketNet e) (reNow e) (reSrv e) (rwBuckets w (gqTenantID req)))"
  define v where "v = w\<lparr>rwBuckets := (rwBuckets w)(gqTenantID req := k)\<rparr>"
  have v: "remembered B d t v" using b by (simp add: v_def)
  obtain a o1 w1 where att: "attempt B cfg e v req picker out = (a, o1, w1)" by (metis prod_cases3)
  have w1: "remembered B d t w1" by (rule remembered_attempt [OF assms(1) v _ att]) (simp add: Cons.prems(2))
  have "w' = w \<or> w' = v \<or> w' = w1 \<or> generate_loop B cfg es w1 req picker o1 = (res, out', w')"
    using Cons.prems(3) att by (auto simp: Let_def v_def k_def split: if_splits prod.splits sum.splits)
  then show ?case using Cons.IH [OF w1, of o1] Cons.prems(1,2) v w1 by auto
qed simp

text \<open>Runs of one process, one after another.\<close>

fun generate_runs :: "'b bloom_lib \<Rightarrow> rdd_cfg \<Rightarrow> ((nat \<Rightarrow> rdd_env) \<times> GenerateRequest) list \<Rightarrow> 'b rdd_world \<Rightarrow> 'b rdd_world" where
  "generate_runs B cfg [] w = w"
| "generate_runs B cfg ((envs, req) # rs) w = generate_runs B cfg rs (snd (snd (Generate B cfg envs w req)))"

lemma remembered_Generate:
  assumes "bloom_filter B" "remembered B d t w" "\<And>i. i < nat (gqN req) \<Longrightarrow> env_ok (rcSetTTL cfg) d (envs i)"
  shows "remembered B d t (snd (snd (Generate B cfg envs w req)))"
proof -
  let ?run = "generate_loop B cfg (map envs [0..<nat (gqN req)]) w req (buildRegionPicker (gqQuotas req)) empty_result"
  obtain r out w' where run: "?run = (r, out, w')" by (metis prod_cases3)
  have "remembered B d t w'" by (rule remembered_loop [OF assms(1,2) _ run]) (auto intro: assms(3))
  then show ?thesis using assms(2) run by (simp add: Generate_def Let_def split: option.splits)
qed

text \<open>
  C33: a number is generated once. Over any sequence of runs of one process, whatever the random draws,
  the CRM and the queue answer and whichever scans, lookups and replies fail, no phone of a tenant is
  handed to the CRM twice, provided every mark reaches Redis and all of it happens within one time to
  live of the set.
\<close>

theorem phone_generated_once:
  assumes "bloom_filter B" "phones t w = []"
    and "\<And>envs req i. (envs, req) \<in> set rs \<Longrightarrow> i < nat (gqN req) \<Longrightarrow> env_ok (rcSetTTL cfg) d (envs i)"
  shows "distinct (phones t (generate_runs B cfg rs w))"
proof -
  have "remembered B d t (generate_runs B cfg rs w)" if "remembered B d t w" for w
    using that assms(3)
  proof (induction rs arbitrary: w)
    case (Cons r rs)
    obtain envs req where r: "r = (envs, req)" by force
    have "remembered B d t (snd (snd (Generate B cfg envs w req)))"
      by (rule remembered_Generate [OF assms(1) Cons.prems(1)]) (use Cons.prems(2) r in auto)
    from Cons.IH [OF this] show ?case using Cons.prems(2) r by fastforce
  qed simp
  moreover have "remembered B d t w" using assms(2) by (simp add: remembered_def)
  ultimately show ?thesis by (simp add: remembered_def)
qed

text \<open>
  A phone is skipped only when both tiers know it. Once a process has loaded a tenant's filter,
  a valid number is handed to the CRM unless the filter and the live set both contain it: numbers a
  peer process marks later, and numbers whose mark never reached Redis, are generated again, although
  the code says that a miss of the filter is definitive and that the filter alone keeps a number out
  for the rest of the run.
\<close>

theorem skipped_only_if_both_tiers_know:
  assumes "rollAttempt (rcRegions cfg) picker (reDraws e) = (region, Some (prefix, subscriber))" "validE164RU (composePhone prefix subscriber)"
    and "rwFilters w (gqTenantID req) = Some lf" "reSeenNet e = CallOk"
  defines "phone \<equiv> composePhone prefix subscriber" and "live \<equiv> present (reSrv e) (rwSeen w (gqTenantID req))"
  shows "rwCreates (snd (snd (attempt B cfg e w req picker out))) =
     rwCreates w @ (if bfTest B lf phone \<and> (\<exists>ms. live = Some ms \<and> phone \<in> set ms) then [] else [(gqTenantID req, gqProjectID req, phone)])"
  using assms(1-4)
  by (cases live) (auto simp: attempt_def Let_def Seen_def filterFor_def phone_def live_def split: crm_reply.splits sum.splits prod.splits)

section \<open>Two processes of one tenant\<close>

definition rdd_demo :: rdd_cfg where
  "rdd_demo = \<lparr>rcCodec = canonical_codec, rcRegions = moscow_set, rcBucket = newLeakBucket 10 hour, rcSetTTL = 720 * hour\<rparr>"

definition one_phone :: "time \<Rightarrow> call_outcome \<Rightarrow> rdd_env" where
  "one_phone now mark = \<lparr>reNow = now, reSrv = now, reCancelled = False,
     reDraws = \<lparr>drRegion = (\<lambda>_. 0), drPrefix = (\<lambda>_. 0), drDigits = [1, 2, 3, 4, 5, 6, 7]\<rparr>, reBucketNet = CallOk, reScan = ScanOk,
     reSeenNet = CallOk, reMarkNet = mark, reCrm = CrmPhoneInDNC, reFreshID = 9, reQueueNet = CallOk\<rparr>"

definition rdd_start :: "string list option \<Rightarrow> string list keyed \<Rightarrow> string list rdd_world" where
  "rdd_start f seen = \<lparr>rwFilters = (\<lambda>_. f), rwSeen = (\<lambda>_. seen), rwBuckets = (\<lambda>_. None),
     rwQueue = \<lparr>qsZ = (\<lambda>_. []), qsD = (\<lambda>_. {})\<rparr>, rwCreates = []\<rparr>"

definition ask :: "int \<Rightarrow> GenerateRequest" where
  "ask n = \<lparr>gqTenantID = 1, gqProjectID = 2, gqN = n, gqQuotas = [(''RU-MOW'', 5)]\<rparr>"

theorem phone_generated_once_witness:
  "phones 1 (generate_runs exact_bloom rdd_demo [(\<lambda>_. one_phone 0 ReplyLost, ask 2), (\<lambda>_. one_phone 1 CallOk, ask 1)] (rdd_start None None)) = [''+79031234567''] \<and>
   distinct (phones 1 (generate_runs exact_bloom rdd_demo [(\<lambda>_. one_phone 0 ReplyLost, ask 2), (\<lambda>_. one_phone 1 CallOk, ask 1)] (rdd_start None None)))"
proof
  have "phones 1 (rdd_start None None) = []" by code_simp
  moreover have "env_ok (rcSetTTL rdd_demo) (720 * hour) (one_phone 0 ReplyLost)" "env_ok (rcSetTTL rdd_demo) (720 * hour) (one_phone 1 CallOk)" by code_simp+
  ultimately show "distinct (phones 1 (generate_runs exact_bloom rdd_demo [(\<lambda>_. one_phone 0 ReplyLost, ask 2), (\<lambda>_. one_phone 1 CallOk, ask 1)] (rdd_start None None)))"
    by (intro phone_generated_once [where d = "720 * hour"]) (auto intro: exact.bloom_filter_axioms)
qed code_simp

text \<open>The process has loaded an empty filter; then a peer marked the number.\<close>

theorem skipped_only_if_both_tiers_know_witness:
  "rwCreates (snd (snd (attempt exact_bloom rdd_demo (one_phone 0 CallOk) (rdd_start (Some []) (Some ([''+79031234567''], hour))) (ask 1)
     (buildRegionPicker (gqQuotas (ask 1))) empty_result))) = [(1, 2, ''+79031234567'')]"
proof -
  have "rollAttempt (rcRegions rdd_demo) (buildRegionPicker (gqQuotas (ask 1))) (reDraws (one_phone 0 CallOk)) = (''RU-MOW'', Some (''903'', ''1234567''))"
    "validE164RU (composePhone ''903'' ''1234567'')" "composePhone ''903'' ''1234567'' = ''+79031234567''" by code_simp+
  then show ?thesis
    by (subst skipped_only_if_both_tiers_know [where lf = "[]" and region = "''RU-MOW''" and prefix = "''903''" and subscriber = "''1234567''"])
      (simp_all add: rdd_start_def one_phone_def ask_def exact_bloom_def)
qed

end
