(* ===== verification/Outbox_Relay.thy ===== *)
theory Outbox_Relay
  imports Prelude "HOL-Library.Multiset"
begin

text \<open>
  The transactional outbox (\<open>pkg/outbox\<close>): the writer that appends an event inside the caller's
  transaction, and the relay that drains pending rows to the bus, one transaction per batch.

  Subjects and payloads are of any type; the writer's checks on their text are a parameter. The bus
  is the list of the messages it has taken. A publish succeeds, fails, or is taken by the bus while
  the publisher sees an error. A statement that fails aborts its transaction: later statements fail
  too and the commit rolls back. Rows of one creation instant are returned in an order the database
  chooses (\<open>bvRank\<close>); rows locked by another replica are skipped. The relay's ticker, its metrics
  and the gauge of parked rows are left out, and no rows are appended during one call of
  \<open>drainUntilEmpty\<close>.
\<close>

section \<open>Rows\<close>

record ('s, 'p) outbox_row =
  orID :: int
  orTenantID :: "uuid option"
  orAggregateID :: "uuid option"
  orSubject :: 's
  orPayload :: 'p
  orCreatedAt :: time
  orPublishedAt :: "time option"
  orLastError :: "string option"
  orAttempts :: int

record ('s, 'p) outbox_table =
  otRows :: "('s, 'p) outbox_row list"
  otNextID :: int

datatype outbox_error = ErrEmptySubject | ErrEmptyPayload | ErrInvalidJSON | ErrStorage | ErrCancelled

section \<open>The writer\<close>

record ('s, 'p) event_text =
  etSubjectEmpty :: "'s \<Rightarrow> bool"
  etPayloadEmpty :: "'p \<Rightarrow> bool"
  etPayloadValid :: "'p \<Rightarrow> bool"

definition validateEvent :: "('s, 'p) event_text \<Rightarrow> 's \<Rightarrow> 'p \<Rightarrow> outbox_error option" where
  "validateEvent T s p =
     (if etSubjectEmpty T s then Some ErrEmptySubject
      else if etPayloadEmpty T p then Some ErrEmptyPayload
      else if \<not> etPayloadValid T p then Some ErrInvalidJSON
      else None)"

text \<open>\<open>now\<close> is the start of the caller's transaction (the column default); \<open>ok\<close> tells whether the statement succeeds.\<close>

definition writer_Append ::
  "('s, 'p) event_text \<Rightarrow> bool \<Rightarrow> time \<Rightarrow> ('s, 'p) outbox_table \<Rightarrow> uuid option \<Rightarrow> uuid option \<Rightarrow> 's \<Rightarrow> 'p
   \<Rightarrow> (outbox_error + unit) \<times> ('s, 'p) outbox_table" where
  "writer_Append T ok now tb tenant aggregate s p =
     (case validateEvent T s p of
        Some e \<Rightarrow> (Inl e, tb)
      | None \<Rightarrow>
        if \<not> ok then (Inl ErrStorage, tb)
        else (Inr (), \<lparr>otRows = otRows tb @ [\<lparr>orID = otNextID tb, orTenantID = tenant, orAggregateID = aggregate, orSubject = s, orPayload = p,
                        orCreatedAt = now, orPublishedAt = None, orLastError = None, orAttempts = 0\<rparr>],
                      otNextID = otNextID tb + 1\<rparr>))"

section \<open>The relay\<close>

record RelayConfig =
  rlBatchSize :: int
  rlTick :: duration
  rlMaxRetry :: int
  rlPublishTimeout :: duration

definition relay_defaults :: "RelayConfig \<Rightarrow> RelayConfig" where
  "relay_defaults c =
     \<lparr>rlBatchSize = (if rlBatchSize c \<le> 0 then 100 else rlBatchSize c),
      rlTick = (if rlTick c \<le> 0 then second else rlTick c),
      rlMaxRetry = (if rlMaxRetry c \<le> 0 then 10 else rlMaxRetry c),
      rlPublishTimeout = (if rlPublishTimeout c \<le> 0 then 5 * second else rlPublishTimeout c)\<rparr>"

definition truncate_text :: "string \<Rightarrow> nat \<Rightarrow> string" where
  "truncate_text s n = (if length s \<le> n then s else take n s)"

definition maxLastErrorLen :: nat where
  "maxLastErrorLen = 512"

datatype publish_outcome = PubOk | PubFailed string | PubAckLost string

record batch_env =
  bvNow :: time
  bvQueryOk :: bool
  bvLocked :: "int \<Rightarrow> bool"
  bvRank :: "int \<Rightarrow> int"
  bvPublish :: "int \<Rightarrow> publish_outcome"
  bvExecOk :: "int \<Rightarrow> bool"
  bvCommit :: call_outcome
  bvCancelled :: bool

type_synonym ('s, 'p) msg = "'s \<times> 'p"

text \<open>The transaction of a batch: its view of the table, the bus, and whether a statement failed.\<close>

record ('s, 'p) relay_tx =
  txRows :: "('s, 'p) outbox_row list"
  txBus :: "('s, 'p) msg list"
  txAborted :: bool

definition markQ :: "time \<Rightarrow> int \<Rightarrow> ('s, 'p) outbox_row list \<Rightarrow> ('s, 'p) outbox_row list" where
  "markQ now i rows = map (\<lambda>r. if orID r = i then r\<lparr>orPublishedAt := Some now, orLastError := None\<rparr> else r) rows"

definition failQ :: "string \<Rightarrow> int \<Rightarrow> ('s, 'p) outbox_row list \<Rightarrow> ('s, 'p) outbox_row list" where
  "failQ err i rows = map (\<lambda>r. if orID r = i then r\<lparr>orAttempts := orAttempts r + 1, orLastError := Some err\<rparr> else r) rows"

definition tx_exec :: "bool \<Rightarrow> (('s, 'p) outbox_row list \<Rightarrow> ('s, 'p) outbox_row list) \<Rightarrow> ('s, 'p) relay_tx \<Rightarrow> ('s, 'p) relay_tx" where
  "tx_exec ok f x = (if txAborted x \<or> \<not> ok then x\<lparr>txAborted := True\<rparr> else x\<lparr>txRows := f (txRows x)\<rparr>)"

definition relay_handleRow :: "batch_env \<Rightarrow> ('s, 'p) outbox_row \<Rightarrow> ('s, 'p) relay_tx \<Rightarrow> ('s, 'p) relay_tx" where
  "relay_handleRow e p x =
     (let ok = bvExecOk e (orID p);
          taken = x\<lparr>txBus := txBus x @ [(orSubject p, orPayload p)]\<rparr>
      in case bvPublish e (orID p) of
           PubOk \<Rightarrow> tx_exec ok (markQ (bvNow e) (orID p)) taken
         | PubFailed err \<Rightarrow> tx_exec ok (failQ (truncate_text err maxLastErrorLen) (orID p)) x
         | PubAckLost err \<Rightarrow> tx_exec ok (failQ (truncate_text err maxLastErrorLen) (orID p)) taken)"

definition pending :: "RelayConfig \<Rightarrow> ('s, 'p) outbox_row \<Rightarrow> bool" where
  "pending cfg r \<longleftrightarrow> orPublishedAt r = None \<and> orAttempts r < rlMaxRetry cfg"

text \<open>\<open>WHERE ... ORDER BY created_at LIMIT $1 FOR UPDATE SKIP LOCKED\<close>.\<close>

definition drainQ :: "RelayConfig \<Rightarrow> batch_env \<Rightarrow> ('s, 'p) outbox_row list \<Rightarrow> ('s, 'p) outbox_row list" where
  "drainQ cfg e rows =
     take (nat (rlBatchSize cfg)) (sort_key orCreatedAt (sort_key (\<lambda>r. bvRank e (orID r))
       (filter (\<lambda>r. pending cfg r \<and> \<not> bvLocked e (orID r)) rows)))"

definition drainOnce ::
  "RelayConfig \<Rightarrow> batch_env \<Rightarrow> ('s, 'p) outbox_row list \<times> ('s, 'p) msg list
   \<Rightarrow> (outbox_error + nat) \<times> ('s, 'p) outbox_row list \<times> ('s, 'p) msg list" where
  "drainOnce cfg e s =
     (case s of (rows, bus) \<Rightarrow>
      if \<not> bvQueryOk e then (Inl ErrStorage, rows, bus)
      else let batch = drainQ cfg e rows;
               x = fold (relay_handleRow e) batch \<lparr>txRows = rows, txBus = bus, txAborted = False\<rparr>
           in if txAborted x then (Inl ErrStorage, rows, txBus x)
              else case bvCommit e of
                     CallOk \<Rightarrow> (Inr (length batch), txRows x, txBus x)
                   | CallLost \<Rightarrow> (Inl ErrStorage, rows, txBus x)
                   | ReplyLost \<Rightarrow> (Inl ErrStorage, txRows x, txBus x))"

section \<open>Every batch uses up attempts\<close>

definition weight :: "RelayConfig \<Rightarrow> ('s, 'p) outbox_row \<Rightarrow> nat" where
  "weight cfg r = (if pending cfg r then nat (rlMaxRetry cfg - orAttempts r) else 0)"

definition budget :: "RelayConfig \<Rightarrow> ('s, 'p) outbox_row list \<Rightarrow> nat" where
  "budget cfg rows = sum_list (map (weight cfg) rows)"

text \<open>The update a row of the batch receives.\<close>

definition row_update :: "batch_env \<Rightarrow> ('s, 'p) outbox_row \<Rightarrow> ('s, 'p) outbox_row" where
  "row_update e r = (case bvPublish e (orID r) of
      PubOk \<Rightarrow> r\<lparr>orPublishedAt := Some (bvNow e), orLastError := None\<rparr>
    | PubFailed err \<Rightarrow> r\<lparr>orAttempts := orAttempts r + 1, orLastError := Some (truncate_text err maxLastErrorLen)\<rparr>
    | PubAckLost err \<Rightarrow> r\<lparr>orAttempts := orAttempts r + 1, orLastError := Some (truncate_text err maxLastErrorLen)\<rparr>)"

definition row_taken :: "batch_env \<Rightarrow> ('s, 'p) outbox_row \<Rightarrow> ('s, 'p) msg list" where
  "row_taken e r = (case bvPublish e (orID r) of PubFailed _ \<Rightarrow> [] | _ \<Rightarrow> [(orSubject r, orPayload r)])"

lemma handleRow_effect:
  "relay_handleRow e p x =
     (let x = x\<lparr>txBus := txBus x @ row_taken e p\<rparr>
      in if txAborted x \<or> \<not> bvExecOk e (orID p) then x\<lparr>txAborted := True\<rparr>
         else x\<lparr>txRows := map (\<lambda>r. if orID r = orID p then row_update e r else r) (txRows x)\<rparr>)"
  by (auto simp: relay_handleRow_def tx_exec_def row_taken_def row_update_def markQ_def failQ_def Let_def split: publish_outcome.splits)

lemma row_update_id [simp]: "orID (row_update e r) = orID r" "orSubject (row_update e r) = orSubject r" "orPayload (row_update e r) = orPayload r"
    "orCreatedAt (row_update e r) = orCreatedAt r"
  by (simp_all add: row_update_def split: publish_outcome.splits)

lemma row_update_weight: "weight cfg (row_update e r) \<le> weight cfg r - 1"
  by (auto simp: row_update_def weight_def pending_def split: publish_outcome.splits)

lemma handle_rows_bus: "txBus (fold (relay_handleRow e) batch x) = txBus x @ concat (map (row_taken e) batch)"
  by (induction batch arbitrary: x) (simp_all add: handleRow_effect Let_def)

lemma handle_rows_aborted: "txAborted (fold (relay_handleRow e) batch x) \<longleftrightarrow> txAborted x \<or> (\<exists>p \<in> set batch. \<not> bvExecOk e (orID p))"
  by (induction batch arbitrary: x) (auto simp: handleRow_effect Let_def)

lemma handle_rows_rows:
  assumes "distinct (map orID batch)" "\<not> txAborted (fold (relay_handleRow e) batch x)"
  shows "txRows (fold (relay_handleRow e) batch x) = map (\<lambda>r. if orID r \<in> orID ` set batch then row_update e r else r) (txRows x)"
  using assms
proof (induction batch arbitrary: x)
  case (Cons p batch)
  have "\<not> txAborted x" "bvExecOk e (orID p)" using Cons.prems(2) handle_rows_aborted [of e "p # batch" x] by auto
  then have p: "relay_handleRow e p x = x\<lparr>txBus := txBus x @ row_taken e p, txRows := map (\<lambda>r. if orID r = orID p then row_update e r else r) (txRows x)\<rparr>"
    by (simp add: handleRow_effect Let_def)
  show ?case using Cons.prems Cons.IH [of "relay_handleRow e p x"] by (auto simp: p)
qed simp

lemma step_budget: "budget cfg (map (\<lambda>r. if orID r = i then row_update e r else r) rows) \<le> budget cfg rows"
  unfolding budget_def by (induction rows) (auto intro!: add_mono order_trans [OF row_update_weight])

lemma step_budget_strict:
  assumes "p \<in> set rows" "orID p = i" "0 < weight cfg p"
  shows "budget cfg (map (\<lambda>r. if orID r = i then row_update e r else r) rows) < budget cfg rows"
  using assms(1)
proof (induction rows)
  case (Cons r rows)
  have le: "weight cfg (if orID r = i then row_update e r else r) \<le> weight cfg r" using row_update_weight [of cfg e r] by (simp, arith)
  have lt: "weight cfg (row_update e p) < weight cfg p" using row_update_weight [of cfg e p] assms(3) by simp
  show ?case
  proof (cases "p = r")
    case True
    then show ?thesis using lt assms(2) step_budget [of cfg i e rows] by (simp add: budget_def)
  next
    case False
    then show ?thesis using Cons le by (simp add: budget_def)
  qed
qed simp

lemma handle_rows_budget: "budget cfg (txRows (fold (relay_handleRow e) batch x)) \<le> budget cfg (txRows x)"
proof (induction batch arbitrary: x)
  case (Cons p batch)
  have "budget cfg (txRows (relay_handleRow e p x)) \<le> budget cfg (txRows x)" by (simp add: handleRow_effect Let_def step_budget)
  then show ?case using Cons.IH [of "relay_handleRow e p x"] by simp
qed simp

lemma set_drainQ: "p \<in> set (drainQ cfg e rows) \<Longrightarrow> p \<in> set rows \<and> pending cfg p \<and> \<not> bvLocked e (orID p)"
  by (auto simp: drainQ_def dest!: in_set_takeD)

lemma drainOnce_budget:
  assumes "drainOnce cfg e (rows, bus) = (Inr n, rows', bus')" "n \<noteq> 0"
  shows "budget cfg rows' < budget cfg rows"
proof (cases "drainQ cfg e rows")
  case (Cons p batch)
  have p: "p \<in> set rows" "0 < weight cfg p" using set_drainQ [of p cfg e rows] Cons by (simp_all add: weight_def pending_def)
  let ?x = "\<lparr>txRows = rows, txBus = bus, txAborted = False\<rparr>"
  have ok: "\<not> txAborted (fold (relay_handleRow e) batch (relay_handleRow e p ?x))" "rows' = txRows (fold (relay_handleRow e) batch (relay_handleRow e p ?x))"
    using assms(1) Cons by (auto simp: drainOnce_def Let_def split: if_splits call_outcome.splits)
  then have "bvExecOk e (orID p)" using handle_rows_aborted [of e "p # batch" ?x] by auto
  then have "budget cfg (txRows (relay_handleRow e p ?x)) < budget cfg rows" using step_budget_strict [OF p(1) refl p(2)] by (simp add: handleRow_effect Let_def)
  then show ?thesis using ok(2) handle_rows_budget [of cfg e batch "relay_handleRow e p ?x"] by simp
qed (use assms in \<open>auto simp: drainOnce_def Let_def split: if_splits call_outcome.splits\<close>)

text \<open>
  Drain until a pass finds no row. The passes' environments are numbered.
\<close>

function drainUntilEmpty ::
  "RelayConfig \<Rightarrow> (nat \<Rightarrow> batch_env) \<Rightarrow> nat \<Rightarrow> ('s, 'p) outbox_row list \<times> ('s, 'p) msg list
   \<Rightarrow> outbox_error option \<times> ('s, 'p) outbox_row list \<times> ('s, 'p) msg list" where
  "drainUntilEmpty cfg envs k s =
     (case drainOnce cfg (envs k) s of
        (Inl err, s') \<Rightarrow> (Some err, s')
      | (Inr n, s') \<Rightarrow>
          if n = 0 then (None, s')
          else if bvCancelled (envs k) then (Some ErrCancelled, s')
          else drainUntilEmpty cfg envs (Suc k) s')"
  by pat_completeness auto

termination
  by (relation "measure (\<lambda>(cfg, envs, k, s). budget cfg (fst s))") (auto intro: drainOnce_budget [OF sym])

declare drainUntilEmpty.simps [simp del]

section \<open>Batches on a healthy database\<close>

definition healthy :: "batch_env \<Rightarrow> bool" where
  "healthy e \<longleftrightarrow> bvQueryOk e \<and> (\<forall>i. \<not> bvLocked e i) \<and> (\<forall>i. bvExecOk e i) \<and> bvCommit e = CallOk \<and> \<not> bvCancelled e"

definition updated :: "RelayConfig \<Rightarrow> batch_env \<Rightarrow> ('s, 'p) outbox_row list \<Rightarrow> ('s, 'p) outbox_row list" where
  "updated cfg e rows = map (\<lambda>r. if orID r \<in> orID ` set (drainQ cfg e rows) then row_update e r else r) rows"

lemma ids_updated [simp]: "map orID (updated cfg e rows) = map orID rows"
  by (auto simp: updated_def)

lemma distinct_drainQ: "distinct (map orID rows) \<Longrightarrow> distinct (map orID (drainQ cfg e rows))"
proof -
  assume "distinct (map orID rows)"
  then have "distinct (map orID (sort_key orCreatedAt (sort_key (\<lambda>r. bvRank e (orID r)) (filter (\<lambda>r. pending cfg r \<and> \<not> bvLocked e (orID r)) rows))))"
    by (simp add: distinct_map inj_on_def)
  then show ?thesis by (simp add: drainQ_def take_map [symmetric])
qed

lemma in_drainQ_iff:
  assumes "distinct (map orID rows)" "r \<in> set rows"
  shows "orID r \<in> orID ` set (drainQ cfg e rows) \<longleftrightarrow> r \<in> set (drainQ cfg e rows)"
  using assms set_drainQ [of _ cfg e rows] by (auto simp: distinct_map inj_on_def)

lemma drainOnce_cases:
  assumes "distinct (map orID rows)"
  shows "drainOnce cfg e (rows, bus) =
     (if \<not> bvQueryOk e then (Inl ErrStorage, rows, bus)
      else let bus' = bus @ concat (map (row_taken e) (drainQ cfg e rows))
           in if (\<exists>p \<in> set (drainQ cfg e rows). \<not> bvExecOk e (orID p)) then (Inl ErrStorage, rows, bus')
              else case bvCommit e of
                     CallOk \<Rightarrow> (Inr (length (drainQ cfg e rows)), updated cfg e rows, bus')
                   | CallLost \<Rightarrow> (Inl ErrStorage, rows, bus')
                   | ReplyLost \<Rightarrow> (Inl ErrStorage, updated cfg e rows, bus'))"
  using handle_rows_rows [OF distinct_drainQ [OF assms], where x = "\<lparr>txRows = rows, txBus = bus, txAborted = False\<rparr>"]
  by (auto simp: drainOnce_def Let_def handle_rows_bus handle_rows_aborted updated_def split: call_outcome.splits)

lemma drainOnce_healthy:
  assumes "distinct (map orID rows)" "healthy e"
  shows "drainOnce cfg e (rows, bus) = (Inr (length (drainQ cfg e rows)), updated cfg e rows, bus @ concat (map (row_taken e) (drainQ cfg e rows)))"
  using assms by (auto simp: drainOnce_cases healthy_def)

text \<open>With no row locked, the pass selects the oldest pending rows.\<close>

lemma drainQ_split:
  assumes "healthy e"
  obtains ys where "sorted (map orCreatedAt (drainQ cfg e rows @ ys))" "mset (drainQ cfg e rows @ ys) = mset (filter (pending cfg) rows)"
    "0 < rlBatchSize cfg \<Longrightarrow> drainQ cfg e rows = [] \<Longrightarrow> ys = []"
proof -
  let ?s = "sort_key orCreatedAt (sort_key (\<lambda>r. bvRank e (orID r)) (filter (pending cfg) rows))"
  have q: "drainQ cfg e rows = take (nat (rlBatchSize cfg)) ?s" using assms by (simp add: drainQ_def healthy_def)
  show ?thesis
    by (rule that [of "drop (nat (rlBatchSize cfg)) ?s"]) (simp_all add: q)
qed

lemma pending_updated:
  assumes "distinct (map orID rows)" "\<And>i. bvPublish e i = PubOk"
  shows "filter (pending cfg) (updated cfg e rows) = filter (\<lambda>r. pending cfg r \<and> r \<notin> set (drainQ cfg e rows)) rows"
proof -
  have "filter (pending cfg) (map (\<lambda>r. if orID r \<in> orID ` set q then row_update e r else r) xs) = filter (\<lambda>r. pending cfg r \<and> orID r \<notin> orID ` set q) xs" for q xs
    using assms(2) by (induction xs) (auto simp: row_update_def pending_def)
  then have "filter (pending cfg) (updated cfg e rows) = filter (\<lambda>r. pending cfg r \<and> orID r \<notin> orID ` set (drainQ cfg e rows)) rows" by (simp only: updated_def)
  also have "\<dots> = filter (\<lambda>r. pending cfg r \<and> r \<notin> set (drainQ cfg e rows)) rows" by (intro filter_cong refl) (simp add: in_drainQ_iff [OF assms(1)])
  finally show ?thesis .
qed

lemma updated_budget:
  assumes "distinct (map orID rows)" "healthy e" "drainQ cfg e rows \<noteq> []"
  shows "budget cfg (updated cfg e rows) < budget cfg rows"
  using drainOnce_budget [OF drainOnce_healthy [OF assms(1,2)]] assms(3) by simp

lemma drain_healthy:
  assumes "distinct (map orID rows)" "healthy (envs k)"
  shows "drainUntilEmpty cfg envs k (rows, bus) =
     (if drainQ cfg (envs k) rows = [] then (None, rows, bus)
      else drainUntilEmpty cfg envs (Suc k) (updated cfg (envs k) rows, bus @ concat (map (row_taken (envs k)) (drainQ cfg (envs k) rows))))"
  using assms(2) by (subst drainUntilEmpty.simps) (auto simp: drainOnce_healthy [OF assms] healthy_def updated_def)

text \<open>On a healthy database the loop ends with no pending row, keeping what every pass keeps.\<close>

lemma drain_healthy_keeps:
  assumes "\<And>k. healthy (envs k)" "0 < rlBatchSize cfg" "distinct (map orID rows)" "P rows bus"
    and "\<And>k rows bus. distinct (map orID rows) \<Longrightarrow> P rows bus \<Longrightarrow> P (updated cfg (envs k) rows) (bus @ concat (map (row_taken (envs k)) (drainQ cfg (envs k) rows)))"
  shows "\<exists>rows' bus'. drainUntilEmpty cfg envs k (rows, bus) = (None, rows', bus') \<and> P rows' bus' \<and> filter (pending cfg) rows' = []"
  using assms(3,4)
proof (induction "budget cfg rows" arbitrary: rows bus k rule: less_induct)
  case less
  show ?case
  proof (cases "drainQ cfg (envs k) rows = []")
    case True
    obtain ys where "mset (drainQ cfg (envs k) rows @ ys) = mset (filter (pending cfg) rows)" "ys = []"
      using drainQ_split [OF assms(1) [of k], of cfg rows] assms(2) True by metis
    then have "filter (pending cfg) rows = []" using True by simp
    then show ?thesis using drain_healthy [where envs = envs and k = k, OF less.prems(1) assms(1)] True less.prems(2) by simp
  next
    case False
    then show ?thesis
      using less.hyps [OF updated_budget [OF less.prems(1) assms(1) False]] assms(5) [OF less.prems] less.prems(1)
        drain_healthy [where envs = envs and k = k, OF less.prems(1) assms(1)] by simp
  qed
qed

section \<open>Properties\<close>

text \<open>What is kept while the bus takes everything: the messages of the rows drained so far, oldest first.\<close>

definition drained :: "RelayConfig \<Rightarrow> ('s, 'p) outbox_row list \<Rightarrow> ('s, 'p) msg list \<Rightarrow> ('s, 'p) outbox_row list \<Rightarrow> ('s, 'p) msg list \<Rightarrow> bool" where
  "drained cfg rows0 bus0 rows bus \<longleftrightarrow>
     list_all2 (\<lambda>r r'. r' = r \<or> pending cfg r \<and> (\<exists>t. r' = r\<lparr>orPublishedAt := Some t, orLastError := None\<rparr>)) rows0 rows \<and>
     (\<exists>xs. bus = bus0 @ map (\<lambda>r. (orSubject r, orPayload r)) xs \<and> sorted (map orCreatedAt xs) \<and>
        mset xs + mset (filter (pending cfg) rows) = mset (filter (pending cfg) rows0) \<and>
        (\<forall>x \<in> set xs. \<forall>r \<in> set rows. pending cfg r \<longrightarrow> orCreatedAt x \<le> orCreatedAt r))"

lemma drained_step:
  assumes "distinct (map orID rows)" "drained cfg rows0 bus0 rows bus" "healthy e" "\<And>i. bvPublish e i = PubOk"
  shows "drained cfg rows0 bus0 (updated cfg e rows) (bus @ concat (map (row_taken e) (drainQ cfg e rows)))"
proof -
  let ?q = "drainQ cfg e rows"
  obtain ys where ys: "sorted (map orCreatedAt (?q @ ys))" "mset (?q @ ys) = mset (filter (pending cfg) rows)" using drainQ_split [OF assms(3)] by metis
  obtain xs where xs: "bus = bus0 @ map (\<lambda>r. (orSubject r, orPayload r)) xs" "sorted (map orCreatedAt xs)"
      "mset xs + mset (filter (pending cfg) rows) = mset (filter (pending cfg) rows0)"
      "\<And>x r. x \<in> set xs \<Longrightarrow> r \<in> set rows \<Longrightarrow> pending cfg r \<Longrightarrow> orCreatedAt x \<le> orCreatedAt r"
    using assms(2) by (auto simp: drained_def)
  have dq: "distinct (?q @ ys)"
    using ys(2) distinct_filter [of rows "pending cfg"] assms(1) by (metis distinct_map mset_eq_imp_distinct_iff)
  have rest: "mset (filter (pending cfg) (updated cfg e rows)) = mset ys"
  proof -
    have "filter (pending cfg) (updated cfg e rows) = filter (\<lambda>r. r \<notin> set ?q) (filter (pending cfg) rows)"
      by (simp add: pending_updated [OF assms(1,4)] conj_commute)
    then have "mset (filter (pending cfg) (updated cfg e rows)) = filter_mset (\<lambda>r. r \<notin> set ?q) (mset (filter (pending cfg) rows))"
      by (simp only: mset_filter)
    also have "\<dots> = filter_mset (\<lambda>r. r \<notin> set ?q) (mset (?q @ ys))" by (simp only: ys(2))
    also have "\<dots> = mset (filter (\<lambda>r. r \<notin> set ?q) (?q @ ys))" by (simp only: mset_filter)
    also have "filter (\<lambda>r. r \<notin> set ?q) (?q @ ys) = ys" using dq by (auto simp: filter_empty_conv disjoint_iff intro!: filter_True)
    finally show ?thesis .
  qed
  have inq: "x \<in> set rows \<and> pending cfg x" if "x \<in> set ?q" for x using set_drainQ [OF that] by simp
  have pend: "set (filter (pending cfg) (updated cfg e rows)) = set ys" using rest by (metis set_mset_mset)
  have "set (?q @ ys) = set (filter (pending cfg) rows)" using ys(2) by (metis set_mset_mset)
  then have yp: "y \<in> set rows \<and> pending cfg y" if "y \<in> set ys" for y using that by auto
  have q: "concat (map (row_taken e) ?q) = map (\<lambda>r. (orSubject r, orPayload r)) ?q" by (simp add: row_taken_def [abs_def] assms(4))
  have rel: "list_all2 (\<lambda>r r'. r' = r \<or> pending cfg r \<and> (\<exists>t. r' = r\<lparr>orPublishedAt := Some t, orLastError := None\<rparr>)) rows0 (updated cfg e rows)"
  proof -
    have R1: "list_all2 (\<lambda>r r'. r' = r \<or> pending cfg r \<and> r' = r\<lparr>orPublishedAt := Some (bvNow e), orLastError := None\<rparr>) rows (updated cfg e rows)"
      using in_drainQ_iff [OF assms(1)] inq assms(4) by (auto simp: updated_def list_all2_conv_all_nth row_update_def)
    have R0: "list_all2 (\<lambda>r r'. r' = r \<or> pending cfg r \<and> (\<exists>t. r' = r\<lparr>orPublishedAt := Some t, orLastError := None\<rparr>)) rows0 rows"
      using assms(2) by (simp add: drained_def)
    show ?thesis by (rule list_all2_trans [OF _ R0 R1]) (auto simp: pending_def)
  qed
  show ?thesis unfolding drained_def q
  proof (intro conjI exI [of _ "xs @ ?q"])
    show "bus @ map (\<lambda>r. (orSubject r, orPayload r)) ?q = bus0 @ map (\<lambda>r. (orSubject r, orPayload r)) (xs @ ?q)" by (simp add: xs(1))
    show "sorted (map orCreatedAt (xs @ ?q))" using xs(2,4) ys(1) inq by (auto simp: sorted_append)
    show "mset (xs @ ?q) + mset (filter (pending cfg) (updated cfg e rows)) = mset (filter (pending cfg) rows0)" using xs(3) ys(2) rest by (simp add: ac_simps)
    show "\<forall>x \<in> set (xs @ ?q). \<forall>r \<in> set (updated cfg e rows). pending cfg r \<longrightarrow> orCreatedAt x \<le> orCreatedAt r"
    proof (intro ballI impI)
      fix x r
      assume a: "x \<in> set (xs @ ?q)" "r \<in> set (updated cfg e rows)" "pending cfg r"
      then have "r \<in> set ys" using pend by auto
      then show "orCreatedAt x \<le> orCreatedAt r" using a(1) yp xs(4) ys(1) by (auto simp: sorted_append)
    qed
  qed (rule rel)
qed

lemma drain_delivers:
  assumes "distinct (map orID rows)" "0 < rlBatchSize cfg" "\<And>k. healthy (envs k)" "\<And>k i. bvPublish (envs k) i = PubOk"
  shows "\<exists>rows' xs. drainUntilEmpty cfg envs k (rows, bus) = (None, rows', bus @ map (\<lambda>r. (orSubject r, orPayload r)) xs) \<and>
     mset xs = mset (filter (pending cfg) rows) \<and> sorted (map orCreatedAt xs) \<and>
     list_all2 (\<lambda>r r'. if pending cfg r then \<exists>t. r' = r\<lparr>orPublishedAt := Some t, orLastError := None\<rparr> else r' = r) rows rows'"
proof -
  have "drained cfg rows bus rows bus" by (auto simp: drained_def list_all2_refl intro: exI [of _ "[]"])
  then obtain rows' bus' where d: "drainUntilEmpty cfg envs k (rows, bus) = (None, rows', bus')" "drained cfg rows bus rows' bus'" "filter (pending cfg) rows' = []"
    using drain_healthy_keeps [where P = "drained cfg rows bus" and envs = envs, OF assms(3,2,1)] drained_step [OF _ _ assms(3,4)] by blast
  have e: "\<not> pending cfg r'" if "r' \<in> set rows'" for r' using d(3) that by (simp add: filter_empty_conv)
  have "list_all2 (\<lambda>r r'. if pending cfg r then \<exists>t. r' = r\<lparr>orPublishedAt := Some t, orLastError := None\<rparr> else r' = r) rows rows'"
    using d(2) e by (auto simp: drained_def list_all2_conv_all_nth) (metis nth_mem)+
  then show ?thesis using d by (auto simp: drained_def)
qed

text \<open>
  C34: the relay delivers everything, in order. While the database and the bus are healthy, one call of
  \<open>drainUntilEmpty\<close> returns without error, marks every pending row as published, leaves the other
  rows as they are, and hands the bus each pending event exactly once, oldest first.
\<close>

theorem drain_delivers_everything_in_order:
  assumes "distinct (map orID rows)" "0 < rlBatchSize cfg" "\<And>k. healthy (envs k)" "\<And>k i. bvPublish (envs k) i = PubOk"
  shows "\<exists>rows' xs. drainUntilEmpty cfg envs k (rows, bus) = (None, rows', bus @ map (\<lambda>r. (orSubject r, orPayload r)) xs) \<and>
     mset xs = mset (filter (pending cfg) rows) \<and> sorted (map orCreatedAt xs) \<and>
     list_all2 (\<lambda>r r'. if pending cfg r then \<exists>t. r' = r\<lparr>orPublishedAt := Some t, orLastError := None\<rparr> else r' = r) rows rows'"
  using assms by (rule drain_delivers)

text \<open>
  C36: an outage uses up every attempt at once. If the bus refuses every publish during one call of
  \<open>drainUntilEmpty\<close>, the call retries without a pause until each pending event has used all its
  attempts: the rows are parked, and no later pass, however healthy, takes them up again.
\<close>

theorem outage_parks_every_event:
  assumes "distinct (map orID rows)" "0 < rlBatchSize cfg" "\<And>k. healthy (envs k)" "\<And>k i. bvPublish (envs k) i = PubFailed err"
  shows "\<exists>rows'. drainUntilEmpty cfg envs k (rows, bus) = (None, rows', bus) \<and>
     list_all2 (\<lambda>r r'. orID r' = orID r \<and> orPublishedAt r' = orPublishedAt r \<and> (pending cfg r \<longrightarrow> orAttempts r' = rlMaxRetry cfg)) rows rows' \<and>
     (\<forall>envs' k'. drainUntilEmpty cfg envs' k' (rows', bus) = (if bvQueryOk (envs' k') \<and> bvCommit (envs' k') = CallOk then None else Some ErrStorage, rows', bus))"
proof -
  define Q where "Q = (\<lambda>r r' :: ('a, 'b) outbox_row. orID r' = orID r \<and> orPublishedAt r' = orPublishedAt r \<and>
     (if pending cfg r then orAttempts r \<le> orAttempts r' \<and> orAttempts r' \<le> rlMaxRetry cfg else r' = r))"
  define P where "P = (\<lambda>rows' bus'. bus' = bus \<and> list_all2 Q rows rows')"
  have trans: "Q a c" if "Q a b" "Q b c" for a b c using that by (auto simp: Q_def split: if_splits)
  have step: "P (updated cfg (envs k) rs) (b @ concat (map (row_taken (envs k)) (drainQ cfg (envs k) rs)))"
    if "distinct (map orID rs)" "P rs b" for k rs b
  proof -
    have "pending cfg r" if "r \<in> set rs" "orID r \<in> orID ` set (drainQ cfg (envs k) rs)" for r
      using in_drainQ_iff [OF \<open>distinct (map orID rs)\<close> that(1)] that(2) set_drainQ [of r cfg "envs k" rs] by simp
    then have "Q r (if orID r \<in> orID ` set (drainQ cfg (envs k) rs) then row_update (envs k) r else r)" if "r \<in> set rs" for r
      using that by (force simp: Q_def row_update_def assms(4) pending_def)
    then have "list_all2 Q rs (updated cfg (envs k) rs)" by (simp add: updated_def list_all2_map2 list_all2_same)
    then show ?thesis using that(2) list_all2_trans [of Q Q Q, OF trans] by (auto simp: P_def row_taken_def [abs_def] assms(4))
  qed
  have start: "P rows bus" by (simp add: P_def Q_def list_all2_same pending_def)
  obtain rows' bus' where d: "drainUntilEmpty cfg envs k (rows, bus) = (None, rows', bus')" "P rows' bus'" and r3: "filter (pending cfg) rows' = []"
    using drain_healthy_keeps [where P = P and envs = envs, OF assms(3,2,1) start step] by blast
  note r = d(1) d(2) [unfolded P_def Q_def] r3
  have e: "\<not> pending cfg r'" if "r' \<in> set rows'" for r' using r(3) that by (simp add: filter_empty_conv)
  have "list_all2 (\<lambda>r r'. orID r' = orID r \<and> orPublishedAt r' = orPublishedAt r \<and> (pending cfg r \<longrightarrow> orAttempts r' = rlMaxRetry cfg)) rows rows'"
    using r(2) e by (auto simp: list_all2_conv_all_nth) (metis nth_mem pending_def not_less order_antisym)
  moreover have "drainQ cfg e rows' = []" for e using r(3) by (simp add: drainQ_def filter_empty_conv)
  then have "drainUntilEmpty cfg envs' k' (rows', bus) = (if bvQueryOk (envs' k') \<and> bvCommit (envs' k') = CallOk then None else Some ErrStorage, rows', bus)" for envs' k'
    by (subst drainUntilEmpty.simps) (simp add: drainOnce_def Let_def split: call_outcome.splits)
  ultimately show ?thesis using r(1,2) by blast
qed

section \<open>Runs\<close>

text \<open>Appends by committed transactions and batches of any replica, in the order in which they commit.\<close>

datatype ('s, 'p) relay_op = OpAppend bool time "uuid option" "uuid option" 's 'p | OpDrain batch_env

fun relay_do :: "('s, 'p) event_text \<Rightarrow> RelayConfig \<Rightarrow> ('s, 'p) relay_op \<Rightarrow> ('s, 'p) outbox_table \<times> ('s, 'p) msg list
   \<Rightarrow> ('s, 'p) outbox_table \<times> ('s, 'p) msg list" where
  "relay_do T cfg (OpAppend ok now tenant aggregate s p) (tb, bus) = (snd (writer_Append T ok now tb tenant aggregate s p), bus)"
| "relay_do T cfg (OpDrain e) (tb, bus) = (case drainOnce cfg e (otRows tb, bus) of (_, rows, bus') \<Rightarrow> (tb\<lparr>otRows := rows\<rparr>, bus'))"

fun accepted_event :: "('s, 'p) event_text \<Rightarrow> ('s, 'p) relay_op \<Rightarrow> ('s, 'p) msg list" where
  "accepted_event T (OpAppend ok now tenant aggregate s p) = (if ok \<and> validateEvent T s p = None then [(s, p)] else [])"
| "accepted_event T (OpDrain e) = []"

abbreviation empty_outbox :: "('s, 'p) outbox_table" where
  "empty_outbox \<equiv> \<lparr>otRows = [], otNextID = 1\<rparr>"

definition outbox_inv :: "RelayConfig \<Rightarrow> ('s, 'p) msg list \<Rightarrow> ('s, 'p) outbox_table \<times> ('s, 'p) msg list \<Rightarrow> bool" where
  "outbox_inv cfg evs s \<longleftrightarrow> (case s of (tb, bus) \<Rightarrow>
     distinct (map orID (otRows tb)) \<and> (\<forall>r \<in> set (otRows tb). orID r < otNextID tb) \<and>
     map (\<lambda>r. (orSubject r, orPayload r)) (otRows tb) = evs \<and> set bus \<subseteq> set evs \<and>
     (\<forall>r \<in> set (otRows tb). (orPublishedAt r \<noteq> None \<longrightarrow> (orSubject r, orPayload r) \<in> set bus) \<and> 0 \<le> orAttempts r \<and> orAttempts r \<le> rlMaxRetry cfg))"

lemma inv_append:
  assumes "outbox_inv cfg evs (tb, bus)" "0 \<le> rlMaxRetry cfg"
  shows "outbox_inv cfg (evs @ accepted_event T (OpAppend ok now tenant aggregate s p)) (relay_do T cfg (OpAppend ok now tenant aggregate s p) (tb, bus))"
  using assms by (auto simp: outbox_inv_def writer_Append_def less_imp_neq split: option.splits)

text \<open>The table and the bus after a pass, whatever fails in it.\<close>

lemma drain_outcomes:
  assumes "distinct (map orID rows)" "drainOnce cfg e (rows, bus) = (res, rows', bus')"
  shows "rows' = rows \<and> (bus' = bus \<or> bus' = bus @ concat (map (row_taken e) (drainQ cfg e rows))) \<or>
     rows' = updated cfg e rows \<and> bus' = bus @ concat (map (row_taken e) (drainQ cfg e rows))"
  using assms by (auto simp: drainOnce_cases Let_def split: if_splits call_outcome.splits)

lemma inv_drain:
  assumes "outbox_inv cfg evs (tb, bus)"
  shows "outbox_inv cfg evs (relay_do T cfg (OpDrain e) (tb, bus))"
proof -
  let ?rows = "otRows tb" and ?q = "drainQ cfg e (otRows tb)" and ?taken = "concat (map (row_taken e) (drainQ cfg e (otRows tb)))"
  have inv: "distinct (map orID ?rows)" "map (\<lambda>r. (orSubject r, orPayload r)) ?rows = evs" "set bus \<subseteq> set evs"
      "\<And>r. r \<in> set ?rows \<Longrightarrow> orID r < otNextID tb \<and> (orPublishedAt r \<noteq> None \<longrightarrow> (orSubject r, orPayload r) \<in> set bus) \<and> 0 \<le> orAttempts r \<and> orAttempts r \<le> rlMaxRetry cfg"
    using assms by (auto simp: outbox_inv_def)
  obtain res rows' bus' where d: "drainOnce cfg e (?rows, bus) = (res, rows', bus')" by (metis prod_cases3)
  have "set (row_taken e r) \<subseteq> set evs" if "r \<in> set ?rows" for r
    using that by (auto simp: inv(2) [symmetric] row_taken_def split: publish_outcome.splits)
  then have taken: "set ?taken \<subseteq> set evs" using set_drainQ [of _ cfg e ?rows] by auto
  have upd: "map (\<lambda>r. (orSubject r, orPayload r)) (updated cfg e ?rows) = evs" by (auto simp: inv(2) [symmetric] updated_def)
  have row: "(orPublishedAt r \<noteq> None \<longrightarrow> (orSubject r, orPayload r) \<in> set (bus @ ?taken)) \<and> 0 \<le> orAttempts r \<and> orAttempts r \<le> rlMaxRetry cfg \<and> orID r < otNextID tb"
    if mem: "r \<in> set (updated cfg e ?rows)" for r
  proof -
    obtain r0 where r0: "r0 \<in> set ?rows" "r = (if r0 \<in> set ?q then row_update e r0 else r0)"
      using mem in_drainQ_iff [OF inv(1)] unfolding updated_def set_map by fastforce
    show ?thesis
    proof (cases "r0 \<in> set ?q")
      case True
      then have "pending cfg r0" "set (row_taken e r0) \<subseteq> set ?taken" using set_drainQ by auto
      then show ?thesis using r0 True inv(4) [OF r0(1)] by (auto simp: row_update_def row_taken_def pending_def split: publish_outcome.splits)
    qed (use r0 inv(4) [OF r0(1)] in auto)
  qed
  from drain_outcomes [OF inv(1) d] consider "rows' = ?rows" "set bus \<subseteq> set bus'" "set bus' \<subseteq> set bus \<union> set ?taken" | "rows' = updated cfg e ?rows" "bus' = bus @ ?taken" by auto
  then show ?thesis
  proof cases
    case 1
    have "(orPublishedAt r \<noteq> None \<longrightarrow> (orSubject r, orPayload r) \<in> set bus')" if "r \<in> set ?rows" for r using inv(4) [OF that] 1(2) by auto
    moreover have "set bus' \<subseteq> set evs" using 1(3) inv(3) taken by blast
    ultimately show ?thesis using inv(1,2,4) 1(1) by (simp add: outbox_inv_def d)
  next
    case 2
    then show ?thesis using inv(1,3) taken upd row by (simp add: outbox_inv_def d)
  qed
qed

text \<open>
  C35: the outbox neither loses nor invents events. After any sequence of appends and batches, whichever
  publishes, statements and commits fail, the table holds exactly the accepted events in the order in
  which they were appended, everything on the bus is one of them, a row marked as published is on
  the bus, and no row has used more attempts than the limit.
\<close>

theorem outbox_neither_loses_nor_invents:
  assumes "0 \<le> rlMaxRetry cfg" "fold (relay_do T cfg) ops (empty_outbox, []) = (tb, bus)"
  shows "map (\<lambda>r. (orSubject r, orPayload r)) (otRows tb) = concat (map (accepted_event T) ops) \<and>
     set bus \<subseteq> set (concat (map (accepted_event T) ops)) \<and>
     (\<forall>r \<in> set (otRows tb). (orPublishedAt r \<noteq> None \<longrightarrow> (orSubject r, orPayload r) \<in> set bus) \<and> 0 \<le> orAttempts r \<and> orAttempts r \<le> rlMaxRetry cfg)"
proof -
  have "outbox_inv cfg (evs @ concat (map (accepted_event T) ops)) (fold (relay_do T cfg) ops s)" if "outbox_inv cfg evs s" for evs s
    using that
  proof (induction ops arbitrary: evs s)
    case (Cons op ops)
    obtain tb bus where s: "s = (tb, bus)" by force
    have "outbox_inv cfg (evs @ accepted_event T op) (relay_do T cfg op s)"
    proof (cases op)
      case (OpAppend ok now tenant aggregate su pl)
      then show ?thesis using inv_append [OF Cons.prems [unfolded s] assms(1)] by (simp only: s)
    next
      case (OpDrain e)
      then show ?thesis using inv_drain [OF Cons.prems [unfolded s]] by (simp only: s accepted_event.simps append_Nil2)
    qed
    from Cons.IH [OF this] show ?case by simp
  qed simp
  from this [of "[]" "(empty_outbox, [])"] show ?thesis using assms(2) by (simp add: outbox_inv_def)
qed

section \<open>A relay and two events\<close>

definition sample_relay :: RelayConfig where
  "sample_relay = relay_defaults \<lparr>rlBatchSize = 1, rlTick = 0, rlMaxRetry = 2, rlPublishTimeout = 0\<rparr>"

definition pass :: "publish_outcome \<Rightarrow> batch_env" where
  "pass p = \<lparr>bvNow = 9, bvQueryOk = True, bvLocked = (\<lambda>_. False), bvRank = (\<lambda>i. - i), bvPublish = (\<lambda>_. p), bvExecOk = (\<lambda>_. True),
     bvCommit = CallOk, bvCancelled = False\<rparr>"

definition plain_text :: "(string, string) event_text" where
  "plain_text = \<lparr>etSubjectEmpty = (\<lambda>s. s = []), etPayloadEmpty = (\<lambda>p. p = []), etPayloadValid = (\<lambda>p. hd p = CHR ''{'')\<rparr>"

definition sample_appends :: "(string, string) relay_op list" where
  "sample_appends = [OpAppend True 5 None None ''b'' ''{}'', OpAppend True 5 None None '''' ''{}'', OpAppend True 3 None None ''a'' ''{}'']"

definition sample_rows :: "(string, string) outbox_row list" where
  "sample_rows = otRows (fst (fold (relay_do plain_text sample_relay) sample_appends (empty_outbox, [])))"

lemma pass_healthy: "healthy (pass p)" "bvPublish (pass p) i = p"
  by (simp_all add: healthy_def pass_def)

lemma sample_ids: "distinct (map orID sample_rows)" "0 < rlBatchSize sample_relay" "0 \<le> rlMaxRetry sample_relay" "length sample_rows = 2"
  by code_simp+

theorem drain_delivers_everything_in_order_witness:
  "snd (snd (drainUntilEmpty sample_relay (\<lambda>_. pass PubOk) 0 (sample_rows, []))) = [(''a'', ''{}''), (''b'', ''{}'')] \<and>
   fst (drainUntilEmpty sample_relay (\<lambda>_. pass PubOk) 0 (sample_rows, [])) = None"
proof
  show "fst (drainUntilEmpty sample_relay (\<lambda>_. pass PubOk) 0 (sample_rows, [])) = None"
    using drain_delivers_everything_in_order [where envs = "\<lambda>_. pass PubOk" and k = 0 and bus = "[]", OF sample_ids(1,2) pass_healthy] by auto
qed code_simp

theorem outage_parks_every_event_witness:
  "map orAttempts (fst (snd (drainUntilEmpty sample_relay (\<lambda>_. pass (PubFailed ''no responders'')) 0 (sample_rows, [])))) = [2, 2] \<and>
   drainUntilEmpty sample_relay (\<lambda>_. pass PubOk) 0 (snd (drainUntilEmpty sample_relay (\<lambda>_. pass (PubFailed ''no responders'')) 0 (sample_rows, []))) =
     (None, snd (drainUntilEmpty sample_relay (\<lambda>_. pass (PubFailed ''no responders'')) 0 (sample_rows, [])))"
proof
  show "drainUntilEmpty sample_relay (\<lambda>_. pass PubOk) 0 (snd (drainUntilEmpty sample_relay (\<lambda>_. pass (PubFailed ''no responders'')) 0 (sample_rows, []))) =
     (None, snd (drainUntilEmpty sample_relay (\<lambda>_. pass (PubFailed ''no responders'')) 0 (sample_rows, [])))"
    using outage_parks_every_event [where envs = "\<lambda>_. pass (PubFailed ''no responders'')" and err = "''no responders''" and k = 0 and bus = "[]", OF sample_ids(1,2) pass_healthy]
    by (auto simp: pass_def)
qed code_simp

theorem outbox_neither_loses_nor_invents_witness:
  "\<exists>tb. fold (relay_do plain_text sample_relay) (sample_appends @ [OpDrain (pass (PubAckLost ''timeout'')), OpDrain (pass PubOk)]) (empty_outbox, []) =
       (tb, [(''a'', ''{}''), (''a'', ''{}'')]) \<and>
     map (\<lambda>r. (orSubject r, orPayload r)) (otRows tb) = [(''b'', ''{}''), (''a'', ''{}'')]"
proof -
  let ?ops = "sample_appends @ [OpDrain (pass (PubAckLost ''timeout'')), OpDrain (pass PubOk)]"
  obtain tb bus where r: "fold (relay_do plain_text sample_relay) ?ops (empty_outbox, []) = (tb, bus)" by force
  have "snd (fold (relay_do plain_text sample_relay) ?ops (empty_outbox, [])) = [(''a'', ''{}''), (''a'', ''{}'')]"
    "concat (map (accepted_event plain_text) ?ops) = [(''b'', ''{}''), (''a'', ''{}'')]" by code_simp+
  then show ?thesis using outbox_neither_loses_nor_invents [OF sample_ids(3) r] r by auto
qed

end
