(* ===== verification/Billing.thy ===== *)
theory Billing
  imports Fsm_Audit Working_Hours Outbox_Relay "HOL-Library.Signed_Division" "HOL-Library.List_Lexorder" "HOL-Library.Char_ord"
begin

text \<open>
  Billing (\<open>internal/billing\<close>): tariffs, the cost of a call, the rows written for finalised calls,
  and the spend, revenue and margin reports, over the tables they read and write.

  Money is an \<open>int64\<close> count of kopecks: Go's arithmetic on it wraps, a sum cast to \<open>bigint\<close> in SQL
  fails when it does not fit. The decimal package is third-party code: the quotient it rounds is a
  parameter with the documented law. A settings document is the list of the members of a JSON
  object with integer values, or some other document. A statement runs in its own transaction,
  which commits, is lost, or commits while the reply is lost. The database's constraints on
  \<open>call_costs\<close> are those of migration 13; the rows of \<open>calls\<close>, \<open>tenants\<close>, \<open>projects\<close> and
  \<open>respondents\<close> belong to other modules.
\<close>

section \<open>Data\<close>

datatype billing_error = ErrNoTariffs | ErrInvalidTariff | ErrInvalidPeriod | ErrParse | ErrDatabase | ErrNoRows | ErrDecode | ErrMissingID

record Tariffs =
  tfTenantID :: uuid
  tfVersion :: int
  tfUpdatedAt :: time
  tfTrunkCostsMinor :: "(string \<times> int) list option"
  tfWagePerSurveyMinor :: int
  tfStorageMinorPerGBMo :: int
  tfRespondentBasesMinor :: int
  tfFixedFeesMinor :: int

definition tariffs_Validate :: "Tariffs \<Rightarrow> billing_error option" where
  "tariffs_Validate t =
     (if tfWagePerSurveyMinor t < 0 then Some ErrInvalidTariff
      else if tfRespondentBasesMinor t < 0 then Some ErrInvalidTariff
      else if tfStorageMinorPerGBMo t < 0 then Some ErrInvalidTariff
      else if tfFixedFeesMinor t < 0 then Some ErrInvalidTariff
      else if (\<exists>(trunkID, cost) \<in> set (case tfTrunkCostsMinor t of None \<Rightarrow> [] | Some m \<Rightarrow> m). trunkID = '''' \<or> cost < 0) then Some ErrInvalidTariff
      else None)"

definition TrunkCostMinor :: "Tariffs \<Rightarrow> string \<Rightarrow> int" where
  "TrunkCostMinor t trunkID =
     (if trunkID = '''' then 0
      else case tfTrunkCostsMinor t of None \<Rightarrow> 0 | Some m \<Rightarrow> (case map_of m trunkID of None \<Rightarrow> 0 | Some c \<Rightarrow> c))"

record Period =
  pdFrom :: time
  pdTo :: time

text \<open>The month \<open>m\<close> of year \<open>y\<close>, and the month a number of months later.\<close>

definition add_months :: "int \<times> int \<Rightarrow> int \<Rightarrow> int \<times> int" where
  "add_months ym n = (case ym of (y, m) \<Rightarrow> (y + (m - 1 + n) div 12, (m - 1 + n) mod 12 + 1))"

definition Month :: "int \<times> int \<Rightarrow> Period" where
  "Month ym = (case (ym, add_months ym 1) of ((y, m), (y', m')) \<Rightarrow> \<lparr>pdFrom = date y m 1 * day_length, pdTo = date y' m' 1 * day_length\<rparr>)"

record CallCostInput =
  ciCallID :: uuid
  ciTenantID :: uuid
  ciProjectID :: uuid
  ciTrunkUsed :: string
  ciDurationSec :: "32 word"
  ciStatus :: string
  ciStorageBytes :: int
  ciFinalizedAt :: time

record CallCostOutput =
  coTelecomMinor :: int
  coWagesMinor :: int
  coStorageMinor :: int
  coTotalMinor :: int

section \<open>The cost of a call\<close>

text \<open>
  \<open>q x d\<close> is \<open>x\<close> divided by \<open>d\<close> and rounded to a whole number, half away from zero, as the decimal
  package documents it.
\<close>

locale decimal_division =
  fixes q :: "int \<Rightarrow> int \<Rightarrow> int"
  assumes nearest: "0 \<le> x \<Longrightarrow> 0 < d \<Longrightarrow> 2 * x - d < 2 * (d * q x d) \<and> 2 * (d * q x d) \<le> 2 * x + d"
begin

lemma error_half: "0 \<le> x \<Longrightarrow> 0 < d \<Longrightarrow> 2 * \<bar>d * q x d - x\<bar> \<le> d"
  by (drule (1) nearest) (simp add: abs_if)

lemma quotient_nonneg: "0 \<le> x \<Longrightarrow> 0 < d \<Longrightarrow> 0 \<le> q x d"
proof -
  assume a: "0 \<le> x" "0 < d"
  then have "d * (- 1) < d * q x d" using nearest [of x d] by linarith
  then show ?thesis using a(2) by (simp only: mult_less_cancel_left_pos)
qed

lemma quotient_le: "0 \<le> x \<Longrightarrow> 0 < d \<Longrightarrow> 2 * x < d * (2 * n + 1) \<Longrightarrow> q x d \<le> n"
proof -
  assume a: "0 \<le> x" "0 < d" "2 * x < d * (2 * n + 1)"
  then have "2 * (d * q x d) < 2 * (d * (n + 1))" using nearest [of x d] by (simp add: algebra_simps)
  then have "q x d < n + 1" using a(2) by (simp add: mult_less_cancel_left_pos)
  then show ?thesis by simp
qed

end

definition half_up :: "int \<Rightarrow> int \<Rightarrow> int" where
  "half_up x d = (2 * x + d) div (2 * d)"

interpretation rounding: decimal_division half_up
proof
  fix x d :: int
  assume a: "0 \<le> x" "0 < d"
  have "(2 * x + d) div (2 * d) * (2 * d) + (2 * x + d) mod (2 * d) = 2 * x + d" by (rule div_mult_mod_eq)
  moreover have "0 \<le> (2 * x + d) mod (2 * d)" "(2 * x + d) mod (2 * d) < 2 * d" using a(2) by simp_all
  ultimately show "2 * x - d < 2 * (d * half_up x d) \<and> 2 * (d * half_up x d) \<le> 2 * x + d"
    unfolding half_up_def by (simp add: algebra_simps)
qed

definition bytesPerGB :: int where
  "bytesPerGB = 2 ^ 30"

definition CallCost :: "(int \<Rightarrow> int \<Rightarrow> int) \<Rightarrow> CallCostInput \<Rightarrow> Tariffs \<Rightarrow> billing_error + CallCostOutput" where
  "CallCost q inp t =
     (if sint (ciDurationSec inp) < 0 then Inl ErrInvalidPeriod
      else let perMin = TrunkCostMinor t (ciTrunkUsed inp);
               telecom = (if sint (ciDurationSec inp) > 0 \<and> perMin > 0 then wrap64 (q (perMin * sint (ciDurationSec inp)) 60) else 0);
               wages = (if ciStatus inp = ''success'' then tfWagePerSurveyMinor t else 0);
               storage = (if ciStorageBytes inp > 0 \<and> tfStorageMinorPerGBMo t > 0
                          then wrap64 (q (tfStorageMinorPerGBMo t * ciStorageBytes inp) bytesPerGB) else 0)
           in Inr \<lparr>coTelecomMinor = telecom, coWagesMinor = wages, coStorageMinor = storage, coTotalMinor = wrap64 (telecom + wages + storage)\<rparr>)"

section \<open>The tables\<close>

record CallCostRow =
  ccCallID :: uuid
  ccTenantID :: uuid
  ccProjectID :: uuid
  ccTrunkUsed :: string
  ccDurationSec :: "32 word"
  ccStatus :: string
  ccTelecomMinor :: int
  ccWagesMinor :: int
  ccStorageMinor :: int
  ccTotalMinor :: int
  ccTariffVersion :: "int option"
  ccFinalizedAt :: time

record project_row =
  pjID :: uuid
  pjTenant :: uuid
  pjCode :: string
  pjName :: string
  pjFee :: int

record respondent_row =
  rsTenant :: uuid
  rsProject :: uuid
  rsSource :: string
  rsCreatedAt :: time

datatype setting_doc = DocObject "(string \<times> int) list" | DocOther

record billing_db =
  bdCalls :: "uuid list"
  bdTenants :: "uuid list"
  bdProjects :: "project_row list"
  bdRespondents :: "respondent_row list"
  bdSettings :: "uuid \<Rightarrow> string \<Rightarrow> setting_doc option"
  bdCosts :: "CallCostRow list"

text \<open>Check constraints are tested first, then the conflict on the key, then the references.\<close>

definition InsertCallCostTx :: "billing_db \<Rightarrow> CallCostRow \<Rightarrow> (billing_error + bool) \<times> billing_db" where
  "InsertCallCostTx db row =
     (if ccTelecomMinor row < 0 \<or> ccWagesMinor row < 0 \<or> ccStorageMinor row < 0 \<or> ccTotalMinor row < 0 then (Inl ErrDatabase, db)
      else if ccCallID row \<in> ccCallID ` set (bdCosts db) then (Inr False, db)
      else if ccCallID row \<notin> set (bdCalls db) \<or> ccTenantID row \<notin> set (bdTenants db) \<or> ccProjectID row \<notin> pjID ` set (bdProjects db)
      then (Inl ErrDatabase, db)
      else (Inr True, db\<lparr>bdCosts := bdCosts db @ [row]\<rparr>))"

text \<open>\<open>pool.WithTenant\<close> around a statement.\<close>

definition within_tenant :: "call_outcome \<Rightarrow> uuid \<Rightarrow> billing_db \<Rightarrow> (billing_error + 'a) \<times> billing_db \<Rightarrow> (billing_error + 'a) \<times> billing_db" where
  "within_tenant net t db r =
     (if t = uuid_Nil then (Inl ErrDatabase, db)
      else case r of
             (Inl e, _) \<Rightarrow> (Inl (if net = CallOk then e else ErrDatabase), db)
           | (Inr x, db') \<Rightarrow> (case net of CallOk \<Rightarrow> (Inr x, db') | CallLost \<Rightarrow> (Inl ErrDatabase, db) | ReplyLost \<Rightarrow> (Inl ErrDatabase, db')))"

definition InsertCallCost :: "call_outcome \<Rightarrow> billing_db \<Rightarrow> CallCostRow \<Rightarrow> (billing_error + bool) \<times> billing_db" where
  "InsertCallCost net db row = within_tenant net (ccTenantID row) db (InsertCallCostTx db row)"

definition GetSetting :: "call_outcome \<Rightarrow> billing_db \<Rightarrow> uuid \<Rightarrow> string \<Rightarrow> billing_error + setting_doc" where
  "GetSetting net db t key =
     fst (within_tenant net t db (case bdSettings db t key of None \<Rightarrow> Inl ErrNoRows | Some v \<Rightarrow> Inr v, db))"

fun put_settings :: "(string \<times> setting_doc) list \<Rightarrow> (string \<Rightarrow> setting_doc option) \<Rightarrow> string \<Rightarrow> setting_doc option" where
  "put_settings [] m = m"
| "put_settings ((k, v) # kv) m = put_settings kv (m(k := Some v))"

definition UpsertSettings :: "call_outcome \<Rightarrow> billing_db \<Rightarrow> uuid \<Rightarrow> (string \<times> setting_doc) list \<Rightarrow> (billing_error + unit) \<times> billing_db" where
  "UpsertSettings net db t kv =
     (if kv = [] then (Inr (), db)
      else within_tenant net t db
        (if t \<notin> set (bdTenants db) then (Inl ErrDatabase, db)
         else (Inr (), db\<lparr>bdSettings := (bdSettings db)(t := put_settings kv (bdSettings db t))\<rparr>)))"

section \<open>Tariffs\<close>

text \<open>The outcome of each read, of the write, and the clock.\<close>

record bill_env =
  beReads :: "string \<Rightarrow> call_outcome"
  beWrite :: call_outcome
  beNow :: time

definition readInt64Field :: "bill_env \<Rightarrow> billing_db \<Rightarrow> uuid \<Rightarrow> string \<Rightarrow> billing_error + int option" where
  "readInt64Field e db t key =
     (case GetSetting (beReads e key) db t key of
        Inl ErrNoRows \<Rightarrow> Inr None
      | Inl err \<Rightarrow> Inl err
      | Inr DocOther \<Rightarrow> Inl ErrParse
      | Inr (DocObject m) \<Rightarrow> Inr (Some (case map_of m ''value'' of None \<Rightarrow> 0 | Some v \<Rightarrow> v)))"

definition read_trunks :: "bill_env \<Rightarrow> billing_db \<Rightarrow> uuid \<Rightarrow> billing_error + (string \<times> int) list option" where
  "read_trunks e db t =
     (case GetSetting (beReads e ''billing.trunks'') db t ''billing.trunks'' of
        Inl ErrNoRows \<Rightarrow> Inr None
      | Inl err \<Rightarrow> Inl err
      | Inr DocOther \<Rightarrow> Inl ErrParse
      | Inr (DocObject m) \<Rightarrow> Inr (Some m))"

definition tariffs_Get :: "Tariffs \<Rightarrow> bill_env \<Rightarrow> billing_db \<Rightarrow> uuid \<Rightarrow> billing_error + Tariffs" where
  "tariffs_Get def e db t =
     bindE (read_trunks e db t) (\<lambda>trunks.
     bindE (readInt64Field e db t ''billing.wage_per_survey'') (\<lambda>wage.
     bindE (readInt64Field e db t ''billing.respondent_bases'') (\<lambda>bases.
     bindE (readInt64Field e db t ''billing.storage'') (\<lambda>storage.
     bindE (readInt64Field e db t ''billing.fixed'') (\<lambda>fixed.
     bindE (readInt64Field e db t ''billing.version'') (\<lambda>version.
       if trunks = None \<and> wage = None \<and> bases = None \<and> storage = None \<and> fixed = None \<and> version = None then Inl ErrNoTariffs
       else Inr \<lparr>tfTenantID = t,
              tfVersion = (case version of None \<Rightarrow> tfVersion def | Some v \<Rightarrow> v),
              tfUpdatedAt = tfUpdatedAt def,
              tfTrunkCostsMinor = (case trunks of None \<Rightarrow> tfTrunkCostsMinor def | Some m \<Rightarrow> Some m),
              tfWagePerSurveyMinor = (case wage of None \<Rightarrow> tfWagePerSurveyMinor def | Some v \<Rightarrow> v),
              tfStorageMinorPerGBMo = (case storage of None \<Rightarrow> tfStorageMinorPerGBMo def | Some v \<Rightarrow> v),
              tfRespondentBasesMinor = (case bases of None \<Rightarrow> tfRespondentBasesMinor def | Some v \<Rightarrow> v),
              tfFixedFeesMinor = (case fixed of None \<Rightarrow> tfFixedFeesMinor def | Some v \<Rightarrow> v)\<rparr>))))))"

definition value_doc :: "int \<Rightarrow> setting_doc" where
  "value_doc v = DocObject [(''value'', v)]"

definition tariff_keys :: "Tariffs \<Rightarrow> (string \<times> setting_doc) list" where
  "tariff_keys t = (case tfTrunkCostsMinor t of None \<Rightarrow> [] | Some m \<Rightarrow> [(''billing.trunks'', DocObject m)]) @
     [(''billing.wage_per_survey'', value_doc (tfWagePerSurveyMinor t)),
      (''billing.respondent_bases'', value_doc (tfRespondentBasesMinor t)),
      (''billing.storage'', value_doc (tfStorageMinorPerGBMo t)),
      (''billing.fixed'', value_doc (tfFixedFeesMinor t)),
      (''billing.version'', value_doc (tfVersion t))]"

definition tariffs_Update :: "Tariffs \<Rightarrow> bill_env \<Rightarrow> billing_db \<Rightarrow> uuid \<Rightarrow> Tariffs \<Rightarrow> (billing_error + Tariffs) \<times> billing_db" where
  "tariffs_Update def e db t inp =
     (case tariffs_Validate inp of
        Some err \<Rightarrow> (Inl err, db)
      | None \<Rightarrow>
        let go = (\<lambda>version.
              let inp = inp\<lparr>tfTenantID := t, tfVersion := version + 1, tfUpdatedAt := beNow e\<rparr>
              in case UpsertSettings (beWrite e) db t (tariff_keys inp) of
                   (Inl err, db') \<Rightarrow> (Inl err, db')
                 | (Inr _, db') \<Rightarrow> (Inr inp, db'))
        in case tariffs_Get def e db t of
             Inr cur \<Rightarrow> go (tfVersion cur)
           | Inl ErrNoTariffs \<Rightarrow> go 0
           | Inl err \<Rightarrow> (Inl err, db))"

section \<open>Finalised calls\<close>

definition call_cost_row :: "CallCostInput \<Rightarrow> Tariffs \<Rightarrow> CallCostOutput \<Rightarrow> CallCostRow" where
  "call_cost_row inp tariffs out =
     \<lparr>ccCallID = ciCallID inp, ccTenantID = ciTenantID inp, ccProjectID = ciProjectID inp, ccTrunkUsed = ciTrunkUsed inp,
      ccDurationSec = ciDurationSec inp, ccStatus = ciStatus inp, ccTelecomMinor = coTelecomMinor out, ccWagesMinor = coWagesMinor out,
      ccStorageMinor = coStorageMinor out, ccTotalMinor = coTotalMinor out,
      ccTariffVersion = (if tfVersion tariffs > 0 then Some (tfVersion tariffs) else None), ccFinalizedAt = ciFinalizedAt inp\<rparr>"

definition charge :: "(int \<Rightarrow> int \<Rightarrow> int) \<Rightarrow> bill_env \<Rightarrow> billing_db \<Rightarrow> CallCostInput \<Rightarrow> Tariffs \<Rightarrow> (billing_error + unit) \<times> billing_db" where
  "charge q e db inp tariffs =
     (case CallCost q inp tariffs of
        Inl err \<Rightarrow> (Inl err, db)
      | Inr out \<Rightarrow>
        (case InsertCallCost (beWrite e) db (call_cost_row inp tariffs out) of
           (Inl err, db') \<Rightarrow> (Inl err, db')
         | (Inr inserted, db') \<Rightarrow> (Inr (), db')))"

definition OnCallFinalized :: "(int \<Rightarrow> int \<Rightarrow> int) \<Rightarrow> Tariffs \<Rightarrow> bill_env \<Rightarrow> billing_db \<Rightarrow> CallCostInput \<Rightarrow> (billing_error + unit) \<times> billing_db" where
  "OnCallFinalized q def e db inp =
     (case tariffs_Get def e db (ciTenantID inp) of
        Inl ErrNoTariffs \<Rightarrow> charge q e db inp (def\<lparr>tfTenantID := ciTenantID inp\<rparr>)
      | Inl err \<Rightarrow> (Inl err, db)
      | Inr tariffs \<Rightarrow> charge q e db inp tariffs)"

text \<open>The subscriber's handler; \<open>None\<close> is a payload that does not decode. A result \<open>Inl\<close> asks for redelivery.\<close>

definition cost_input :: "CallFinalizedEvent \<Rightarrow> CallCostInput" where
  "cost_input raw = \<lparr>ciCallID = cfCallID raw, ciTenantID = cfTenantID raw, ciProjectID = cfProjectID raw, ciTrunkUsed = cfTrunkUsed raw,
     ciDurationSec = cfDurationSec raw, ciStatus = cfStatus raw, ciStorageBytes = cfStorageBytes raw, ciFinalizedAt = cfFinalizedAt raw * second\<rparr>"

definition handle_finalized :: "(int \<Rightarrow> int \<Rightarrow> int) \<Rightarrow> Tariffs \<Rightarrow> bill_env \<Rightarrow> billing_db \<Rightarrow> CallFinalizedEvent option \<Rightarrow> (billing_error + unit) \<times> billing_db" where
  "handle_finalized q def e db payload =
     (case payload of
        None \<Rightarrow> (Inl ErrDecode, db)
      | Some raw \<Rightarrow>
        if cfCallID raw = uuid_Nil then (Inl ErrMissingID, db)
        else if cfTenantID raw = uuid_Nil then (Inl ErrMissingID, db)
        else OnCallFinalized q def e db (cost_input raw))"

section \<open>Reports\<close>

definition zero_time :: time where
  "zero_time = date 1 1 1 * day_length"

definition period_ok :: "Period \<Rightarrow> bool" where
  "period_ok p \<longleftrightarrow> \<not> (pdFrom p = zero_time \<or> \<not> pdFrom p < pdTo p)"

text \<open>\<open>coalesce(sum(...), 0)::bigint\<close>.\<close>

definition sum_bigint :: "int list \<Rightarrow> billing_error + int" where
  "sum_bigint xs = (if in_int64 (sum_list xs) then Inr (sum_list xs) else Inl ErrDatabase)"

definition costs_in :: "billing_db \<Rightarrow> uuid \<Rightarrow> uuid option \<Rightarrow> time \<Rightarrow> time \<Rightarrow> CallCostRow list" where
  "costs_in db t project from to = filter (\<lambda>r. ccTenantID r = t \<and> (case project of None \<Rightarrow> True | Some p \<Rightarrow> ccProjectID r = p) \<and>
     from \<le> ccFinalizedAt r \<and> ccFinalizedAt r < to) (bdCosts db)"

abbreviation successes :: "CallCostRow list \<Rightarrow> int" where
  "successes rs \<equiv> int (length (filter (\<lambda>r. ccStatus r = ''success'') rs))"

record CallCostsAggregate =
  agTelecomMinor :: int
  agWagesMinor :: int
  agStorageMinor :: int
  agSurveys :: int
  agTotalSeconds :: int

text \<open>Reads of a report: the outcome of the statement; a lost request and a lost reply look the same.\<close>

definition read_tenant :: "call_outcome \<Rightarrow> uuid \<Rightarrow> billing_error + 'a \<Rightarrow> billing_error + 'a" where
  "read_tenant net t r = (if t = uuid_Nil \<or> net \<noteq> CallOk then Inl ErrDatabase else r)"

definition SumCallCosts :: "call_outcome \<Rightarrow> billing_db \<Rightarrow> uuid \<Rightarrow> uuid option \<Rightarrow> time \<Rightarrow> time \<Rightarrow> billing_error + CallCostsAggregate" where
  "SumCallCosts net db t project from to =
     (let rs = costs_in db t project from to in
      read_tenant net t
       (bindE (sum_bigint (map ccTelecomMinor rs)) (\<lambda>telecom.
        bindE (sum_bigint (map ccWagesMinor rs)) (\<lambda>wages.
        bindE (sum_bigint (map ccStorageMinor rs)) (\<lambda>storage.
        bindE (sum_bigint (map (\<lambda>r. sint (ccDurationSec r)) rs)) (\<lambda>seconds.
          Inr \<lparr>agTelecomMinor = telecom, agWagesMinor = wages, agStorageMinor = storage, agSurveys = successes rs, agTotalSeconds = seconds\<rparr>))))))"

definition CountImportedRecords :: "call_outcome \<Rightarrow> billing_db \<Rightarrow> uuid \<Rightarrow> uuid option \<Rightarrow> time \<Rightarrow> time \<Rightarrow> billing_error + int" where
  "CountImportedRecords net db t project from to =
     read_tenant net t (Inr (int (length (filter (\<lambda>r. rsTenant r = t \<and> (case project of None \<Rightarrow> True | Some p \<Rightarrow> rsProject r = p) \<and>
       rsSource r = ''imported'' \<and> from \<le> rsCreatedAt r \<and> rsCreatedAt r < to) (bdRespondents db)))))"

record MonthBreakdown =
  mbTenantID :: uuid
  mbPeriod :: Period
  mbTelecomMin :: int
  mbWagesMin :: int
  mbRespondentBasesMin :: int
  mbStorageMin :: int
  mbFixedFeeMin :: int
  mbTotalMin :: int
  mbCompletedSurveys :: int
  mbTotalCallSeconds :: int

definition CostPerSurveyMinor :: "MonthBreakdown \<Rightarrow> int" where
  "CostPerSurveyMinor b = (if mbCompletedSurveys b = 0 then 0 else mbTotalMin b sdiv mbCompletedSurveys b)"

definition AvgCostPerMinuteMinor :: "MonthBreakdown \<Rightarrow> int" where
  "AvgCostPerMinuteMinor b = (if mbTotalCallSeconds b = 0 then 0 else wrap64 (mbTotalMin b * 60) sdiv mbTotalCallSeconds b)"

record report_env =
  rpSum :: call_outcome
  rpCount :: call_outcome
  rpReads :: bill_env

definition MonthSpend :: "Tariffs \<Rightarrow> report_env \<Rightarrow> billing_db \<Rightarrow> uuid \<Rightarrow> uuid option \<Rightarrow> Period \<Rightarrow> billing_error + MonthBreakdown" where
  "MonthSpend def e db t project p =
     (if \<not> period_ok p then Inl ErrInvalidPeriod
      else bindE (SumCallCosts (rpSum e) db t project (pdFrom p) (pdTo p)) (\<lambda>agg.
           bindE (CountImportedRecords (rpCount e) db t project (pdFrom p) (pdTo p)) (\<lambda>imported.
           bindE (case tariffs_Get def (rpReads e) db t of Inl ErrNoTariffs \<Rightarrow> Inr def | r \<Rightarrow> r) (\<lambda>tariffs.
             let bases = wrap64 (imported * tfRespondentBasesMinor tariffs)
             in Inr \<lparr>mbTenantID = t, mbPeriod = p, mbTelecomMin = agTelecomMinor agg, mbWagesMin = agWagesMinor agg, mbRespondentBasesMin = bases,
                  mbStorageMin = agStorageMinor agg, mbFixedFeeMin = tfFixedFeesMinor tariffs,
                  mbTotalMin = wrap64 (agTelecomMinor agg + agWagesMinor agg + agStorageMinor agg + bases + tfFixedFeesMinor tariffs),
                  mbCompletedSurveys = agSurveys agg, mbTotalCallSeconds = agTotalSeconds agg\<rparr>))))"

text \<open>\<open>ym\<close> is the year and the month of the clock; the months are collected oldest first.\<close>

fun spend_months :: "Tariffs \<Rightarrow> (int \<Rightarrow> report_env) \<Rightarrow> billing_db \<Rightarrow> uuid \<Rightarrow> int \<times> int \<Rightarrow> int list \<Rightarrow> billing_error + MonthBreakdown list" where
  "spend_months def envs db t ym [] = Inr []"
| "spend_months def envs db t ym (i # is) =
     bindE (MonthSpend def (envs i) db t None (Month (add_months ym (- i)))) (\<lambda>bd.
     bindE (spend_months def envs db t ym is) (\<lambda>rest. Inr (bd # rest)))"

definition SpendByMonth :: "Tariffs \<Rightarrow> (int \<Rightarrow> report_env) \<Rightarrow> billing_db \<Rightarrow> uuid \<Rightarrow> int \<times> int \<Rightarrow> int \<Rightarrow> billing_error + MonthBreakdown list" where
  "SpendByMonth def envs db t ym n =
     (if n \<le> 0 \<or> n > 24 then Inl ErrInvalidPeriod
      else spend_months def envs db t ym (rev [0..n - 1]))"

definition ProjectFeePerCompleted :: "call_outcome \<Rightarrow> billing_db \<Rightarrow> uuid \<Rightarrow> uuid \<Rightarrow> billing_error + int" where
  "ProjectFeePerCompleted net db t p =
     read_tenant net t (case find (\<lambda>r. pjTenant r = t \<and> pjID r = p) (bdProjects db) of None \<Rightarrow> Inl ErrNoRows | Some r \<Rightarrow> Inr (pjFee r))"

definition CountSuccessfulCalls :: "call_outcome \<Rightarrow> billing_db \<Rightarrow> uuid \<Rightarrow> uuid \<Rightarrow> time \<Rightarrow> time \<Rightarrow> billing_error + int" where
  "CountSuccessfulCalls net db t p from to = read_tenant net t (Inr (successes (costs_in db t (Some p) from to)))"

definition MonthRevenue :: "call_outcome \<Rightarrow> call_outcome \<Rightarrow> billing_db \<Rightarrow> uuid \<Rightarrow> uuid \<Rightarrow> Period \<Rightarrow> billing_error + int" where
  "MonthRevenue fee_net count_net db t p pd =
     (if \<not> period_ok pd then Inl ErrInvalidPeriod
      else case ProjectFeePerCompleted fee_net db t p of
             Inl ErrNoRows \<Rightarrow> Inr 0
           | Inl err \<Rightarrow> Inl err
           | Inr fee \<Rightarrow>
             if fee = 0 then Inr 0
             else bindE (CountSuccessfulCalls count_net db t p (pdFrom pd) (pdTo pd)) (\<lambda>n. Inr (wrap64 (fee * n))))"

record ProjectAggregate =
  paProjectID :: uuid
  paProjectCode :: string
  paProjectName :: string
  paSurveys :: int
  paTelecomMinor :: int
  paWagesMinor :: int
  paStorageMinor :: int
  paTotalMinor :: int

definition aggregate :: "billing_db \<Rightarrow> uuid \<Rightarrow> time \<Rightarrow> time \<Rightarrow> project_row \<Rightarrow> billing_error + ProjectAggregate" where
  "aggregate db t from to pj =
     (let rs = costs_in db t (Some (pjID pj)) from to in
      bindE (sum_bigint (map ccTelecomMinor rs)) (\<lambda>telecom.
      bindE (sum_bigint (map ccWagesMinor rs)) (\<lambda>wages.
      bindE (sum_bigint (map ccStorageMinor rs)) (\<lambda>storage.
      bindE (sum_bigint (map ccTotalMinor rs)) (\<lambda>total.
        Inr \<lparr>paProjectID = pjID pj, paProjectCode = pjCode pj, paProjectName = pjName pj, paSurveys = successes rs, paTelecomMinor = telecom,
             paWagesMinor = wages, paStorageMinor = storage, paTotalMinor = total\<rparr>)))))"

fun collect :: "(billing_error + 'a) list \<Rightarrow> billing_error + 'a list" where
  "collect [] = Inr []"
| "collect (r # rs) = bindE r (\<lambda>x. bindE (collect rs) (\<lambda>xs. Inr (x # xs)))"

text \<open>Projects with spend in the period, by name (in the order of the characters); the sums of the kept groups are cast.\<close>

definition ListProjectsForPeriod :: "call_outcome \<Rightarrow> billing_db \<Rightarrow> uuid \<Rightarrow> time \<Rightarrow> time \<Rightarrow> billing_error + ProjectAggregate list" where
  "ListProjectsForPeriod net db t from to =
     read_tenant net t
      (bindE (collect (map (aggregate db t from to)
         (filter (\<lambda>pj. pjTenant pj = t \<and> sum_list (map ccTotalMinor (costs_in db t (Some (pjID pj)) from to)) > 0) (bdProjects db))))
       (\<lambda>xs. Inr (sort_key paProjectName xs)))"

record ProjectMargin =
  pmProjectID :: uuid
  pmProjectCode :: string
  pmProjectName :: string
  pmSurveys :: int
  pmTelecomMin :: int
  pmWagesMin :: int
  pmRespondentBasesMin :: int
  pmStorageMin :: int
  pmTotalMin :: int
  pmRevenueMin :: int
  pmMarginMin :: int
  pmCostPerSrvMn :: int

definition margin_row :: "ProjectAggregate \<Rightarrow> int \<Rightarrow> ProjectMargin" where
  "margin_row r revenue = \<lparr>pmProjectID = paProjectID r, pmProjectCode = paProjectCode r, pmProjectName = paProjectName r, pmSurveys = paSurveys r,
     pmTelecomMin = paTelecomMinor r, pmWagesMin = paWagesMinor r, pmRespondentBasesMin = 0, pmStorageMin = paStorageMinor r, pmTotalMin = paTotalMinor r,
     pmRevenueMin = revenue, pmMarginMin = wrap64 (revenue - paTotalMinor r),
     pmCostPerSrvMn = (if paSurveys r > 0 then paTotalMinor r sdiv paSurveys r else 0)\<rparr>"

text \<open>The stable sort is descending in the total.\<close>

definition Margin :: "call_outcome \<Rightarrow> (uuid \<Rightarrow> call_outcome \<times> call_outcome) \<Rightarrow> billing_db \<Rightarrow> uuid \<Rightarrow> Period \<Rightarrow> billing_error + ProjectMargin list" where
  "Margin net nets db t p =
     (if \<not> period_ok p then Inl ErrInvalidPeriod
      else bindE (ListProjectsForPeriod net db t (pdFrom p) (pdTo p)) (\<lambda>rows.
           bindE (collect (map (\<lambda>r. bindE (MonthRevenue (fst (nets (paProjectID r))) (snd (nets (paProjectID r))) db t (paProjectID r) p)
             (\<lambda>revenue. Inr (margin_row r revenue))) rows)) (\<lambda>out.
           Inr (sort_key (\<lambda>r. - pmTotalMin r) out))))"

section \<open>The audit of tariff changes\<close>

record audit_event =
  avID :: uuid
  avTenantID :: uuid
  avActorID :: "uuid option"
  avTarget :: uuid
  avVersionBefore :: int
  avVersionAfter :: int
  avChangedKeys :: "string list"
  avTimestamp :: time

datatype audit_subject = SubjectAuditEventFor uuid

text \<open>Never an error: a refused append is logged.\<close>

definition EmitTariffUpdated ::
  "bool \<Rightarrow> time \<Rightarrow> uuid \<Rightarrow> (audit_subject, audit_event) outbox_table \<Rightarrow> uuid \<Rightarrow> uuid \<Rightarrow> int \<Rightarrow> int \<Rightarrow> string list
   \<Rightarrow> (audit_subject, audit_event) outbox_table" where
  "EmitTariffUpdated ok now fresh tb t actor before after keys =
     (if t = uuid_Nil then tb
      else snd (writer_Append \<lparr>etSubjectEmpty = (\<lambda>_. False), etPayloadEmpty = (\<lambda>_. False), etPayloadValid = (\<lambda>_. True)\<rparr> ok now tb (Some t) None
        (SubjectAuditEventFor t)
        \<lparr>avID = fresh, avTenantID = t, avActorID = (if actor = uuid_Nil then None else Some actor), avTarget = t, avVersionBefore = before,
         avVersionAfter = after, avChangedKeys = keys, avTimestamp = now\<rparr>))"

end
