(* ===== verification/Billing_Properties.thy ===== *)
theory Billing_Properties
  imports Billing
begin

text \<open>
  Properties of billing: rounding and range of a call's cost, well-formedness of the cost rows over
  runs with failures, tariffs read back, the margin report against the spend report, and the calls
  that cannot be charged.
\<close>

section \<open>Arithmetic\<close>

lemma sum_bigint_Inr: "sum_bigint xs = Inr n \<longleftrightarrow> in_int64 (sum_list xs) \<and> n = sum_list xs"
  by (auto simp: sum_bigint_def)

text \<open>Amounts far below the range of \<open>int64\<close>: 21 million roubles a minute, a petabyte of storage.\<close>

definition modest :: "Tariffs \<Rightarrow> CallCostInput \<Rightarrow> bool" where
  "modest t inp \<longleftrightarrow> tariffs_Validate t = None \<and> TrunkCostMinor t (ciTrunkUsed inp) \<le> 2 ^ 31 \<and> tfStorageMinorPerGBMo t \<le> 2 ^ 31 \<and>
     ciStorageBytes inp \<le> 2 ^ 50 \<and> tfWagePerSurveyMinor t \<le> 2 ^ 61"

lemma Validate_nonneg:
  assumes "tariffs_Validate t = None"
  shows "0 \<le> tfWagePerSurveyMinor t" "0 \<le> tfStorageMinorPerGBMo t" "0 \<le> TrunkCostMinor t trunk"
proof -
  have c: "0 \<le> c" if "(k, c) \<in> set m" "tfTrunkCostsMinor t = Some m" for k c m
    using assms that by (auto simp: tariffs_Validate_def split: if_splits)
  show "0 \<le> tfWagePerSurveyMinor t" "0 \<le> tfStorageMinorPerGBMo t" using assms by (auto simp: tariffs_Validate_def split: if_splits)
  show "0 \<le> TrunkCostMinor t trunk" using c by (auto simp: TrunkCostMinor_def split: option.splits dest!: map_of_SomeD)
qed

lemma sint_32_less: "sint (w :: 32 word) < 2 ^ 31"
  using sint_lt [of w] by simp

text \<open>A rounded line item of bounded factors is exact to half a unit and stays small.\<close>

lemma line_item:
  assumes "decimal_division q" "0 \<le> a" "0 \<le> b" "0 < d" "a * b \<le> d * 2 ^ 60"
  defines "v \<equiv> (if 0 < b \<and> 0 < a then wrap64 (q (a * b) d) else 0)"
  shows "0 \<le> v" "v \<le> 2 ^ 60" "2 * \<bar>d * v - a * b\<bar> \<le> d"
proof -
  have x: "0 \<le> a * b" using assms(2,3) by simp
  note q = decimal_division.quotient_nonneg [OF assms(1) x assms(4)] decimal_division.error_half [OF assms(1) x assms(4)]
  have "q (a * b) d \<le> 2 ^ 60" by (rule decimal_division.quotient_le [OF assms(1) x assms(4)]) (use assms(4,5) in \<open>simp add: algebra_simps\<close>)
  then have "wrap64 (q (a * b) d) = q (a * b) d" using q(1) by (intro wrap64_id) (simp add: in_int64_def)
  then have v: "v = (if 0 < b \<and> 0 < a then q (a * b) d else 0)" by (simp add: v_def)
  then show "0 \<le> v" "v \<le> 2 ^ 60" using q(1) \<open>q (a * b) d \<le> 2 ^ 60\<close> by simp_all
  show "2 * \<bar>d * v - a * b\<bar> \<le> d" using q(2) v assms(2-4) by (cases "0 < b \<and> 0 < a") auto
qed

lemma call_cost_lines:
  assumes "decimal_division q" "modest t inp" "0 \<le> sint (ciDurationSec inp)" "0 \<le> ciStorageBytes inp"
  shows "\<exists>out. CallCost q inp t = Inr out \<and>
     2 * \<bar>60 * coTelecomMinor out - TrunkCostMinor t (ciTrunkUsed inp) * sint (ciDurationSec inp)\<bar> \<le> 60 \<and>
     2 * \<bar>bytesPerGB * coStorageMinor out - tfStorageMinorPerGBMo t * ciStorageBytes inp\<bar> \<le> bytesPerGB \<and>
     coWagesMinor out = (if ciStatus inp = ''success'' then tfWagePerSurveyMinor t else 0) \<and>
     0 \<le> coTelecomMinor out \<and> 0 \<le> coStorageMinor out \<and> 0 \<le> coWagesMinor out \<and>
     coTotalMinor out = coTelecomMinor out + coWagesMinor out + coStorageMinor out"
proof -
  let ?perMin = "TrunkCostMinor t (ciTrunkUsed inp)" and ?dur = "sint (ciDurationSec inp)" and ?rate = "tfStorageMinorPerGBMo t"
  note m = assms(2) [unfolded modest_def]
  note nn = Validate_nonneg [OF m [THEN conjunct1]]
  have "?perMin * ?dur \<le> 2 ^ 31 * 2 ^ 31" using m nn assms(3) sint_32_less [of "ciDurationSec inp"] by (intro mult_mono) auto
  then have tb: "?perMin * ?dur \<le> 60 * 2 ^ 60" by simp
  have "?rate * ciStorageBytes inp \<le> 2 ^ 31 * 2 ^ 50" using m nn assms(4) by (intro mult_mono) auto
  then have sb: "?rate * ciStorageBytes inp \<le> bytesPerGB * 2 ^ 60" by (simp add: bytesPerGB_def)
  note telecom = line_item [OF assms(1) nn(3) [of "ciTrunkUsed inp"] assms(3) _ tb] and storage = line_item [OF assms(1) nn(2) assms(4) _ sb]
  define tl st wg where "tl = (if 0 < ?dur \<and> 0 < ?perMin then wrap64 (q (?perMin * ?dur) 60) else 0)"
    and "st = (if 0 < ciStorageBytes inp \<and> 0 < ?rate then wrap64 (q (?rate * ciStorageBytes inp) bytesPerGB) else 0)"
    and "wg = (if ciStatus inp = ''success'' then tfWagePerSurveyMinor t else 0)"
  have g: "(0::int) < 60" "0 < bytesPerGB" by (simp_all add: bytesPerGB_def)
  have tl: "0 \<le> tl" "tl \<le> 2 ^ 60" "2 * \<bar>60 * tl - ?perMin * ?dur\<bar> \<le> 60" using telecom [OF g(1)] by (simp_all only: tl_def)
  have st: "0 \<le> st" "st \<le> 2 ^ 60" "2 * \<bar>bytesPerGB * st - ?rate * ciStorageBytes inp\<bar> \<le> bytesPerGB" using storage [OF g(2)] by (simp_all only: st_def)
  have wg: "0 \<le> wg" "wg \<le> 2 ^ 61" using m nn by (auto simp: wg_def)
  have "wrap64 (tl + wg + st) = tl + wg + st" using tl(1,2) st(1,2) wg by (intro wrap64_id) (simp add: in_int64_def)
  moreover have "CallCost q inp t = Inr \<lparr>coTelecomMinor = tl, coWagesMinor = wg, coStorageMinor = st, coTotalMinor = wrap64 (tl + wg + st)\<rparr>"
    using assms(3) by (simp add: CallCost_def Let_def tl_def wg_def st_def not_less)
  ultimately show ?thesis using tl st wg(1) by (simp add: wg_def)
qed


definition sample_tariffs :: Tariffs where
  "sample_tariffs = \<lparr>tfTenantID = 1, tfVersion = 3, tfUpdatedAt = 0, tfTrunkCostsMinor = Some [(''mtt'', 100)], tfWagePerSurveyMinor = 15000,
     tfStorageMinorPerGBMo = 200, tfRespondentBasesMinor = 50, tfFixedFeesMinor = 0\<rparr>"

definition sample_call :: CallCostInput where
  "sample_call = \<lparr>ciCallID = 7, ciTenantID = 1, ciProjectID = 2, ciTrunkUsed = ''mtt'', ciDurationSec = 95, ciStatus = ''success'',
     ciStorageBytes = 2 ^ 29, ciFinalizedAt = 0\<rparr>"


section \<open>Cost rows over runs\<close>

text \<open>Deliveries, tariff changes, and rows other modules add to their tables.\<close>

datatype bill_op =
    OpDeliver bill_env "CallFinalizedEvent option"
  | OpTariffs bill_env uuid Tariffs
  | OpOthers "uuid list" "uuid list" "project_row list" "respondent_row list"

fun bill_do :: "(int \<Rightarrow> int \<Rightarrow> int) \<Rightarrow> Tariffs \<Rightarrow> bill_op \<Rightarrow> billing_db \<Rightarrow> billing_db" where
  "bill_do q def (OpDeliver e payload) db = snd (handle_finalized q def e db payload)"
| "bill_do q def (OpTariffs e t inp) db = snd (tariffs_Update def e db t inp)"
| "bill_do q def (OpOthers calls tenants projects respondents) db =
     db\<lparr>bdCalls := bdCalls db @ calls, bdTenants := bdTenants db @ tenants, bdProjects := bdProjects db @ projects,
        bdRespondents := bdRespondents db @ respondents\<rparr>"

text \<open>A row that is the cost of an event under some tariffs.\<close>

definition cost_of :: "(int \<Rightarrow> int \<Rightarrow> int) \<Rightarrow> CallFinalizedEvent \<Rightarrow> CallCostRow \<Rightarrow> bool" where
  "cost_of q raw row \<longleftrightarrow> (\<exists>t out. CallCost q (cost_input raw) t = Inr out \<and> row = call_cost_row (cost_input raw) t out)"

definition row_ok :: "(int \<Rightarrow> int \<Rightarrow> int) \<Rightarrow> CallFinalizedEvent set \<Rightarrow> billing_db \<Rightarrow> CallCostRow \<Rightarrow> bool" where
  "row_ok q evs db row \<longleftrightarrow> 0 \<le> ccTelecomMinor row \<and> 0 \<le> ccWagesMinor row \<and> 0 \<le> ccStorageMinor row \<and> 0 \<le> ccTotalMinor row \<and>
     ccCallID row \<in> set (bdCalls db) \<and> ccTenantID row \<in> set (bdTenants db) \<and> ccProjectID row \<in> pjID ` set (bdProjects db) \<and>
     (\<exists>raw \<in> evs. cost_of q raw row)"

definition costs_ok :: "(int \<Rightarrow> int \<Rightarrow> int) \<Rightarrow> CallFinalizedEvent set \<Rightarrow> billing_db \<Rightarrow> bool" where
  "costs_ok q evs db \<longleftrightarrow> distinct (map ccCallID (bdCosts db)) \<and> (\<forall>row \<in> set (bdCosts db). row_ok q evs db row)"

text \<open>What an insert and a delivery can leave: the old tables, or one more row.\<close>

lemma insert_cases:
  "snd (InsertCallCost net db row) = db \<or>
   snd (InsertCallCost net db row) = db\<lparr>bdCosts := bdCosts db @ [row]\<rparr> \<and> ccCallID row \<notin> ccCallID ` set (bdCosts db) \<and>
   0 \<le> ccTelecomMinor row \<and> 0 \<le> ccWagesMinor row \<and> 0 \<le> ccStorageMinor row \<and> 0 \<le> ccTotalMinor row \<and>
   ccCallID row \<in> set (bdCalls db) \<and> ccTenantID row \<in> set (bdTenants db) \<and> ccProjectID row \<in> pjID ` set (bdProjects db)"
  by (auto simp: InsertCallCost_def within_tenant_def InsertCallCostTx_def not_less split: call_outcome.splits)

lemma charge_cases:
  "snd (charge q e db inp t) = db \<or> (\<exists>out. CallCost q inp t = Inr out \<and> snd (charge q e db inp t) = snd (InsertCallCost (beWrite e) db (call_cost_row inp t out)))"
  by (auto simp: charge_def split: sum.splits prod.splits)

lemma deliver_cases:
  "snd (handle_finalized q def e db payload) = db \<or>
   (\<exists>raw row. payload = Some raw \<and> cost_of q raw row \<and> snd (handle_finalized q def e db payload) = snd (InsertCallCost (beWrite e) db row))"
proof -
  have "snd (handle_finalized q def e db payload) = db \<or> (\<exists>raw t. payload = Some raw \<and> snd (handle_finalized q def e db payload) = snd (charge q e db (cost_input raw) t))"
    by (auto simp: handle_finalized_def OnCallFinalized_def split: option.splits sum.splits billing_error.splits)
  then show ?thesis using charge_cases [of q e db] unfolding cost_of_def by metis
qed

lemma tariffs_Update_tables: "bdCosts (snd (tariffs_Update def e db t inp)) = bdCosts db" "bdCalls (snd (tariffs_Update def e db t inp)) = bdCalls db"
    "bdTenants (snd (tariffs_Update def e db t inp)) = bdTenants db" "bdProjects (snd (tariffs_Update def e db t inp)) = bdProjects db"
  by (auto simp: tariffs_Update_def UpsertSettings_def within_tenant_def Let_def split: option.splits sum.splits billing_error.splits call_outcome.splits prod.splits)

fun delivered :: "bill_op \<Rightarrow> CallFinalizedEvent set" where
  "delivered (OpDeliver e (Some raw)) = {raw}"
| "delivered _ = {}"

lemma row_ok_mono: "row_ok q evs db row \<Longrightarrow> evs \<subseteq> evs' \<Longrightarrow> set (bdCalls db) \<subseteq> set (bdCalls db') \<Longrightarrow> set (bdTenants db) \<subseteq> set (bdTenants db') \<Longrightarrow>
    set (bdProjects db) \<subseteq> set (bdProjects db') \<Longrightarrow> row_ok q evs' db' row"
  by (auto simp: row_ok_def)

lemma costs_ok_step:
  assumes "costs_ok q evs db"
  shows "costs_ok q (evs \<union> delivered op) (bill_do q def op db)"
proof (cases op)
  case (OpDeliver e payload)
  have kept: "costs_ok q (evs \<union> delivered op) db" using assms by (auto simp: costs_ok_def intro: row_ok_mono)
  from deliver_cases [of q def e db payload] show ?thesis
  proof (elim disjE exE conjE)
    fix raw row
    assume a: "payload = Some raw" "cost_of q raw row" "snd (handle_finalized q def e db payload) = snd (InsertCallCost (beWrite e) db row)"
    then have d: "raw \<in> evs \<union> delivered op" using OpDeliver by simp
    from insert_cases [of "beWrite e" db row] show ?thesis
    proof
      assume "snd (InsertCallCost (beWrite e) db row) = db"
      then show ?thesis using kept a(3) OpDeliver by simp
    next
      assume n: "snd (InsertCallCost (beWrite e) db row) = db\<lparr>bdCosts := bdCosts db @ [row]\<rparr> \<and> ccCallID row \<notin> ccCallID ` set (bdCosts db) \<and>
        0 \<le> ccTelecomMinor row \<and> 0 \<le> ccWagesMinor row \<and> 0 \<le> ccStorageMinor row \<and> 0 \<le> ccTotalMinor row \<and>
        ccCallID row \<in> set (bdCalls db) \<and> ccTenantID row \<in> set (bdTenants db) \<and> ccProjectID row \<in> pjID ` set (bdProjects db)"
      have "row_ok q (evs \<union> delivered op) (db\<lparr>bdCosts := bdCosts db @ [row]\<rparr>) r" if "r \<in> set (bdCosts db @ [row])" for r
        using that kept n a(2) d by (auto simp: costs_ok_def row_ok_def)
      then show ?thesis using n kept a(3) OpDeliver by (simp add: costs_ok_def del: delivered.simps)
    qed
  qed (use kept OpDeliver in simp)
next
  case (OpTariffs e t inp)
  then show ?thesis using assms tariffs_Update_tables [of def e db t inp] by (auto simp: costs_ok_def intro: row_ok_mono)
next
  case (OpOthers calls tenants projects respondents)
  then show ?thesis using assms by (auto simp: costs_ok_def intro: row_ok_mono)
qed

lemma cost_table_run:
  assumes "bdCosts db = []"
  shows "costs_ok q (\<Union> (set (map delivered ops))) (fold (bill_do q def) ops db)"
proof -
  have "costs_ok q (evs \<union> \<Union> (set (map delivered ops))) (fold (bill_do q def) ops db)" if "costs_ok q evs db" for evs db
    using that
  proof (induction ops arbitrary: evs db)
    case (Cons op ops)
    from Cons.IH [OF costs_ok_step [OF Cons.prems]] show ?case by (simp add: Un_assoc)
  qed simp
  from this [of "{}" db] show ?thesis using assms by (simp add: costs_ok_def)
qed


lemma delivery_refused:
  assumes "cfCallID raw \<notin> set (bdCalls db)" "cfCallID raw \<notin> ccCallID ` set (bdCosts db)"
  shows "isl (fst (handle_finalized q def e db (Some raw)))"
proof -
  have "isl (fst (InsertCallCost net db (call_cost_row (cost_input raw) t out)))" for net t out
    using assms by (auto simp: InsertCallCost_def within_tenant_def InsertCallCostTx_def call_cost_row_def cost_input_def split: call_outcome.splits)
  then have "isl (fst (charge q e db (cost_input raw) t))" for t
    by (auto simp: charge_def split: sum.splits prod.splits) (metis fst_conv sum.disc(2))
  then show ?thesis by (auto simp: handle_finalized_def OnCallFinalized_def split: sum.splits billing_error.splits)
qed

text \<open>
  No call is charged unless another module has written its row. Cost rows refer to the table of
  calls, into which no code of the repository inserts: as long as nothing is added there, every
  delivery of a finalised call is refused, is redelivered, and never leaves a row.
\<close>

theorem no_charge_without_calls_row:
  fixes q def ops db
  assumes "bdCosts db = []" "bdCalls db = []" "list_all (\<lambda>op. case op of OpOthers calls _ _ _ \<Rightarrow> calls = [] | _ \<Rightarrow> True) ops"
  defines "db' \<equiv> fold (bill_do q def) ops db"
  shows "bdCosts db' = [] \<and> isl (fst (handle_finalized q def e db' payload))"
proof -
  have calls: "bdCalls (fold (bill_do q def) ops db) = []" if "bdCalls db = []" "list_all (\<lambda>op. case op of OpOthers calls _ _ _ \<Rightarrow> calls = [] | _ \<Rightarrow> True) ops" for db
    using that
  proof (induction ops arbitrary: db)
    case (Cons op ops)
    have "bdCalls (bill_do q def op db) = []"
    proof (cases op)
      case (OpDeliver e payload)
      then show ?thesis using Cons.prems(1) deliver_cases [of q def e db payload] insert_cases [of "beWrite e" db] by (auto dest: spec)
    qed (use Cons.prems tariffs_Update_tables in auto)
    then show ?case using Cons by simp
  qed simp
  have "costs_ok q (\<Union> (set (map delivered ops))) db'" unfolding db'_def using cost_table_run [OF assms(1)] .
  then have "bdCosts db' = []" using calls [OF assms(2,3)] by (cases "bdCosts db'") (auto simp: costs_ok_def row_ok_def db'_def)
  moreover have "isl (fst (handle_finalized q def e db' payload))"
    using delivery_refused calls [OF assms(2,3)] calculation by (cases payload) (auto simp: db'_def handle_finalized_def)
  ultimately show ?thesis by simp
qed

section \<open>Tariffs read back\<close>

definition reads_ok :: "bill_env \<Rightarrow> bool" where
  "reads_ok e \<longleftrightarrow> (\<forall>k. beReads e k = CallOk)"

lemma GetSetting_ok: "t \<noteq> uuid_Nil \<Longrightarrow> GetSetting CallOk db t k = (case bdSettings db t k of None \<Rightarrow> Inl ErrNoRows | Some v \<Rightarrow> Inr v)"
  by (simp add: GetSetting_def within_tenant_def split: option.splits)


section \<open>Redelivery\<close>

text \<open>A read that fails is an error, never another tariff.\<close>

lemma bindE_env:
  assumes "r = r' \<or> r = Inl x" "\<And>a. f a = f' a \<or> f a = Inl x"
  shows "bindE r f = bindE r' f' \<or> bindE r f = Inl x"
proof (cases r')
  case (Inr b)
  then show ?thesis using assms(1) assms(2) [of b] by auto
qed (use assms(1) in auto)

lemma tariffs_Get_env:
  assumes "reads_ok h"
  shows "tariffs_Get def e db t = tariffs_Get def h db t \<or> tariffs_Get def e db t = Inl ErrDatabase"
proof -
  have g: "GetSetting (beReads e k) db t k = GetSetting (beReads h k) db t k \<or> GetSetting (beReads e k) db t k = Inl ErrDatabase" for k
    using assms by (cases "beReads e k") (auto simp: reads_ok_def GetSetting_def within_tenant_def split: option.splits sum.splits)
  have i: "readInt64Field e db t k = readInt64Field h db t k \<or> readInt64Field e db t k = Inl ErrDatabase" for k
    using g [of k] by (auto simp: readInt64Field_def)
  have r: "read_trunks e db t = read_trunks h db t \<or> read_trunks e db t = Inl ErrDatabase"
    using g [of "''billing.trunks''"] by (auto simp: read_trunks_def)
  show ?thesis unfolding tariffs_Get_def by (intro bindE_env i r disjI1 refl)
qed

text \<open>An environment in which every read succeeds; the tariffs a call is charged under.\<close>

definition calm_bill :: "call_outcome \<Rightarrow> bill_env" where
  "calm_bill w = \<lparr>beReads = (\<lambda>_. CallOk), beWrite = w, beNow = 5\<rparr>"

definition in_force :: "Tariffs \<Rightarrow> billing_db \<Rightarrow> uuid \<Rightarrow> Tariffs \<Rightarrow> bool" where
  "in_force def db t tr \<longleftrightarrow> tariffs_Get def (calm_bill CallOk) db t = Inr tr \<or> tariffs_Get def (calm_bill CallOk) db t = Inl ErrNoTariffs \<and> tr = def\<lparr>tfTenantID := t\<rparr>"

lemma handle_charges:
  assumes "in_force def db (cfTenantID raw) tr" "cfCallID raw \<noteq> uuid_Nil" "cfTenantID raw \<noteq> uuid_Nil"
  shows "handle_finalized q def e db (Some raw) = charge q e db (cost_input raw) tr \<or> handle_finalized q def e db (Some raw) = (Inl ErrDatabase, db)"
    and "reads_ok e \<Longrightarrow> handle_finalized q def e db (Some raw) = charge q e db (cost_input raw) tr"
proof -
  have c: "reads_ok (calm_bill CallOk)" by (simp add: reads_ok_def calm_bill_def)
  have t: "ciTenantID (cost_input raw) = cfTenantID raw" by (simp add: cost_input_def)
  have k: "tariffs_Get def e db (cfTenantID raw) = tariffs_Get def (calm_bill CallOk) db (cfTenantID raw) \<Longrightarrow> handle_finalized q def e db (Some raw) = charge q e db (cost_input raw) tr"
    using assms by (auto simp: handle_finalized_def OnCallFinalized_def in_force_def t)
  show "handle_finalized q def e db (Some raw) = charge q e db (cost_input raw) tr \<or> handle_finalized q def e db (Some raw) = (Inl ErrDatabase, db)"
    using k tariffs_Get_env [OF c, of def e db "cfTenantID raw"] assms(2,3) by (auto simp: handle_finalized_def OnCallFinalized_def t)
  assume "reads_ok e"
  then have "tariffs_Get def (calm_bill CallOk) db (cfTenantID raw) = tariffs_Get def e db (cfTenantID raw) \<or> tariffs_Get def (calm_bill CallOk) db (cfTenantID raw) = Inl ErrDatabase"
    by (rule tariffs_Get_env)
  then show "handle_finalized q def e db (Some raw) = charge q e db (cost_input raw) tr" using k assms(1) by (auto simp: in_force_def)
qed

text \<open>The rows of a call; deliveries touch no other table.\<close>

definition rows_of :: "uuid \<Rightarrow> billing_db \<Rightarrow> CallCostRow list" where
  "rows_of c db = filter (\<lambda>r. ccCallID r = c) (bdCosts db)"

lemma deliver_tables:
  assumes "db' = snd (handle_finalized q def e db payload)"
  shows "bdCalls db' = bdCalls db" "bdTenants db' = bdTenants db" "bdProjects db' = bdProjects db" "bdSettings db' = bdSettings db"
    "(\<forall>raw. payload = Some raw \<longrightarrow> cfCallID raw \<noteq> c) \<Longrightarrow> rows_of c db' = rows_of c db"
proof -
  have row: "cfCallID raw = ccCallID row" if "cost_of q raw row" for raw row using that by (auto simp: cost_of_def call_cost_row_def cost_input_def)
  have d: "db' = db \<or> (\<exists>raw row. payload = Some raw \<and> cfCallID raw = ccCallID row \<and> db' = db\<lparr>bdCosts := bdCosts db @ [row]\<rparr>)"
    using deliver_cases [of q def e db payload] insert_cases [of "beWrite e" db] row unfolding assms by metis
  then show "bdCalls db' = bdCalls db" "bdTenants db' = bdTenants db" "bdProjects db' = bdProjects db" "bdSettings db' = bdSettings db" by auto
  show "(\<forall>raw. payload = Some raw \<longrightarrow> cfCallID raw \<noteq> c) \<Longrightarrow> rows_of c db' = rows_of c db" using d by (auto simp: rows_of_def)
qed

text \<open>
  One call under redelivery: its row is written at most once, whatever fails, and is there after a
  delivery in which nothing fails.
\<close>

definition chargeable :: "(int \<Rightarrow> int \<Rightarrow> int) \<Rightarrow> Tariffs \<Rightarrow> billing_db \<Rightarrow> CallFinalizedEvent \<Rightarrow> Tariffs \<Rightarrow> CallCostRow \<Rightarrow> bool" where
  "chargeable q def db raw tr row \<longleftrightarrow> in_force def db (cfTenantID raw) tr \<and> cfCallID raw \<noteq> uuid_Nil \<and> cfTenantID raw \<noteq> uuid_Nil \<and>
     (\<exists>out. CallCost q (cost_input raw) tr = Inr out \<and> row = call_cost_row (cost_input raw) tr out \<and>
        0 \<le> coTelecomMinor out \<and> 0 \<le> coWagesMinor out \<and> 0 \<le> coStorageMinor out \<and> 0 \<le> coTotalMinor out) \<and>
     cfCallID raw \<in> set (bdCalls db) \<and> cfTenantID raw \<in> set (bdTenants db) \<and> cfProjectID raw \<in> pjID ` set (bdProjects db)"

lemma GetSetting_settings: "bdSettings db' = bdSettings db \<Longrightarrow> GetSetting net db' t k = GetSetting net db t k"
  by (cases "bdSettings db t k"; cases net) (simp_all add: GetSetting_def within_tenant_def)

lemma in_force_settings:
  assumes "bdSettings db' = bdSettings db"
  shows "in_force def db' t tr = in_force def db t tr"
  unfolding in_force_def tariffs_Get_def read_trunks_def readInt64Field_def GetSetting_settings [OF assms] ..

lemma chargeable_deliver: "chargeable q def (snd (handle_finalized q def e db payload)) raw tr row = chargeable q def db raw tr row"
proof -
  note d = deliver_tables(1-4) [where q = q and def = def and e = e and db = db and payload = payload, OF refl]
  show ?thesis unfolding chargeable_def in_force_settings [OF d(4)] d(1-3) ..
qed

lemma charge_once:
  assumes "chargeable q def db raw tr row" "rows_of (cfCallID raw) db = [] \<or> rows_of (cfCallID raw) db = [row]"
  shows "rows_of (cfCallID raw) (snd (charge q e db (cost_input raw) tr)) = [] \<and> beWrite e \<noteq> CallOk \<and> rows_of (cfCallID raw) db = [] \<or>
     rows_of (cfCallID raw) (snd (charge q e db (cost_input raw) tr)) = [row]"
proof -
  obtain out where out: "CallCost q (cost_input raw) tr = Inr out" "row = call_cost_row (cost_input raw) tr out"
      "0 \<le> ccTelecomMinor row" "0 \<le> ccWagesMinor row" "0 \<le> ccStorageMinor row" "0 \<le> ccTotalMinor row"
    using assms(1) by (auto simp: chargeable_def call_cost_row_def)
  have ids: "ccCallID row = cfCallID raw" "ccTenantID row = cfTenantID raw" "ccProjectID row = cfProjectID raw" by (simp_all add: out(2) call_cost_row_def cost_input_def)
  have ins: "InsertCallCostTx db row = (if rows_of (cfCallID raw) db = [] then (Inr True, db\<lparr>bdCosts := bdCosts db @ [row]\<rparr>) else (Inr False, db))"
  proof -
    have "ccCallID row \<in> ccCallID ` set (bdCosts db) \<longleftrightarrow> rows_of (cfCallID raw) db \<noteq> []" by (force simp: rows_of_def filter_empty_conv ids)
    then show ?thesis using assms(1) out(3-6) by (simp add: InsertCallCostTx_def chargeable_def ids not_less)
  qed
  have "snd (charge q e db (cost_input raw) tr) = snd (InsertCallCost (beWrite e) db row)" by (simp add: charge_def out split: prod.splits sum.splits)
  also have "rows_of (cfCallID raw) \<dots> = (if beWrite e = CallLost \<or> rows_of (cfCallID raw) db \<noteq> [] then rows_of (cfCallID raw) db else [row])"
    using assms(1) ids by (auto simp: InsertCallCost_def within_tenant_def ins chargeable_def split: call_outcome.splits) (auto simp: rows_of_def)
  finally show ?thesis using assms(2) by auto
qed

lemma deliveries_charge_once:
  assumes "chargeable q def db raw tr row" "rows_of (cfCallID raw) db = [] \<or> rows_of (cfCallID raw) db = [row]"
    and "\<And>e r. (e, Some r) \<in> set ds \<Longrightarrow> cfCallID r = cfCallID raw \<Longrightarrow> r = raw"
    and "rows_of (cfCallID raw) db = [row] \<or> (\<exists>e. (e, Some raw) \<in> set ds \<and> reads_ok e \<and> beWrite e = CallOk)"
  shows "rows_of (cfCallID raw) (fold (\<lambda>(e, p) db. snd (handle_finalized q def e db p)) ds db) = [row]"
  using assms
proof (induction ds arbitrary: db)
  case (Cons d ds)
  obtain e p where d: "d = (e, p)" by force
  let ?db = "snd (handle_finalized q def e db p)"
  have ch: "chargeable q def ?db raw tr row" using Cons.prems(1) by (simp add: chargeable_deliver)
  have step: "(rows_of (cfCallID raw) ?db = [] \<and> rows_of (cfCallID raw) db = [] \<and> \<not> (p = Some raw \<and> reads_ok e \<and> beWrite e = CallOk)) \<or> rows_of (cfCallID raw) ?db = [row]"
  proof (cases "p = Some raw")
    case True
    have f: "in_force def db (cfTenantID raw) tr" "cfCallID raw \<noteq> uuid_Nil" "cfTenantID raw \<noteq> uuid_Nil" using Cons.prems(1) by (simp_all add: chargeable_def)
    show ?thesis using handle_charges [OF f, where q = q and e = e] charge_once [OF Cons.prems(1,2), of e] Cons.prems(2) True by auto
  next
    case False
    then have "\<forall>r. p = Some r \<longrightarrow> cfCallID r \<noteq> cfCallID raw" using Cons.prems(3) d by auto
    from deliver_tables(5) [OF refl this] show ?thesis using Cons.prems(2) False by auto
  qed
  have "rows_of (cfCallID raw) (fold (\<lambda>(e, p) db. snd (handle_finalized q def e db p)) ds ?db) = [row]"
    by (rule Cons.IH [OF ch]) (use step Cons.prems(3,4) d in auto)
  then show ?case by (simp add: d)
qed auto

section \<open>The reports agree\<close>

lemma sum_sort: "sum_list (map f (sort_key g xs)) = sum_list (map (f :: 'a \<Rightarrow> int) xs)"
  by (metis mset_map mset_sort sum_mset_sum_list)

lemma collect_map: "collect (map f xs) = Inr ys \<Longrightarrow> list_all2 (\<lambda>x y. f x = Inr y) xs ys"
  by (induction xs arbitrary: ys) (auto simp: bindE_Inr_iff)

lemma collect_sum:
  assumes "collect (map f xs) = Inr ys" "\<And>x y. f x = Inr y \<Longrightarrow> g y = h x"
  shows "sum_list (map g ys) = sum_list (map (h :: _ \<Rightarrow> int) xs)"
  using collect_map [OF assms(1)] by (induction rule: list_all2_induct) (simp_all add: assms(2))

lemma costs_of_project: "costs_in db t (Some p) from to = filter (\<lambda>r. ccProjectID r = p) (costs_in db t None from to)"
  by (auto simp: costs_in_def intro: filter_cong)

text \<open>Grouping by project loses nothing.\<close>

lemma sum_by_project:
  assumes "distinct (map pjID ps)" "\<And>r. r \<in> set rs \<Longrightarrow> ccProjectID r \<in> pjID ` set ps"
  shows "(\<Sum>pj\<leftarrow>ps. sum_list (map f (filter (\<lambda>r. ccProjectID r = pjID pj) rs))) = sum_list (map (f :: _ \<Rightarrow> int) rs)"
  using assms(2)
proof (induction rs)
  case (Cons r rs)
  have "(\<Sum>pj\<leftarrow>ps. if ccProjectID r = pjID pj then f r else 0) = f r"
  proof -
    have z: "(\<Sum>pj\<leftarrow>qs. if ccProjectID r = pjID pj then f r else 0) = (if ccProjectID r \<in> pjID ` set qs then f r else 0)" if "distinct (map pjID qs)" for qs
      using that by (induction qs) (auto simp: image_iff)
    show ?thesis using z [OF assms(1)] Cons.prems [of r] by simp
  qed
  moreover have "(\<Sum>pj\<leftarrow>ps. sum_list (map f (filter (\<lambda>s. ccProjectID s = pjID pj) (r # rs)))) =
      (\<Sum>pj\<leftarrow>ps. (if ccProjectID r = pjID pj then f r else 0) + sum_list (map f (filter (\<lambda>s. ccProjectID s = pjID pj) rs)))"
    by (intro arg_cong [where f = sum_list] map_cong) auto
  ultimately show ?case using Cons by (simp add: sum_list_addf)
qed simp

lemma sum_drop_zero: "(\<And>x. x \<in> set xs \<Longrightarrow> 0 \<le> f x) \<Longrightarrow> sum_list (map f (filter (\<lambda>x. P x \<and> 0 < f x) xs)) = sum_list (map (f :: _ \<Rightarrow> int) (filter P xs))"
  by (induction xs) (auto simp: order_less_le)

text \<open>
  C40: the margin report adds up to the spend report. Whenever both reports of a period succeed, the
  totals of the per-project rows sum to the telecom, wages and storage of the tenant's breakdown,
  provided the calls of the tenant belong to its projects and their totals are the sums of their lines.
\<close>

theorem margins_add_up_to_spend:
  assumes "MonthSpend def e db t None p = Inr bd" "Margin net nets db t p = Inr ms" "distinct (map pjID (bdProjects db))"
    and "\<And>r. r \<in> set (costs_in db t None (pdFrom p) (pdTo p)) \<Longrightarrow>
       (\<exists>pj \<in> set (bdProjects db). pjID pj = ccProjectID r \<and> pjTenant pj = t) \<and> 0 \<le> ccTotalMinor r \<and>
       ccTotalMinor r = ccTelecomMinor r + ccWagesMinor r + ccStorageMinor r"
  shows "sum_list (map pmTotalMin ms) = mbTelecomMin bd + mbWagesMin bd + mbStorageMin bd"
proof -
  define rs where "rs = costs_in db t None (pdFrom p) (pdTo p)"
  define S :: "project_row \<Rightarrow> int" where "S = (\<lambda>pj. sum_list (map ccTotalMinor (filter (\<lambda>r. ccProjectID r = pjID pj) rs)))"
  let ?agg = "aggregate db t (pdFrom p) (pdTo p)" and ?ps = "filter (\<lambda>pj. pjTenant pj = t \<and> 0 < S pj) (bdProjects db)"
  obtain xs zs where xs: "collect (map ?agg ?ps) = Inr xs" and ms: "ms = sort_key (\<lambda>r. - pmTotalMin r) zs"
    and zs: "collect (map (\<lambda>r. bindE (MonthRevenue (fst (nets (paProjectID r))) (snd (nets (paProjectID r))) db t (paProjectID r) p)
       (\<lambda>revenue. Inr (margin_row r revenue))) (sort_key paProjectName xs)) = Inr zs"
    using assms(2) by (auto simp: Margin_def ListProjectsForPeriod_def read_tenant_def bindE_Inr_iff costs_of_project S_def rs_def split: if_splits)
  have rs: "0 \<le> ccTotalMinor r" "ccProjectID r \<in> pjID ` set (filter (\<lambda>pj. pjTenant pj = t) (bdProjects db))" if "r \<in> set rs" for r
    using assms(4) [of r] that by (force simp: rs_def)+
  have nonneg: "0 \<le> S pj" for pj unfolding S_def using rs(1) by (intro sum_list_nonneg) auto
  have "sum_list (map pmTotalMin ms) = sum_list (map pmTotalMin zs)" unfolding ms by (rule sum_sort)
  also have "\<dots> = sum_list (map paTotalMinor (sort_key paProjectName xs))"
    by (rule collect_sum [OF zs]) (auto simp: bindE_Inr_iff margin_row_def)
  also have "\<dots> = sum_list (map paTotalMinor xs)" by (rule sum_sort)
  also have "\<dots> = sum_list (map S ?ps)"
    by (rule collect_sum [OF xs]) (auto simp: aggregate_def Let_def bindE_Inr_iff sum_bigint_Inr S_def rs_def costs_of_project)
  also have "\<dots> = sum_list (map S (filter (\<lambda>pj. pjTenant pj = t) (bdProjects db)))" by (rule sum_drop_zero) (rule nonneg)
  also have "\<dots> = sum_list (map ccTotalMinor rs)"
    unfolding S_def by (rule sum_by_project) (use assms(3) rs(2) in \<open>auto simp: distinct_map inj_on_def\<close>)
  also have "\<dots> = sum_list (map (\<lambda>r. ccTelecomMinor r + ccWagesMinor r + ccStorageMinor r) rs)"
    using assms(4) by (intro arg_cong [where f = sum_list] map_cong) (auto simp: rs_def)
  also have "\<dots> = mbTelecomMin bd + mbWagesMin bd + mbStorageMin bd"
    using assms(1) by (auto simp: MonthSpend_def SumCallCosts_def read_tenant_def Let_def bindE_Inr_iff sum_bigint_Inr sum_list_addf rs_def split: if_splits)
  finally show ?thesis .
qed

section \<open>A tenant with two projects\<close>

definition finalized :: "uuid \<Rightarrow> uuid \<Rightarrow> CallFinalizedEvent" where
  "finalized c p = \<lparr>cfCallID = c, cfTenantID = 1, cfOperatorID = 4, cfProjectID = p, cfRespondentID = 6, cfTrunkUsed = ''mtt'', cfDurationSec = 95,
     cfStatus = ''success'', cfStorageBytes = 0, cfFinalizedAt = 1780000000\<rparr>"

definition sample_bill :: "uuid list \<Rightarrow> billing_db" where
  "sample_bill calls = \<lparr>bdCalls = calls, bdTenants = [1], bdProjects = map (\<lambda>i. \<lparr>pjID = i, pjTenant = 1, pjCode = ''c'', pjName = ''n'', pjFee = 20000\<rparr>) [2, 3],
     bdRespondents = [], bdSettings = (\<lambda>_ _. None), bdCosts = []\<rparr>"

definition sample_ops :: "bill_op list" where
  "sample_ops = [OpDeliver (calm_bill ReplyLost) (Some (finalized 7 2)), OpTariffs (calm_bill CallOk) 1 sample_tariffs,
     OpDeliver (calm_bill CallOk) (Some (finalized 7 2)), OpDeliver (calm_bill CallOk) (Some (finalized 8 3))]"

definition charged :: billing_db where
  "charged = fold (bill_do half_up sample_tariffs) sample_ops (sample_bill [7, 8])"


theorem no_charge_without_calls_row_witness:
  "bdCosts (fold (bill_do half_up sample_tariffs) sample_ops (sample_bill [])) = [] \<and>
   isl (fst (handle_finalized half_up sample_tariffs (calm_bill CallOk) (fold (bill_do half_up sample_tariffs) sample_ops (sample_bill [])) (Some (finalized 7 2))))"
  by (rule no_charge_without_calls_row) (simp_all add: sample_bill_def sample_ops_def)


definition may_2026 :: Period where
  "may_2026 = Month (2026, 5)"

definition calm_report :: report_env where
  "calm_report = \<lparr>rpSum = CallOk, rpCount = CallOk, rpReads = calm_bill CallOk\<rparr>"

theorem margins_add_up_to_spend_witness:
  "\<exists>bd ms. MonthSpend sample_tariffs calm_report charged 1 None may_2026 = Inr bd \<and> Margin CallOk (\<lambda>_. (CallOk, CallOk)) charged 1 may_2026 = Inr ms \<and>
     sum_list (map pmTotalMin ms) = mbTelecomMin bd + mbWagesMin bd + mbStorageMin bd \<and> mbTelecomMin bd = 316"
proof -
  let ?s = "MonthSpend sample_tariffs calm_report charged 1 None may_2026" and ?m = "Margin CallOk (\<lambda>_. (CallOk, CallOk)) charged 1 may_2026"
  have h: "\<not> isl ?s" "\<not> isl ?m" "map_sum id mbTelecomMin ?s = Inr 316" "distinct (map pjID (bdProjects charged))"
    "list_all (\<lambda>r. (\<exists>pj \<in> set (bdProjects charged). pjID pj = ccProjectID r \<and> pjTenant pj = 1) \<and> 0 \<le> ccTotalMinor r \<and>
       ccTotalMinor r = ccTelecomMinor r + ccWagesMinor r + ccStorageMinor r) (costs_in charged 1 None (pdFrom may_2026) (pdTo may_2026))" by code_simp+
  obtain bd ms where r: "?s = Inr bd" "?m = Inr ms" using h(1,2) by (metis sum.collapse(2))
  have "sum_list (map pmTotalMin ms) = mbTelecomMin bd + mbWagesMin bd + mbStorageMin bd"
    by (rule margins_add_up_to_spend [OF r h(4)]) (rule h(5) [unfolded list_all_iff, rule_format])
  then show ?thesis using r h(3) by simp
qed

end
