(* ===== verification/Charging.thy ===== *)
theory Charging
  imports Billing_Properties
begin

text \<open>
  The audit transaction of the operator state machine appends the event of a finalised call to the
  outbox (\<open>Fsm_Audit\<close>), the relay hands it to the bus (\<open>Outbox_Relay\<close>), and billing's subscriber
  charges it (\<open>Billing\<close>). The rows of the transaction enter the outbox table with one creation
  instant; the bus delivers a message any number of times, in any order.
\<close>

section \<open>From a finalised call to its charge\<close>

definition dialer_text :: "(subject, payload) event_text" where
  "dialer_text = \<lparr>etSubjectEmpty = (\<lambda>_. False), etPayloadEmpty = (\<lambda>_. False), etPayloadValid = (\<lambda>_. True)\<rparr>"

definition stage :: "time \<Rightarrow> outbox_event list \<Rightarrow> (subject, payload) outbox_table \<Rightarrow> (subject, payload) outbox_table" where
  "stage now evs tb = fold (\<lambda>ev tb. snd (writer_Append dialer_text True now tb (obTenantID ev) (obAggregateID ev) (obSubject ev) (obPayload ev))) evs tb"

text \<open>The subscriber decodes its payload; only events of finalised calls decode as such.\<close>

definition decode_finalized :: "payload \<Rightarrow> CallFinalizedEvent option" where
  "decode_finalized p = (case p of PCallFinalized ev \<Rightarrow> Some ev | _ \<Rightarrow> None)"

definition finalized_event :: "callFinalizedEntry \<Rightarrow> CallFinalizedEvent" where
  "finalized_event c = \<lparr>cfCallID = feCallID c, cfTenantID = feTenantID c, cfOperatorID = feOperatorID c, cfProjectID = feProjectID c,
     cfRespondentID = feRespondentID c, cfTrunkUsed = feTrunkUsed c, cfDurationSec = min (feDurationSec c) 2147483647, cfStatus = feStatus c,
     cfStorageBytes = feStorageBytes c, cfFinalizedAt = UnixSec (feFinalizedAt c)\<rparr>"

definition new_events :: "(nat \<Rightarrow> uuid) \<Rightarrow> database \<Rightarrow> auditEntry \<Rightarrow> outbox_event list" where
  "new_events fresh db entry = drop (length (dbOutbox db)) (dbOutbox (appendStateLogAndOutbox fresh db entry))"

lemma new_events_finalized:
  assumes "aeExtraOutbox entry = Some c"
  shows "\<exists>ev \<in> set (new_events fresh db entry). obSubject ev = SubjectCallFinalizedFor (feTenantID c) \<and> obPayload ev = PCallFinalized (finalized_event c)"
  using assms by (simp add: new_events_def appendStateLogAndOutbox_def appendCallFinalizedOutbox_def outbox_Append_def AppendStateLog_def Let_def finalized_event_def)

lemma sint_min: "0 \<le> sint (min w 2147483647 :: 32 word)"
proof -
  have "min w 2147483647 \<le> (2147483647 :: 32 word)" by (rule min.cobounded2)
  then have "uint (min w 2147483647 :: 32 word) \<le> uint (2147483647 :: 32 word)" by (simp only: word_le_def)
  then have "uint (min w 2147483647 :: 32 word) < 2 ^ 31" by simp
  then have "signed_take_bit 31 (uint (min w 2147483647 :: 32 word)) = uint (min w 2147483647 :: 32 word)"
    using uint_ge_0 [of "min w 2147483647 :: 32 word"] by (intro signed_take_bit_int_eq_self) linarith+
  moreover have "sint (min w 2147483647 :: 32 word) = signed_take_bit 31 (uint (min w 2147483647 :: 32 word))"
    using sint_uint [of "min w 2147483647 :: 32 word"] by (simp only: len_num1 len_bit0) simp
  ultimately show ?thesis by simp
qed

definition table_ok :: "(subject, payload) outbox_table \<Rightarrow> bool" where
  "table_ok tb \<longleftrightarrow> distinct (map orID (otRows tb)) \<and> (\<forall>r \<in> set (otRows tb). orID r < otNextID tb)"

lemma stage_rows:
  assumes "table_ok tb"
  shows "table_ok (stage now evs tb)"
    and "ev \<in> set evs \<Longrightarrow> \<exists>r \<in> set (otRows (stage now evs tb)). orSubject r = obSubject ev \<and> orPayload r = obPayload ev \<and> orPublishedAt r = None \<and> orAttempts r = 0"
    and "set (otRows tb) \<subseteq> set (otRows (stage now evs tb))"
proof -
  have "table_ok (stage now evs tb) \<and> set (otRows tb) \<subseteq> set (otRows (stage now evs tb)) \<and>
     (\<forall>ev \<in> set evs. \<exists>r \<in> set (otRows (stage now evs tb)). orSubject r = obSubject ev \<and> orPayload r = obPayload ev \<and> orPublishedAt r = None \<and> orAttempts r = 0)"
    using assms
  proof (induction evs arbitrary: tb)
    case (Cons e evs)
    define tb1 where "tb1 = snd (writer_Append dialer_text True now tb (obTenantID e) (obAggregateID e) (obSubject e) (obPayload e))"
    have rows: "otRows tb1 = otRows tb @ [\<lparr>orID = otNextID tb, orTenantID = obTenantID e, orAggregateID = obAggregateID e, orSubject = obSubject e,
        orPayload = obPayload e, orCreatedAt = now, orPublishedAt = None, orLastError = None, orAttempts = 0\<rparr>]" "otNextID tb1 = otNextID tb + 1"
      by (simp_all add: tb1_def writer_Append_def validateEvent_def dialer_text_def)
    have "table_ok tb1" using Cons.prems by (auto simp: table_ok_def rows)
    moreover have "stage now (e # evs) tb = stage now evs tb1" by (simp add: stage_def tb1_def)
    moreover have "\<exists>r \<in> set (otRows tb1). orSubject r = obSubject e \<and> orPayload r = obPayload e \<and> orPublishedAt r = None \<and> orAttempts r = 0" by (simp add: rows)
    moreover have "set (otRows tb) \<subseteq> set (otRows tb1)" by (auto simp: rows)
    ultimately show ?case using Cons.IH [of tb1] by (auto dest: subsetD)
  qed (simp add: stage_def)
  then show "table_ok (stage now evs tb)" "set (otRows tb) \<subseteq> set (otRows (stage now evs tb))"
    "ev \<in> set evs \<Longrightarrow> \<exists>r \<in> set (otRows (stage now evs tb)). orSubject r = obSubject ev \<and> orPayload r = obPayload ev \<and> orPublishedAt r = None \<and> orAttempts r = 0" by blast+
qed

end
