(* ===== verification/Esl_Protocol.thy ===== *)
theory Esl_Protocol
  imports Call_Events "HOL-Library.AList" "HOL-Library.List_Lexorder" "HOL-Library.Char_ord"
begin

text \<open>
  The event-socket client for FreeSWITCH (\<open>internal/telephony/esl\<close>): frames read from the socket,
  the events they carry, the text of commands, and the client that sends commands and waits for
  their replies.

  Text is a list of bytes; \<open>strings.ToLower\<close> is modelled on ASCII. The socket is the bytes that
  arrive before it closes. \<open>uuid.Parse\<close> is third-party code and a parameter. While a command waits,
  frames arrive in an order the environment gives; which of several ready channels a \<open>select\<close> takes
  is the environment's choice. Metrics and logs are left out; a deadline is an outcome of the
  environment.
\<close>

section \<open>Text\<close>

definition lower_char :: "char \<Rightarrow> char" where
  "lower_char c = (if 65 \<le> (of_char c :: nat) \<and> (of_char c :: nat) \<le> 90 then char_of ((of_char c :: nat) + 32) else c)"

definition ToLower :: "string \<Rightarrow> string" where
  "ToLower s = map lower_char s"

definition TrimRight :: "string \<Rightarrow> string \<Rightarrow> string" where
  "TrimRight s cutset = rev (dropWhile (\<lambda>c. c \<in> set cutset) (rev s))"

definition TrimLeft :: "string \<Rightarrow> string \<Rightarrow> string" where
  "TrimLeft s cutset = dropWhile (\<lambda>c. c \<in> set cutset) s"

definition text_contains :: "string \<Rightarrow> string \<Rightarrow> bool" where
  "text_contains s n \<longleftrightarrow> IndexOf s n \<noteq> None"

fun split_on :: "char \<Rightarrow> string \<Rightarrow> string list" where
  "split_on d [] = [[]]"
| "split_on d (c # s) = (if c = d then [] # split_on d s else (case split_on d s of [] \<Rightarrow> [[c]] | l # ls \<Rightarrow> (c # l) # ls))"

abbreviation (input) LF :: char where "LF \<equiv> CHR 0x0A"
abbreviation (input) CR :: char where "CR \<equiv> CHR 0x0D"

section \<open>Frames\<close>

datatype esl_error =
    ErrReadHeader | ErrReadBody | ErrHandshake | ErrAuthFailed | ErrDial | ErrInvalidFrame | PanicMakeSlice | ErrInvalidArgument | ErrCommandFailed string | ErrNotConnected | ErrEventsClosed | ErrTimeout | ErrWrite

definition MaxFrameBytes :: int where
  "MaxFrameBytes = 2 ^ 20"

record Frame =
  frHeaders :: "string \<Rightarrow> string option"
  frBody :: "string option"

definition Header :: "Frame \<Rightarrow> string \<Rightarrow> string" where
  "Header f name = (case frHeaders f (ToLower name) of None \<Rightarrow> '''' | Some v \<Rightarrow> v)"

definition ContentType :: "Frame \<Rightarrow> string" where
  "ContentType f = Header f ''Content-Type''"

text \<open>\<open>ReadString\<close>: the bytes up to and including the next newline; \<open>None\<close> if the socket closes first.\<close>

definition read_line :: "string \<Rightarrow> (string \<times> string) option" where
  "read_line s = (case dropWhile (\<lambda>c. c \<noteq> LF) s of [] \<Rightarrow> None | c # rest \<Rightarrow> Some (takeWhile (\<lambda>c. c \<noteq> LF) s @ [c], rest))"

text \<open>A header line, cut at its first colon.\<close>

definition header_line :: "string \<Rightarrow> (string \<times> string) option" where
  "header_line line =
     (if CHR '':'' \<notin> set line \<or> takeWhile (\<lambda>c. c \<noteq> CHR '':'') line = [] then None
      else Some (ToLower (TrimSpace (takeWhile (\<lambda>c. c \<noteq> CHR '':'') line)), TrimSpace (tl (dropWhile (\<lambda>c. c \<noteq> CHR '':'') line))))"

lemma read_line_shorter: "read_line s = Some (line, rest) \<Longrightarrow> length rest < length s"
  by (auto simp: read_line_def split: list.splits) (metis Suc_le_eq length_dropWhile_le length_Cons)

function parse_headers :: "int \<Rightarrow> (string \<Rightarrow> string option) \<Rightarrow> string \<Rightarrow> esl_error + (string \<Rightarrow> string option) \<times> int \<times> string" where
  "parse_headers consumed hs s =
     (case read_line s of
        None \<Rightarrow> if s = [] then Inl ErrReadHeader else Inl ErrInvalidFrame
      | Some (line, rest) \<Rightarrow>
        let consumed = consumed + int (length line)
        in if consumed > MaxFrameBytes then Inl ErrInvalidFrame
           else let line = TrimRight line [CR, LF]
                in if line = [] then Inr (hs, consumed, rest)
                   else case header_line line of
                          None \<Rightarrow> Inl ErrInvalidFrame
                        | Some (name, value) \<Rightarrow> parse_headers consumed (hs(name \<mapsto> value)) rest)"
  by pat_completeness auto

termination
  by (relation "measure (\<lambda>(_, _, s). length s)") (auto dest: read_line_shorter)

declare parse_headers.simps [simp del]

text \<open>The test of the frame budget adds in \<open>int64\<close>; an allocation far beyond the memory panics.\<close>

definition read_body :: "int \<Rightarrow> string \<Rightarrow> string \<Rightarrow> esl_error + string \<times> string" where
  "read_body consumed cl s =
     (case ParseInt64 cl of
        None \<Rightarrow> Inl ErrInvalidFrame
      | Some n \<Rightarrow>
        if n < 0 then Inl ErrInvalidFrame
        else if wrap64 (consumed + n) > MaxFrameBytes then Inl ErrInvalidFrame
        else if n > MaxFrameBytes then Inl PanicMakeSlice
        else if length s < nat n then Inl ErrReadBody
        else Inr (take (nat n) s, drop (nat n) s))"

definition parseFrame :: "string \<Rightarrow> esl_error + Frame \<times> string" where
  "parseFrame s =
     bindE (parse_headers 0 Map.empty s) (\<lambda>(hs, consumed, rest).
       let cl = (case hs ''content-length'' of None \<Rightarrow> '''' | Some cl \<Rightarrow> cl)
       in if cl = '''' then Inr (\<lparr>frHeaders = hs, frBody = None\<rparr>, rest)
          else bindE (read_body consumed cl rest) (\<lambda>(body, rest'). Inr (\<lparr>frHeaders = hs, frBody = Some body\<rparr>, rest')))"

section \<open>Events\<close>

record EslEvent =
  eeName :: string
  eeUUID :: string
  eeHeaders :: "string \<Rightarrow> string option"

definition event_Header :: "EslEvent \<Rightarrow> string \<Rightarrow> string" where
  "event_Header e name = (case eeHeaders e (ToLower name) of None \<Rightarrow> '''' | Some v \<Rightarrow> v)"

definition unhex :: "char \<Rightarrow> nat option" where
  "unhex c =
     (let n = of_char c :: nat
      in if 48 \<le> n \<and> n \<le> 57 then Some (n - 48) else if 97 \<le> n \<and> n \<le> 102 then Some (n - 87) else if 65 \<le> n \<and> n \<le> 70 then Some (n - 55) else None)"

fun QueryUnescape :: "string \<Rightarrow> string option" where
  "QueryUnescape [] = Some []"
| "QueryUnescape (c # s) =
     (if c = CHR ''%'' then
        (case s of
           a # b # s' \<Rightarrow> (case (unhex a, unhex b, QueryUnescape s') of (Some x, Some y, Some r) \<Rightarrow> Some (char_of (16 * x + y) # r) | _ \<Rightarrow> None)
         | _ \<Rightarrow> None)
      else map_option (Cons (if c = CHR ''+'' then CHR '' '' else c)) (QueryUnescape s))"

definition event_line :: "string \<Rightarrow> (string \<Rightarrow> string option) \<Rightarrow> string \<Rightarrow> string option" where
  "event_line line hs =
     (case header_line (TrimRight line [CR]) of
        None \<Rightarrow> hs
      | Some (name, value) \<Rightarrow> hs(name \<mapsto> (case QueryUnescape value of Some dec \<Rightarrow> dec | None \<Rightarrow> value)))"

definition AsEvent :: "Frame \<Rightarrow> esl_error + EslEvent" where
  "AsEvent f =
     (if \<not> text_contains (ContentType f) ''event'' then Inl ErrInvalidFrame
      else let hs = fold event_line (split_on LF (case frBody f of None \<Rightarrow> '''' | Some b \<Rightarrow> b)) Map.empty
           in Inr \<lparr>eeName = (case hs ''event-name'' of None \<Rightarrow> '''' | Some v \<Rightarrow> v), eeUUID = (case hs ''unique-id'' of None \<Rightarrow> '''' | Some v \<Rightarrow> v), eeHeaders = hs\<rparr>)"

text \<open>The channel event of the telephony module with the fields that the dialer's subscriber does not read.\<close>

record channel_event = ChannelEvent +
  evEventID :: uuid
  evFSNode :: string
  evSIPResponse :: int
  evHeaders :: "string \<Rightarrow> string option"

definition mapEventType :: "string \<Rightarrow> ChannelEventType option" where
  "mapEventType fsName =
     (if fsName = ''CHANNEL_CREATE'' then Some TelDialing
      else if fsName = ''CHANNEL_ANSWER'' then Some TelAnswer
      else if fsName = ''CHANNEL_BRIDGE'' then Some TelBridge
      else if fsName = ''CHANNEL_UNBRIDGE'' then Some TelUnbridge
      else if fsName = ''CHANNEL_HANGUP_COMPLETE'' then Some TelHangup
      else if fsName = ''DTMF'' then Some TelDTMF
      else if fsName = ''RECORD_STOP'' then Some TelRecordStop
      else None)"

definition parseEventTimestamp :: "time \<Rightarrow> EslEvent \<Rightarrow> time" where
  "parseEventTimestamp now ev =
     (let v = event_Header ev ''Event-Date-Timestamp''
      in if v = '''' then now
         else case ParseInt64 v of None \<Rightarrow> now | Some usec \<Rightarrow> if usec > 0 then usec * 1000 else now)"

definition MapEvent :: "(string \<Rightarrow> uuid option) \<Rightarrow> time \<Rightarrow> EslEvent \<Rightarrow> channel_event option" where
  "MapEvent parse now ev =
     (case mapEventType (eeName ev) of
        None \<Rightarrow> None
      | Some t \<Rightarrow>
        let sip = event_Header ev ''variable_sip_term_status'';
            dur = event_Header ev ''variable_billsec''
        in Some \<lparr>evTenantID = uuid_Nil,
             evCallID = (if eeUUID ev = '''' then uuid_Nil else case parse (eeUUID ev) of None \<Rightarrow> uuid_Nil | Some u \<Rightarrow> u),
             evType = t,
             evHangupCause = (if t = TelHangup then event_Header ev ''Hangup-Cause'' else ''''),
             evDurationMS = (if t = TelHangup \<and> dur \<noteq> '''' then (case ParseInt64 dur of None \<Rightarrow> 0 | Some n \<Rightarrow> wrap64 (n * 1000)) else 0),
             evTimestamp = parseEventTimestamp now ev,
             evEventID = uuid_Nil, evFSNode = '''',
             evSIPResponse = (if t = TelHangup \<and> sip \<noteq> '''' then (case ParseInt64 sip of None \<Rightarrow> 0 | Some n \<Rightarrow> n) else 0),
             evHeaders = eeHeaders ev\<rparr>)"

section \<open>Commands\<close>

record OriginateRequest =
  oqCallURL :: string
  oqExtension :: string
  oqCaller :: string
  oqCallerName :: string
  oqVariables :: "(string \<times> string) list"
  oqTimeout :: duration

definition escapeVar :: "string \<Rightarrow> string" where
  "escapeVar v = concat (map (\<lambda>c. if c = CHR '','' then [CHR 0x5C, CHR '',''] else [c]) (filter (\<lambda>c. c \<noteq> CHR ''{'' \<and> c \<noteq> CHR ''}'') v))"

text \<open>\<open>Round(time.Second).Seconds()\<close> of a positive duration; \<open>Round\<close> saturates.\<close>

definition round_seconds :: "duration \<Rightarrow> int" where
  "round_seconds d =
     (if 2 * (d mod second) < second then d div second
      else if (d div second + 1) * second \<le> int64_max then d div second + 1
      else int64_max div second)"

text \<open>The Go map of variables is an association list; a later assignment to a key replaces the earlier one.\<close>

definition put_var :: "string \<Rightarrow> string \<Rightarrow> (string \<times> string) list \<Rightarrow> (string \<times> string) list" where
  "put_var k v m = AList.update k v m"

definition request_vars :: "OriginateRequest \<Rightarrow> (string \<times> string) list" where
  "request_vars req =
     (let vars = oqVariables req;
          vars = (if oqCaller req \<noteq> '''' then put_var ''origination_caller_id_number'' (oqCaller req) vars else vars);
          vars = (if oqCallerName req \<noteq> '''' then put_var ''origination_caller_id_name'' (oqCallerName req) vars else vars)
      in if oqTimeout req > 0 then put_var ''originate_timeout'' (FormatInt (round_seconds (oqTimeout req))) vars else vars)"

fun join_vars :: "(string \<times> string) list \<Rightarrow> string" where
  "join_vars [] = ''''"
| "join_vars [(k, v)] = k @ ''='' @ escapeVar v"
| "join_vars ((k, v) # kv # kvs) = k @ ''='' @ escapeVar v @ '','' @ join_vars (kv # kvs)"

definition buildVariables :: "OriginateRequest \<Rightarrow> string" where
  "buildVariables req =
     (let vars = request_vars req
      in if vars = [] then '''' else ''{'' @ join_vars (sort_key fst vars) @ ''}'')"

definition splitOKBody :: "string \<Rightarrow> bool \<times> string" where
  "splitOKBody s = (if HasPrefix s ''+OK'' then (True, TrimSpace (drop 3 s)) else (False, s))"

definition replyPayload :: "Frame \<Rightarrow> string" where
  "replyPayload f =
     (case frBody f of
        Some (c # cs) \<Rightarrow> TrimSpace (c # cs)
      | _ \<Rightarrow> TrimLeft (Header f ''Reply-Text'') [CHR '' '', CHR 0x09])"

section \<open>The client\<close>

definition defaultEventBuffer :: nat where
  "defaultEventBuffer = 1024"

definition defaultReplyBuffer :: nat where
  "defaultReplyBuffer = 16"

text \<open>
  \<open>ecDone\<close>: the read loop has ended and closed the event channel. \<open>ecBroken\<close>: a write has failed; the
  buffered writer then refuses every later write. \<open>ecWire\<close> holds the commands written in full.
\<close>

record Client =
  ecConnected :: bool
  ecClosed :: bool
  ecDone :: bool
  ecBroken :: bool
  ecEvents :: "EslEvent list"
  ecReplies :: "Frame list"
  ecWire :: "string list"

definition Connected :: "Client \<Rightarrow> bool" where
  "Connected c \<longleftrightarrow> ecConnected c \<and> \<not> ecClosed c"

definition command_line :: "string \<Rightarrow> string" where
  "command_line line = line @ [CR, LF, CR, LF]"

text \<open>
  \<open>Dial\<close> with its handshake. The bytes are what the server sends until the handshake ends;
  \<open>wok\<close> tells whether the socket opens and takes the password.
\<close>

definition authenticate :: "bool \<Rightarrow> string \<Rightarrow> esl_error + string" where
  "authenticate wok s =
     bindE (parseFrame s) (\<lambda>(frame, s').
       if ContentType frame \<noteq> ''auth/request'' then Inl ErrHandshake
       else if \<not> wok then Inl ErrWrite
       else bindE (parseFrame s') (\<lambda>(resp, rest).
         if HasPrefix (TrimLeft (Header resp ''Reply-Text'') [CHR '' '', CHR 0x09]) ''+'' then Inr rest else Inl ErrAuthFailed))"

definition Dial :: "bool \<Rightarrow> bool \<Rightarrow> string \<Rightarrow> string \<Rightarrow> string \<Rightarrow> esl_error + Client \<times> string" where
  "Dial sok wok addr password s =
     (if addr = '''' then Inl ErrInvalidArgument
      else if \<not> sok then Inl ErrDial
      else bindE (authenticate wok s) (\<lambda>rest.
        Inr (\<lparr>ecConnected = True, ecClosed = False, ecDone = False, ecBroken = False, ecEvents = [], ecReplies = [],
              ecWire = [command_line (''auth '' @ password)]\<rparr>, rest)))"

definition dispatch :: "Frame \<Rightarrow> Client \<Rightarrow> Client" where
  "dispatch f c =
     (if ContentType f \<in> {''text/event-plain'', ''text/event-json''} then
        (case AsEvent f of
           Inl _ \<Rightarrow> c
         | Inr ev \<Rightarrow> if length (ecEvents c) < defaultEventBuffer then c\<lparr>ecEvents := ecEvents c @ [ev]\<rparr> else c)
      else if ContentType f \<in> {''command/reply'', ''api/response''} then
        (if length (ecReplies c) < defaultReplyBuffer then c\<lparr>ecReplies := ecReplies c @ [f]\<rparr> else c)
      else if ContentType f = ''text/disconnect-notice'' then c\<lparr>ecClosed := True\<rparr>
      else c)"

lemma parse_headers_cases:
  assumes "parse_headers n hs s = Inr r"
  obtains (blank) line rest where "read_line s = Some (line, rest)" "r = (hs, n + int (length line), rest)"
  | (header) line rest name val where "read_line s = Some (line, rest)" "header_line (TrimRight line [CR, LF]) = Some (name, val)"
      "parse_headers (n + int (length line)) (hs(name \<mapsto> val)) rest = Inr r"
  using assms by (subst (asm) parse_headers.simps) (auto simp: Let_def split: option.splits if_splits prod.splits)

lemma parse_headers_rest: "parse_headers n hs s = Inr (hs', n', rest) \<Longrightarrow> length rest < length s"
proof (induction s arbitrary: n hs rule: length_induct)
  case (1 s)
  from "1.prems" show ?case
  proof (cases rule: parse_headers_cases)
    case (header line rest' name val)
    then show ?thesis using "1.IH" read_line_shorter by (meson less_trans)
  qed (auto dest: read_line_shorter)
qed

lemma read_body_split: "read_body n cl s = Inr (body, rest) \<Longrightarrow> s = body @ rest"
  by (auto simp: read_body_def split: option.splits if_splits)

lemma parseFrame_rest: "parseFrame s = Inr (f, rest) \<Longrightarrow> length rest < length s"
proof -
  assume "parseFrame s = Inr (f, rest)"
  then obtain hs n rest' where p: "parse_headers 0 Map.empty s = Inr (hs, n, rest')"
    and "rest = rest' \<or> (\<exists>cl body. read_body n cl rest' = Inr (body, rest))"
    by (auto simp: parseFrame_def bindE_Inr_iff Let_def split: if_splits) blast
  then have "length rest \<le> length rest'" by (auto dest: read_body_split)
  then show ?thesis using parse_headers_rest [OF p] by simp
qed

text \<open>
  The read loop on the bytes its buffered reader gets before the socket ends: a disconnect notice
  closes the socket, and the loop goes on with what was already buffered. It ends at the first
  frame that does not parse, the last one at the latest.
\<close>

definition close_events :: "Client \<Rightarrow> Client" where
  "close_events c = c\<lparr>ecConnected := False, ecDone := True\<rparr>"

function readLoop :: "string \<Rightarrow> Client \<Rightarrow> Client" where
  "readLoop s c = (case parseFrame s of Inl _ \<Rightarrow> close_events c | Inr (f, rest) \<Rightarrow> readLoop rest (dispatch f c))"
  by pat_completeness auto

termination
  by (relation "measure (\<lambda>(s, _). length s)") (auto dest: parseFrame_rest)

declare readLoop.simps [simp del]

text \<open>\<open>Close\<close> returns after the read loop has ended.\<close>

definition esl_Close :: "Client \<Rightarrow> Client" where
  "esl_Close c = close_events (c\<lparr>ecClosed := True\<rparr>)"

datatype wait_end = WaitReply | WaitTimeout | WaitGone

record send_env =
  snWriteOk :: bool
  snFrames :: "Frame list"
  snEnd :: wait_end

text \<open>
  \<open>snFrames\<close> arrive while the command waits and \<open>snEnd\<close> is the ready case the \<open>select\<close> takes; a wait for
  a reply that does not arrive ends with the deadline of the context. On a timeout one reply that is
  already there is thrown away.
\<close>

definition sendCommand :: "send_env \<Rightarrow> Client \<Rightarrow> string \<Rightarrow> (esl_error + Frame) \<times> Client" where
  "sendCommand e c line =
     (if \<not> Connected c then (Inl ErrNotConnected, c)
      else if ecBroken c \<or> \<not> snWriteOk e then (Inl ErrWrite, c\<lparr>ecBroken := True\<rparr>)
      else let c = fold dispatch (snFrames e) (c\<lparr>ecWire := ecWire c @ [command_line line]\<rparr>)
           in case (snEnd e, ecReplies c) of
                (WaitReply, f # fs) \<Rightarrow> (Inr f, c\<lparr>ecReplies := fs\<rparr>)
              | (WaitGone, _) \<Rightarrow> (Inl ErrNotConnected, close_events c)
              | (_, fs) \<Rightarrow> (Inl ErrTimeout, c\<lparr>ecReplies := drop 1 fs\<rparr>))"

definition sendOKCommand :: "send_env \<Rightarrow> Client \<Rightarrow> string \<Rightarrow> (esl_error + unit) \<times> Client" where
  "sendOKCommand e c cmd =
     (case sendCommand e c cmd of
        (Inl err, c') \<Rightarrow> (Inl err, c')
      | (Inr f, c') \<Rightarrow> (if fst (splitOKBody (replyPayload f)) then Inr () else Inl (ErrCommandFailed (replyPayload f)), c'))"

definition esl_Originate :: "send_env \<Rightarrow> Client \<Rightarrow> OriginateRequest \<Rightarrow> (esl_error + string) \<times> Client" where
  "esl_Originate e c req =
     (if oqCallURL req = '''' then (Inl ErrInvalidArgument, c)
      else let req = req\<lparr>oqExtension := (if oqExtension req = '''' then ''&park()'' else oqExtension req),
                 oqTimeout := (if oqTimeout req = 0 then 30 * second else oqTimeout req)\<rparr>
           in case sendCommand e c (''bgapi originate '' @ buildVariables req @ oqCallURL req @ '' '' @ oqExtension req) of
                (Inl err, c') \<Rightarrow> (Inl err, c')
              | (Inr f, c') \<Rightarrow> (case splitOKBody (replyPayload f) of (True, body) \<Rightarrow> Inr body | (False, body) \<Rightarrow> Inl (ErrCommandFailed body), c'))"

definition esl_Hangup :: "send_env \<Rightarrow> Client \<Rightarrow> string \<Rightarrow> string \<Rightarrow> (esl_error + unit) \<times> Client" where
  "esl_Hangup e c u cause =
     (if u = '''' then (Inl ErrInvalidArgument, c)
      else sendOKCommand e c (''bgapi uuid_kill '' @ u @ '' '' @ (if cause = '''' then ''NORMAL_CLEARING'' else cause)))"

fun join_with :: "string \<Rightarrow> string list \<Rightarrow> string" where
  "join_with sep [] = ''''"
| "join_with sep [s] = s"
| "join_with sep (s # t # ts) = s @ sep @ join_with sep (t # ts)"

definition esl_MixMonitorStart :: "send_env \<Rightarrow> Client \<Rightarrow> string \<Rightarrow> string \<Rightarrow> string list \<Rightarrow> (esl_error + unit) \<times> Client" where
  "esl_MixMonitorStart e c u path flags =
     (if u = '''' \<or> path = '''' then (Inl ErrInvalidArgument, c)
      else sendOKCommand e c (''bgapi uuid_record '' @ u @ '' start '' @ path @ (if flags \<noteq> [] then '' '' @ join_with '','' flags else '''')))"

definition esl_MixMonitorStop :: "send_env \<Rightarrow> Client \<Rightarrow> string \<Rightarrow> string \<Rightarrow> (esl_error + unit) \<times> Client" where
  "esl_MixMonitorStop e c u path =
     (if u = '''' \<or> path = '''' then (Inl ErrInvalidArgument, c)
      else sendOKCommand e c (''bgapi uuid_record '' @ u @ '' stop '' @ path))"

definition esl_Play :: "send_env \<Rightarrow> Client \<Rightarrow> string \<Rightarrow> string \<Rightarrow> (esl_error + unit) \<times> Client" where
  "esl_Play e c u path =
     (if u = '''' \<or> path = '''' then (Inl ErrInvalidArgument, c)
      else sendOKCommand e c (''bgapi uuid_broadcast '' @ u @ '' '' @ path @ '' aleg''))"

definition SofiaStatus :: "send_env \<Rightarrow> Client \<Rightarrow> (esl_error + string) \<times> Client" where
  "SofiaStatus e c =
     (case sendCommand e c ''api sofia status'' of
        (Inl err, c') \<Rightarrow> (Inl err, c')
      | (Inr f, c') \<Rightarrow> (Inr (case frBody f of None \<Rightarrow> '''' | Some b \<Rightarrow> b), c'))"

definition ChannelsCount :: "send_env \<Rightarrow> Client \<Rightarrow> (esl_error + int) \<times> Client" where
  "ChannelsCount e c =
     (case sendCommand e c ''api show channels count'' of
        (Inl err, c') \<Rightarrow> (Inl err, c')
      | (Inr f, c') \<Rightarrow>
        (let body = TrimSpace (case frBody f of None \<Rightarrow> '''' | Some b \<Rightarrow> b);
             first = takeWhile (\<lambda>ch. \<not> is_space ch) body
         in if body = '''' then Inr 0 else case ParseInt64 first of None \<Rightarrow> Inl (ErrCommandFailed first) | Some n \<Rightarrow> Inr n, c'))"

definition SubscribeEvents :: "send_env \<Rightarrow> Client \<Rightarrow> string list \<Rightarrow> (esl_error + unit) \<times> Client" where
  "SubscribeEvents e c events =
     (if events = [] then (Inr (), c)
      else case sendCommand e c (''event plain '' @ join_with '' '' events) of
             (Inl err, c') \<Rightarrow> (Inl err, c')
           | (Inr f, c') \<Rightarrow>
             (let reply = TrimLeft (Header f ''Reply-Text'') [CHR '' '', CHR 0x09]
              in if HasPrefix reply ''+'' then Inr () else Inl (ErrCommandFailed reply), c'))"

definition ReloadXMLDirectory :: "send_env \<Rightarrow> Client \<Rightarrow> string \<Rightarrow> (esl_error + unit) \<times> Client" where
  "ReloadXMLDirectory e c domain = sendOKCommand e c (if domain = '''' then ''api reloadxml'' else ''api xml_flush_cache '' @ domain)"

end
