(* ===== verification/Telephony_Pool.thy ===== *)
theory Telephony_Pool
  imports Esl_Protocol Complex_Main
begin

text \<open>
  The pool of event-socket connections (\<open>internal/telephony/pool/pool.go\<close>) and the reconnect delay
  (\<open>internal/telephony/esl/reconnect.go\<close>): one supervisor per FreeSWITCH node connects, subscribes,
  probes and forwards events; on any failure the node is taken out until it is connected again.

  The supervisors and the users of a connection interleave in an order the environment gives: a run
  is a list of actions, each one step of a supervisor, of the read loop, of a command, or of the
  consumer of events. Frames that reach the socket together with the handshake are among the frames
  that arrive next. Go's \<open>float64\<close> jitter is a rational. Metrics and logs are left out.
\<close>

section \<open>The reconnect delay\<close>

record Backoff =
  boBase :: duration
  boCap :: duration
  boAttempt :: nat

fun backoff_loop :: "duration \<Rightarrow> nat \<Rightarrow> duration \<Rightarrow> duration" where
  "backoff_loop cap 0 d = d"
| "backoff_loop cap (Suc n) d = (let d = wrap64 (d * 2) in if d \<ge> cap then cap else backoff_loop cap n d)"

definition trunc_rat :: "rat \<Rightarrow> int" where
  "trunc_rat x = (if x < 0 then - \<lfloor>- x\<rfloor> else \<lfloor>x\<rfloor>)"

text \<open>\<open>u\<close> is the value of \<open>rand.Float64\<close>, at least 0 and below 1.\<close>

definition backoff_Next :: "rat \<Rightarrow> Backoff \<Rightarrow> duration \<times> Backoff" where
  "backoff_Next u b =
     (let b = b\<lparr>boBase := (if boBase b \<le> 0 then 500 * millisecond else boBase b),
               boCap := (if boCap b \<le> 0 then 30 * second else boCap b)\<rparr>;
          d = backoff_loop (boCap b) (boAttempt b) (boBase b);
          d = (if d > boCap b then boCap b else d);
          jitter = trunc_rat (of_int d * (1 / 4) * (u * 2 - 1))
      in (d + jitter, b\<lparr>boAttempt := boAttempt b + 1\<rparr>))"

definition backoff_Reset :: "Backoff \<Rightarrow> Backoff" where
  "backoff_Reset b = b\<lparr>boAttempt := 0\<rparr>"

section \<open>Configuration and state\<close>

definition DefaultSubscriptions :: "string list" where
  "DefaultSubscriptions = [''CHANNEL_CREATE'', ''CHANNEL_ANSWER'', ''CHANNEL_HANGUP_COMPLETE'', ''CHANNEL_BRIDGE'',
     ''CHANNEL_UNBRIDGE'', ''DTMF'', ''RECORD_STOP'', ''CUSTOM sofia::register'', ''CUSTOM mod_callcenter::*'']"

record pool_config =
  pcNodes :: "string list"
  pcPassword :: string
  pcBackoffBase :: duration
  pcBackoffCap :: duration
  pcSubscriptions :: "string list"
  pcEventBuffer :: nat

definition applyDefaults :: "pool_config \<Rightarrow> pool_config" where
  "applyDefaults cfg = cfg
     \<lparr>pcBackoffBase := (if pcBackoffBase cfg = 0 then 500 * millisecond else pcBackoffBase cfg),
      pcBackoffCap := (if pcBackoffCap cfg = 0 then 30 * second else pcBackoffCap cfg),
      pcEventBuffer := (if pcEventBuffer cfg = 0 then 4096 else pcEventBuffer cfg),
      pcSubscriptions := (if pcSubscriptions cfg = [] then DefaultSubscriptions else pcSubscriptions cfg)\<rparr>"

record nodeState =
  nsClient :: "Client option"
  nsHealthy :: bool
  nsLastErr :: "esl_error option"
  nsBackoff :: Backoff

record EventEnvelope =
  enNodeAddr :: string
  enEvent :: channel_event
  enRaw :: EslEvent

record ESLPool =
  plCfg :: pool_config
  plNodes :: "(string \<times> nodeState) list"
  plEvents :: "EventEnvelope list"
  plCancelled :: bool

definition pool_New :: "pool_config \<Rightarrow> ESLPool option" where
  "pool_New cfg =
     (if pcNodes cfg = [] then None
      else let cfg = applyDefaults cfg;
               st = \<lparr>nsClient = None, nsHealthy = False, nsLastErr = None,
                     nsBackoff = \<lparr>boBase = pcBackoffBase cfg, boCap = pcBackoffCap cfg, boAttempt = 0\<rparr>\<rparr>
           in Some \<lparr>plCfg = cfg, plNodes = fold (\<lambda>a. AList.update a st) (pcNodes cfg) [], plEvents = [], plCancelled = False\<rparr>)"

section \<open>Lookups\<close>

definition pool_Get :: "ESLPool \<Rightarrow> string \<Rightarrow> esl_error + Client" where
  "pool_Get p addr =
     (case map_of (plNodes p) addr of
        None \<Rightarrow> Inl ErrNotConnected
      | Some st \<Rightarrow>
        (case nsClient st of
           None \<Rightarrow> Inl ErrNotConnected
         | Some c \<Rightarrow> if \<not> nsHealthy st then Inl ErrNotConnected else Inr c))"

definition AnyHealthy :: "ESLPool \<Rightarrow> bool" where
  "AnyHealthy p \<longleftrightarrow> list_ex (\<lambda>(_, st). nsHealthy st) (plNodes p)"

definition HealthyNodes :: "ESLPool \<Rightarrow> string list" where
  "HealthyNodes p = sort (map fst (filter (\<lambda>(_, st). nsHealthy st) (plNodes p)))"

section \<open>The supervisor\<close>

definition containsAny :: "string \<Rightarrow> string list \<Rightarrow> bool" where
  "containsAny s needles \<longleftrightarrow> list_ex (\<lambda>n. n \<noteq> '''' \<and> text_contains s n) needles"

definition healthProbe :: "send_env \<Rightarrow> Client \<Rightarrow> (esl_error + unit) \<times> Client" where
  "healthProbe e c =
     (case SofiaStatus e c of
        (Inl err, c') \<Rightarrow> (Inl err, c')
      | (Inr out, c') \<Rightarrow> (if containsAny out [''Profile'', ''RUNNING''] then Inr () else Inl (ErrCommandFailed out), c'))"

record connect_env =
  cnSocketOk :: bool
  cnAuthWriteOk :: bool
  cnHandshake :: string
  cnSubscribe :: send_env
  cnProbe :: send_env

text \<open>\<open>connectAndServe\<close> up to its loop; on an error the deferred \<open>Close\<close> ends the connection.\<close>

definition connectAndServe :: "pool_config \<Rightarrow> connect_env \<Rightarrow> string \<Rightarrow> nodeState \<Rightarrow> esl_error + nodeState" where
  "connectAndServe cfg e addr st =
     bindE (Dial (cnSocketOk e) (cnAuthWriteOk e) addr (pcPassword cfg) (cnHandshake e)) (\<lambda>(cli, _).
       case SubscribeEvents (cnSubscribe e) cli (pcSubscriptions cfg) of
         (Inl err, _) \<Rightarrow> Inl err
       | (Inr _, cli) \<Rightarrow>
         (case healthProbe (cnProbe e) cli of
            (Inl err, _) \<Rightarrow> Inl err
          | (Inr _, cli) \<Rightarrow> Inr \<lparr>nsClient = Some cli, nsHealthy = True, nsLastErr = None, nsBackoff = backoff_Reset (nsBackoff st)\<rparr>))"

text \<open>What \<open>runNode\<close> does after a cycle that failed: the node is taken out and the supervisor sleeps.\<close>

definition node_down :: "rat \<Rightarrow> esl_error \<Rightarrow> nodeState \<Rightarrow> nodeState" where
  "node_down u err st = \<lparr>nsClient = None, nsHealthy = False, nsLastErr = Some err, nsBackoff = snd (backoff_Next u (nsBackoff st))\<rparr>"

definition runNode :: "pool_config \<Rightarrow> connect_env \<Rightarrow> rat \<Rightarrow> string \<Rightarrow> nodeState \<Rightarrow> nodeState" where
  "runNode cfg e u addr st = (case connectAndServe cfg e addr st of Inl err \<Rightarrow> node_down u err st | Inr st' \<Rightarrow> st')"

definition zero_event :: channel_event where
  "zero_event = \<lparr>evTenantID = uuid_Nil, evCallID = uuid_Nil, evType = OtherChannelEvent '''', evHangupCause = '''', evDurationMS = 0,
     evTimestamp = - 62135596800 * second, evEventID = uuid_Nil, evFSNode = '''', evSIPResponse = 0, evHeaders = Map.empty\<rparr>"

definition publishEvent :: "(string \<Rightarrow> uuid option) \<Rightarrow> time \<Rightarrow> string \<Rightarrow> EslEvent \<Rightarrow> ESLPool \<Rightarrow> ESLPool" where
  "publishEvent parse now addr ev p =
     (if length (plEvents p) < pcEventBuffer (plCfg p)
      then p\<lparr>plEvents := plEvents p @ [\<lparr>enNodeAddr = addr, enEvent = (case MapEvent parse now ev of None \<Rightarrow> zero_event | Some m \<Rightarrow> m), enRaw = ev\<rparr>]\<rparr>
      else p)"

section \<open>Runs\<close>

definition set_node :: "string \<Rightarrow> nodeState \<Rightarrow> ESLPool \<Rightarrow> ESLPool" where
  "set_node addr st p = p\<lparr>plNodes := AList.update addr st (plNodes p)\<rparr>"

definition set_client :: "string \<Rightarrow> nodeState \<Rightarrow> Client \<Rightarrow> ESLPool \<Rightarrow> ESLPool" where
  "set_client addr st c p = set_node addr (st\<lparr>nsClient := Some c\<rparr>) p"

text \<open>A command on the connection of a node, as the users of \<open>Get\<close> issue it.\<close>

definition with_client :: "string \<Rightarrow> (Client \<Rightarrow> (esl_error + 'a) \<times> Client) \<Rightarrow> ESLPool \<Rightarrow> (esl_error + 'a) \<times> ESLPool" where
  "with_client addr f p =
     (case pool_Get p addr of
        Inl err \<Rightarrow> (Inl err, p)
      | Inr c \<Rightarrow>
        (case map_of (plNodes p) addr of
           None \<Rightarrow> (Inl ErrNotConnected, p)
         | Some st \<Rightarrow> (case f c of (r, c') \<Rightarrow> (r, set_client addr st c' p))))"

datatype pool_action =
    Connect connect_env rat
  | FrameArrives Frame
  | ReadEnds
  | Forward time rat
  | Tick send_env rat

text \<open>
  One step at a node. A supervisor without a connection connects; one with a connection takes an
  event, sees the closed event channel, or probes.
\<close>

definition node_step :: "(string \<Rightarrow> uuid option) \<Rightarrow> pool_action \<Rightarrow> string \<Rightarrow> nodeState \<Rightarrow> ESLPool \<Rightarrow> ESLPool" where
  "node_step parse act addr st p =
     (case (act, nsClient st) of
        (Connect e u, None) \<Rightarrow> set_node addr (runNode (plCfg p) e u addr st) p
      | (FrameArrives f, Some c) \<Rightarrow> if ecDone c then p else set_client addr st (dispatch f c) p
      | (ReadEnds, Some c) \<Rightarrow> set_client addr st (close_events c) p
      | (Forward now u, Some c) \<Rightarrow>
          (case ecEvents c of
             ev # evs \<Rightarrow> publishEvent parse now addr ev (set_client addr st (c\<lparr>ecEvents := evs\<rparr>) p)
           | [] \<Rightarrow> if ecDone c then set_node addr (node_down u ErrEventsClosed st) p else p)
      | (Tick e u, Some c) \<Rightarrow>
          (case healthProbe e c of
             (Inl err, _) \<Rightarrow> set_node addr (node_down u err st) p
           | (Inr _, c') \<Rightarrow> set_client addr st c' p)
      | _ \<Rightarrow> p)"

text \<open>\<open>Close\<close> ends every supervisor; each leaves its node without a connection.\<close>

definition pool_Close :: "ESLPool \<Rightarrow> ESLPool" where
  "pool_Close p = p\<lparr>plNodes := map (\<lambda>(a, st). (a, st\<lparr>nsClient := None, nsHealthy := False\<rparr>)) (plNodes p), plCancelled := True\<rparr>"

definition pool_step :: "(string \<Rightarrow> uuid option) \<Rightarrow> string \<Rightarrow> pool_action \<Rightarrow> ESLPool \<Rightarrow> ESLPool" where
  "pool_step parse addr act p =
     (if plCancelled p then p
      else case map_of (plNodes p) addr of None \<Rightarrow> p | Some st \<Rightarrow> node_step parse act addr st p)"

end
