(* ===== verification/Telephony_Bridge.thy ===== *)
theory Telephony_Bridge
  imports Telephony_Pool Auth_Stores
begin

text \<open>
  The bridge between the message bus and the FreeSWITCH nodes (\<open>internal/telephony/nats_bridge\<close>) and
  the dialer's adapter in front of it (\<open>internal/dialer/router\<close>): commands are taken from the bus at
  least once, marked in Redis and issued on the connection of their node; channel events are taken
  from the pool and published.

  A payload that does not decode is \<open>None\<close>. The raw arguments of a command are the results of
  decoding them in the ways the code does. Values carried by the bus arrive as they were sent.
  \<open>uuid.New\<close>, \<open>uuid.String\<close> and \<open>uuid.Parse\<close> are third-party code and parameters. Zone offsets are zero.
  Metrics, logs and the wiring of start and stop are left out.
\<close>

section \<open>Commands\<close>

record OriginateCommand =
  ocCommandID :: uuid
  ocTenantID :: uuid
  ocCallID :: uuid
  ocOperatorExt :: string
  ocNumber :: string
  ocTrunkID :: string
  ocFSNode :: string
  ocPromptURL :: string
  ocRecordingPath :: string
  ocCallerID :: string
  ocDialingTimeout :: duration

record HangupCommand =
  hcCommandID :: uuid
  hcCallID :: uuid
  hcCause :: string

record cmd_args =
  caOriginate :: "OriginateCommand option"
  caCause :: "string option"
  caPath :: "string option"

record commandEnvelope =
  cvCommandID :: string
  cvKind :: string
  cvTenantID :: string
  cvCallID :: string
  cvNode :: string
  cvArgs :: cmd_args

section \<open>The dialer's router\<close>

record DialRequest =
  drCallID :: uuid
  drTenantID :: uuid
  drOperatorID :: uuid
  drRespondentID :: uuid
  drProjectID :: uuid
  drOperatorExt :: string
  drPhone :: string
  drFsNode :: string

record DialerEvent =
  deCallID :: uuid
  deType :: string
  deCause :: string
  deDuration :: int
  deFsNode :: string

definition translateOriginate :: "uuid \<Rightarrow> DialRequest \<Rightarrow> OriginateCommand" where
  "translateOriginate new req = \<lparr>ocCommandID = new, ocTenantID = drTenantID req, ocCallID = drCallID req,
     ocOperatorExt = drOperatorExt req, ocNumber = drPhone req, ocTrunkID = '''', ocFSNode = drFsNode req,
     ocPromptURL = '''', ocRecordingPath = '''', ocCallerID = '''', ocDialingTimeout = 0\<rparr>"

definition translateHangup :: "uuid \<Rightarrow> uuid \<Rightarrow> string \<Rightarrow> HangupCommand" where
  "translateHangup new callID reason = \<lparr>hcCommandID = new, hcCallID = callID, hcCause = reason\<rparr>"

text \<open>The projected type, \<open>None\<close> for a drop, and whether the type is known.\<close>

definition mapChannelEventType :: "ChannelEventType \<Rightarrow> string option \<times> bool" where
  "mapChannelEventType t =
     (case t of
        TelDialing \<Rightarrow> (Some ''dialing'', True)
      | TelAnswer \<Rightarrow> (Some ''answered'', True)
      | TelBridge \<Rightarrow> (Some ''answered'', True)
      | TelHangup \<Rightarrow> (Some ''hangup'', True)
      | TelUnbridge \<Rightarrow> (None, True)
      | TelDTMF \<Rightarrow> (None, True)
      | TelRecordStop \<Rightarrow> (None, True)
      | OtherChannelEvent _ \<Rightarrow> (None, False))"

definition translateChannelEvent :: "channel_event \<Rightarrow> DialerEvent option \<times> bool" where
  "translateChannelEvent evt =
     (case mapChannelEventType (evType evt) of
        (None, known) \<Rightarrow> (None, known)
      | (Some t, _) \<Rightarrow>
        (Some \<lparr>deCallID = evCallID evt, deType = t,
               deCause = (if evType evt = TelHangup then evHangupCause evt else ''''),
               deDuration = (if evType evt = TelHangup then max (evDurationMS evt) 0 else 0),
               deFsNode = evFSNode evt\<rparr>, True))"

text \<open>
  The command publisher and the event handler are the caller's; their errors are returned as they are.
\<close>

definition router_Dial :: "(OriginateCommand \<Rightarrow> 'w \<Rightarrow> ('e + unit) \<times> 'w) \<Rightarrow> uuid \<Rightarrow> DialRequest \<Rightarrow> 'w \<Rightarrow> ('e + unit) \<times> 'w" where
  "router_Dial pub new req w = pub (translateOriginate new req) w"

definition router_Hangup :: "(HangupCommand \<Rightarrow> 'w \<Rightarrow> ('e + unit) \<times> 'w) \<Rightarrow> uuid \<Rightarrow> uuid \<Rightarrow> string \<Rightarrow> 'w \<Rightarrow> ('e + unit) \<times> 'w" where
  "router_Hangup pub new callID reason w = pub (translateHangup new callID reason) w"

definition router_handler :: "(DialerEvent \<Rightarrow> 'w \<Rightarrow> ('e + unit) \<times> 'w) \<Rightarrow> channel_event \<Rightarrow> 'w \<Rightarrow> ('e + unit) \<times> 'w" where
  "router_handler h evt w = (case translateChannelEvent evt of (None, _) \<Rightarrow> (Inr (), w) | (Some projected, _) \<Rightarrow> h projected w)"

text \<open>The publisher that the API process installs.\<close>

datatype publisher_error = ErrTelephonyBridgeOffline

definition stub_publisher :: "'c \<Rightarrow> 'w \<Rightarrow> (publisher_error + unit) \<times> 'w" where
  "stub_publisher cmd w = (Inl ErrTelephonyBridgeOffline, w)"

section \<open>Subjects\<close>

definition ChannelEventType_string :: "ChannelEventType \<Rightarrow> string" where
  "ChannelEventType_string t =
     (case t of TelDialing \<Rightarrow> ''dialing'' | TelAnswer \<Rightarrow> ''answer'' | TelBridge \<Rightarrow> ''bridge'' | TelUnbridge \<Rightarrow> ''unbridge''
      | TelHangup \<Rightarrow> ''hangup'' | TelDTMF \<Rightarrow> ''dtmf'' | TelRecordStop \<Rightarrow> ''record_stop'' | OtherChannelEvent s \<Rightarrow> s)"

definition SubjectChannelEventFor :: "codec \<Rightarrow> uuid \<Rightarrow> uuid \<Rightarrow> string \<Rightarrow> string" where
  "SubjectChannelEventFor C tenantID callID eventType =
     ''tenant.'' @ uuid_String C tenantID @ ''.telephony.event.'' @ uuid_String C callID @ ''.'' @ eventType"

section \<open>The idempotency guard\<close>

record IdempotencyGuard =
  igTTL :: duration

definition NewIdempotencyGuard :: "duration \<Rightarrow> IdempotencyGuard" where
  "NewIdempotencyGuard ttl = \<lparr>igTTL = (if ttl \<le> 0 then 24 * hour else ttl)\<rparr>"

definition idempotencyKey :: "string \<Rightarrow> string" where
  "idempotencyKey commandID = ''telephony:idempotency:'' @ commandID"

definition MarkSeen :: "IdempotencyGuard \<Rightarrow> call_outcome \<Rightarrow> time \<Rightarrow> string \<Rightarrow> redis \<Rightarrow> (unit + bool) \<times> redis" where
  "MarkSeen g net now commandID db =
     (let key = idempotencyKey commandID;
          fresh = (live db now key = None);
          db' = (if fresh then cmd_SET db now key (RString ''1'') (igTTL g) else db)
      in case net of CallOk \<Rightarrow> (Inr fresh, db') | CallLost \<Rightarrow> (Inl (), db) | ReplyLost \<Rightarrow> (Inl (), db'))"

section \<open>Dispatch\<close>

definition buildCallURL :: "string \<Rightarrow> string \<Rightarrow> string" where
  "buildCallURL trunkID number = ''sofia/gateway/'' @ trunkID @ ''/'' @ number"

definition buildOriginateRequest :: "codec \<Rightarrow> OriginateCommand \<Rightarrow> OriginateRequest" where
  "buildOriginateRequest C cmd =
     \<lparr>oqCallURL = buildCallURL (ocTrunkID cmd) (ocNumber cmd), oqExtension = '''', oqCaller = ocCallerID cmd, oqCallerName = ocCallerID cmd,
      oqVariables =
        [(''sociopulse_call_id'', uuid_String C (ocCallID cmd)), (''sociopulse_tenant_id'', uuid_String C (ocTenantID cmd)),
         (''sociopulse_command'', uuid_String C (ocCommandID cmd))]
        @ (if ocRecordingPath cmd \<noteq> '''' then [(''recording_path'', ocRecordingPath cmd)] else [])
        @ (if ocOperatorExt cmd \<noteq> '''' then [(''operator_ext'', ocOperatorExt cmd)] else []),
      oqTimeout = ocDialingTimeout cmd\<rparr>"

definition adapter_Originate :: "codec \<Rightarrow> send_env \<Rightarrow> string \<Rightarrow> OriginateCommand \<Rightarrow> ESLPool \<Rightarrow> (esl_error + unit) \<times> ESLPool" where
  "adapter_Originate C e node cmd =
     with_client node (\<lambda>c. case esl_Originate e c (buildOriginateRequest C cmd) of (r, c') \<Rightarrow> (map_sum id (\<lambda>_. ()) r, c'))"

definition adapter_Hangup :: "send_env \<Rightarrow> string \<Rightarrow> string \<Rightarrow> string \<Rightarrow> ESLPool \<Rightarrow> (esl_error + unit) \<times> ESLPool" where
  "adapter_Hangup e node callID cause = with_client node (\<lambda>c. esl_Hangup e c callID cause)"

definition adapter_MixMonitorStart :: "send_env \<Rightarrow> string \<Rightarrow> string \<Rightarrow> string \<Rightarrow> ESLPool \<Rightarrow> (esl_error + unit) \<times> ESLPool" where
  "adapter_MixMonitorStart e node callID path = with_client node (\<lambda>c. esl_MixMonitorStart e c callID path [])"

definition adapter_MixMonitorStop :: "send_env \<Rightarrow> string \<Rightarrow> string \<Rightarrow> ESLPool \<Rightarrow> (esl_error + unit) \<times> ESLPool" where
  "adapter_MixMonitorStop e node callID = with_client node (\<lambda>c. esl_MixMonitorStop e c callID ''all'')"

definition cmd_dispatch :: "codec \<Rightarrow> send_env \<Rightarrow> commandEnvelope \<Rightarrow> ESLPool \<Rightarrow> (esl_error + unit) \<times> ESLPool" where
  "cmd_dispatch C e v p =
     (if cvKind v = ''originate'' then
        (case caOriginate (cvArgs v) of None \<Rightarrow> (Inr (), p) | Some cmd \<Rightarrow> adapter_Originate C e (cvNode v) cmd p)
      else if cvKind v = ''hangup'' then
        (case caCause (cvArgs v) of None \<Rightarrow> (Inr (), p) | Some cause \<Rightarrow> adapter_Hangup e (cvNode v) (cvCallID v) cause p)
      else if cvKind v = ''mixmonitor.start'' then
        (case caPath (cvArgs v) of None \<Rightarrow> (Inr (), p) | Some path \<Rightarrow> adapter_MixMonitorStart e (cvNode v) (cvCallID v) path p)
      else if cvKind v = ''mixmonitor.stop'' then adapter_MixMonitorStop e (cvNode v) (cvCallID v) p
      else (Inr (), p))"

section \<open>The bridge\<close>

record bridge =
  brRedis :: redis
  brPool :: ESLPool
  brBus :: "(string \<times> channel_event) list"

record command_env =
  cmNow :: time
  cmNet :: call_outcome
  cmSend :: send_env

definition handle_command ::
  "codec \<Rightarrow> IdempotencyGuard \<Rightarrow> command_env \<Rightarrow> commandEnvelope option \<Rightarrow> bridge \<Rightarrow> delivery \<times> bridge" where
  "handle_command C g e payload b =
     (case payload of
        None \<Rightarrow> (Ack, b)
      | Some v \<Rightarrow>
        (case MarkSeen g (cmNet e) (cmNow e) (cvCommandID v) (brRedis b) of
           (Inl _, db) \<Rightarrow> (Nak, b\<lparr>brRedis := db\<rparr>)
         | (Inr seen, db) \<Rightarrow>
           if \<not> seen then (Ack, b\<lparr>brRedis := db\<rparr>)
           else (case cmd_dispatch C (cmSend e) v (brPool b) of
                   (Inl _, p) \<Rightarrow> (Nak, b\<lparr>brRedis := db, brPool := p\<rparr>)
                 | (Inr _, p) \<Rightarrow> (Ack, b\<lparr>brRedis := db, brPool := p\<rparr>))))"

text \<open>An instant of the year 10000 or later has no JSON form.\<close>

definition marshal_ok :: "channel_event \<Rightarrow> bool" where
  "marshal_ok ev \<longleftrightarrow> evTimestamp ev < 253402300800 * second"

definition publishOne :: "codec \<Rightarrow> call_outcome \<Rightarrow> EventEnvelope \<Rightarrow> (string \<times> channel_event) list \<Rightarrow> (string \<times> channel_event) list" where
  "publishOne C net env bus =
     (let ev = enEvent env
      in if ChannelEventType_string (evType ev) = '''' then bus
         else if \<not> marshal_ok ev then bus
         else let subject = SubjectChannelEventFor C (evTenantID ev) (evCallID ev) (ChannelEventType_string (evType ev))
              in if net = CallLost then bus else bus @ [(subject, ev)])"

definition publisher_loop :: "codec \<Rightarrow> call_outcome \<Rightarrow> bridge \<Rightarrow> bridge" where
  "publisher_loop C net b =
     (case plEvents (brPool b) of
        [] \<Rightarrow> b
      | env # envs \<Rightarrow> b\<lparr>brPool := (brPool b)\<lparr>plEvents := envs\<rparr>, brBus := publishOne C net env (brBus b)\<rparr>)"

datatype bridge_action =
    Deliver command_env "commandEnvelope option"
  | AtNode string pool_action
  | PublishNext call_outcome
  | ClosePool

definition bridge_do :: "codec \<Rightarrow> IdempotencyGuard \<Rightarrow> bridge_action \<Rightarrow> bridge \<Rightarrow> bridge" where
  "bridge_do C g act b =
     (case act of
        Deliver e payload \<Rightarrow> snd (handle_command C g e payload b)
      | AtNode addr a \<Rightarrow> b\<lparr>brPool := pool_step (uuid_Parse C) addr a (brPool b)\<rparr>
      | PublishNext net \<Rightarrow> publisher_loop C net b
      | ClosePool \<Rightarrow> b\<lparr>brPool := pool_Close (brPool b)\<rparr>)"

definition bridge_run :: "codec \<Rightarrow> IdempotencyGuard \<Rightarrow> bridge_action list \<Rightarrow> bridge \<Rightarrow> bridge" where
  "bridge_run C g acts b = fold (bridge_do C g) acts b"

end
