(* ===== verification/Esl_Properties.thy ===== *)
theory Esl_Properties
  imports Esl_Protocol
begin

text \<open>
  Properties of the event-socket client: frames and channel variables are read back as they were
  written, and replies are matched with commands by arrival only.
\<close>

section \<open>Frames\<close>

text \<open>The text of a frame as the server writes it.\<close>

definition render_header :: "string \<times> string \<Rightarrow> string" where
  "render_header kv = fst kv @ '': '' @ snd kv @ [LF]"

definition all_headers :: "(string \<times> string) list \<Rightarrow> string \<Rightarrow> (string \<times> string) list" where
  "all_headers hs body = hs @ (if body = [] then [] else [(''Content-Length'', FormatInt (int (length body)))])"

definition render_frame :: "(string \<times> string) list \<Rightarrow> string \<Rightarrow> string" where
  "render_frame hs body = concat (map render_header (all_headers hs body)) @ LF # body"

definition header_ok :: "string \<times> string \<Rightarrow> bool" where
  "header_ok kv \<longleftrightarrow> fst kv \<noteq> [] \<and> CHR '':'' \<notin> set (fst kv) \<and> LF \<notin> set (fst kv) \<and> TrimSpace (fst kv) = fst kv
     \<and> LF \<notin> set (snd kv) \<and> TrimSpace (snd kv) = snd kv"

lemma cut_first:
  assumes "c \<notin> set l"
  shows "takeWhile (\<lambda>x. x \<noteq> c) (l @ c # r) = l" "dropWhile (\<lambda>x. x \<noteq> c) (l @ c # r) = c # r"
  using assms by (induction l) auto

lemma read_line_append: "LF \<notin> set l \<Longrightarrow> read_line (l @ LF # r) = Some (l @ [LF], r)"
  by (simp add: read_line_def cut_first)

lemma TrimSpace_Nil [simp]: "TrimSpace [] = []"
  by (simp add: TrimSpace_def)

lemma TrimSpace_blank [simp]: "TrimSpace (CHR '' '' # s) = TrimSpace s"
  by (simp add: TrimSpace_def is_space_def)

lemma TrimSpace_last:
  assumes "TrimSpace s = s" "s \<noteq> []"
  shows "\<not> is_space (last s)"
proof -
  have "dropWhile is_space (rev (dropWhile is_space s)) = rev s"
    using assms(1) by (metis TrimSpace_def rev_rev_ident)
  then have "\<not> is_space (hd (rev s))" using assms(2) by (metis hd_dropWhile rev_is_Nil_conv)
  then show ?thesis by (simp add: hd_rev)
qed

lemma TrimRight_line: "s \<noteq> [] \<Longrightarrow> last s \<noteq> CR \<Longrightarrow> last s \<noteq> LF \<Longrightarrow> TrimRight (s @ [LF]) [CR, LF] = s"
  by (cases s rule: rev_cases) (auto simp: TrimRight_def)

lemma header_line_render:
  assumes "header_ok (k, v)"
  shows "TrimRight (render_header (k, v)) [CR, LF] \<noteq> []"
    and "header_line (TrimRight (render_header (k, v)) [CR, LF]) = Some (ToLower k, v)"
proof -
  let ?s = "k @ CHR '':'' # CHR '' '' # v"
  have "last ?s \<noteq> CR \<and> last ?s \<noteq> LF"
    using assms TrimSpace_last [of v] by (cases "v = []") (auto simp: header_ok_def is_space_def)
  then have s: "TrimRight (render_header (k, v)) [CR, LF] = ?s"
    using TrimRight_line [of ?s] by (simp add: render_header_def)
  show "TrimRight (render_header (k, v)) [CR, LF] \<noteq> []" unfolding s by simp
  have "takeWhile (\<lambda>c. c \<noteq> CHR '':'') ?s = k" "dropWhile (\<lambda>c. c \<noteq> CHR '':'') ?s = CHR '':'' # CHR '' '' # v"
    using assms by (simp_all add: header_ok_def cut_first)
  then show "header_line (TrimRight (render_header (k, v)) [CR, LF]) = Some (ToLower k, v)"
    unfolding s using assms by (simp add: header_line_def header_ok_def)
qed

definition put_headers :: "(string \<times> string) list \<Rightarrow> (string \<Rightarrow> string option) \<Rightarrow> string \<Rightarrow> string option" where
  "put_headers hs m = fold (\<lambda>(k, v) m. m(ToLower k \<mapsto> v)) hs m"

lemma parse_headers_render:
  assumes "list_all header_ok hs" "n + int (length (concat (map render_header hs))) + 1 \<le> MaxFrameBytes"
  shows "parse_headers n m (concat (map render_header hs) @ LF # r)
         = Inr (put_headers hs m, n + int (length (concat (map render_header hs))) + 1, r)"
  using assms
proof (induction hs arbitrary: n m)
  case Nil
  have "read_line (LF # r) = Some ([LF], r)" by (simp add: read_line_def)
  with Nil show ?case by (subst parse_headers.simps) (simp add: TrimRight_def put_headers_def)
next
  case (Cons kv hs)
  obtain k v where kv: "kv = (k, v)" by force
  have ok: "header_ok (k, v)" using Cons.prems kv by simp
  then have l: "LF \<notin> set (k @ '': '' @ v)" by (simp add: header_ok_def)
  have r: "render_header kv = (k @ '': '' @ v) @ [LF]" by (simp add: render_header_def kv)
  have "read_line (concat (map render_header (kv # hs)) @ LF # r)
        = Some (render_header kv, concat (map render_header hs) @ LF # r)"
    using read_line_append [OF l] by (simp add: r)
  with Cons show ?case
    using header_line_render [OF ok] by (subst parse_headers.simps) (simp add: kv put_headers_def)
qed

lemma put_headers_map_of: "put_headers hs m = m ++ map_of (rev (map (\<lambda>(k, v). (ToLower k, v)) hs))"
  unfolding put_headers_def by (induction hs arbitrary: m) (auto simp: map_add_assoc simp flip: map_add_upd_left)

lemma put_headers_Map_empty:
  "put_headers hs Map.empty = map_of (rev (map (\<lambda>(k, v). (ToLower k, v)) hs))"
  by (simp add: put_headers_map_of)

lemma header_ok_length: "header_ok (''Content-Length'', FormatInt (int n))"
proof -
  have d: "\<not> is_space c" "c \<noteq> LF" if "c \<in> set (nat_dec n)" for c
    using nat_dec_digits [of n] that by (auto simp: list_all_iff is_digit_def is_space_def)
  then have "dropWhile is_space (nat_dec n) = nat_dec n" "dropWhile is_space (rev (nat_dec n)) = rev (nat_dec n)"
    by (simp_all add: dropWhile_eq_self_iff hd_rev)
  then have "TrimSpace (nat_dec n) = nat_dec n" by (simp add: TrimSpace_def)
  moreover have "TrimSpace ''Content-Length'' = ''Content-Length''" by (simp add: TrimSpace_def is_space_def)
  ultimately show ?thesis using d(2) by (auto simp: header_ok_def FormatInt_def)
qed

lemma all_headers_ok: "list_all header_ok hs \<Longrightarrow> list_all header_ok (all_headers hs body)"
  by (simp add: all_headers_def header_ok_length)

lemma length_header:
  assumes "''content-length'' \<notin> ToLower ` fst ` set hs"
  shows "map_of (rev (map (\<lambda>(k, v). (ToLower k, v)) (all_headers hs body))) ''content-length''
         = (if body = [] then None else Some (FormatInt (int (length body))))"
proof -
  have "ToLower ''Content-Length'' = ''content-length''" by code_simp
  moreover have "map_of (rev (map (\<lambda>(k, v). (ToLower k, v)) hs)) ''content-length'' = None"
    using assms by (force simp: map_of_eq_None_iff)
  ultimately show ?thesis by (simp add: all_headers_def)
qed

lemma read_body_render:
  assumes "body \<noteq> []" "0 \<le> n" "n + int (length body) \<le> MaxFrameBytes"
  shows "read_body n (FormatInt (int (length body))) (body @ rest) = Inr (body, rest)"
proof -
  have "int (length body) \<le> MaxFrameBytes" "in_int64 (int (length body))" "in_int64 (n + int (length body))"
    using assms by (auto simp: in_int64_def MaxFrameBytes_def)
  then show ?thesis using assms by (simp add: read_body_def ParseInt64_FormatInt wrap64_id)
qed

text \<open>
  C11: A frame that fits the 1 MiB budget is read back from the socket exactly: the headers under
  their lower-case names, the last one of a name winning, the body of \<open>Content-Length\<close> bytes, and
  the bytes of the next frame left unread.
\<close>

theorem frames_parse_back:
  assumes "list_all header_ok hs" "''content-length'' \<notin> ToLower ` fst ` set hs"
    and "int (length (render_frame hs body)) \<le> MaxFrameBytes"
  shows "parseFrame (render_frame hs body @ rest)
         = Inr (\<lparr>frHeaders = map_of (rev (map (\<lambda>(k, v). (ToLower k, v)) (all_headers hs body))),
                 frBody = (if body = [] then None else Some body)\<rparr>, rest)"
proof -
  let ?n = "int (length (concat (map render_header (all_headers hs body)))) + 1"
  have "?n + int (length body) \<le> MaxFrameBytes" using assms(3) by (simp add: render_frame_def)
  moreover from this have "parse_headers 0 Map.empty (render_frame hs body @ rest) = Inr (put_headers (all_headers hs body) Map.empty, ?n, body @ rest)"
    using parse_headers_render [OF all_headers_ok [OF assms(1)], of 0 body Map.empty "body @ rest"] by (simp add: render_frame_def)
  ultimately show ?thesis
    using read_body_render [of body ?n rest]
    by (cases "body = []") (simp_all add: parseFrame_def put_headers_Map_empty length_header [OF assms(2)])
qed

section \<open>Channel variables\<close>

text \<open>
  How the variables of an \<open>originate\<close> command are read: up to the closing brace, split at the commas
  that no backslash precedes, each cut at its first equals sign.
\<close>

abbreviation (input) BS :: char where "BS \<equiv> CHR 0x5C"

definition push :: "string \<Rightarrow> string list \<Rightarrow> string list" where
  "push s ls = (s @ hd ls) # tl ls"

fun split_unescaped :: "string \<Rightarrow> string list" where
  "split_unescaped [] = [[]]"
| "split_unescaped [c] = (if c = CHR '','' then [[], []] else [[c]])"
| "split_unescaped (c # d # s) =
     (if c = CHR '','' then [] # split_unescaped (d # s)
      else if c = BS \<and> d = CHR '','' then push [d] (split_unescaped s)
      else push [c] (split_unescaped (d # s)))"

definition cut_var :: "string \<Rightarrow> string \<times> string" where
  "cut_var s = (takeWhile (\<lambda>c. c \<noteq> CHR ''='') s, drop 1 (dropWhile (\<lambda>c. c \<noteq> CHR ''='') s))"

definition read_variables :: "string \<Rightarrow> (string \<times> string) list \<times> string" where
  "read_variables s =
     (if s \<noteq> [] \<and> hd s = CHR ''{''
      then (map cut_var (split_unescaped (takeWhile (\<lambda>c. c \<noteq> CHR ''}'') (drop 1 s))), drop 1 (dropWhile (\<lambda>c. c \<noteq> CHR ''}'') s))
      else ([], s))"

definition no_braces :: "string \<Rightarrow> string" where
  "no_braces v = filter (\<lambda>c. c \<noteq> CHR ''{'' \<and> c \<noteq> CHR ''}'') v"

definition key_ok :: "string \<Rightarrow> bool" where
  "key_ok k \<longleftrightarrow> set k \<inter> {CHR '','', CHR ''='', BS, CHR ''{'', CHR ''}''} = {}"

lemma split_not_Nil: "split_unescaped s \<noteq> []"
  by (induction s rule: split_unescaped.induct) (simp_all add: push_def)

lemma push_push [simp]: "push a (push b ls) = push (a @ b) ls"
  by (simp add: push_def)

lemma push_Nil: "ls \<noteq> [] \<Longrightarrow> push [] ls = ls"
  by (cases ls) (simp_all add: push_def)

lemma split_step:
  "split_unescaped (CHR '','' # s) = [] # split_unescaped s"
  "c \<noteq> CHR '','' \<Longrightarrow> c \<noteq> BS \<Longrightarrow> split_unescaped (c # s) = push [c] (split_unescaped s)"
  "split_unescaped (BS # CHR '','' # s) = push [CHR '',''] (split_unescaped s)"
  by (cases s; simp add: push_def)+

lemma split_plain: "CHR '','' \<notin> set k \<Longrightarrow> BS \<notin> set k \<Longrightarrow> split_unescaped (k @ s) = push k (split_unescaped s)"
  by (induction k) (auto simp: split_step push_Nil [OF split_not_Nil])

lemma escapeVar_simps:
  "escapeVar [] = []"
  "escapeVar (c # v) = (if c = CHR ''{'' \<or> c = CHR ''}'' then [] else if c = CHR '','' then [BS, c] else [c]) @ escapeVar v"
  by (simp_all add: escapeVar_def)

lemma split_escaped: "BS \<notin> set v \<Longrightarrow> split_unescaped (escapeVar v @ s) = push (no_braces v) (split_unescaped s)"
  by (induction v) (auto simp: escapeVar_simps no_braces_def split_step push_Nil [OF split_not_Nil])

definition written_var :: "string \<times> string \<Rightarrow> string" where
  "written_var kv = fst kv @ ''='' @ no_braces (snd kv)"

lemma split_var:
  assumes "key_ok k" "BS \<notin> set v"
  shows "split_unescaped (k @ ''='' @ escapeVar v @ s) = push (written_var (k, v)) (split_unescaped s)"
  using assms split_plain [of k "''='' @ escapeVar v @ s"] split_escaped [of v s]
  by (simp add: key_ok_def split_step written_var_def)

lemma split_join_vars:
  assumes "kvs \<noteq> []" "\<forall>kv\<in>set kvs. key_ok (fst kv) \<and> BS \<notin> set (snd kv)"
  shows "split_unescaped (join_vars kvs) = map written_var kvs"
  using assms
proof (induction kvs rule: join_vars.induct)
  case (2 k v)
  then show ?case using split_var [of k v "[]"] by (simp add: push_def)
next
  case (3 k v kv kvs)
  then show ?case using split_var [of k v "'','' @ join_vars (kv # kvs)"] by (simp add: split_step push_def)
qed simp

lemma cut_written: "key_ok (fst kv) \<Longrightarrow> cut_var (written_var kv) = (fst kv, no_braces (snd kv))"
  by (simp add: cut_var_def written_var_def cut_first key_ok_def)

lemma escapeVar_braces: "CHR ''}'' \<notin> set (escapeVar v)"
  by (induction v) (auto simp: escapeVar_simps)

lemma join_vars_braces: "\<forall>kv\<in>set kvs. key_ok (fst kv) \<Longrightarrow> CHR ''}'' \<notin> set (join_vars kvs)"
  by (induction kvs rule: join_vars.induct) (auto simp: key_ok_def escapeVar_braces)

text \<open>
  The channel variables of an \<open>originate\<close> command are read back one by one, sorted by name and
  each with its own value less braces, and the call URL after them is intact, if no name holds a
  control character and no value a backslash.
\<close>

theorem variables_read_back:
  assumes "\<forall>kv\<in>set (request_vars req). key_ok (fst kv) \<and> BS \<notin> set (snd kv)" "request_vars req \<noteq> []"
  shows "read_variables (buildVariables req @ url)
         = (map (\<lambda>(k, v). (k, no_braces v)) (sort_key fst (request_vars req)), url)"
proof -
  let ?vs = "sort_key fst (request_vars req)"
  have vs: "\<forall>kv\<in>set ?vs. key_ok (fst kv) \<and> BS \<notin> set (snd kv)" "?vs \<noteq> []"
    using assms by (simp_all, metis length_0_conv length_sort)
  have b: "CHR ''}'' \<notin> set (join_vars ?vs)" using vs(1) by (intro join_vars_braces) blast
  have "map cut_var (map written_var ?vs) = map (\<lambda>(k, v). (k, no_braces v)) ?vs"
    using vs(1) by (auto simp: cut_written)
  then show ?thesis
    using assms(2) split_join_vars [OF vs(2,1)] cut_first [OF b, of url]
    by (simp add: read_variables_def buildVariables_def)
qed

section \<open>Replies\<close>

fun send_all :: "(send_env \<times> string) list \<Rightarrow> Client \<Rightarrow> (esl_error + Frame) list \<times> Client" where
  "send_all [] c = ([], c)"
| "send_all ((e, l) # cs) c = (let (r, c') = sendCommand e c l; (rs, c'') = send_all cs c' in (r # rs, c''))"

definition is_reply :: "Frame \<Rightarrow> bool" where
  "is_reply f \<longleftrightarrow> ContentType f \<in> {''command/reply'', ''api/response''}"

definition is_notice :: "Frame \<Rightarrow> bool" where
  "is_notice f \<longleftrightarrow> ContentType f = ''text/disconnect-notice''"

definition ready :: "Client \<Rightarrow> bool" where
  "ready c \<longleftrightarrow> Connected c \<and> \<not> ecBroken c"

text \<open>While the command waits, the server sends one reply, \<open>f\<close>, and any events.\<close>

definition own_reply :: "send_env \<Rightarrow> Frame \<Rightarrow> bool" where
  "own_reply e f \<longleftrightarrow> snWriteOk e \<and> snEnd e = WaitReply \<and> filter is_reply (snFrames e) = [f] \<and> \<not> list_ex is_notice (snFrames e)"

lemma dispatch_reply: "is_reply f \<Longrightarrow> dispatch f c = (if length (ecReplies c) < defaultReplyBuffer then c\<lparr>ecReplies := ecReplies c @ [f]\<rparr> else c)"
  by (auto simp: dispatch_def is_reply_def)

lemma dispatch_other: "\<not> is_reply f \<Longrightarrow> ecReplies (dispatch f c) = ecReplies c"
  by (auto simp: dispatch_def is_reply_def split: sum.splits)

lemma dispatch_ready: "\<not> is_notice f \<Longrightarrow> ready (dispatch f c) = ready c"
  by (auto simp: dispatch_def is_notice_def ready_def Connected_def split: sum.splits)

lemma fold_dispatch_ready: "\<not> list_ex is_notice fs \<Longrightarrow> ready (fold dispatch fs c) = ready c"
  by (induction fs arbitrary: c) (simp_all add: dispatch_ready)

lemma fold_dispatch_replies:
  "ecReplies (fold dispatch fs c) = ecReplies c @ take (defaultReplyBuffer - length (ecReplies c)) (filter is_reply fs)"
proof (induction fs arbitrary: c)
  case (Cons f fs)
  show ?case
  proof (cases "is_reply f \<and> length (ecReplies c) < defaultReplyBuffer")
    case True
    then show ?thesis using Cons by (simp add: dispatch_reply take_Cons' Suc_diff_Suc)
  next
    case False
    then show ?thesis using Cons by (auto simp: dispatch_reply dispatch_other)
  qed
qed simp

lemma send_own_reply:
  assumes "ready c" "length (ecReplies c) < defaultReplyBuffer" "own_reply e f"
  shows "\<exists>c'. sendCommand e c l = (Inr (hd (ecReplies c @ [f])), c') \<and> ready c' \<and> ecReplies c' = tl (ecReplies c @ [f])"
proof -
  let ?c = "fold dispatch (snFrames e) (c\<lparr>ecWire := ecWire c @ [command_line l]\<rparr>)"
  have r: "ready ?c" using assms(1,3) by (simp add: fold_dispatch_ready own_reply_def) (simp add: ready_def Connected_def)
  have f: "ecReplies ?c = ecReplies c @ [f]" using assms(2,3) by (simp add: fold_dispatch_replies own_reply_def)
  obtain g gs where g: "ecReplies c @ [f] = g # gs" by (cases "ecReplies c @ [f]") auto
  show ?thesis using r f g assms(1,3) by (auto simp: sendCommand_def own_reply_def ready_def Connected_def)
qed

lemma send_all_replies:
  assumes "ready c" "length (ecReplies c) < defaultReplyBuffer" "list_all2 (\<lambda>cmd f. own_reply (fst cmd) f) cmds fs"
  shows "fst (send_all cmds c) = map Inr (take (length fs) (ecReplies c @ fs))"
  using assms(3,1,2)
proof (induction arbitrary: c rule: list_all2_induct)
  case (Cons cmd cmds f fs)
  obtain e l where cmd: "cmd = (e, l)" by force
  obtain c' where c': "sendCommand e c l = (Inr (hd (ecReplies c @ [f])), c')" "ready c'" "ecReplies c' = tl (ecReplies c @ [f])"
    using send_own_reply [of c e f l] Cons by (auto simp: cmd)
  moreover have "length (ecReplies c') < defaultReplyBuffer" using c'(3) Cons.prems(2) by simp
  ultimately have "fst (send_all cmds c') = map Inr (take (length fs) (tl (ecReplies c @ [f]) @ fs))" using Cons.IH by simp
  then show ?case using c' by (cases "ecReplies c") (simp_all add: cmd Let_def case_prod_beta)
qed simp

text \<open>
  C12: Replies are matched with commands by arrival alone. On a fresh connection every command gets
  its own reply; but after one command has timed out and its reply has arrived late, every later
  command on that connection is answered with the reply to the command before it.
\<close>

theorem late_reply_shifts_all_answers:
  assumes "ready c" "ecReplies c = []" "list_all2 (\<lambda>cmd f. own_reply (fst cmd) f) cmds fs"
    and "snWriteOk e" "snEnd e = WaitTimeout" "\<not> list_ex is_reply (snFrames e)" "\<not> list_ex is_notice (snFrames e)" "is_reply late"
  shows "fst (send_all cmds c) = map Inr fs \<and> fst (sendCommand e c l) = Inl ErrTimeout
    \<and> fst (send_all cmds (dispatch late (snd (sendCommand e c l)))) = map Inr (take (length fs) (late # fs))"
proof -
  let ?c = "fold dispatch (snFrames e) (c\<lparr>ecWire := ecWire c @ [command_line l]\<rparr>)"
  have none: "ecReplies ?c = []" using assms(2,6) by (simp add: fold_dispatch_replies list_ex_iff filter_empty_conv)
  have "ready ?c" using assms(1,7) by (simp add: fold_dispatch_ready) (simp add: ready_def Connected_def)
  moreover have out: "sendCommand e c l = (Inl ErrTimeout, ?c)"
    using assms(1,4,5) none by (simp add: sendCommand_def ready_def)
  ultimately have late: "ready (dispatch late ?c)" "ecReplies (dispatch late ?c) = [late]"
    using none assms(8) by (simp_all add: dispatch_reply ready_def Connected_def defaultReplyBuffer_def)
  have "fst (send_all cmds c) = map Inr (take (length fs) ([] @ fs))"
    using send_all_replies [OF assms(1) _ assms(3)] assms(2) by (simp add: defaultReplyBuffer_def)
  moreover have "fst (send_all cmds (dispatch late ?c)) = map Inr (take (length fs) ([late] @ fs))"
    using send_all_replies [OF late(1) _ assms(3)] unfolding late(2) by (simp only: defaultReplyBuffer_def) simp
  ultimately show ?thesis using out by simp
qed

section \<open>Examples\<close>

theorem frames_parse_back_witness:
  "parseFrame (render_frame [(''Content-Type'', ''api/response'')] ''+OK'' @ ''next'')
   = Inr (\<lparr>frHeaders = map_of (rev (map (\<lambda>(k, v). (ToLower k, v)) (all_headers [(''Content-Type'', ''api/response'')] ''+OK''))),
           frBody = Some ''+OK''\<rparr>, ''next'')"
proof -
  have "list_all header_ok [(''Content-Type'', ''api/response'')]"
    "''content-length'' \<notin> ToLower ` fst ` set [(''Content-Type'', ''api/response'')]"
    "int (length (render_frame [(''Content-Type'', ''api/response'')] ''+OK'')) \<le> MaxFrameBytes"
    by code_simp+
  from frames_parse_back [OF this, of "''next''"] show ?thesis by simp
qed

definition sample_request :: OriginateRequest where
  "sample_request = \<lparr>oqCallURL = ''sofia/gateway/t1/79001234567'', oqExtension = '''', oqCaller = ''74950000000'',
     oqCallerName = '''', oqVariables = [(''note'', ''a,{b}=c'')], oqTimeout = 0\<rparr>"

theorem variables_read_back_witness:
  "read_variables (buildVariables sample_request @ ''sofia/gateway/t1/79001234567'')
   = ([(''note'', ''a,b=c''), (''origination_caller_id_number'', ''74950000000'')], ''sofia/gateway/t1/79001234567'')"
proof -
  have "\<forall>kv\<in>set (request_vars sample_request). key_ok (fst kv) \<and> BS \<notin> set (snd kv)" "request_vars sample_request \<noteq> []"
    by code_simp+
  from variables_read_back [OF this, of "''sofia/gateway/t1/79001234567''"]
  have "read_variables (buildVariables sample_request @ ''sofia/gateway/t1/79001234567'')
        = (map (\<lambda>(k, v). (k, no_braces v)) (sort_key fst (request_vars sample_request)), ''sofia/gateway/t1/79001234567'')" .
  moreover have "map (\<lambda>(k, v). (k, no_braces v)) (sort_key fst (request_vars sample_request))
    = [(''note'', ''a,b=c''), (''origination_caller_id_number'', ''74950000000'')]"
    by code_simp
  ultimately show ?thesis by simp
qed

definition sample_client :: Client where
  "sample_client = \<lparr>ecConnected = True, ecClosed = False, ecDone = False, ecBroken = False, ecEvents = [], ecReplies = [], ecWire = []\<rparr>"

definition sample_reply :: "string \<Rightarrow> Frame" where
  "sample_reply s = \<lparr>frHeaders = [''content-type'' \<mapsto> ''command/reply'', ''reply-text'' \<mapsto> s], frBody = None\<rparr>"

lemma sample_reply_is_reply: "is_reply (sample_reply s)" "\<not> is_notice (sample_reply s)"
proof -
  have "ToLower ''Content-Type'' = ''content-type''" by code_simp
  then show "is_reply (sample_reply s)" "\<not> is_notice (sample_reply s)"
    by (simp_all add: is_reply_def is_notice_def ContentType_def Header_def sample_reply_def)
qed

definition answered :: "string \<Rightarrow> send_env" where
  "answered s = \<lparr>snWriteOk = True, snFrames = [sample_reply s], snEnd = WaitReply\<rparr>"

theorem late_reply_shifts_all_answers_witness:
  "fst (send_all [(answered ''+OK 2'', ''second''), (answered ''+OK 3'', ''third'')]
     (dispatch (sample_reply ''-ERR first'') (snd (sendCommand \<lparr>snWriteOk = True, snFrames = [], snEnd = WaitTimeout\<rparr> sample_client ''first''))))
   = [Inr (sample_reply ''-ERR first''), Inr (sample_reply ''+OK 2'')]"
  using late_reply_shifts_all_answers [of sample_client
      "[(answered ''+OK 2'', ''second''), (answered ''+OK 3'', ''third'')]" "[sample_reply ''+OK 2'', sample_reply ''+OK 3'']"
      "\<lparr>snWriteOk = True, snFrames = [], snEnd = WaitTimeout\<rparr>" "sample_reply ''-ERR first''" "''first''"]
  by (simp add: ready_def Connected_def sample_client_def answered_def own_reply_def sample_reply_is_reply)

end
