(* ===== verification/Telephony_Properties.thy ===== *)
theory Telephony_Properties
  imports Telephony_Bridge Esl_Properties "HOL-Library.Sublist"
begin

text \<open>
  Properties of the connection pool and of the bridge: the reconnect delay, what a connection that
  is handed out has been through, how often a command is issued, what an originated call looks like
  on the wire, and what channel events carry.
\<close>

section \<open>The reconnect delay\<close>

fun delays :: "rat list \<Rightarrow> Backoff \<Rightarrow> duration list" where
  "delays [] b = []"
| "delays (u # us) b = (case backoff_Next u b of (d, b') \<Rightarrow> d # delays us b')"

lemma backoff_loop_value:
  assumes "0 < d" "d < 2 ^ 62" "0 < cap" "cap \<le> 2 ^ 62"
  shows "min cap (backoff_loop cap n d) = min cap (d * 2 ^ n)"
  using assms(1,2)
proof (induction n arbitrary: d)
  case (Suc n)
  have w: "wrap64 (d * 2) = d * 2" using Suc.prems by (intro wrap64_id) (simp add: in_int64_def)
  have "d * 2 * 1 \<le> d * 2 * 2 ^ n" using Suc.prems(1) by (intro mult_left_mono) simp_all
  then have le: "d * 2 \<le> d * 2 ^ Suc n" by simp
  show ?case
  proof (cases "cap \<le> d * 2")
    case True
    then have "cap \<le> d * 2 ^ Suc n" using le by (rule order_trans)
    then show ?thesis using True by (simp add: w)
  next
    case False
    then show ?thesis using Suc.IH [of "d * 2"] Suc.prems(1) assms(4) by (simp add: w mult.assoc)
  qed
qed simp

lemma trunc_rat_abs: "\<bar>of_int (trunc_rat x)\<bar> \<le> \<bar>x\<bar>"
proof (cases "x < 0")
  case True
  then have "of_int \<lfloor>- x\<rfloor> \<le> - x" "0 \<le> \<lfloor>- x\<rfloor>" by simp_all
  then show ?thesis using True by (simp add: trunc_rat_def)
qed (simp add: trunc_rat_def)

lemma jitter_bound:
  assumes "0 \<le> d" "0 \<le> u" "u \<le> 1"
  shows "4 * \<bar>trunc_rat (of_int d * (1 / 4) * (u * 2 - 1))\<bar> \<le> d"
proof -
  let ?x = "of_int d * (1 / 4) * (u * 2 - 1) :: rat"
  have "\<bar>?x\<bar> = of_int d / 4 * \<bar>u * 2 - 1\<bar>" using assms(1) by (simp add: abs_mult)
  also have "\<dots> \<le> of_int d / 4 * 1" using assms by (intro mult_left_mono) (auto simp: abs_le_iff)
  finally have "4 * \<bar>of_int (trunc_rat ?x)\<bar> \<le> (of_int d :: rat)" using trunc_rat_abs [of ?x] by linarith
  then have "of_int (4 * \<bar>trunc_rat ?x\<bar>) \<le> (of_int d :: rat)" by simp
  then show ?thesis by (simp only: of_int_le_iff)
qed

definition within_quarter :: "int \<Rightarrow> int \<Rightarrow> bool" where
  "within_quarter d x \<longleftrightarrow> 4 * \<bar>d - x\<bar> \<le> x"

lemma Next_delay:
  assumes "0 < boBase b" "boBase b < 2 ^ 62" "0 < boCap b" "boCap b \<le> 2 ^ 62" "0 \<le> u" "u \<le> 1"
  defines "nominal \<equiv> min (boCap b) (boBase b * 2 ^ boAttempt b)"
  shows "\<exists>d. backoff_Next u b = (d, b\<lparr>boAttempt := boAttempt b + 1\<rparr>) \<and> within_quarter d nominal"
proof -
  let ?l = "backoff_loop (boCap b) (boAttempt b) (boBase b)"
  have n: "(if ?l > boCap b then boCap b else ?l) = nominal"
    using backoff_loop_value [OF assms(1-4), of "boAttempt b"] by (auto simp: nominal_def min_def split: if_splits)
  have "0 \<le> nominal" using assms(1,3) by (simp add: nominal_def)
  note j = jitter_bound [OF this assms(5,6)]
  have "backoff_Next u b = (nominal + trunc_rat (of_int nominal * (1 / 4) * (u * 2 - 1)), b\<lparr>boAttempt := boAttempt b + 1\<rparr>)"
    unfolding backoff_Next_def Let_def using assms(1,3) n by (auto split: if_splits)
  then show ?thesis using j by (simp add: within_quarter_def)
qed

text \<open>
  After a success, the k-th delay before a reconnect attempt (counted from zero) is within a
  quarter of the base delay doubled k times, or of the cap when that is less.
\<close>

theorem reconnect_delay_bounds:
  assumes "0 < boBase b" "boBase b < 2 ^ 62" "0 < boCap b" "boCap b \<le> 2 ^ 62"
    and "\<forall>u\<in>set us. 0 \<le> u \<and> u \<le> 1" "k < length us"
  shows "within_quarter (delays us (backoff_Reset b) ! k) (min (boCap b) (boBase b * 2 ^ k))"
proof -
  have "within_quarter (delays us (b\<lparr>boAttempt := n\<rparr>) ! k) (min (boCap b) (boBase b * 2 ^ (n + k)))" for n
    using assms(5,6)
  proof (induction us arbitrary: n k)
    case (Cons u us)
    have u: "0 \<le> u" "u \<le> 1" using Cons.prems(1) by simp_all
    obtain d where "backoff_Next u (b\<lparr>boAttempt := n\<rparr>) = (d, b\<lparr>boAttempt := n + 1\<rparr>)"
      "within_quarter d (min (boCap b) (boBase b * 2 ^ n))"
      using Next_delay [of "b\<lparr>boAttempt := n\<rparr>", OF _ _ _ _ u] assms(1-4) by auto
    then show ?case using Cons.IH [where n = "n + 1"] Cons.prems by (cases k) auto
  qed simp
  from this [of 0] show ?thesis by (simp add: backoff_Reset_def)
qed

section \<open>What a command leaves on the wire\<close>

lemma dispatch_wire [simp]: "ecWire (dispatch f c) = ecWire c"
  by (simp add: dispatch_def split: sum.splits)

lemma fold_dispatch_wire [simp]: "ecWire (fold dispatch fs c) = ecWire c"
  by (induction fs arbitrary: c) simp_all

lemma close_events_wire [simp]: "ecWire (close_events c) = ecWire c"
  by (simp add: close_events_def)

lemma sendCommand_wire:
  "prefix (ecWire c) (ecWire (snd (sendCommand e c l)))"
  "sendCommand e c l = (Inr f, c') \<Longrightarrow> ecWire c' = ecWire c @ [command_line l]"
  by (auto simp: sendCommand_def Let_def split: wait_end.splits list.splits if_splits)

text \<open>A command on a connection only adds to what has been written on it.\<close>

definition grows :: "(Client \<Rightarrow> 'r \<times> Client) \<Rightarrow> bool" where
  "grows f \<longleftrightarrow> (\<forall>c. prefix (ecWire c) (ecWire (snd (f c))))"

lemma growsI [intro?]: "(\<And>c. prefix (ecWire c) (ecWire (snd (f c)))) \<Longrightarrow> grows f"
  by (simp add: grows_def)

lemma grows_sendOK: "prefix (ecWire c) (ecWire (snd (sendOKCommand e c l)))"
  using sendCommand_wire(1) [of c e l] by (auto simp: sendOKCommand_def split: prod.splits sum.splits)

lemma snd_after_send:
  "snd (case sendCommand e c l of (Inl err, c') \<Rightarrow> (f err, c') | (Inr fr, c') \<Rightarrow> (g fr, c')) = snd (sendCommand e c l)"
  by (simp split: prod.split sum.split)

lemma grows_Originate: "prefix (ecWire c) (ecWire (snd (esl_Originate e c req)))"
  by (simp only: esl_Originate_def Let_def snd_after_send if_distrib [of snd] if_distrib [of ecWire] snd_conv)
    (simp add: sendCommand_wire(1))

lemma grows_commands:
  "prefix (ecWire c) (ecWire (snd (esl_Hangup e c u cause)))"
  "prefix (ecWire c) (ecWire (snd (esl_MixMonitorStart e c u path flags)))"
  "prefix (ecWire c) (ecWire (snd (esl_MixMonitorStop e c u path)))"
  by (simp_all add: esl_Hangup_def esl_MixMonitorStart_def esl_MixMonitorStop_def grows_sendOK)

lemma healthProbe_wire:
  "prefix (ecWire c) (ecWire (snd (healthProbe e c)))"
  "healthProbe e c = (Inr x, c') \<Longrightarrow> ecWire c' = ecWire c @ [command_line ''api sofia status'']"
proof -
  obtain r c2 where r: "sendCommand e c ''api sofia status'' = (r, c2)" by force
  note w = sendCommand_wire [where c = c and e = e and l = "''api sofia status''", unfolded r]
  show "prefix (ecWire c) (ecWire (snd (healthProbe e c)))"
    using w(1) by (cases r) (simp_all add: healthProbe_def SofiaStatus_def r)
  show "healthProbe e c = (Inr x, c') \<Longrightarrow> ecWire c' = ecWire c @ [command_line ''api sofia status'']"
    using w(2) by (cases r) (auto simp: healthProbe_def SofiaStatus_def r)
qed

lemma SubscribeEvents_wire:
  assumes "events \<noteq> []" "SubscribeEvents e c events = (Inr x, c')"
  shows "ecWire c' = ecWire c @ [command_line (''event plain '' @ join_with '' '' events)]"
proof -
  let ?l = "''event plain '' @ join_with '' '' events"
  obtain r c2 where r: "sendCommand e c ?l = (r, c2)" by force
  then show ?thesis
    using assms sendCommand_wire(2) [where c = c and e = e and l = ?l, unfolded r]
    by (cases r) (auto simp: SubscribeEvents_def Let_def)
qed

section \<open>The pool\<close>

text \<open>The commands that open a connection of the pool.\<close>

definition preamble :: "pool_config \<Rightarrow> string list" where
  "preamble cfg = [command_line (''auth '' @ pcPassword cfg), command_line (''event plain '' @ join_with '' '' (pcSubscriptions cfg)),
     command_line ''api sofia status'']"

definition node_ok :: "pool_config \<Rightarrow> nodeState \<Rightarrow> bool" where
  "node_ok cfg st \<longleftrightarrow>
     (case nsClient st of None \<Rightarrow> \<not> nsHealthy st | Some c \<Rightarrow> nsHealthy st \<and> nsLastErr st = None \<and> prefix (preamble cfg) (ecWire c))"

definition pool_inv :: "pool_config \<Rightarrow> ESLPool \<Rightarrow> bool" where
  "pool_inv cfg p \<longleftrightarrow> plCfg p = applyDefaults cfg \<and> distinct (map fst (plNodes p)) \<and> dom (map_of (plNodes p)) = set (pcNodes cfg)
     \<and> (\<forall>a st. map_of (plNodes p) a = Some st \<longrightarrow> node_ok (applyDefaults cfg) st)
     \<and> length (plEvents p) \<le> pcEventBuffer (applyDefaults cfg)"

lemma Dial_wire: "Dial sok wok addr pw s = Inr (c, rest) \<Longrightarrow> ecWire c = [command_line (''auth '' @ pw)]"
  by (auto simp: Dial_def bindE_Inr_iff split: if_splits)

lemma connect_ok:
  assumes "connectAndServe cfg e addr st = Inr st'" "pcSubscriptions cfg \<noteq> []"
  shows "node_ok cfg st'"
proof -
  obtain c0 rest where d: "Dial (cnSocketOk e) (cnAuthWriteOk e) addr (pcPassword cfg) (cnHandshake e) = Inr (c0, rest)"
    and k: "(case SubscribeEvents (cnSubscribe e) c0 (pcSubscriptions cfg) of (Inl err, _) \<Rightarrow> Inl err
      | (Inr _, cli) \<Rightarrow> (case healthProbe (cnProbe e) cli of (Inl err, _) \<Rightarrow> Inl err
        | (Inr _, cli) \<Rightarrow> Inr \<lparr>nsClient = Some cli, nsHealthy = True, nsLastErr = None, nsBackoff = backoff_Reset (nsBackoff st)\<rparr>)) = Inr st'"
    using assms(1) by (auto simp: connectAndServe_def bindE_Inr_iff)
  obtain r1 c1 r2 c2 where r: "SubscribeEvents (cnSubscribe e) c0 (pcSubscriptions cfg) = (r1, c1)" "healthProbe (cnProbe e) c1 = (r2, c2)"
    by (metis surj_pair)
  then have r12: "r1 = Inr ()" "r2 = Inr ()"
    and st': "st' = \<lparr>nsClient = Some c2, nsHealthy = True, nsLastErr = None, nsBackoff = backoff_Reset (nsBackoff st)\<rparr>"
    using k by (cases r1; cases r2; simp)+
  note s = r(1) [unfolded r12] and h = r(2) [unfolded r12]
  show ?thesis
    using Dial_wire [OF d] SubscribeEvents_wire [OF assms(2) s] healthProbe_wire(2) [OF h]
    by (simp add: node_ok_def st' preamble_def)
qed

lemma node_down_ok: "node_ok cfg (node_down u err st)"
  by (simp add: node_ok_def node_down_def)

lemma applyDefaults_subs: "pcSubscriptions (applyDefaults cfg) \<noteq> []"
  by (simp add: applyDefaults_def DefaultSubscriptions_def)

lemma set_node_inv:
  assumes "pool_inv cfg p" "map_of (plNodes p) a = Some st0" "node_ok (applyDefaults cfg) st"
  shows "pool_inv cfg (set_node a st p)"
  using assms insert_absorb [of a "dom (map_of (plNodes p))"]
  by (auto simp: domI pool_inv_def set_node_def AList.update_conv' AList.distinct_update split: if_splits)

lemma set_client_inv:
  assumes "pool_inv cfg p" "map_of (plNodes p) a = Some st" "nsClient st = Some c" "prefix (ecWire c) (ecWire c')"
  shows "pool_inv cfg (set_client a st c' p)"
proof -
  have "node_ok (applyDefaults cfg) st" using assms(1,2) by (simp add: pool_inv_def)
  then have "node_ok (applyDefaults cfg) (st\<lparr>nsClient := Some c'\<rparr>)"
    using assms(3,4) by (auto simp: node_ok_def intro: prefix_order.trans)
  then show ?thesis unfolding set_client_def by (rule set_node_inv [OF assms(1,2)])
qed

lemma publishEvent_inv: "pool_inv cfg p \<Longrightarrow> pool_inv cfg (publishEvent parse now addr ev p)"
  by (simp add: pool_inv_def publishEvent_def)

lemma with_client_inv:
  assumes "pool_inv cfg p" "grows f"
  shows "pool_inv cfg (snd (with_client a f p))"
proof (cases "pool_Get p a")
  case (Inr c)
  then obtain st where st: "map_of (plNodes p) a = Some st" "nsClient st = Some c"
    by (auto simp: pool_Get_def split: option.splits if_splits)
  have "prefix (ecWire c) (ecWire (snd (f c)))" using assms(2) by (simp add: grows_def)
  then show ?thesis
    using set_client_inv [OF assms(1) st] Inr st(1) by (simp add: with_client_def case_prod_beta)
qed (simp add: with_client_def assms(1))

lemma pool_step_inv:
  assumes "pool_inv cfg p"
  shows "pool_inv cfg (pool_step parse addr act p)"
proof (cases "plCancelled p \<or> map_of (plNodes p) addr = None")
  case False
  then obtain st where st: "map_of (plNodes p) addr = Some st" by auto
  note down = set_node_inv [OF assms st node_down_ok]
  have "node_ok (applyDefaults cfg) (runNode (applyDefaults cfg) e u addr st)" for e u
    using connect_ok [OF _ applyDefaults_subs] node_down_ok by (auto simp: runNode_def split: sum.splits)
  note connect = set_node_inv [OF assms st this]
  have "pool_inv cfg (node_step parse act addr st p)"
  proof (cases "nsClient st")
    case None
    then show ?thesis using connect assms by (cases act) (simp_all add: node_step_def pool_inv_def)
  next
    case (Some c)
    note client = set_client_inv [OF assms st Some]
    show ?thesis
    proof (cases act)
      case (Tick e u)
      obtain r c' where r: "healthProbe e c = (r, c')" by force
      then have "prefix (ecWire c) (ecWire c')" using healthProbe_wire(1) [of c e] by simp
      then show ?thesis using Tick Some r by (cases r) (simp_all add: node_step_def down client)
    next
      case (Forward now u)
      then show ?thesis using Some assms by (cases "ecEvents c") (simp_all add: node_step_def down client publishEvent_inv)
    qed (use Some assms in \<open>simp_all add: node_step_def client\<close>)
  qed
  then show ?thesis using False st by (simp add: pool_step_def)
qed (use assms in \<open>auto simp: pool_step_def\<close>)

lemma pool_New_inv: "pool_New cfg = Some p \<Longrightarrow> pool_inv cfg p"
proof -
  assume new: "pool_New cfg = Some p"
  let ?st = "\<lparr>nsClient = None, nsHealthy = False, nsLastErr = None,
    nsBackoff = \<lparr>boBase = pcBackoffBase (applyDefaults cfg), boCap = pcBackoffCap (applyDefaults cfg), boAttempt = 0\<rparr>\<rparr>"
  have nodes: "distinct (map fst (fold (\<lambda>a. AList.update a ?st) as kvs))
      \<and> map_of (fold (\<lambda>a. AList.update a ?st) as kvs) = (\<lambda>a. if a \<in> set as then Some ?st else map_of kvs a)"
    if "distinct (map fst kvs)" for as kvs
    using that by (induction as arbitrary: kvs) (auto simp: AList.update_conv' AList.distinct_update)
  have "pcNodes (applyDefaults cfg) = pcNodes cfg" by (simp add: applyDefaults_def)
  then show ?thesis using new nodes [of "[]" "pcNodes cfg"]
    by (auto simp: pool_New_def pool_inv_def node_ok_def Let_def dom_def split: if_splits)
qed

lemma map_of_map_snd: "map_of (map (\<lambda>(a, x). (a, f x)) kvs) a = map_option f (map_of kvs a)"
  by (induction kvs) auto

lemma dom_map_snd: "dom (map_of (map (\<lambda>(a, x). (a, f x)) kvs)) = dom (map_of kvs)"
  unfolding dom_def map_of_map_snd by simp

lemma pool_Close_inv: "pool_inv cfg p \<Longrightarrow> pool_inv cfg (pool_Close p)"
  by (auto simp: pool_inv_def pool_Close_def node_ok_def dom_map_snd map_of_map_snd o_def case_prod_beta)

lemma cmd_dispatch_inv: "pool_inv cfg p \<Longrightarrow> pool_inv cfg (snd (cmd_dispatch C e v p))"
proof -
  assume p: "pool_inv cfg p"
  have o: "grows (\<lambda>c. case esl_Originate e c req of (r, c') \<Rightarrow> (map_sum id (\<lambda>_. ()) r, c'))" for req
    by rule (use grows_Originate in \<open>simp add: case_prod_beta\<close>)
  have g: "grows (\<lambda>c. esl_Hangup e c u cause)" "grows (\<lambda>c. esl_MixMonitorStart e c u path flags)" "grows (\<lambda>c. esl_MixMonitorStop e c u path)"
    for u cause path flags by (simp_all add: grows_def grows_commands)
  show ?thesis
    by (simp add: cmd_dispatch_def adapter_Originate_def adapter_Hangup_def adapter_MixMonitorStart_def adapter_MixMonitorStop_def
        p with_client_inv o g split: option.split)
qed

lemma brPool_handle:
  "brPool (snd (handle_command C g e payload b)) = brPool b
   \<or> (\<exists>v. brPool (snd (handle_command C g e payload b)) = snd (cmd_dispatch C (cmSend e) v (brPool b)))"
  unfolding handle_command_def by (auto split: option.split prod.split sum.split) (metis snd_conv)+

lemma publisher_loop_inv: "pool_inv cfg (brPool b) \<Longrightarrow> pool_inv cfg (brPool (publisher_loop C net b))"
  by (auto simp: publisher_loop_def pool_inv_def split: list.split)

lemma bridge_do_inv: "pool_inv cfg (brPool b) \<Longrightarrow> pool_inv cfg (brPool (bridge_do C g act b))"
proof (cases act)
  case (Deliver e payload)
  assume "pool_inv cfg (brPool b)"
  then show ?thesis using brPool_handle [of C g e payload b] cmd_dispatch_inv by (auto simp: bridge_do_def Deliver)
qed (simp_all add: bridge_do_def pool_step_inv pool_Close_inv publisher_loop_inv)

lemma bridge_run_inv: "pool_inv cfg (brPool b) \<Longrightarrow> pool_inv cfg (brPool (bridge_run C g acts b))"
  unfolding bridge_run_def by (induction acts arbitrary: b) (simp_all add: bridge_do_inv)

lemma Get_iff_healthy:
  assumes "pool_inv cfg p"
  shows "addr \<in> set (HealthyNodes p) \<longleftrightarrow> (\<exists>c. pool_Get p addr = Inr c)"
proof -
  have d: "distinct (map fst (plNodes p))" using assms by (simp add: pool_inv_def)
  have "addr \<in> set (HealthyNodes p) \<longleftrightarrow> (\<exists>st. map_of (plNodes p) addr = Some st \<and> nsHealthy st)"
    using map_of_eq_Some_iff [OF d] by (force simp: HealthyNodes_def)
  also have "\<dots> \<longleftrightarrow> (\<exists>c. pool_Get p addr = Inr c)"
  proof (cases "map_of (plNodes p) addr")
    case (Some st)
    then have "node_ok (applyDefaults cfg) st" using assms by (simp add: pool_inv_def)
    then show ?thesis using Some by (cases "nsClient st") (simp_all add: pool_Get_def node_ok_def)
  qed (simp add: pool_Get_def)
  finally show ?thesis .
qed

lemma Get_preamble: "pool_inv cfg p \<Longrightarrow> pool_Get p addr = Inr c \<Longrightarrow> prefix (preamble (applyDefaults cfg)) (ecWire c)"
  by (auto simp: pool_Get_def pool_inv_def node_ok_def split: option.splits if_splits)

lemma HealthyNodes_list:
  assumes "pool_inv cfg p"
  shows "sorted_wrt (<) (HealthyNodes p) \<and> set (HealthyNodes p) \<subseteq> set (pcNodes cfg) \<and> (AnyHealthy p \<longleftrightarrow> HealthyNodes p \<noteq> [])"
proof -
  have "distinct (map fst (plNodes p))" "dom (map_of (plNodes p)) = set (pcNodes cfg)" using assms by (simp_all add: pool_inv_def)
  then have "distinct (HealthyNodes p)" "set (HealthyNodes p) \<subseteq> set (pcNodes cfg)"
    by (auto simp: HealthyNodes_def distinct_map_filter dom_map_of_conv_image_fst)
  moreover have "AnyHealthy p \<longleftrightarrow> set (HealthyNodes p) \<noteq> {}"
    by (auto simp: AnyHealthy_def HealthyNodes_def list_ex_iff filter_empty_conv)
  moreover have "sorted (HealthyNodes p)" by (simp add: HealthyNodes_def)
  ultimately show ?thesis by (simp add: strict_sorted_iff)
qed


section \<open>Commands\<close>

lemma MarkSeen_other: "idempotencyKey i \<noteq> k \<Longrightarrow> snd (MarkSeen g net now i db) k = db k"
  by (simp add: MarkSeen_def Let_def cmd_SET_def split: call_outcome.split)

lemma MarkSeen_marked:
  assumes "db (idempotencyKey i) = Some (x, Some until)" "now < until"
  shows "MarkSeen g net now i db = (if net = CallOk then Inr False else Inl (), db)"
  using assms by (simp add: MarkSeen_def live_def live_entry_def split: call_outcome.split)

lemma MarkSeen_fresh:
  assumes "live db now (idempotencyKey i) = None" "net \<noteq> CallLost" "0 < igTTL g"
  shows "snd (MarkSeen g net now i db) (idempotencyKey i) = Some (RString ''1'', Some (now + whole millisecond (igTTL g)))"
  using assms by (cases net) (simp_all add: MarkSeen_def Let_def cmd_SET_def)

lemma handle_redis: "brRedis (snd (handle_command C g e (Some v) b)) = snd (MarkSeen g (cmNet e) (cmNow e) (cvCommandID v) (brRedis b))"
  by (simp add: handle_command_def split: prod.split sum.split)

lemma handle_marked:
  assumes "brRedis b (idempotencyKey (cvCommandID v)) = Some (x, Some until)" "cmNow e < until"
  shows "handle_command C g e (Some v) b = (if cmNet e = CallOk then Ack else Nak, b)"
  using MarkSeen_marked [where db = "brRedis b", OF assms] by (simp add: handle_command_def)

lemma bridge_do_redis: "(\<And>e v. act \<noteq> Deliver e (Some v)) \<Longrightarrow> brRedis (bridge_do C g act b) = brRedis b"
  by (cases act) (auto simp: bridge_do_def publisher_loop_def handle_command_def split: list.split option.split)

lemma mark_survives:
  assumes "\<forall>e p. Deliver e p \<in> set acts \<longrightarrow> cmNow e < until" "brRedis b k = Some (x, Some until)"
  shows "brRedis (bridge_run C g acts b) k = Some (x, Some until)"
  using assms
proof (induction acts arbitrary: b)
  case (Cons act acts)
  have "brRedis (bridge_do C g act b) k = Some (x, Some until)"
  proof (cases "\<exists>e v. act = Deliver e (Some v)")
    case True
    then obtain e v where act: "act = Deliver e (Some v)" by blast
    have "cmNow e < until" using Cons.prems(1) act by simp
    then show ?thesis
      using Cons.prems(2) by (cases "idempotencyKey (cvCommandID v) = k")
        (auto simp: bridge_do_def act handle_redis MarkSeen_marked MarkSeen_other)
  next
    case False
    then show ?thesis using bridge_do_redis [of act C g b] Cons.prems(2) by metis
  qed
  moreover have "\<forall>e p. Deliver e p \<in> set acts \<longrightarrow> cmNow e < until" using Cons.prems(1) by simp
  ultimately show ?case using Cons.IH by (simp add: bridge_run_def)
qed (simp add: bridge_run_def)

text \<open>
  C8: Once a delivery of a command has reached Redis, no other delivery of that command within the
  retention of its mark touches a connection, whatever happens in between: it is acknowledged, or
  redelivered if Redis fails. So a command is issued at most once, and a command whose first
  delivery failed after the mark, such as one for a node that was away, is never issued.
\<close>

theorem redelivered_command_is_skipped:
  assumes "g = NewIdempotencyGuard ttl" "live (brRedis b) (cmNow e1) (idempotencyKey (cvCommandID v1)) = None" "cmNet e1 \<noteq> CallLost"
    and "b2 = bridge_run C g (Deliver e1 (Some v1) # acts) b"
    and "until = cmNow e1 + whole millisecond (igTTL g)" "\<forall>e p. Deliver e p \<in> set acts \<longrightarrow> cmNow e < until"
    and "cvCommandID v2 = cvCommandID v1" "cmNow e2 < until"
  shows "handle_command C g e2 (Some v2) b2 = (if cmNet e2 = CallOk then Ack else Nak, b2)"
proof -
  have "0 < igTTL g" by (simp add: assms(1) NewIdempotencyGuard_def)
  from MarkSeen_fresh [OF assms(2,3) this]
  have "brRedis (bridge_do C g (Deliver e1 (Some v1)) b) (idempotencyKey (cvCommandID v1)) = Some (RString ''1'', Some until)"
    by (simp add: bridge_do_def handle_redis assms(5))
  from mark_survives [OF assms(6) this] have "brRedis b2 (idempotencyKey (cvCommandID v2)) = Some (RString ''1'', Some until)"
    by (simp add: assms(4,7) bridge_run_def)
  then show ?thesis by (rule handle_marked) (rule assms(8))
qed

section \<open>A dialed call on the wire\<close>

text \<open>The text of a UUID holds no character that is special among channel variables.\<close>

definition plain :: "string \<Rightarrow> bool" where
  "plain s \<longleftrightarrow> BS \<notin> set s \<and> CHR ''{'' \<notin> set s \<and> CHR ''}'' \<notin> set s"

lemma no_braces_plain: "plain s \<Longrightarrow> no_braces s = s"
  by (auto simp: no_braces_def plain_def filter_id_conv)

definition dialed_vars :: "codec \<Rightarrow> uuid \<Rightarrow> DialRequest \<Rightarrow> (string \<times> string) list" where
  "dialed_vars C new req =
     (if drOperatorExt req = '''' then [] else [(''operator_ext'', no_braces (drOperatorExt req))])
     @ [(''originate_timeout'', ''30''), (''sociopulse_call_id'', uuid_String C (drCallID req)),
        (''sociopulse_command'', uuid_String C new), (''sociopulse_tenant_id'', uuid_String C (drTenantID req))]"

lemma command_line_wire:
  assumes "pool_Get p node = Inr c" "Connected c" "\<not> ecBroken c" "snWriteOk e"
    and "\<And>c. f c = (case sendCommand e c l of (Inl err, c') \<Rightarrow> (Inl err, c') | (Inr fr, c') \<Rightarrow> (h fr, c'))"
  shows "\<exists>st c'. map_of (plNodes (snd (with_client node f p))) node = Some st \<and> nsClient st = Some c' \<and> ecWire c' = ecWire c @ [command_line l]"
proof -
  obtain st where st: "map_of (plNodes p) node = Some st" using assms(1) by (auto simp: pool_Get_def split: option.splits)
  have w: "ecWire (snd (sendCommand e c l)) = ecWire c @ [command_line l]"
    using assms(2-4) by (simp add: sendCommand_def Let_def split: wait_end.split list.split)
  have "snd (f c) = snd (sendCommand e c l)" by (simp add: assms(5) split: prod.split sum.split)
  then show ?thesis using w assms(1) st
    by (simp add: with_client_def case_prod_beta set_client_def set_node_def AList.update_conv')
qed

lemma dialed_request_vars:
  fixes C new req
  defines "r \<equiv> (buildOriginateRequest C (translateOriginate new req))\<lparr>oqExtension := ''&park()'', oqTimeout := 30 * second\<rparr>"
  shows "request_vars r = [(''sociopulse_call_id'', uuid_String C (drCallID req)), (''sociopulse_tenant_id'', uuid_String C (drTenantID req)),
      (''sociopulse_command'', uuid_String C new)]
      @ (if drOperatorExt req = '''' then [] else [(''operator_ext'', drOperatorExt req)]) @ [(''originate_timeout'', ''30'')]"
proof -
  have "FormatInt (round_seconds (30 * second)) = ''30''" by code_simp
  then show ?thesis
    by (simp add: r_def request_vars_def buildOriginateRequest_def translateOriginate_def put_var_def)
qed

lemma dialed_sorted:
  "map (\<lambda>(k, v). (k, no_braces v)) (sort_key fst
     ([(''sociopulse_call_id'', a), (''sociopulse_tenant_id'', b), (''sociopulse_command'', c)]
      @ (if x = '''' then [] else [(''operator_ext'', x)]) @ [(''originate_timeout'', ''30'')]))
   = (if x = '''' then [] else [(''operator_ext'', no_braces x)])
     @ [(''originate_timeout'', ''30''), (''sociopulse_call_id'', no_braces a), (''sociopulse_command'', no_braces c), (''sociopulse_tenant_id'', no_braces b)]"
  by (simp add: no_braces_def less_eq_char_def)


section \<open>What the events carry\<close>

definition no_tenant :: "bridge \<Rightarrow> bool" where
  "no_tenant b \<longleftrightarrow> (\<forall>n\<in>set (plEvents (brPool b)). evTenantID (enEvent n) = uuid_Nil) \<and> (\<forall>m\<in>set (brBus b). evTenantID (snd m) = uuid_Nil)"

lemma MapEvent_tenant: "MapEvent parse now ev = Some m \<Longrightarrow> evTenantID m = uuid_Nil"
  by (auto simp: MapEvent_def Let_def split: option.splits)

lemma publishEvent_tenants:
  "\<forall>n\<in>set (plEvents p). evTenantID (enEvent n) = uuid_Nil \<Longrightarrow> n \<in> set (plEvents (publishEvent parse now addr ev p)) \<Longrightarrow> evTenantID (enEvent n) = uuid_Nil"
  using MapEvent_tenant by (auto simp: publishEvent_def zero_event_def split: option.splits if_splits)

lemma set_node_events [simp]: "plEvents (set_node a st p) = plEvents p" "plEvents (set_client a st c p) = plEvents p"
  by (simp_all add: set_node_def set_client_def)

lemma with_client_events [simp]: "plEvents (snd (with_client a f p)) = plEvents p"
  by (simp add: with_client_def case_prod_beta split: sum.split option.split)

lemma pool_step_tenants:
  assumes "\<forall>n\<in>set (plEvents p). evTenantID (enEvent n) = uuid_Nil" "n \<in> set (plEvents (pool_step parse addr act p))"
  shows "evTenantID (enEvent n) = uuid_Nil"
  using assms publishEvent_tenants [of "set_client a st c p" for a st c]
  by (auto simp: pool_step_def node_step_def split: if_splits option.splits pool_action.splits list.splits prod.splits sum.splits)

lemma cmd_dispatch_events [simp]: "plEvents (snd (cmd_dispatch C e v p)) = plEvents p"
  by (simp add: cmd_dispatch_def adapter_Originate_def adapter_Hangup_def adapter_MixMonitorStart_def adapter_MixMonitorStop_def split: option.split)

lemma handle_events: "plEvents (brPool (snd (handle_command C g e payload b))) = plEvents (brPool b)"
  using brPool_handle [of C g e payload b] by auto

lemma handle_bus: "brBus (snd (handle_command C g e payload b)) = brBus b"
  unfolding handle_command_def by (auto split: option.split prod.split sum.split)

lemma bridge_do_no_tenant:
  assumes "no_tenant b"
  shows "no_tenant (bridge_do C g act b)"
proof (cases act)
  case (AtNode addr a)
  then show ?thesis using assms pool_step_tenants by (auto simp: no_tenant_def bridge_do_def)
qed (use assms in \<open>auto simp: no_tenant_def bridge_do_def handle_events handle_bus pool_Close_def publisher_loop_def publishOne_def Let_def split: list.splits if_splits\<close>)

lemma bridge_run_no_tenant: "no_tenant b \<Longrightarrow> no_tenant (bridge_run C g acts b)"
  unfolding bridge_run_def by (induction acts arbitrary: b) (simp_all add: bridge_do_no_tenant)

lemma pool_New_events: "pool_New cfg = Some p \<Longrightarrow> plEvents p = []"
  by (auto simp: pool_New_def Let_def split: if_splits)

section \<open>Examples\<close>

theorem reconnect_delay_bounds_witness:
  "within_quarter (delays [0, 1 / 2, 1] (backoff_Reset \<lparr>boBase = 500 * millisecond, boCap = 30 * second, boAttempt = 7\<rparr>) ! 2)
     (min (30 * second) (500 * millisecond * 2 ^ 2))"
  using reconnect_delay_bounds [of "\<lparr>boBase = 500 * millisecond, boCap = 30 * second, boAttempt = 7\<rparr>" "[0, 1 / 2, 1]" 2] by simp

definition sample_cfg :: pool_config where
  "sample_cfg = \<lparr>pcNodes = [''fs1''], pcPassword = ''pw'', pcBackoffBase = 0, pcBackoffCap = 0, pcSubscriptions = [], pcEventBuffer = 0\<rparr>"

definition sample_status :: Frame where
  "sample_status = \<lparr>frHeaders = [''content-type'' \<mapsto> ''api/response''], frBody = Some ''Profile''\<rparr>"

definition sample_connect :: connect_env where
  "sample_connect = \<lparr>cnSocketOk = True, cnAuthWriteOk = True,
     cnHandshake = ''Content-Type: auth/request'' @ [LF, LF] @ ''Content-Type: command/reply'' @ [LF] @ ''Reply-Text: +OK'' @ [LF, LF],
     cnSubscribe = answered ''+OK'', cnProbe = \<lparr>snWriteOk = True, snFrames = [sample_status], snEnd = WaitReply\<rparr>\<rparr>"

definition sample_bridge :: bridge where
  "sample_bridge = \<lparr>brRedis = Map.empty, brPool = the (pool_New sample_cfg), brBus = []\<rparr>"

lemma sample_pool: "pool_New sample_cfg = Some (brPool sample_bridge)"
  by (simp add: sample_bridge_def pool_New_def sample_cfg_def Let_def)

definition sample_guard :: IdempotencyGuard where
  "sample_guard = NewIdempotencyGuard 0"

lemma sample_connected: "HealthyNodes (brPool (bridge_run canonical_codec sample_guard [AtNode ''fs1'' (Connect sample_connect 0)] sample_bridge)) = [''fs1'']"
  by code_simp


definition sample_command :: "string \<Rightarrow> commandEnvelope" where
  "sample_command node = \<lparr>cvCommandID = ''k1'', cvKind = ''hangup'', cvTenantID = '''', cvCallID = ''u1'', cvNode = node,
     cvArgs = \<lparr>caOriginate = None, caCause = Some '''', caPath = None\<rparr>\<rparr>"

definition at_time :: "time \<Rightarrow> command_env" where
  "at_time t = \<lparr>cmNow = t, cmNet = CallOk, cmSend = answered ''+OK''\<rparr>"

text \<open>The node connects only after the first delivery of a hangup; the second delivery finds it ready.\<close>

theorem redelivered_command_is_skipped_witness:
  "fst (handle_command canonical_codec sample_guard (at_time 0) (Some (sample_command ''fs1'')) sample_bridge) = Nak
   \<and> handle_command canonical_codec sample_guard (at_time second) (Some (sample_command ''fs1''))
       (bridge_run canonical_codec sample_guard [Deliver (at_time 0) (Some (sample_command ''fs1'')), AtNode ''fs1'' (Connect sample_connect 0)] sample_bridge)
     = (Ack, bridge_run canonical_codec sample_guard [Deliver (at_time 0) (Some (sample_command ''fs1'')), AtNode ''fs1'' (Connect sample_connect 0)] sample_bridge)"
proof
  show "fst (handle_command canonical_codec sample_guard (at_time 0) (Some (sample_command ''fs1'')) sample_bridge) = Nak" by code_simp
  have "whole millisecond (igTTL sample_guard) = 24 * hour" by code_simp
  then show "handle_command canonical_codec sample_guard (at_time second) (Some (sample_command ''fs1''))
       (bridge_run canonical_codec sample_guard [Deliver (at_time 0) (Some (sample_command ''fs1'')), AtNode ''fs1'' (Connect sample_connect 0)] sample_bridge)
     = (Ack, bridge_run canonical_codec sample_guard [Deliver (at_time 0) (Some (sample_command ''fs1'')), AtNode ''fs1'' (Connect sample_connect 0)] sample_bridge)"
    using redelivered_command_is_skipped [of sample_guard 0 sample_bridge "at_time 0" "sample_command ''fs1''" _ canonical_codec
        "[AtNode ''fs1'' (Connect sample_connect 0)]" _ "sample_command ''fs1''" "at_time second", OF sample_guard_def _ _ refl refl]
    by (simp add: at_time_def sample_command_def sample_bridge_def live_def live_entry_def)
qed

lemma plain_uuid_text: "plain (uuid_text u)"
proof -
  have "list_all is_hex (map hex_char (pad16 32 (unat u)))" by (rule hex_digits)
  then have h: "c = CHR ''-'' \<or> is_hex c" if "c \<in> set (uuid_text u)" for c
    using that set_hyphenated [of "map hex_char (pad16 32 (unat u))"] unfolding uuid_text_def list_all_iff by blast
  show ?thesis using h [of BS] h [of "CHR ''{''"] h [of "CHR ''}''"] by (auto simp: plain_def is_hex_def)
qed

definition sample_dial :: DialRequest where
  "sample_dial = \<lparr>drCallID = 7, drTenantID = 1, drOperatorID = 2, drRespondentID = 6, drProjectID = 5, drOperatorExt = ''op,1'', drPhone = ''79001234567'', drFsNode = ''fs1''\<rparr>"

definition sample_dialled :: ESLPool where
  "sample_dialled = \<lparr>plCfg = sample_cfg, plNodes = [(''fs1'', \<lparr>nsClient = Some sample_client, nsHealthy = True, nsLastErr = None,
     nsBackoff = \<lparr>boBase = 1, boCap = 1, boAttempt = 0\<rparr>\<rparr>)], plEvents = [], plCancelled = False\<rparr>"


text \<open>An answered call: its event arrives on the socket, is forwarded and published.\<close>

definition sample_answer :: Frame where
  "sample_answer = \<lparr>frHeaders = [''content-type'' \<mapsto> ''text/event-plain''],
     frBody = Some (''Event-Name: CHANNEL_ANSWER'' @ [LF] @ ''Unique-ID: 00000000-0000-0000-0000-000000000007'' @ [LF])\<rparr>"

definition sample_acts :: "bridge_action list" where
  "sample_acts = [AtNode ''fs1'' (Connect sample_connect 0), AtNode ''fs1'' (FrameArrives sample_answer), AtNode ''fs1'' (Forward 0 0), PublishNext CallOk]"

lemma sample_published:
  "map (\<lambda>m. (fst m, evType (snd m), evCallID (snd m))) (brBus (bridge_run canonical_codec sample_guard sample_acts sample_bridge))
   = [(''tenant.00000000-0000-0000-0000-000000000000.telephony.event.00000000-0000-0000-0000-000000000007.answer'', TelAnswer, 7)]"
  by code_simp

end
