(* ===== verification/Spec2Isabelle.thy ===== *)
theory Spec2Isabelle
  imports Fsm_Properties Retry Line_Capacity Survey_Versions Auth_Factors Rdd_Properties Charging Telephony_Properties
begin

text \<open>
  Verification of the core of the SocioPulse telephone survey platform, a modular monolith in Go.

  \<^bold>\<open>The program.\<close> Operators work shifts; the dialer keeps the state of each operator, takes respondents
  from a queue, dials them through FreeSWITCH and records how calls end. A call that ends writes an
  audit row and an outbox event in one transaction; the outbox relay publishes the event and billing
  charges the call. During the call the survey runtime walks the operator through a questionnaire
  that was validated when it was saved. Retries, random-digit dialling, working hours and line
  capacity feed and bound the dialling; the authentication module guards all of it. Components share
  Redis keys and Postgres tables and talk over a bus that delivers at least once.

  \<^bold>\<open>Theories and sources\<close> (paths under \<open>src/\<close>; names of definitions are those of the code, with a prefix
  where several types have a method of one name):

  \<^item> \<open>Prelude\<close>: types, errors in sequence, decimal integers, \<open>int64\<close> wrap-around, string functions.
  \<^item> Operator state machine. \<open>Dialer_Api\<close> (\<open>internal/dialer/api\<close>), \<open>Fsm_Transitions\<close>, \<open>Fsm_Store\<close>,
    \<open>Fsm_Audit\<close>, \<open>Fsm_Machine\<close>, \<open>Fsm_Heartbeat\<close> (\<open>internal/dialer/fsm\<close>) and \<open>Call_Events\<close>
    (\<open>internal/dialer/transport/nats\<close>). State: one hash per operator with a version, the session and log
    tables, the outbox. A method takes the world it loads from and the world it commits to. \<open>Fsm_Spec\<close>
    is the abstract machine, \<open>Fsm_Runs\<close> the reachable worlds under concurrent replicas,
    \<open>Fsm_Properties\<close> the theorems: every method refines the abstract machine, the snapshot invariant,
    commits linearise, committed calls are audited, the watchdog forces exactly the lost operators.
  \<^item> Telephony. \<open>Esl_Protocol\<close> (\<open>internal/telephony/esl\<close>), \<open>Telephony_Pool\<close> (\<open>internal/telephony/pool\<close>,
    \<open>esl/reconnect.go\<close>), \<open>Telephony_Bridge\<close> (\<open>internal/telephony/nats_bridge\<close>, \<open>internal/dialer/router\<close>).
    State: per connection its buffered events and replies and what was written on it; per node its
    supervisor's state; the marks of commands in Redis; the messages on the bus. A run is a list of
    actions of supervisors, read loops, deliveries and the publisher. \<open>Esl_Properties\<close> and
    \<open>Telephony_Properties\<close>: frames and channel variables are read back, what a late reply does, which
    connections the pool hands out, that a command is issued at most once, how a dialed call looks on
    the wire, how long a reconnect waits.
  \<^item> Queue and capacity. \<open>Call_Queue\<close> (\<open>internal/dialer/queue\<close> with its Lua scripts), \<open>Retry\<close>
    (\<open>internal/dialer/retry\<close>), \<open>Line_Capacity\<close> (\<open>internal/telephony/router\<close>, \<open>internal/dialer/capacity\<close>): each
    respondent is queued once and picked in score order, mature retries are scheduled or exhausted,
    one leader sweeps, channel counters stay within the cap.
  \<^item> Calendar and generator. \<open>Working_Hours\<close> (\<open>internal/dialer/hours\<close>, \<open>pkg/regions\<close>), \<open>Rdd_Generator\<close> and
    \<open>Rdd_Properties\<close> (\<open>internal/dialer/rdd\<close>): the next allowed instant is the earliest, the rate of
    generated numbers is bounded, no number is generated twice by one process.
  \<^item> Surveys. \<open>Survey_Graph\<close> (\<open>internal/surveys/schemavalidator\<close>), \<open>Lru_Cache\<close> and \<open>Survey_Runtime\<close>
    (\<open>internal/surveys/runtime\<close>, \<open>dsl\<close>), \<open>Survey_Service\<close> (\<open>internal/surveys/service\<close>, \<open>store\<close>). \<open>Survey_Graph_Laws\<close>
    and \<open>Survey_Validity\<close>: the algorithms terminate and compute reachability and dominators, and the
    pass accepts exactly the valid surveys. \<open>Survey_Runs\<close>: interviews, cache and answers.
    \<open>Survey_Versions\<close>: the invariant of surveys and versions under interleaved calls.
  \<^item> Authentication (\<open>internal/auth\<close>). \<open>Auth_Stores\<close>, \<open>Auth_Tokens\<close>, \<open>Auth_Users\<close>, \<open>Auth_Totp\<close>, \<open>Authenticator\<close>.
    \<open>Auth_Laws\<close> and \<open>Auth_Frames\<close> say which keys an operation touches, \<open>Auth_Runs\<close> defines histories of
    the module; \<open>Auth_Properties\<close>, \<open>Auth_Guesses\<close>, \<open>Auth_Lockout\<close> and \<open>Auth_Factors\<close> show what holds in every
    history: refresh tokens are redeemed once, ended sessions stay refused, guesses are bounded, the
    lockout engages at its threshold, backup codes are spent once.
  \<^item> Outbox and billing. \<open>Outbox_Relay\<close> (\<open>pkg/outbox\<close>): a drain delivers everything in order, nothing is
    lost or invented, an outage parks every event. \<open>Billing\<close>, \<open>Billing_Properties\<close> (\<open>internal/billing\<close>):
    costs are exact to half a kopeck, the cost table is well formed, tariffs are read back, margins
    add up to the spend. \<open>Charging\<close> connects the audit rows to the outbox.
  \<^item> This theory: properties across modules. A finalised call is charged exactly once; channel events
    never move an operator; interviews of published surveys are safe.

  \<^bold>\<open>Interfaces.\<close> Locales state what one part relies on: \<open>hash_codec\<close> (texts of UUIDs and instants;
  interpreted in \<open>Uuid_Text\<close>), \<open>operator_store\<close> (a versioned store; the Redis hashes), \<open>call_queue\<close> (the
  sorted set and the dedup set, used by retries), \<open>slot_counter\<close> (the capacity scripts), \<open>value_cache\<close>
  (both caches), \<open>jwt_library\<close>, \<open>bloom_filter\<close> and \<open>decimal_division\<close> (third-party packages, each with a
  concrete instance).

  \<^bold>\<open>Parameters.\<close> Code that is not in the repository is an argument: the JWT package, the password
  hasher, TOTP arithmetic, the key service, the Bloom filter, the decimal package, the JSON-Schema pass,
  the parser and evaluator of expressions, UUID texts, the collation's case folding, the cast to
  \<open>jsonb\<close>, the zone database. What is relied on is a hypothesis of the property, and its witness runs on
  a concrete instance.

  \<^bold>\<open>Environment.\<close> A remote call succeeds, is lost, or is executed while its reply is lost
  (\<open>call_outcome\<close>); scripts and statements are atomic, and other callers run between them. One clock
  is read by a process and its server unless a theory says otherwise. There is no fuel: recursion is
  structural or has a termination proof, and loops of the code that need a fixed point (dominators)
  are shown to return.

  \<^bold>\<open>Abstractions.\<close> JSON and YAML texts are given decoded. \<open>float64\<close> values are rationals, or integers
  where the code's expression is exact; token counts are kept in thousandths. Zones are fixed
  offsets. Text functions are those of ASCII. A JSON null in the place of a settings document, which
  no code writes, is left out. Metrics, logs, tickers and goroutine start and stop are left out.

  \<^bold>\<open>Not modelled.\<close> HTTP handlers and middleware (decoding and status codes over the modelled services);
  CRM, recording, reports, analytics, tenancy, realtime (further modules; rows in tables, uploads,
  rendering, sockets); the clients of NATS, Postgres and ClickHouse and process entry points (wiring
  and I/O); compilation of survey expressions and password hashing (third-party packages).
\<close>

section \<open>From the end of a call to its charge\<close>


text \<open>
  A call of 95 seconds over trunk \<open>mtt\<close>: its audit entry is committed, the relay drains the outbox,
  and the bus delivers the event three times: the first delivery fails to read the tariffs, the
  second charges the call but its answer is lost, the third finds nothing left to do.
\<close>

definition sample_final :: callFinalizedEntry where
  "sample_final = \<lparr>feTenantID = 1, feOperatorID = 4, feProjectID = 2, feCallID = 7, feRespondentID = 6, feStatus = ''success'', feDurationSec = 95,
     feTrunkUsed = ''mtt'', feHangupCause = ''NORMAL_CLEARING'', feRegionCode = ''77'', feAttemptNo = 1, feFinalizedAt = 0, feStorageBytes = 0\<rparr>"

definition sample_entry :: auditEntry where
  "sample_entry = \<lparr>aeTenantID = 1, aeOperatorID = 4, aeSessionID = 3, aeNewState = StateReady, aeReason = ''status'', aeOccurredAt = 0,
     aeProjectID = Some 2, aeCallID = Some 7, aePauseReason = None, aeExtraOutbox = Some sample_final\<rparr>"

definition sample_outbox :: "(subject, payload) outbox_table" where
  "sample_outbox = stage 5 (new_events (\<lambda>i. 100) empty_database sample_entry) \<lparr>otRows = [], otNextID = 1\<rparr>"

definition sample_deliveries :: "(bill_env \<times> payload) list" where
  "sample_deliveries = map (\<lambda>e. (e, PCallFinalized (finalized_event sample_final)))
     [(calm_bill CallOk)\<lparr>beReads := (\<lambda>_. CallLost)\<rparr>, calm_bill ReplyLost, calm_bill CallOk]"


section \<open>From a saved survey to an interview\<close>



section \<open>From the telephone network to the operator's state\<close>

text \<open>
  C7: channel events never move an operator. In every run of the telephony bridge, whatever frames
  arrive and however the supervisors, the commands and the publisher interleave, each event that is
  published carries the zero tenant, because no component assigns one; the subscriber of the dialer
  acknowledges every such event without calling the state machine.
\<close>

theorem channel_events_never_move_an_operator:
  assumes "pool_New cfg = Some p0" "(subject, ev) \<in> set (brBus (bridge_run C g acts \<lparr>brRedis = db, brPool = p0, brBus = []\<rparr>))"
  shows "handle_event C lookup e w1 w2 (Some (ChannelEvent.truncate ev)) = (Ack, w2)"
proof -
  have "no_tenant (bridge_run C g acts \<lparr>brRedis = db, brPool = p0, brBus = []\<rparr>)"
    by (rule bridge_run_no_tenant) (simp add: no_tenant_def pool_New_events [OF assms(1)])
  then have "evTenantID ev = uuid_Nil" using assms(2) by (auto simp: no_tenant_def)
  then show ?thesis by (simp add: handle_event_def ChannelEvent.truncate_def)
qed

theorem channel_events_never_move_an_operator_witness:
  "\<exists>ev. evType ev = TelAnswer \<and> evCallID ev = 7 \<and> snd ` set (brBus (bridge_run canonical_codec sample_guard sample_acts sample_bridge)) = {ev}
     \<and> handle_event canonical_codec (\<lambda>_ _. OperatorFound 2) (calm 3) empty_world empty_world (Some (ChannelEvent.truncate ev)) = (Ack, empty_world)"
proof -
  let ?b = "bridge_run canonical_codec sample_guard sample_acts sample_bridge"
  obtain m where m: "brBus ?b = [m]" "evType (snd m) = TelAnswer" "evCallID (snd m) = 7" using sample_published by auto
  then have "(fst m, snd m) \<in> set (brBus (bridge_run canonical_codec sample_guard sample_acts \<lparr>brRedis = Map.empty, brPool = brPool sample_bridge, brBus = []\<rparr>))"
    by (simp add: sample_bridge_def)
  from channel_events_never_move_an_operator [OF sample_pool this] m show ?thesis by auto
qed

end
